(* ===== verification/Prelude.thy ===== *)
theory Prelude
  imports Main "HOL-Library.Char_ord" "HOL-Library.List_Lexorder"
begin

text \<open>
  Shared vocabulary of the development.

  Instants (\<open>time.Time\<close>) are nanoseconds since the Unix epoch, durations are
  nanoseconds, both as \<open>int\<close>. Go strings are byte strings, here \<open>string\<close>; the helpers
  of package \<open>strings\<close> are given on ASCII text, which is what the code compares against.
  \<open>named_theorems\<close> collect the facts the components share.
\<close>

type_synonym instant = int
type_synonym duration = int

named_theorems op_simps \<open>equations of the operation combinators\<close>
named_theorems frame_simps \<open>tables an operation leaves alone\<close>
named_theorems text_simps \<open>facts about the string helpers\<close>

section \<open>Durations\<close>

definition Second :: duration where "Second = 1000000000"
definition Minute :: duration where "Minute = 60 * Second"
definition Hour :: duration where "Hour = 60 * Minute"

definition zero_time :: instant where
  \<comment> \<open>the zero \<open>time.Time\<close>: 0001-01-01T00:00:00Z\<close>
  "zero_time = - 62135596800 * 1000000000"

section \<open>Results\<close>

definition bind_result :: "'e + 'a \<Rightarrow> ('a \<Rightarrow> 'e + 'b) \<Rightarrow> 'e + 'b" where
  \<comment> \<open>\<open>if x, err = r; err != nil { return err }; f(x)\<close>\<close>
  "bind_result r f = (case r of Inl e \<Rightarrow> Inl e | Inr x \<Rightarrow> f x)"

lemma bind_result_simps [simp]: "bind_result (Inr x) f = f x" "bind_result (Inl e) f = Inl e"
  by (simp_all add: bind_result_def)

lemma bind_result_Inr: "bind_result r f = Inr y \<longleftrightarrow> (\<exists>x. r = Inr x \<and> f x = Inr y)"
  by (cases r) auto

lemma bind_result_InrE: "bind_result r f = Inr y \<Longrightarrow> (\<And>x. r = Inr x \<Longrightarrow> f x = Inr y \<Longrightarrow> thesis) \<Longrightarrow> thesis"
  by (auto simp: bind_result_Inr)

section \<open>Strings\<close>

definition is_space :: "char \<Rightarrow> bool" where
  "is_space c \<longleftrightarrow> c \<in> {CHR 0x09, CHR 0x0A, CHR 0x0B, CHR 0x0C, CHR 0x0D, CHR 0x20}"

definition TrimSpace :: "string \<Rightarrow> string" where
  "TrimSpace s = rev (dropWhile is_space (rev (dropWhile is_space s)))"

definition lower_char :: "char \<Rightarrow> char" where
  "lower_char c =
     (if CHR ''A'' \<le> c \<and> c \<le> CHR ''Z'' then char_of ((of_char c :: nat) + 32) else c)"

definition upper_char :: "char \<Rightarrow> char" where
  "upper_char c =
     (if CHR ''a'' \<le> c \<and> c \<le> CHR ''z'' then char_of ((of_char c :: nat) - 32) else c)"

definition ToLower :: "string \<Rightarrow> string" where
  "ToLower s = map lower_char s"

definition ToUpper :: "string \<Rightarrow> string" where
  "ToUpper s = map upper_char s"

fun string_join :: "string \<Rightarrow> string list \<Rightarrow> string" where
  "string_join sep [] = []"
| "string_join sep [x] = x"
| "string_join sep (x # y # ys) = x @ sep @ string_join sep (y # ys)"

fun has_prefix :: "string \<Rightarrow> string \<Rightarrow> bool" where
  "has_prefix [] s = True"
| "has_prefix (p # ps) [] = False"
| "has_prefix (p # ps) (c # cs) = (p = c \<and> has_prefix ps cs)"

fun contains_text :: "string \<Rightarrow> string \<Rightarrow> bool" where
  \<comment> \<open>\<open>strings.Contains\<close> with the needle first\<close>
  "contains_text p [] = (p = [])"
| "contains_text p (c # cs) = (has_prefix p (c # cs) \<or> contains_text p cs)"

fun index_byte :: "char \<Rightarrow> string \<Rightarrow> nat option" where
  "index_byte b [] = None"
| "index_byte b (c # cs) = (if c = b then Some 0 else map_option Suc (index_byte b cs))"

definition digit :: "nat \<Rightarrow> char" where
  "digit d = ''0123456789'' ! (d mod 10)"

fun utoa :: "nat \<Rightarrow> string" where
  "utoa n = (if n < 10 then [digit n] else utoa (n div 10) @ [digit (n mod 10)])"

declare utoa.simps [simp del]

definition itoa :: "int \<Rightarrow> string" where
  "itoa n = (if n < 0 then CHR ''-'' # utoa (nat (- n)) else utoa (nat n))"

subsection \<open>Facts about the helpers\<close>

lemma TrimSpace_Nil [simp]: "TrimSpace [] = []"
  by (simp add: TrimSpace_def)

lemma dropWhile_eq_self_iff: "dropWhile P xs = xs \<longleftrightarrow> xs = [] \<or> \<not> P (hd xs)"
  by (cases xs) (auto, metis dropWhile_eq_Cons_conv)

lemma hd_dropWhile_trim: "dropWhile P s \<noteq> [] \<Longrightarrow> \<not> P (hd (dropWhile P s))"
  by (rule hd_dropWhile)

lemma TrimSpace_ends:
  assumes "TrimSpace s \<noteq> []"
  shows "\<not> is_space (hd (TrimSpace s))" and "\<not> is_space (last (TrimSpace s))"
proof -
  let ?u = "dropWhile is_space s"
  let ?v = "dropWhile is_space (rev ?u)"
  have v: "?v \<noteq> []" using assms by (simp add: TrimSpace_def)
  then show "\<not> is_space (last (TrimSpace s))"
    using hd_dropWhile [of is_space "rev ?u"] by (simp add: TrimSpace_def last_rev)
  obtain p where p: "rev ?u = p @ ?v"
    by (metis takeWhile_dropWhile_id)
  then have u: "?u = rev ?v @ rev p"
    by (metis rev_append rev_rev_ident)
  have ne: "?u \<noteq> []" using v u by (metis append_is_Nil_conv rev_is_Nil_conv)
  have "hd ?u = hd (rev ?v)" using u v by (metis hd_append2 rev_is_Nil_conv)
  then show "\<not> is_space (hd (TrimSpace s))"
    using hd_dropWhile [OF ne] by (simp add: TrimSpace_def)
qed

lemma trimmed_TrimSpace:
  assumes "s = [] \<or> (\<not> is_space (hd s) \<and> \<not> is_space (last s))"
  shows "TrimSpace s = s"
proof (cases "s = []")
  case False
  then have "dropWhile is_space s = s" and "dropWhile is_space (rev s) = rev s"
    using assms by (auto simp: dropWhile_eq_self_iff hd_rev)
  then show ?thesis by (simp add: TrimSpace_def)
qed simp

lemma TrimSpace_idem [simp, text_simps]: "TrimSpace (TrimSpace s) = TrimSpace s"
  by (rule trimmed_TrimSpace) (use TrimSpace_ends in blast)

lemma lower_char_idem [simp]: "lower_char (lower_char c) = lower_char c"
proof (cases "CHR ''A'' \<le> c \<and> c \<le> CHR ''Z''")
  case True
  then have "65 \<le> (of_char c :: nat)" "(of_char c :: nat) \<le> 90"
    by (simp_all add: less_eq_char_def)
  then have "\<not> lower_char c \<le> CHR ''Z''"
    using True by (simp add: lower_char_def less_eq_char_def)
  then show ?thesis by (subst lower_char_def) simp
next
  case False
  then have "lower_char c = c" by (auto simp: lower_char_def)
  then show ?thesis by simp
qed

lemma ToLower_idem [simp, text_simps]: "ToLower (ToLower s) = ToLower s"
  by (simp add: ToLower_def)

lemma is_space_lower [simp]: "is_space (lower_char c) = is_space c"
proof (cases "CHR ''A'' \<le> c \<and> c \<le> CHR ''Z''")
  case True
  then have b: "65 \<le> (of_char c :: nat)" "(of_char c :: nat) \<le> 90"
    by (simp_all add: less_eq_char_def)
  have "\<not> is_space c" using b by (auto simp: is_space_def)
  moreover have "\<not> is_space (lower_char c)"
  proof
    assume "is_space (lower_char c)"
    then have "(of_char (lower_char c) :: nat) \<le> 32"
      by (auto simp: is_space_def)
    with True b show False by (simp add: lower_char_def)
  qed
  ultimately show ?thesis by simp
next
  case False
  then have "lower_char c = c" by (auto simp: lower_char_def)
  then show ?thesis by simp
qed

lemma TrimSpace_ToLower [text_simps]: "TrimSpace (ToLower s) = ToLower (TrimSpace s)"
proof -
  have "is_space \<circ> lower_char = is_space" by (rule ext) simp
  then show ?thesis
    by (simp add: TrimSpace_def ToLower_def dropWhile_map rev_map)
qed

lemma length_ToLower [simp, text_simps]: "length (ToLower s) = length s"
  by (simp add: ToLower_def)

lemma ToLower_Nil_iff [simp, text_simps]: "ToLower s = [] \<longleftrightarrow> s = []"
  by (simp add: ToLower_def)

lemma contains_text_append1 [text_simps]: "contains_text p (xs @ p @ ys)"
proof (induction xs)
  case Nil
  have "has_prefix p (p @ ys)" by (induction p) auto
  then show ?case by (cases "p @ ys") auto
next
  case (Cons x xs)
  then show ?case by simp
qed

lemma has_prefix_append: "has_prefix p s \<Longrightarrow> has_prefix p (s @ t)"
  by (induction p s rule: has_prefix.induct) auto

lemma contains_text_mono [text_simps]: "contains_text p s \<Longrightarrow> contains_text p (s @ t)"
proof (induction p s rule: contains_text.induct)
  case (1 p)
  then show ?case by (cases t) auto
next
  case (2 p c cs)
  then show ?case using has_prefix_append [of p "c # cs" t] by auto
qed

section \<open>Lists used as relations\<close>

lemma filter_map_if_other:
  assumes "\<And>r. r \<in> set xs \<Longrightarrow> P r \<Longrightarrow> Q (f r) = Q r"
  shows "length (filter Q (map (\<lambda>r. if P r then f r else r) xs)) = length (filter Q xs)"
  using assms by (induction xs) auto

lemma find_Some_iff_set:
  "find P xs = Some x \<Longrightarrow> x \<in> set xs \<and> P x"
  by (induction xs) (auto split: if_splits)

lemma find_None_set: "find P xs = None \<longleftrightarrow> (\<forall>x \<in> set xs. \<not> P x)"
  by (induction xs) auto

fun insert_by :: "('a \<Rightarrow> 'a \<Rightarrow> bool) \<Rightarrow> 'a \<Rightarrow> 'a list \<Rightarrow> 'a list" where
  "insert_by le x [] = [x]"
| "insert_by le x (y # ys) = (if le x y then x # y # ys else y # insert_by le x ys)"

definition order_by :: "('a \<Rightarrow> 'a \<Rightarrow> bool) \<Rightarrow> 'a list \<Rightarrow> 'a list" where
  \<comment> \<open>SQL \<open>ORDER BY\<close>: rows in the order of \<open>le\<close>, ties in row order\<close>
  "order_by le xs = foldr (insert_by le) xs []"

lemma set_insert_by [simp]: "set (insert_by le x xs) = insert x (set xs)"
  by (induction xs) auto

lemma length_insert_by [simp]: "length (insert_by le x xs) = Suc (length xs)"
  by (induction xs) auto

lemma order_by_Nil [simp]: "order_by le [] = []"
  by (simp add: order_by_def)

lemma order_by_Cons: "order_by le (x # xs) = insert_by le x (order_by le xs)"
  by (simp add: order_by_def)

lemma set_order_by [simp]: "set (order_by le xs) = set xs"
  by (induction xs) (simp_all add: order_by_Cons)

lemma length_order_by [simp]: "length (order_by le xs) = length xs"
  by (induction xs) (simp_all add: order_by_Cons)

lemma order_by_eq_Nil [simp]: "order_by le xs = [] \<longleftrightarrow> xs = []"
  by (metis length_0_conv length_order_by)

lemma distinct_insert_by [simp]: "distinct (insert_by le x xs) \<longleftrightarrow> x \<notin> set xs \<and> distinct xs"
  by (induction xs) auto

lemma distinct_order_by [simp]: "distinct (order_by le xs) = distinct xs"
  by (induction xs) (simp_all add: order_by_Cons)

text \<open>A comparison that orders a set of rows: total, transitive.\<close>

definition orders :: "('a \<Rightarrow> 'a \<Rightarrow> bool) \<Rightarrow> 'a set \<Rightarrow> bool" where
  "orders le A \<longleftrightarrow> (\<forall>x \<in> A. \<forall>y \<in> A. le x y \<or> le y x) \<and>
     (\<forall>x \<in> A. \<forall>y \<in> A. \<forall>z \<in> A. le x y \<longrightarrow> le y z \<longrightarrow> le x z)"

lemma orders_subset: "orders le B \<Longrightarrow> A \<subseteq> B \<Longrightarrow> orders le A"
  unfolding orders_def by (meson subsetD)

lemma sorted_insert_by:
  assumes "orders le (insert x (set xs))" "sorted_wrt le xs"
  shows "sorted_wrt le (insert_by le x xs)"
  using assms
proof (induction xs)
  case (Cons y ys)
  from Cons.prems(1) have o: "orders le (insert x (set ys))"
    by (rule orders_subset) auto
  have tot: "le x y \<or> le y x"
    using Cons.prems(1) by (simp add: orders_def)
  have tr: "le x z" if "z \<in> set ys" "le x y" "le y z" for z
    using Cons.prems(1) that unfolding orders_def
    by (meson insertI1 insertI2 list.set_intros(1) list.set_intros(2))
  have ys: "sorted_wrt le ys" "\<forall>z \<in> set ys. le y z"
    using Cons.prems(2) by simp_all
  show ?case
  proof (cases "le x y")
    case True
    then show ?thesis using ys tr by simp
  next
    case False
    then show ?thesis using tot ys Cons.IH [OF o] by simp
  qed
qed simp

lemma sorted_order_by:
  "orders le (set xs) \<Longrightarrow> sorted_wrt le (order_by le xs)"
proof (induction xs)
  case (Cons x xs)
  then have "orders le (set xs)" by (auto intro: orders_subset)
  then have "sorted_wrt le (order_by le xs)" by (rule Cons.IH)
  then show ?case
    using Cons.prems by (simp add: order_by_Cons sorted_insert_by)
qed simp

end
