(* ===== verification/Errors.thy ===== *)
theory Errors
  imports Prelude
begin

text \<open>
  The error values of the platform: package \<open>domain\<close> (\<open>errors.go\<close>), the error
  classification of package \<open>httpx\<close> (\<open>respond.go\<close>) and the driver errors the
  persistence layer inspects. A Go error chain is a tree: a sentinel at the leaf, typed
  errors and \<open>fmt.Errorf\<close> wrappings (each of which ends in \<open>": %w"\<close>) above it.
\<close>

section \<open>Sentinels and error chains\<close>

datatype sentinel =
    ErrValidation | ErrNotFound | ErrConflict | ErrUnauthenticated | ErrSessionExpired
  | ErrSessionRevoked | ErrForbidden | ErrInvalidTransition | ErrEnrollmentWindowClosed
  | ErrRegistrationIncomplete | ErrPrerequisiteMissing | ErrCreditLimitExceeded
  | ErrScheduleConflict | ErrCapacityExhausted | ErrWaitlistFull | ErrDuplicateEnrollment
  | ErrVersionConflict | ErrIdempotencyMismatch | ErrJobPermanentlyFailed | ErrMigrationDrift

datatype err =
    Sentinel sentinel
  | FieldError string string            \<comment> \<open>field, reason\<close>
  | TransitionError string string string  \<comment> \<open>entity, from, to\<close>
  | ConflictError err string string     \<comment> \<open>kind, subject, colliding\<close>
  | Wrapped string err                  \<comment> \<open>\<open>fmt.Errorf("msg: %w", err)\<close>\<close>
  | Joined "err list"                   \<comment> \<open>\<open>errors.Join\<close>\<close>
  | Plain string                        \<comment> \<open>an error without a sentinel: driver, parser\<close>
  | SqlNoRows                           \<comment> \<open>\<open>sql.ErrNoRows\<close>\<close>
  | CtxCanceled                         \<comment> \<open>\<open>context.Canceled\<close>\<close>
  | CtxDeadlineExceeded                 \<comment> \<open>\<open>context.DeadlineExceeded\<close>\<close>

fun sentinel_text :: "sentinel \<Rightarrow> string" where
  "sentinel_text ErrValidation = ''validation failed''"
| "sentinel_text ErrNotFound = ''resource not found''"
| "sentinel_text ErrConflict = ''resource conflict''"
| "sentinel_text ErrUnauthenticated = ''authentication required''"
| "sentinel_text ErrSessionExpired = ''session expired''"
| "sentinel_text ErrSessionRevoked = ''session revoked''"
| "sentinel_text ErrForbidden = ''operation not permitted for role''"
| "sentinel_text ErrInvalidTransition = ''invalid state transition''"
| "sentinel_text ErrEnrollmentWindowClosed = ''enrollment window closed''"
| "sentinel_text ErrRegistrationIncomplete = ''student registration is not verified''"
| "sentinel_text ErrPrerequisiteMissing = ''prerequisite requirement not satisfied''"
| "sentinel_text ErrCreditLimitExceeded = ''term credit limit exceeded''"
| "sentinel_text ErrScheduleConflict = ''section meeting times overlap''"
| "sentinel_text ErrCapacityExhausted = ''section capacity exhausted''"
| "sentinel_text ErrWaitlistFull = ''section waitlist is full''"
| "sentinel_text ErrDuplicateEnrollment = ''student already holds a seat in this course''"
| "sentinel_text ErrVersionConflict = ''optimistic version conflict''"
| "sentinel_text ErrIdempotencyMismatch = ''idempotency key reused with a different payload''"
| "sentinel_text ErrJobPermanentlyFailed = ''job exhausted its retry budget''"
| "sentinel_text ErrMigrationDrift =
     ''applied migration checksum does not match repository''"

definition quoted :: "string \<Rightarrow> string" where
  \<comment> \<open>\<open>%q\<close> on printable ASCII text: quotes, with quote and backslash escaped\<close>
  "quoted s = CHR 0x22 #
     concat (map (\<lambda>c. if c = CHR 0x22 \<or> c = CHR 0x5C then [CHR 0x5C, c] else [c]) s) @ [CHR 0x22]"

fun error_text :: "err \<Rightarrow> string" where
  "error_text (Sentinel s) = sentinel_text s"
| "error_text (FieldError field reason) = ''field '' @ quoted field @ '' is invalid: '' @ reason"
| "error_text (TransitionError entity frm target) =
     entity @ '' cannot move from '' @ frm @ '' to '' @ target"
| "error_text (ConflictError kind subject colliding) =
     (if colliding = [] then subject @ '': '' @ error_text kind
      else subject @ '' collides with '' @ colliding @ '': '' @ error_text kind)"
| "error_text (Wrapped msg e) = msg @ '': '' @ error_text e"
| "error_text (Joined es) = string_join [CHR 0x0A] (map error_text es)"
| "error_text (Plain msg) = msg"
| "error_text SqlNoRows = ''sql: no rows in result set''"
| "error_text CtxCanceled = ''context canceled''"
| "error_text CtxDeadlineExceeded = ''context deadline exceeded''"

fun errors_Is :: "err \<Rightarrow> sentinel \<Rightarrow> bool" where
  "errors_Is (Sentinel s) target = (s = target)"
| "errors_Is (FieldError _ _) target = (target = ErrValidation)"
| "errors_Is (TransitionError _ _ _) target = (target = ErrInvalidTransition)"
| "errors_Is (ConflictError kind _ _) target = errors_Is kind target"
| "errors_Is (Wrapped _ e) target = errors_Is e target"
| "errors_Is (Joined es) target = (\<exists>e \<in> set es. errors_Is e target)"
| "errors_Is _ target = False"

fun is_canceled :: "err \<Rightarrow> bool" where
  \<comment> \<open>\<open>errors.Is(err, context.Canceled)\<close>\<close>
  "is_canceled CtxCanceled = True"
| "is_canceled (ConflictError kind _ _) = is_canceled kind"
| "is_canceled (Wrapped _ e) = is_canceled e"
| "is_canceled (Joined es) = (\<exists>e \<in> set es. is_canceled e)"
| "is_canceled _ = False"

fun is_deadline :: "err \<Rightarrow> bool" where
  \<comment> \<open>\<open>errors.Is(err, context.DeadlineExceeded)\<close>\<close>
  "is_deadline CtxDeadlineExceeded = True"
| "is_deadline (ConflictError kind _ _) = is_deadline kind"
| "is_deadline (Wrapped _ e) = is_deadline e"
| "is_deadline (Joined es) = (\<exists>e \<in> set es. is_deadline e)"
| "is_deadline _ = False"

fun is_no_rows :: "err \<Rightarrow> bool" where
  \<comment> \<open>\<open>errors.Is(err, sql.ErrNoRows)\<close>\<close>
  "is_no_rows SqlNoRows = True"
| "is_no_rows (ConflictError kind _ _) = is_no_rows kind"
| "is_no_rows (Wrapped _ e) = is_no_rows e"
| "is_no_rows (Joined es) = (\<exists>e \<in> set es. is_no_rows e)"
| "is_no_rows _ = False"

section \<open>Stable business codes\<close>

definition Code :: "err option \<Rightarrow> string" where
  "Code err = (case err of None \<Rightarrow> [] | Some e \<Rightarrow>
     if errors_Is e ErrSessionExpired then ''session_expired''
     else if errors_Is e ErrSessionRevoked then ''session_revoked''
     else if errors_Is e ErrUnauthenticated then ''unauthenticated''
     else if errors_Is e ErrForbidden then ''forbidden''
     else if errors_Is e ErrNotFound then ''not_found''
     else if errors_Is e ErrEnrollmentWindowClosed then ''enrollment_window_closed''
     else if errors_Is e ErrRegistrationIncomplete then ''registration_incomplete''
     else if errors_Is e ErrPrerequisiteMissing then ''prerequisite_missing''
     else if errors_Is e ErrCreditLimitExceeded then ''credit_limit_exceeded''
     else if errors_Is e ErrScheduleConflict then ''schedule_conflict''
     else if errors_Is e ErrCapacityExhausted then ''capacity_exhausted''
     else if errors_Is e ErrWaitlistFull then ''waitlist_full''
     else if errors_Is e ErrDuplicateEnrollment then ''duplicate_enrollment''
     else if errors_Is e ErrIdempotencyMismatch then ''idempotency_mismatch''
     else if errors_Is e ErrVersionConflict then ''version_conflict''
     else if errors_Is e ErrInvalidTransition then ''invalid_transition''
     else if errors_Is e ErrMigrationDrift then ''migration_drift''
     else if errors_Is e ErrJobPermanentlyFailed then ''job_permanently_failed''
     else if errors_Is e ErrValidation then ''validation_failed''
     else if errors_Is e ErrConflict then ''conflict''
     else ''internal_error'')"

definition statusByCode :: "(string \<times> int) list" where
  "statusByCode =
    [(''validation_failed'', 400), (''unauthenticated'', 401), (''session_expired'', 401),
     (''session_revoked'', 401), (''forbidden'', 403), (''not_found'', 404),
     (''conflict'', 409), (''duplicate_enrollment'', 409), (''capacity_exhausted'', 409),
     (''waitlist_full'', 409), (''schedule_conflict'', 409), (''version_conflict'', 409),
     (''invalid_transition'', 409), (''idempotency_mismatch'', 409),
     (''enrollment_window_closed'', 422), (''registration_incomplete'', 422),
     (''prerequisite_missing'', 422), (''credit_limit_exceeded'', 422),
     (''migration_drift'', 503), (''job_permanently_failed'', 500), (''internal_error'', 500),
     (''request_timeout'', 504), (''client_closed_request'', 499)]"

definition StatusForCode :: "string \<Rightarrow> int" where
  "StatusForCode code = (case map_of statusByCode code of Some status \<Rightarrow> status | None \<Rightarrow> 500)"

definition internal_sentence :: string where
  "internal_sentence = ''The request could not be completed because of an internal error.''"

definition PublicMessage :: "err \<Rightarrow> string" where
  "PublicMessage e =
     (if Code (Some e) = ''internal_error'' then internal_sentence else error_text e)"

definition classify :: "err \<Rightarrow> string" where
  "classify e = (if is_deadline e then ''request_timeout''
     else if is_canceled e then ''client_closed_request'' else Code (Some e))"

record error_body =
  eb_Code :: string
  eb_Message :: string
  eb_RequestID :: string

definition WriteError :: "string \<Rightarrow> err \<Rightarrow> int \<times> error_body" where
  \<comment> \<open>status and envelope written for an error; the first argument is the request id\<close>
  "WriteError request_id e =
     (let code = classify e;
          message = (if code = ''internal_error'' then internal_sentence else PublicMessage e)
      in (StatusForCode code,
          \<lparr>eb_Code = code, eb_Message = message, eb_RequestID = request_id\<rparr>))"

section \<open>Driver errors seen by the store\<close>

definition unique_violation :: "string \<Rightarrow> err" where
  \<comment> \<open>the message SQLite gives for a unique index over the named columns\<close>
  "unique_violation columns = Plain (''constraint failed: UNIQUE constraint failed: '' @ columns)"

definition foreign_key_violation :: err where
  "foreign_key_violation = Plain ''constraint failed: FOREIGN KEY constraint failed''"

definition check_violation :: "string \<Rightarrow> err" where
  "check_violation columns = Plain (''constraint failed: CHECK constraint failed: '' @ columns)"

definition isUniqueViolation :: "err \<Rightarrow> bool" where
  "isUniqueViolation e = (let msg = ToLower (error_text e) in
     contains_text ''unique constraint failed'' msg
     \<or> contains_text ''constraint failed: unique'' msg)"

definition notFound :: "string \<Rightarrow> err \<Rightarrow> err" where
  "notFound entity e = (if is_no_rows e then Wrapped entity (Sentinel ErrNotFound) else e)"

section \<open>Facts\<close>

lemma Code_Wrapped [simp]: "Code (Some (Wrapped msg e)) = Code (Some e)"
  by (simp add: Code_def)

lemma Code_ConflictError [simp]: "Code (Some (ConflictError e s c)) = Code (Some e)"
  by (simp add: Code_def)

lemma errors_Is_notFound [simp]:
  "errors_Is (notFound entity SqlNoRows) t = (t = ErrNotFound)"
  by (auto simp: notFound_def)

definition business_codes :: "string list" where
  \<comment> \<open>the codes of the table that are not transport conditions\<close>
  "business_codes = filter
     (\<lambda>c. c \<noteq> ''request_timeout'' \<and> c \<noteq> ''client_closed_request'') (map fst statusByCode)"

lemma Code_codes: "Code (Some e) \<in> set business_codes"
proof -
  have ite: "x \<in> A \<Longrightarrow> y \<in> A \<Longrightarrow> (if b then x else y) \<in> A" for x y A and b :: bool
    by simp
  show ?thesis
    unfolding Code_def option.case by (intro ite; code_simp)
qed

lemma ToLower_append [text_simps]: "ToLower (xs @ ys) = ToLower xs @ ToLower ys"
  by (simp add: ToLower_def)

lemma unique_prefix_lower:
  "ToLower ''constraint failed: UNIQUE constraint failed: ''
     = ''constraint failed: '' @ ''unique constraint failed'' @ '': ''"
  by code_simp

lemma unique_violation_detected [simp]:
  "isUniqueViolation (unique_violation columns)"
proof -
  have "ToLower (error_text (unique_violation columns)) =
     ''constraint failed: '' @ ''unique constraint failed'' @ ('': '' @ ToLower columns)"
    using unique_prefix_lower by (simp only: unique_violation_def error_text.simps ToLower_append append_assoc)
  then show ?thesis
    unfolding isUniqueViolation_def Let_def
    by (metis contains_text_append1)
qed

lemma foreign_key_not_unique [simp]: "\<not> isUniqueViolation foreign_key_violation"
  unfolding isUniqueViolation_def foreign_key_violation_def by code_simp

lemma classify_codes: "classify e \<in> fst ` set statusByCode"
proof -
  have "set business_codes \<subseteq> fst ` set statusByCode" by (auto simp: business_codes_def)
  moreover have "''request_timeout'' \<in> fst ` set statusByCode" "''client_closed_request'' \<in> fst ` set statusByCode"
    by code_simp+
  ultimately show ?thesis using Code_codes [of e] unfolding classify_def by (simp only: split: if_split) blast
qed

lemma StatusForCode_range:
  assumes "code \<in> fst ` set statusByCode"
  shows "400 \<le> StatusForCode code \<and> StatusForCode code < 600"
proof -
  obtain status where "map_of statusByCode code = Some status"
    using assms by (metis domD dom_map_of_conv_image_fst)
  moreover from this have "(code, status) \<in> set statusByCode" by (rule map_of_SomeD)
  moreover have "\<forall>(c, n) \<in> set statusByCode. 400 \<le> n \<and> n < 600" by code_simp
  ultimately show ?thesis by (auto simp: StatusForCode_def)
qed

text \<open>C13: every failure gets one well-formed envelope: a code of the table, an error status and the request's
  id; an error the table does not know is answered with status 500 and a fixed sentence, so no
  internal detail leaves the service.\<close>

theorem WriteError_envelope:
  "eb_RequestID (snd (WriteError rid e)) = rid
   \<and> eb_Code (snd (WriteError rid e)) \<in> fst ` set statusByCode
   \<and> 400 \<le> fst (WriteError rid e) \<and> fst (WriteError rid e) < 600
   \<and> (eb_Code (snd (WriteError rid e)) = ''internal_error'' \<longrightarrow>
        fst (WriteError rid e) = 500 \<and> eb_Message (snd (WriteError rid e)) = internal_sentence)"
proof -
  have "StatusForCode ''internal_error'' = 500" by code_simp
  then show ?thesis
    using classify_codes [of e] StatusForCode_range [OF classify_codes [of e]]
    unfolding WriteError_def Let_def by (simp only: fst_conv snd_conv error_body.simps if_True simp_thms) metis
qed

theorem WriteError_envelope_witness:
  "fst (WriteError ''r1'' (Plain ''disk I/O error'')) = 500
   \<and> eb_Message (snd (WriteError ''r1'' (Plain ''disk I/O error''))) = internal_sentence"
proof -
  have "eb_Code (snd (WriteError ''r1'' (Plain ''disk I/O error''))) = ''internal_error''" by code_simp
  then show ?thesis using WriteError_envelope [of "''r1''" "Plain ''disk I/O error''"] by blast
qed

end
