(* ===== verification/Identity.thy ===== *)
theory Identity
  imports Errors
begin

text \<open>
  Principals and sessions (\<open>internal/domain/identity.go\<close>): roles, e-mail normalisation,
  session validity and the ownership rule every service consults. A Go string type with named
  constants is a datatype with one constructor per constant and one for every other text.
\<close>

section \<open>Roles and users\<close>

datatype role = RoleStudent | RoleRegistrar | RoleOther string

fun role_text :: "role \<Rightarrow> string" where
  "role_text RoleStudent = ''student''"
| "role_text RoleRegistrar = ''registrar''"
| "role_text (RoleOther s) = s"

definition role_of_text :: "string \<Rightarrow> role" where
  "role_of_text s = (if s = ''student'' then RoleStudent
     else if s = ''registrar'' then RoleRegistrar else RoleOther s)"

fun role_Valid :: "role \<Rightarrow> bool" where
  "role_Valid RoleStudent = True"
| "role_Valid RoleRegistrar = True"
| "role_Valid (RoleOther s) = False"

definition ParseRole :: "string \<Rightarrow> err + role" where
  "ParseRole raw = (let role = role_of_text (ToLower (TrimSpace raw)) in
     if \<not> role_Valid role then Inl (FieldError ''role'' ''must be student or registrar'')
     else Inr role)"

record user =
  usr_ID :: int
  usr_Email :: string
  usr_DisplayName :: string
  usr_Role :: role
  usr_PasswordHash :: string
  usr_Disabled :: bool
  usr_CreatedAt :: instant
  usr_UpdatedAt :: instant

definition user_IsRegistrar :: "user \<Rightarrow> bool" where
  "user_IsRegistrar u \<longleftrightarrow> usr_Role u = RoleRegistrar"

section \<open>E-mail addresses\<close>

definition email_space :: "char \<Rightarrow> bool" where
  "email_space c \<longleftrightarrow> c \<in> {CHR 0x20, CHR 0x09, CHR 0x0D, CHR 0x0A}"

definition NormalizeEmail :: "string \<Rightarrow> err + string" where
  "NormalizeEmail raw = (let email = ToLower (TrimSpace raw) in
     if email = [] then Inl (FieldError ''email'' ''must not be empty'')
     else case index_byte CHR ''@'' email of
       None \<Rightarrow> Inl (FieldError ''email'' ''must contain a local part and a domain'')
     | Some at \<Rightarrow>
         if at = 0 \<or> at = length email - 1
         then Inl (FieldError ''email'' ''must contain a local part and a domain'')
         else if list_ex email_space email
         then Inl (FieldError ''email'' ''must not contain whitespace'')
         else Inr email)"

section \<open>Sessions\<close>

record session =
  ses_ID :: int
  ses_UserID :: int
  ses_TokenDigest :: string
  ses_IssuedAt :: instant
  ses_ExpiresAt :: instant
  ses_RevokedAt :: "instant option"
  ses_LastSeenAt :: instant
  ses_UserAgent :: string

definition ses_Revoked :: "session \<Rightarrow> bool" where
  "ses_Revoked s \<longleftrightarrow> ses_RevokedAt s \<noteq> None"

definition ses_Expired :: "session \<Rightarrow> instant \<Rightarrow> bool" where
  "ses_Expired s now \<longleftrightarrow> \<not> now < ses_ExpiresAt s"

definition ses_Validate :: "session \<Rightarrow> instant \<Rightarrow> err option" where
  "ses_Validate s now =
     (if ses_Revoked s then Some (Sentinel ErrSessionRevoked)
      else if ses_Expired s now then Some (Sentinel ErrSessionExpired)
      else None)"

section \<open>Principals\<close>

record principal =
  prn_UserID :: int
  prn_SessionID :: int
  prn_Email :: string
  prn_DisplayName :: string
  prn_Role :: role

definition IsRegistrarRole :: "principal \<Rightarrow> bool" where
  "IsRegistrarRole p \<longleftrightarrow> prn_Role p = RoleRegistrar"

definition CanActOnStudent :: "principal \<Rightarrow> int \<Rightarrow> bool" where
  "CanActOnStudent p studentID =
     (if prn_Role p = RoleRegistrar then True
      else prn_Role p = RoleStudent \<and> prn_UserID p = studentID)"

section \<open>Facts\<close>

lemma role_text_inverse: "role_Valid r \<Longrightarrow> role_of_text (role_text r) = r"
  by (cases r) (simp_all add: role_of_text_def)

lemma index_byte_Some:
  "index_byte b s = Some i \<longleftrightarrow> i < length s \<and> s ! i = b \<and> b \<notin> set (take i s)"
proof (induction s arbitrary: i)
  case (Cons c cs)
  then show ?case by (cases i) auto
qed simp

lemma index_byte_None: "index_byte b s = None \<longleftrightarrow> b \<notin> set s"
  by (induction s) auto

lemma NormalizeEmail_Inr_cases:
  assumes "NormalizeEmail raw = Inr email"
  obtains i where "email = ToLower (TrimSpace raw)" "email \<noteq> []"
    "index_byte CHR ''@'' email = Some i" "0 < i" "i < length email - 1"
    "\<not> list_ex email_space email"
proof -
  from assms obtain i where i: "index_byte CHR ''@'' email = Some i" "email = ToLower (TrimSpace raw)"
    "email \<noteq> []" "i \<noteq> 0" "i \<noteq> length email - 1" "\<not> list_ex email_space email"
    by (auto simp: NormalizeEmail_def Let_def split: if_splits option.splits)
  moreover have "i < length email" using i(1) by (simp add: index_byte_Some)
  ultimately show thesis using that by simp
qed

text \<open>Normalising is idempotent, and its result has a local part, an \<open>@\<close> and a domain
  and no blank: what the unique index on \<open>users.email\<close> relies on.\<close>

theorem NormalizeEmail_idempotent:
  assumes "NormalizeEmail raw = Inr email"
  shows "NormalizeEmail email = Inr email
    \<and> (\<exists>local rest. email = local @ CHR ''@'' # rest \<and> local \<noteq> [] \<and> rest \<noteq> []
        \<and> CHR ''@'' \<notin> set local)
    \<and> \<not> list_ex email_space email"
proof -
  from assms obtain i where i: "email = ToLower (TrimSpace raw)" "email \<noteq> []"
    "index_byte CHR ''@'' email = Some i" "0 < i" "i < length email - 1"
    "\<not> list_ex email_space email"
    by (rule NormalizeEmail_Inr_cases)
  have norm: "ToLower (TrimSpace email) = email"
    by (simp add: i(1) TrimSpace_ToLower)
  have "NormalizeEmail email = Inr email"
    unfolding NormalizeEmail_def norm Let_def using i by simp
  moreover have "email = take i email @ CHR ''@'' # drop (Suc i) email"
    using i(3) by (metis id_take_nth_drop index_byte_Some)
  moreover have "take i email \<noteq> []" "drop (Suc i) email \<noteq> []" "CHR ''@'' \<notin> set (take i email)"
    using i by (auto simp: index_byte_Some)
  ultimately show ?thesis using i(6) by blast
qed

theorem NormalizeEmail_idempotent_witness:
  "NormalizeEmail ''student@campus.example'' = Inr ''student@campus.example''
    \<and> \<not> list_ex email_space ''student@campus.example''"
proof -
  have "NormalizeEmail '' Student@Campus.example '' = Inr ''student@campus.example''"
    by code_simp
  from NormalizeEmail_idempotent [OF this] show ?thesis by blast
qed

end
