(* ===== verification/Query.thy ===== *)
theory Query
  imports Errors
begin

text \<open>
  Paging (\<open>internal/domain/query.go\<close>): normalisation of the requested window, its SQL
  offset in 64-bit arithmetic, the metadata of a result, and the window \<open>LIMIT\<close> and
  \<open>OFFSET\<close> cut out of an ordered result.
\<close>

section \<open>Pages\<close>

definition DefaultPageSize :: int where "DefaultPageSize = 20"
definition MaxPageSize :: int where "MaxPageSize = 100"

definition wrap64 :: "int \<Rightarrow> int" where
  \<comment> \<open>the value of a 64-bit two's complement integer\<close>
  "wrap64 x = (x + 2 ^ 63) mod 2 ^ 64 - 2 ^ 63"

definition SortAscending :: string where "SortAscending = ''asc''"
definition SortDescending :: string where "SortDescending = ''desc''"

record page =
  pg_Number :: int
  pg_Size :: int
  pg_SortBy :: string
  pg_Order :: string

definition Normalize :: "page \<Rightarrow> (string \<times> string) list \<Rightarrow> string \<Rightarrow> err + page" where
  "Normalize p allowedSort defaultSort =
     (let out = p\<lparr>pg_Number := (if pg_Number p \<le> 0 then 1 else pg_Number p),
                 pg_Size := (if pg_Size p \<le> 0 then DefaultPageSize else pg_Size p)\<rparr> in
      if pg_Size out > MaxPageSize then Inl (FieldError ''page_size'' ''must not exceed 100'')
      else
       (let key0 = ToLower (TrimSpace (pg_SortBy out));
            key = (if key0 = [] then defaultSort else key0) in
        if map_of allowedSort key = None
        then Inl (FieldError ''sort_by'' ''is not a sortable field'')
        else
         (let order = ToLower (TrimSpace (pg_Order out)) in
          if order = SortDescending
          then Inr (out\<lparr>pg_SortBy := key, pg_Order := SortDescending\<rparr>)
          else if order = SortAscending \<or> order = []
          then Inr (out\<lparr>pg_SortBy := key, pg_Order := SortAscending\<rparr>)
          else Inl (FieldError ''order'' ''must be asc or desc''))))"

definition Offset :: "page \<Rightarrow> int" where
  "Offset p = (if pg_Number p \<le> 1 then 0 else wrap64 (wrap64 (pg_Number p - 1) * pg_Size p))"

record 'a page_result =
  pr_Items :: "'a list"
  pr_Total :: int
  pr_Page :: int
  pr_PageSize :: int
  pr_TotalPages :: int

definition NewPageResult :: "'a list \<Rightarrow> int \<Rightarrow> page \<Rightarrow> 'a page_result" where
  "NewPageResult items all_rows p =
     \<lparr>pr_Items = items, pr_Total = all_rows, pr_Page = pg_Number p, pr_PageSize = pg_Size p,
      pr_TotalPages = (if pg_Size p > 0 then (all_rows + pg_Size p - 1) div pg_Size p else 0)\<rparr>"

definition limit_offset :: "int \<Rightarrow> int \<Rightarrow> 'a list \<Rightarrow> 'a list" where
  \<comment> \<open>SQL \<open>LIMIT ? OFFSET ?\<close>: a negative limit means no limit, a negative offset means zero\<close>
  "limit_offset limit off rows = (let rest = drop (nat off) rows in
     if limit < 0 then rest else take (nat limit) rest)"

definition page_rows :: "page \<Rightarrow> 'a list \<Rightarrow> 'a list" where
  "page_rows p rows = limit_offset (pg_Size p) (Offset p) rows"

definition page_at :: "string \<Rightarrow> string \<Rightarrow> int \<Rightarrow> int \<Rightarrow> page" where
  \<comment> \<open>page \<open>n\<close> of a walk through a result\<close>
  "page_at key order psize n =
     \<lparr>pg_Number = n, pg_Size = psize, pg_SortBy = key, pg_Order = order\<rparr>"

section \<open>Facts\<close>

lemma wrap64_id: "- (2 ^ 63) \<le> x \<Longrightarrow> x < 2 ^ 63 \<Longrightarrow> wrap64 x = x"
  by (simp add: wrap64_def)

lemma Normalize_Inr:
  assumes "Normalize p allowed dflt = Inr q"
  shows "1 \<le> pg_Number q \<and> 1 \<le> pg_Size q \<and> pg_Size q \<le> 100
    \<and> pg_SortBy q \<in> fst ` set allowed \<and> pg_Order q \<in> {SortAscending, SortDescending}"
proof -
  have key: "k \<in> fst ` set allowed" if "map_of allowed k \<noteq> None" for k
    using that by (simp add: map_of_eq_None_iff)
  show ?thesis
    using assms
    by (simp add: Normalize_def Let_def DefaultPageSize_def MaxPageSize_def split: if_splits)
      (auto intro: key)
qed

lemma Offset_exact:
  assumes "1 \<le> pg_Number p" "0 < pg_Size p" "(pg_Number p - 1) * pg_Size p < 2 ^ 63"
  shows "Offset p = (pg_Number p - 1) * pg_Size p"
proof -
  have n: "0 \<le> pg_Number p - 1" using assms by simp
  then have "pg_Number p - 1 \<le> (pg_Number p - 1) * pg_Size p"
    using assms(2) by (simp add: mult_le_cancel_left1)
  then have "wrap64 (pg_Number p - 1) = pg_Number p - 1"
    using n assms(3) by (intro wrap64_id) auto
  moreover have "wrap64 ((pg_Number p - 1) * pg_Size p) = (pg_Number p - 1) * pg_Size p"
    using n assms(2,3) by (intro wrap64_id) (auto intro: order_trans [OF _ mult_nonneg_nonneg])
  ultimately show ?thesis using assms(1) by (auto simp: Offset_def)
qed

lemma concat_chunks:
  assumes "0 < k"
  shows "concat (map (\<lambda>i. take k (drop (i * k) xs)) [0..<n]) = take (n * k) xs"
proof (induction n)
  case (Suc n)
  have "take (Suc n * k) xs = take (n * k) xs @ take k (drop (n * k) xs)"
    using take_add [of "n * k" k xs] by (simp add: add.commute)
  then show ?case using Suc by simp
qed simp

text \<open>What \<open>Normalize\<close> accepts is a window of 1 to 100 rows from page 1 on, ordered by an allowed
  key in one of the two directions, and it accepts its own result unchanged.\<close>

theorem Normalize_normal_form:
  assumes "Normalize p allowed dflt = Inr q"
    and "\<forall>k \<in> fst ` set allowed. k \<noteq> [] \<and> ToLower (TrimSpace k) = k"
  shows "1 \<le> pg_Number q \<and> 1 \<le> pg_Size q \<and> pg_Size q \<le> 100
    \<and> pg_SortBy q \<in> fst ` set allowed \<and> pg_Order q \<in> {SortAscending, SortDescending}
    \<and> Normalize q allowed dflt = Inr q"
proof -
  note q = Normalize_Inr [OF assms(1)]
  then have key: "ToLower (TrimSpace (pg_SortBy q)) = pg_SortBy q" "pg_SortBy q \<noteq> []"
    using assms(2) by auto
  have ord: "ToLower (TrimSpace SortAscending) = SortAscending"
    "ToLower (TrimSpace SortDescending) = SortDescending" "SortAscending \<noteq> SortDescending"
    by code_simp+
  have mem: "map_of allowed (pg_SortBy q) \<noteq> None" using q by (simp add: map_of_eq_None_iff)
  have "Normalize q allowed dflt = Inr q"
    using q key ord mem by (auto simp: Normalize_def MaxPageSize_def)
  then show ?thesis using q by blast
qed

theorem Normalize_normal_form_witness:
  "Normalize \<lparr>pg_Number = 1, pg_Size = 20, pg_SortBy = ''code'', pg_Order = ''asc''\<rparr>
     [(''code'', ''s.code'')] ''code''
   = Inr \<lparr>pg_Number = 1, pg_Size = 20, pg_SortBy = ''code'', pg_Order = ''asc''\<rparr>"
proof -
  have n: "Normalize \<lparr>pg_Number = 0, pg_Size = - 3, pg_SortBy = '' Code'', pg_Order = []\<rparr>
      [(''code'', ''s.code'')] ''code''
    = Inr \<lparr>pg_Number = 1, pg_Size = 20, pg_SortBy = ''code'', pg_Order = ''asc''\<rparr>"
    by code_simp
  have "\<forall>k \<in> fst ` set [(''code'', ''s.code'')]. k \<noteq> [] \<and> ToLower (TrimSpace k) = k"
    by code_simp
  from Normalize_normal_form [OF n this] show ?thesis by blast
qed

text \<open>Walking the pages 1 to \<open>TotalPages\<close> of an ordered result yields every row once, in order,
  as long as the result has fewer than 2^62 rows.\<close>

theorem pages_partition:
  assumes "0 < psize" "psize \<le> 100" "int (length rows) < 2 ^ 62"
  shows "concat (map (\<lambda>n. page_rows (page_at key order psize n) rows)
      [1..pr_TotalPages (NewPageResult items (int (length rows)) (page_at key order psize 1))])
    = rows"
proof -
  define k where "k = nat psize"
  define t where "t = (length rows + k - 1) div k"
  have k: "0 < k" "psize = int k" using assms by (auto simp: k_def)
  have tot: "pr_TotalPages (NewPageResult items (int (length rows)) (page_at key order psize 1))
      = int t"
    using k by (simp add: NewPageResult_def page_at_def t_def zdiv_int of_nat_diff)
  have cover: "length rows \<le> t * k" and bound: "t * k \<le> length rows + k - 1"
    using k div_mult_mod_eq [of "length rows + k - 1" k] mod_less_divisor [OF k(1), of "length rows + k - 1"]
    unfolding t_def by linarith+
  have row: "page_rows (page_at key order psize (1 + int i)) rows = take k (drop (i * k) rows)"
    if "i < t" for i
  proof -
    have "i * k \<le> t * k" using that by simp
    also have "\<dots> < length rows + k" using bound k(1) by linarith
    also have "\<dots> \<le> length rows + 100" using k(2) assms(2) by simp
    finally have "int (i * k) < int (length rows + 100)" by (simp only: of_nat_less_iff)
    also have "\<dots> < 2 ^ 63" using assms(3) by simp
    finally have "int (i * k) < 2 ^ 63" .
    then have "Offset (page_at key order psize (1 + int i)) = int (i * k)"
      using Offset_exact [of "page_at key order psize (1 + int i)"] k
      by (simp add: page_at_def of_nat_mult)
    then show ?thesis
      using k by (simp add: page_rows_def limit_offset_def page_at_def nat_mult_distrib Let_def)
  qed
  have "[1..int t] = map (\<lambda>i. 1 + int i) [0..<t]"
    by (induction t) (simp_all add: upto_rec2)
  then have "concat (map (\<lambda>n. page_rows (page_at key order psize n) rows) [1..int t])
      = concat (map (\<lambda>i. take k (drop (i * k) rows)) [0..<t])"
    using row by (simp add: comp_def) (intro arg_cong [where f = concat] map_cong refl, simp)
  also have "\<dots> = rows" using concat_chunks [OF k(1), of rows t] cover by simp
  finally show ?thesis by (simp only: tot)
qed

theorem pages_partition_witness:
  "concat (map (\<lambda>n. page_rows (page_at ''id'' ''asc'' 2 n) [10, 20, 30 :: int]) [1..2])
     = [10, 20, 30]"
proof -
  have "pr_TotalPages (NewPageResult ([] :: int list) (int (length [10, 20, 30 :: int]))
      (page_at ''id'' ''asc'' 2 1)) = 2"
    by (simp add: NewPageResult_def page_at_def)
  moreover have "concat (map (\<lambda>n. page_rows (page_at ''id'' ''asc'' 2 n) [10, 20, 30 :: int])
      [1..pr_TotalPages (NewPageResult ([] :: int list) (int (length [10, 20, 30 :: int]))
        (page_at ''id'' ''asc'' 2 1))]) = [10, 20, 30]"
    by (rule pages_partition) simp_all
  ultimately show ?thesis by simp
qed

text \<open>the offset is computed in 64 bits: page numbers the query string accepts can wrap it, and
  then a far page shows the rows of the first one.\<close>

theorem Offset_wraps:
  "page_rows (page_at key order 4 (2 ^ 62 + 1)) rows = page_rows (page_at key order 4 1) rows"
  by (simp add: page_rows_def page_at_def Offset_def wrap64_def)

end
