(* ===== verification/AuditTrail.thy ===== *)
theory AuditTrail
  imports Identity Query
begin

text \<open>
  Audit events (\<open>internal/domain/audit.go\<close>): the actions and outcomes the trail
  names, the event row, its validation and the query filter.
\<close>

datatype audit_action =
    ActionLogin | ActionLogout | ActionSessionSwept | ActionRegistrationSubmit
  | ActionRegistrationDecide | ActionEnrollmentClaim | ActionEnrollmentWaitlist
  | ActionEnrollmentDrop | ActionEnrollmentPromote | ActionJobFailed | ActionOther string

fun audit_action_text :: "audit_action \<Rightarrow> string" where
  "audit_action_text ActionLogin = ''auth.login''"
| "audit_action_text ActionLogout = ''auth.logout''"
| "audit_action_text ActionSessionSwept = ''auth.session_swept''"
| "audit_action_text ActionRegistrationSubmit = ''registration.submit''"
| "audit_action_text ActionRegistrationDecide = ''registration.decide''"
| "audit_action_text ActionEnrollmentClaim = ''enrollment.claim''"
| "audit_action_text ActionEnrollmentWaitlist = ''enrollment.waitlist''"
| "audit_action_text ActionEnrollmentDrop = ''enrollment.drop''"
| "audit_action_text ActionEnrollmentPromote = ''enrollment.promote''"
| "audit_action_text ActionJobFailed = ''job.permanently_failed''"
| "audit_action_text (ActionOther s) = s"

datatype audit_result = ResultSuccess | ResultRejected | ResultFailure | ResultOther string

fun audit_result_text :: "audit_result \<Rightarrow> string" where
  "audit_result_text ResultSuccess = ''success''"
| "audit_result_text ResultRejected = ''rejected''"
| "audit_result_text ResultFailure = ''failure''"
| "audit_result_text (ResultOther s) = s"

record audit_event =
  aud_ID :: int
  aud_ActorUserID :: "int option"
  aud_ActorRole :: string
  aud_Action :: audit_action
  aud_ObjectType :: string
  aud_ObjectID :: string
  aud_Result :: audit_result
  aud_RequestID :: string
  aud_Detail :: string
  aud_OccurredAt :: instant

definition event_Validate :: "audit_event \<Rightarrow> err option" where
  "event_Validate e =
     (if TrimSpace (audit_action_text (aud_Action e)) = []
      then Some (FieldError ''audit.action'' ''must not be empty'')
      else if TrimSpace (aud_ObjectType e) = []
      then Some (FieldError ''audit.object_type'' ''must not be empty'')
      else case aud_Result e of
        ResultSuccess \<Rightarrow> None | ResultRejected \<Rightarrow> None | ResultFailure \<Rightarrow> None
      | ResultOther s \<Rightarrow> Some (FieldError ''audit.result'' ''must be success, rejected or failure''))"

record audit_filter =
  af_ActorUserID :: "int option"
  af_Action :: string
  af_ObjectType :: string
  af_ObjectID :: string
  af_Since :: "instant option"
  af_Page :: page

section \<open>Facts\<close>

lemma action_text_trimmed:
  "TrimSpace (audit_action_text a) \<noteq> []" if "\<forall>s. a \<noteq> ActionOther s"
  using that by (cases a) (simp_all add: TrimSpace_def is_space_def)

lemma object_type_trimmed [simp]:
  "TrimSpace ''enrollment'' \<noteq> []" "TrimSpace ''section'' \<noteq> []" "TrimSpace ''registration'' \<noteq> []"
  "TrimSpace ''session'' \<noteq> []" "TrimSpace ''job'' \<noteq> []"
  by (simp_all add: TrimSpace_def is_space_def)

end
