(* ===== verification/Job.thy ===== *)
theory Job
  imports Query
begin

text \<open>
  Background jobs (\<open>internal/domain/job.go\<close>): kinds, states, the retry budget and the
  backoff schedule. The schedule is computed in float64; \<open>f64_of_int\<close> is the rounding
  of an integer to 53 significant bits, to nearest, ties to even, and a product with a power of
  two is exact.
\<close>

datatype job_kind = JobPromoteWaitlist | JobSweepSessions | JobKindOther string

fun job_kind_text :: "job_kind \<Rightarrow> string" where
  "job_kind_text JobPromoteWaitlist = ''waitlist.promote''"
| "job_kind_text JobSweepSessions = ''session.sweep''"
| "job_kind_text (JobKindOther s) = s"

datatype job_state = JobQueued | JobRunning | JobSucceeded | JobPermanentlyFailed | JobStateOther string

fun job_state_text :: "job_state \<Rightarrow> string" where
  "job_state_text JobQueued = ''queued''"
| "job_state_text JobRunning = ''running''"
| "job_state_text JobSucceeded = ''succeeded''"
| "job_state_text JobPermanentlyFailed = ''permanently_failed''"
| "job_state_text (JobStateOther s) = s"

definition MaxJobAttempts :: int where "MaxJobAttempts = 5"

record job =
  job_ID :: int
  job_Kind :: job_kind
  job_Payload :: string
  job_State :: job_state
  job_Attempts :: int
  job_MaxAttempts :: int
  job_LastError :: string
  job_RunAfter :: instant
  job_LockedAt :: "instant option"
  job_LockedBy :: string
  job_CreatedAt :: instant
  job_UpdatedAt :: instant

definition Attemptable :: "job \<Rightarrow> instant \<Rightarrow> bool" where
  "Attemptable j now = (if job_State j \<noteq> JobQueued then False else \<not> now < job_RunAfter j)"

definition BudgetExhausted :: "job \<Rightarrow> bool" where
  "BudgetExhausted j = (let limit = (if job_MaxAttempts j \<le> 0 then MaxJobAttempts
     else job_MaxAttempts j) in job_Attempts j \<ge> limit)"

fun bit_length :: "nat \<Rightarrow> nat" where
  "bit_length n = (if n = 0 then 0 else Suc (bit_length (n div 2)))"

declare bit_length.simps [simp del]

definition round_nat53 :: "nat \<Rightarrow> nat" where
  "round_nat53 n = (let k = bit_length n - 53; q = n div 2 ^ k; r = n mod 2 ^ k in
     if k = 0 then n
     else if r > 2 ^ (k - 1) \<or> (r = 2 ^ (k - 1) \<and> odd q) then (q + 1) * 2 ^ k else q * 2 ^ k)"

definition f64_of_int :: "int \<Rightarrow> int" where
  "f64_of_int x = (if x < 0 then - int (round_nat53 (nat (- x))) else int (round_nat53 (nat x)))"

definition Backoff :: "int \<Rightarrow> duration \<Rightarrow> duration \<Rightarrow> duration" where
  "Backoff attempt0 base0 max0 =
     (let attempt = (if attempt0 < 1 then 1 else attempt0);
          base = (if base0 \<le> 0 then Second else base0);
          maximum = (if max0 \<le> 0 \<or> max0 < base then base else max0);
          shift0 = attempt - 1;
          shift = (if shift0 > 16 then 16 else shift0);
          scaled = f64_of_int base * 2 ^ nat shift
      in if scaled > f64_of_int maximum then maximum else wrap64 scaled)"

definition StaleLockCutoff :: "instant \<Rightarrow> duration \<Rightarrow> instant" where
  "StaleLockCutoff now lease = (let l = (if lease \<le> 0 then Minute else lease) in now - l)"

section \<open>Facts\<close>

lemma bit_length_le: "n < 2 ^ k \<Longrightarrow> bit_length n \<le> k"
proof (induction k arbitrary: n)
  case 0
  then show ?case by (simp add: bit_length.simps)
next
  case (Suc k)
  show ?case
  proof (cases "n = 0")
    case False
    then have "bit_length (n div 2) \<le> k" using Suc by simp
    then show ?thesis using False by (simp add: bit_length.simps [of n])
  qed (simp add: bit_length.simps)
qed

lemma f64_of_int_exact: "0 \<le> x \<Longrightarrow> x < 2 ^ 53 \<Longrightarrow> f64_of_int x = x"
proof -
  assume x: "0 \<le> x" "x < 2 ^ 53"
  then have "nat x < 2 ^ 53" by simp
  then have "bit_length (nat x) \<le> 53" by (rule bit_length_le)
  then show ?thesis using x by (simp add: f64_of_int_def round_nat53_def Let_def)
qed

lemma Backoff_eq:
  assumes "0 < base" "base \<le> maximum" "maximum < 2 ^ 53"
  shows "Backoff attempt base maximum = min maximum (base * 2 ^ min 16 (nat (attempt - 1)))"
proof -
  have f: "f64_of_int base = base" "f64_of_int maximum = maximum"
    using assms by (auto intro: f64_of_int_exact)
  have shift: "nat (if (if attempt < 1 then 1 else attempt) - 1 > 16 then 16
      else (if attempt < 1 then 1 else attempt) - 1) = min 16 (nat (attempt - 1))"
    by (auto simp: min_def)
  have small: "wrap64 s = s" if "0 < s" "s \<le> maximum" for s
    using that assms(3) by (intro wrap64_id) auto
  show ?thesis
    unfolding Backoff_def Let_def shift
    using assms f small [of "base * 2 ^ min 16 (nat (attempt - 1))"] by (simp add: min_def)
qed

text \<open>For delays below 2^53 nanoseconds (104 days) the float64 schedule is exactly the capped
  doubling: never below the base, never above the cap, and never shorter for a later attempt.\<close>

theorem Backoff_schedule:
  assumes "0 < base" "base \<le> maximum" "maximum < 2 ^ 53" "attempt \<le> later"
  shows "Backoff attempt base maximum = min maximum (base * 2 ^ min 16 (nat (attempt - 1)))
    \<and> base \<le> Backoff attempt base maximum \<and> Backoff attempt base maximum \<le> maximum
    \<and> Backoff attempt base maximum \<le> Backoff later base maximum"
proof -
  have pow: "(1::int) \<le> 2 ^ n" for n by simp
  let ?x = "base * 2 ^ min 16 (nat (attempt - 1))" and ?y = "base * 2 ^ min 16 (nat (later - 1))"
  have "base * 1 \<le> ?x"
    using assms(1) pow by (intro mult_left_mono) auto
  moreover have "?x \<le> ?y"
    using assms(1,4) by (intro mult_left_mono power_increasing) auto
  then have "min maximum ?x \<le> min maximum ?y" by (intro min.mono order_refl)
  ultimately show ?thesis
    using assms(2) by (simp only: Backoff_eq [OF assms(1-3)]) simp
qed

theorem Backoff_schedule_witness:
  "Backoff 3 (2 * Second) (5 * Minute) = 8 * Second
   \<and> Backoff 3 (2 * Second) (5 * Minute) \<le> Backoff 9 (2 * Second) (5 * Minute)"
  using Backoff_schedule [of "2 * Second" "5 * Minute" 3 9]
  by (simp add: Second_def Minute_def)

end
