(* ===== verification/Lifecycle.thy ===== *)
theory Lifecycle
  imports Main
begin

text \<open>
  The contract of a state machine given by a transition table: which moves it allows and
  which states it calls terminal. Both machines of the domain (paperwork and seats) provide
  it; what follows from the table alone is proved here once.
\<close>

fun moves :: "('s \<Rightarrow> 's \<Rightarrow> bool) \<Rightarrow> 's \<Rightarrow> 's list \<Rightarrow> bool" where
  \<comment> \<open>a history that starts in the given state and makes only allowed moves\<close>
  "moves can s [] = True"
| "moves can s (t # ts) = (can s t \<and> moves can t ts)"

locale lifecycle =
  fixes can :: "'s \<Rightarrow> 's \<Rightarrow> bool"
    and terminal :: "'s \<Rightarrow> bool"
  assumes terminal_iff: "terminal s \<longleftrightarrow> (\<forall>t. \<not> can s t)"
begin

lemma terminal_stays: "terminal s \<Longrightarrow> moves can s ts \<Longrightarrow> ts = []"
  by (cases ts) (auto simp: terminal_iff)

lemma moves_append: "moves can s (xs @ ys) \<longleftrightarrow> moves can s xs \<and> moves can (last (s # xs)) ys"
  by (induction xs arbitrary: s) auto

lemma terminal_last: "moves can s ts \<Longrightarrow> t \<in> set (butlast (s # ts)) \<Longrightarrow> \<not> terminal t"
proof (induction ts arbitrary: s)
  case (Cons u us)
  then show ?case by (auto simp: terminal_iff split: if_splits)
qed simp

end

text \<open>A machine whose moves raise a bounded rank cannot go on for ever.\<close>

locale ranked_lifecycle = lifecycle +
  fixes rank :: "'a \<Rightarrow> nat" and top :: nat
  assumes rank_up: "can s t \<Longrightarrow> rank s < rank t"
    and rank_top: "rank s \<le> top"
begin

lemma moves_bounded: "moves can s ts \<Longrightarrow> rank s + length ts \<le> top"
proof (induction ts arbitrary: s)
  case Nil
  then show ?case using rank_top by simp
next
  case (Cons t ts)
  then have "rank t + length ts \<le> top" "rank s < rank t" by (auto dest: rank_up)
  then show ?case by simp
qed

lemma no_return: "moves can s ts \<Longrightarrow> s \<notin> set ts"
proof -
  have "moves can s ts \<Longrightarrow> t \<in> set ts \<Longrightarrow> rank s < rank t" for s t ts
    by (induction ts arbitrary: s) (auto dest: rank_up order_less_trans)
  then show "moves can s ts \<Longrightarrow> s \<notin> set ts" by blast
qed

end

end
