(* ===== verification/Registration.thy ===== *)
theory Registration
  imports Identity Lifecycle
begin

text \<open>
  Orientation paperwork (\<open>internal/domain/registration.go\<close>): its state machine
  draft, submitted, verified or rejected, the submission and decision operations, and the
  academic records that decide prerequisites. The pointer receivers of the Go code return the
  updated record; an error leaves the record as it was.
\<close>

section \<open>The state machine\<close>

datatype registration_status =
    RegistrationDraft | RegistrationSubmitted | RegistrationVerified | RegistrationRejected
  | RegistrationOther string

fun registration_status_text :: "registration_status \<Rightarrow> string" where
  "registration_status_text RegistrationDraft = ''draft''"
| "registration_status_text RegistrationSubmitted = ''submitted''"
| "registration_status_text RegistrationVerified = ''verified''"
| "registration_status_text RegistrationRejected = ''rejected''"
| "registration_status_text (RegistrationOther s) = s"

fun registrationTransitions :: "registration_status \<Rightarrow> registration_status list" where
  "registrationTransitions RegistrationDraft = [RegistrationSubmitted]"
| "registrationTransitions RegistrationSubmitted = [RegistrationVerified, RegistrationRejected]"
| "registrationTransitions RegistrationVerified = []"
| "registrationTransitions RegistrationRejected = [RegistrationSubmitted]"
| "registrationTransitions (RegistrationOther s) = []"

definition reg_CanTransitionTo :: "registration_status \<Rightarrow> registration_status \<Rightarrow> bool" where
  "reg_CanTransitionTo s target = list_ex (\<lambda>allowed. allowed = target) (registrationTransitions s)"

definition reg_Terminal :: "registration_status \<Rightarrow> bool" where
  "reg_Terminal s \<longleftrightarrow> length (registrationTransitions s) = 0"

section \<open>Operations\<close>

record registration =
  reg_ID :: int
  reg_StudentID :: int
  reg_TermID :: int
  reg_Status :: registration_status
  reg_ProgramCode :: string
  reg_AdvisorEmail :: string
  reg_DormPreference :: string
  reg_SubmittedAt :: "instant option"
  reg_DecidedAt :: "instant option"
  reg_DecidedByUserID :: "int option"
  reg_DecisionNote :: string
  reg_Version :: int
  reg_CreatedAt :: instant
  reg_UpdatedAt :: instant

definition Verified :: "registration \<Rightarrow> bool" where
  "Verified r \<longleftrightarrow> reg_Status r = RegistrationVerified"

definition ValidateSubmission :: "registration \<Rightarrow> err option" where
  "ValidateSubmission r =
     (if TrimSpace (reg_ProgramCode r) = []
      then Some (FieldError ''program_code'' ''must not be empty'')
      else if length (reg_ProgramCode r) > 32
      then Some (FieldError ''program_code'' ''must be at most 32 characters'')
      else case NormalizeEmail (reg_AdvisorEmail r) of
        Inl _ \<Rightarrow> Some (FieldError ''advisor_email'' ''must be a valid email address'')
      | Inr _ \<Rightarrow>
          (let dorm = ToLower (TrimSpace (reg_DormPreference r)) in
           if dorm = ''on_campus'' \<or> dorm = ''off_campus'' \<or> dorm = ''undecided'' then None
           else Some (FieldError ''dorm_preference''
             ''must be on_campus, off_campus or undecided'')))"

definition reg_Submit :: "registration \<Rightarrow> instant \<Rightarrow> err + registration" where
  "reg_Submit r now =
     (if \<not> reg_CanTransitionTo (reg_Status r) RegistrationSubmitted
      then Inl (TransitionError ''registration'' (registration_status_text (reg_Status r))
        (registration_status_text RegistrationSubmitted))
      else case ValidateSubmission r of Some err \<Rightarrow> Inl err
      | None \<Rightarrow> Inr (r\<lparr>reg_Status := RegistrationSubmitted, reg_SubmittedAt := Some now,
          reg_DecidedAt := None, reg_DecidedByUserID := None, reg_DecisionNote := [],
          reg_UpdatedAt := now\<rparr>))"

definition reg_Decide ::
  "registration \<Rightarrow> registration_status \<Rightarrow> int \<Rightarrow> string \<Rightarrow> instant \<Rightarrow> err + registration" where
  "reg_Decide r target decidedBy note now =
     (if target \<noteq> RegistrationVerified \<and> target \<noteq> RegistrationRejected
      then Inl (FieldError ''status'' ''decision must be verified or rejected'')
      else if \<not> reg_CanTransitionTo (reg_Status r) target
      then Inl (TransitionError ''registration'' (registration_status_text (reg_Status r))
        (registration_status_text target))
      else if target = RegistrationRejected \<and> TrimSpace note = []
      then Inl (FieldError ''decision_note'' ''must explain a rejection'')
      else Inr (r\<lparr>reg_Status := target, reg_DecidedAt := Some now,
        reg_DecidedByUserID := Some decidedBy, reg_DecisionNote := TrimSpace note,
        reg_UpdatedAt := now\<rparr>))"

section \<open>Prerequisites\<close>

record academic_record =
  rec_ID :: int
  rec_StudentID :: int
  rec_CourseCode :: string
  rec_Grade :: string
  rec_Credits :: int
  rec_CompletedAt :: instant

definition Passing :: "academic_record \<Rightarrow> bool" where
  "Passing a = (ToUpper (TrimSpace (rec_Grade a)) \<in> {''A'', ''B'', ''C'', ''D'', ''P''})"

definition course_key :: "string \<Rightarrow> string" where
  "course_key code = ToUpper (TrimSpace code)"

fun passed_set :: "academic_record list \<Rightarrow> string set \<Rightarrow> string set" where
  \<comment> \<open>the first loop of \<open>MissingPrerequisites\<close>\<close>
  "passed_set [] passed = passed"
| "passed_set (r # completed) passed =
     passed_set completed (if Passing r then insert (course_key (rec_CourseCode r)) passed else passed)"

fun missing_codes :: "string list \<Rightarrow> string set \<Rightarrow> string list \<Rightarrow> string list" where
  \<comment> \<open>the second loop of \<open>MissingPrerequisites\<close>\<close>
  "missing_codes [] passed missing = missing"
| "missing_codes (code # required) passed missing = (let normalized = course_key code in
     if normalized = [] then missing_codes required passed missing
     else if normalized \<notin> passed then missing_codes required passed (missing @ [normalized])
     else missing_codes required passed missing)"

definition MissingPrerequisites :: "string list \<Rightarrow> academic_record list \<Rightarrow> string list" where
  "MissingPrerequisites required completed = missing_codes required (passed_set completed {}) []"

section \<open>Facts\<close>

interpretation reg_machine: lifecycle reg_CanTransitionTo reg_Terminal
proof unfold_locales
  fix s
  show "reg_Terminal s \<longleftrightarrow> (\<forall>t. \<not> reg_CanTransitionTo s t)"
    by (cases s) (auto simp: reg_Terminal_def reg_CanTransitionTo_def)
qed

lemma passed_set_eq:
  "passed_set completed passed =
     passed \<union> {course_key (rec_CourseCode r) | r. r \<in> set completed \<and> Passing r}"
  by (induction completed arbitrary: passed) auto

lemma missing_codes_eq:
  "missing_codes required passed missing =
     missing @ filter (\<lambda>c. c \<noteq> [] \<and> c \<notin> passed) (map course_key required)"
  by (induction required arbitrary: missing) (auto simp: Let_def)

lemma reg_Submit_Inr:
  "reg_Submit r now = Inr r' \<Longrightarrow> reg_CanTransitionTo (reg_Status r) RegistrationSubmitted
     \<and> ValidateSubmission r = None \<and> reg_Status r' = RegistrationSubmitted"
  by (auto simp: reg_Submit_def split: if_splits option.splits)

lemma reg_Decide_Inr:
  "reg_Decide r target by_id note now = Inr r' \<Longrightarrow> reg_CanTransitionTo (reg_Status r) target
     \<and> target \<in> {RegistrationVerified, RegistrationRejected} \<and> reg_Status r' = target
     \<and> (target = RegistrationRejected \<longrightarrow> TrimSpace note \<noteq> [])"
  by (auto simp: reg_Decide_def split: if_splits)

text \<open>One step of the paperwork, by either operation.\<close>

inductive paperwork_step :: "registration \<Rightarrow> registration \<Rightarrow> bool" where
  submit: "reg_Submit (r\<lparr>reg_ProgramCode := p, reg_AdvisorEmail := a, reg_DormPreference := d\<rparr>) now
      = Inr r' \<Longrightarrow> paperwork_step r r'"
| decide: "reg_Decide r target by_id note now = Inr r' \<Longrightarrow> paperwork_step r r'"

inductive_cases paperwork_stepE: "paperwork_step r r'"

lemma paperwork_step_status:
  "paperwork_step r r' \<Longrightarrow> reg_CanTransitionTo (reg_Status r) (reg_Status r')"
  by (erule paperwork_stepE) (auto dest!: reg_Submit_Inr reg_Decide_Inr)

lemma paperwork_run_status:
  "paperwork_step\<^sup>*\<^sup>* r r' \<Longrightarrow> \<exists>ts. moves reg_CanTransitionTo (reg_Status r) ts
     \<and> last (reg_Status r # ts) = reg_Status r'"
proof (induction rule: rtranclp_induct)
  case base
  show ?case by (rule exI [of _ "[]"]) simp
next
  case (step r' r'')
  then obtain ts where "moves reg_CanTransitionTo (reg_Status r) ts"
    "last (reg_Status r # ts) = reg_Status r'" by blast
  then show ?case
    using paperwork_step_status [OF step.hyps(2)]
    by (intro exI [of _ "ts @ [reg_Status r'']"]) (simp add: reg_machine.moves_append)
qed

text \<open>A verified record is terminal: no sequence of submissions and decisions changes it.\<close>

theorem verified_is_terminal:
  assumes "paperwork_step\<^sup>*\<^sup>* r r'" "reg_Status r = RegistrationVerified"
  shows "r' = r"
proof (cases rule: converse_rtranclpE [OF assms(1)])
  case (2 q)
  then have "reg_CanTransitionTo RegistrationVerified (reg_Status q)"
    using paperwork_step_status assms(2) by metis
  then show ?thesis by (simp add: reg_CanTransitionTo_def)
qed simp

definition sample_registration :: registration where
  "sample_registration = \<lparr>reg_ID = 1, reg_StudentID = 7, reg_TermID = 1,
     reg_Status = RegistrationDraft, reg_ProgramCode = ''CS-BSC'',
     reg_AdvisorEmail = ''advisor@campus.example'', reg_DormPreference = ''on_campus'',
     reg_SubmittedAt = None, reg_DecidedAt = None, reg_DecidedByUserID = None,
     reg_DecisionNote = [], reg_Version = 1, reg_CreatedAt = 0, reg_UpdatedAt = 0\<rparr>"

theorem verified_is_terminal_witness:
  "\<not> paperwork_step (sample_registration\<lparr>reg_Status := RegistrationVerified\<rparr>)
       (sample_registration\<lparr>reg_Status := RegistrationSubmitted\<rparr>)"
proof
  let ?v = "sample_registration\<lparr>reg_Status := RegistrationVerified\<rparr>"
  assume "paperwork_step ?v (sample_registration\<lparr>reg_Status := RegistrationSubmitted\<rparr>)"
  then have "sample_registration\<lparr>reg_Status := RegistrationSubmitted\<rparr> = ?v"
    by (intro verified_is_terminal) auto
  then have "reg_Status (sample_registration\<lparr>reg_Status := RegistrationSubmitted\<rparr>) = reg_Status ?v"
    by (rule arg_cong)
  then show False by simp
qed

text \<open>paperwork is verified only by a decision on a submitted record, and is rejected only with
  an explanation; every other outcome is the error the code names.\<close>

theorem Decide_outcome:
  "reg_Decide r target by_id note now =
     (if target \<notin> {RegistrationVerified, RegistrationRejected}
      then Inl (FieldError ''status'' ''decision must be verified or rejected'')
      else if reg_Status r \<noteq> RegistrationSubmitted
      then Inl (TransitionError ''registration'' (registration_status_text (reg_Status r))
        (registration_status_text target))
      else if target = RegistrationRejected \<and> TrimSpace note = []
      then Inl (FieldError ''decision_note'' ''must explain a rejection'')
      else Inr (r\<lparr>reg_Status := target, reg_DecidedAt := Some now,
        reg_DecidedByUserID := Some by_id, reg_DecisionNote := TrimSpace note, reg_UpdatedAt := now\<rparr>))"
  by (cases "reg_Status r") (auto simp: reg_Decide_def reg_CanTransitionTo_def)

text \<open>The missing prerequisites are the required codes, trimmed and in upper case and in
  catalogue order, that no passing record covers.\<close>

theorem MissingPrerequisites_spec:
  "MissingPrerequisites required completed =
     filter (\<lambda>c. c \<noteq> [] \<and> (\<forall>r \<in> set completed. Passing r \<longrightarrow> course_key (rec_CourseCode r) \<noteq> c))
       (map course_key required)"
  by (auto simp: MissingPrerequisites_def missing_codes_eq passed_set_eq intro!: filter_cong)

theorem MissingPrerequisites_spec_witness:
  "MissingPrerequisites ['' cs110'', ''math101''] [\<lparr>rec_ID = 1, rec_StudentID = 7,
      rec_CourseCode = ''CS110'', rec_Grade = ''b '', rec_Credits = 4, rec_CompletedAt = 0\<rparr>]
    = [''MATH101'']"
proof -
  have "filter (\<lambda>c. c \<noteq> [] \<and> (\<forall>r \<in> set [\<lparr>rec_ID = 1, rec_StudentID = 7,
      rec_CourseCode = ''CS110'', rec_Grade = ''b '', rec_Credits = 4, rec_CompletedAt = 0\<rparr>].
      Passing r \<longrightarrow> course_key (rec_CourseCode r) \<noteq> c)) (map course_key ['' cs110'', ''math101''])
    = [''MATH101'']" by code_simp
  then show ?thesis by (simp only: MissingPrerequisites_spec)
qed

end
