(* ===== verification/Catalog.thy ===== *)
theory Catalog
  imports Errors
begin

text \<open>
  The catalogue (\<open>internal/domain/catalog.go\<close>): terms with their enrollment windows,
  courses, sections with their seat counters, and the weekly meeting blocks whose overlap is
  a schedule conflict.
\<close>

section \<open>Terms and courses\<close>

record academic_term =
  trm_ID :: int
  trm_Code :: string
  trm_Name :: string
  trm_EnrollmentOpensAt :: instant
  trm_EnrollmentClosesAt :: instant
  trm_AddDropClosesAt :: instant
  trm_CreditLimit :: int
  trm_Archived :: bool

definition term_Validate :: "academic_term \<Rightarrow> err option" where
  "term_Validate t =
     (if TrimSpace (trm_Code t) = [] then Some (FieldError ''term.code'' ''must not be empty'')
      else if trm_CreditLimit t \<le> 0
      then Some (FieldError ''term.credit_limit'' ''must be positive'')
      else if \<not> trm_EnrollmentOpensAt t < trm_EnrollmentClosesAt t
      then Some (FieldError ''term.enrollment_closes_at'' ''must be after enrollment_opens_at'')
      else if trm_AddDropClosesAt t < trm_EnrollmentClosesAt t
      then Some (FieldError ''term.add_drop_closes_at'' ''must not be before enrollment_closes_at'')
      else None)"

definition EnrollmentOpen :: "academic_term \<Rightarrow> instant \<Rightarrow> bool" where
  "EnrollmentOpen t now =
     (if trm_Archived t then False
      else \<not> now < trm_EnrollmentOpensAt t \<and> now < trm_EnrollmentClosesAt t)"

definition DropAllowed :: "academic_term \<Rightarrow> instant \<Rightarrow> bool" where
  "DropAllowed t now =
     (if trm_Archived t then False
      else \<not> now < trm_EnrollmentOpensAt t \<and> now < trm_AddDropClosesAt t)"

record course =
  crs_ID :: int
  crs_Code :: string
  crs_Title :: string
  crs_Credits :: int
  crs_Department :: string
  crs_Prerequisites :: "string list"
  crs_Retired :: bool

definition course_Validate :: "course \<Rightarrow> err option" where
  "course_Validate c =
     (if TrimSpace (crs_Code c) = [] then Some (FieldError ''course.code'' ''must not be empty'')
      else if crs_Credits c \<le> 0 \<or> crs_Credits c > 12
      then Some (FieldError ''course.credits'' ''must be between 1 and 12'')
      else None)"

section \<open>Weekly meetings\<close>

type_synonym weekday = int

definition weekdayNames :: "(weekday \<times> string) list" where
  "weekdayNames = [(0, ''sunday''), (1, ''monday''), (2, ''tuesday''), (3, ''wednesday''),
     (4, ''thursday''), (5, ''friday''), (6, ''saturday'')]"

definition weekday_String :: "weekday \<Rightarrow> string" where
  "weekday_String w = (case map_of weekdayNames w of Some name \<Rightarrow> name
     | None \<Rightarrow> ''weekday('' @ itoa w @ '')'')"

definition weekday_Valid :: "weekday \<Rightarrow> bool" where
  "weekday_Valid w \<longleftrightarrow> 0 \<le> w \<and> w \<le> 6"

record meeting =
  mtg_ID :: int
  mtg_SectionID :: int
  mtg_Weekday :: weekday
  mtg_StartMinute :: int
  mtg_EndMinute :: int
  mtg_Room :: string

definition meeting_Validate :: "meeting \<Rightarrow> err option" where
  "meeting_Validate m =
     (if \<not> weekday_Valid (mtg_Weekday m)
      then Some (FieldError ''meeting.weekday'' ''must be between 0 and 6'')
      else if mtg_StartMinute m < 0 \<or> mtg_StartMinute m \<ge> 24 * 60
      then Some (FieldError ''meeting.start_minute'' ''must be within a single day'')
      else if mtg_EndMinute m \<le> mtg_StartMinute m \<or> mtg_EndMinute m > 24 * 60
      then Some (FieldError ''meeting.end_minute'' ''must be after start_minute and within a single day'')
      else None)"

definition Overlaps :: "meeting \<Rightarrow> meeting \<Rightarrow> bool" where
  "Overlaps m other =
     (if mtg_Weekday m \<noteq> mtg_Weekday other then False
      else mtg_StartMinute m < mtg_EndMinute other \<and> mtg_StartMinute other < mtg_EndMinute m)"

definition pad02 :: "int \<Rightarrow> string" where
  \<comment> \<open>\<open>%02d\<close>\<close>
  "pad02 n = (if 0 \<le> n \<and> n < 10 then ''0'' @ itoa n else itoa n)"

definition meeting_Label :: "meeting \<Rightarrow> string" where
  "meeting_Label m = weekday_String (mtg_Weekday m) @ '' ''
     @ pad02 (mtg_StartMinute m div 60) @ '':'' @ pad02 (mtg_StartMinute m mod 60) @ ''-''
     @ pad02 (mtg_EndMinute m div 60) @ '':'' @ pad02 (mtg_EndMinute m mod 60)"

section \<open>Sections\<close>

datatype section_status =
  SectionDraft | SectionOpen | SectionClosed | SectionCancelled | SectionOther string

fun section_status_text :: "section_status \<Rightarrow> string" where
  "section_status_text SectionDraft = ''draft''"
| "section_status_text SectionOpen = ''open''"
| "section_status_text SectionClosed = ''closed''"
| "section_status_text SectionCancelled = ''cancelled''"
| "section_status_text (SectionOther s) = s"

record course_section =
  sec_ID :: int
  sec_TermID :: int
  sec_CourseID :: int
  sec_CourseCode :: string
  sec_CourseCredits :: int
  sec_Code :: string
  sec_Status :: section_status
  sec_Capacity :: int
  sec_SeatsTaken :: int
  sec_WaitlistLimit :: int
  sec_WaitlistLength :: int
  sec_Instructor :: string
  sec_Version :: int
  sec_Meetings :: "meeting list"
  sec_UpdatedAt :: instant

definition SeatsAvailable :: "course_section \<Rightarrow> int" where
  "SeatsAvailable s = (let free = sec_Capacity s - sec_SeatsTaken s in
     if free < 0 then 0 else free)"

definition AcceptsEnrollment :: "course_section \<Rightarrow> bool" where
  "AcceptsEnrollment s \<longleftrightarrow> sec_Status s = SectionOpen"

definition CloneMeetings :: "course_section \<Rightarrow> meeting list" where
  "CloneMeetings s = (if length (sec_Meetings s) = 0 then [] else map (\<lambda>m. m) (sec_Meetings s))"

definition meeting_before :: "meeting \<Rightarrow> meeting \<Rightarrow> bool" where
  \<comment> \<open>the comparison \<open>SortMeetings\<close> hands to \<open>sort.Slice\<close>\<close>
  "meeting_before a b =
     (if mtg_Weekday a \<noteq> mtg_Weekday b then mtg_Weekday a < mtg_Weekday b
      else if mtg_StartMinute a \<noteq> mtg_StartMinute b then mtg_StartMinute a < mtg_StartMinute b
      else mtg_EndMinute a < mtg_EndMinute b)"

definition SortMeetings :: "meeting list \<Rightarrow> meeting list" where
  "SortMeetings ms = order_by (\<lambda>a b. \<not> meeting_before b a) ms"

fun first_overlap :: "meeting \<Rightarrow> meeting list \<Rightarrow> meeting option" where
  \<comment> \<open>the inner loop of \<open>FindScheduleConflict\<close>\<close>
  "first_overlap c [] = None"
| "first_overlap c (h # held) = (if Overlaps c h then Some h else first_overlap c held)"

fun FindScheduleConflict :: "meeting list \<Rightarrow> meeting list \<Rightarrow> (meeting \<times> meeting) option" where
  "FindScheduleConflict [] held = None"
| "FindScheduleConflict (c # candidate) held =
     (case first_overlap c held of Some h \<Rightarrow> Some (c, h)
      | None \<Rightarrow> FindScheduleConflict candidate held)"

section \<open>Facts\<close>

lemma Overlaps_sym: "Overlaps a b = Overlaps b a"
  by (auto simp: Overlaps_def)

lemma first_overlap_find: "first_overlap c held = find (Overlaps c) held"
  by (induction held) auto

lemma FindScheduleConflict_None:
  "FindScheduleConflict candidate held = None \<longleftrightarrow>
     (\<forall>c \<in> set candidate. \<forall>h \<in> set held. \<not> Overlaps c h)"
  by (induction candidate)
    (auto simp: first_overlap_find find_None_set split: option.splits dest!: find_Some_iff_set)

lemma meeting_Validate_None:
  "meeting_Validate m = None \<longleftrightarrow> 0 \<le> mtg_Weekday m \<and> mtg_Weekday m \<le> 6
     \<and> 0 \<le> mtg_StartMinute m \<and> mtg_StartMinute m < mtg_EndMinute m \<and> mtg_EndMinute m \<le> 1440"
  by (auto simp: meeting_Validate_def weekday_Valid_def)

text \<open>Two well-formed blocks collide exactly when some minute of the week lies in both; blocks
  that touch at a boundary do not.\<close>

theorem Overlaps_shared_minute:
  assumes "meeting_Validate a = None" "meeting_Validate b = None"
  shows "Overlaps a b \<longleftrightarrow> mtg_Weekday a = mtg_Weekday b
    \<and> (\<exists>t. mtg_StartMinute a \<le> t \<and> t < mtg_EndMinute a \<and> mtg_StartMinute b \<le> t \<and> t < mtg_EndMinute b)"
proof
  assume "Overlaps a b"
  then show "mtg_Weekday a = mtg_Weekday b
    \<and> (\<exists>t. mtg_StartMinute a \<le> t \<and> t < mtg_EndMinute a \<and> mtg_StartMinute b \<le> t \<and> t < mtg_EndMinute b)"
    using assms
    by (intro conjI exI [of _ "max (mtg_StartMinute a) (mtg_StartMinute b)"])
      (auto simp: Overlaps_def meeting_Validate_None split: if_splits)
qed (auto simp: Overlaps_def)

theorem Overlaps_shared_minute_witness:
  "(let a = \<lparr>mtg_ID = 1, mtg_SectionID = 1, mtg_Weekday = 1, mtg_StartMinute = 480,
             mtg_EndMinute = 580, mtg_Room = ''N201''\<rparr>;
        b = \<lparr>mtg_ID = 2, mtg_SectionID = 2, mtg_Weekday = 1, mtg_StartMinute = 570,
             mtg_EndMinute = 600, mtg_Room = ''E105''\<rparr>
    in Overlaps a b \<and> (\<exists>t. 480 \<le> t \<and> t < 580 \<and> 570 \<le> t \<and> t < (600::int)))"
proof -
  let ?a = "\<lparr>mtg_ID = 1, mtg_SectionID = 1, mtg_Weekday = 1, mtg_StartMinute = 480,
             mtg_EndMinute = 580, mtg_Room = ''N201''\<rparr>"
  let ?b = "\<lparr>mtg_ID = 2, mtg_SectionID = 2, mtg_Weekday = 1, mtg_StartMinute = 570,
             mtg_EndMinute = 600, mtg_Room = ''E105''\<rparr>"
  have v: "meeting_Validate ?a = None" "meeting_Validate ?b = None"
    by (simp_all add: meeting_Validate_None)
  have "Overlaps ?a ?b" by (simp add: Overlaps_def)
  with Overlaps_shared_minute [OF v] show ?thesis by (simp only: Let_def meeting.simps) simp
qed

text \<open>The schedule check reports a conflict exactly when some candidate block overlaps some
  held block, and then the reported pair is such a pair, the first one in list order.\<close>

theorem FindScheduleConflict_spec:
  "(case FindScheduleConflict candidate held of
      None \<Rightarrow> \<forall>c \<in> set candidate. \<forall>h \<in> set held. \<not> Overlaps c h
    | Some (c, h) \<Rightarrow> Overlaps c h \<and> (\<exists>cs cs' hs hs'. candidate = cs @ c # cs' \<and> held = hs @ h # hs'
        \<and> (\<forall>c' \<in> set cs. \<forall>h' \<in> set held. \<not> Overlaps c' h') \<and> (\<forall>h' \<in> set hs. \<not> Overlaps c h')))"
proof (induction candidate)
  case (Cons c candidate)
  show ?case
  proof (cases "first_overlap c held")
    case None
    then have no: "\<forall>h \<in> set held. \<not> Overlaps c h"
      by (simp add: first_overlap_find find_None_set)
    show ?thesis
    proof (cases "FindScheduleConflict candidate held")
      case (Some p)
      obtain d h where p: "p = (d, h)" by fastforce
      from Cons.IH Some p obtain cs cs' hs hs' where
        "Overlaps d h" "candidate = cs @ d # cs'" "held = hs @ h # hs'"
        "\<forall>c' \<in> set cs. \<forall>h' \<in> set held. \<not> Overlaps c' h'" "\<forall>h' \<in> set hs. \<not> Overlaps d h'"
        by auto
      moreover from this no have "c # candidate = (c # cs) @ d # cs'"
        "\<forall>c' \<in> set (c # cs). \<forall>h' \<in> set held. \<not> Overlaps c' h'" by auto
      moreover have "FindScheduleConflict (c # candidate) held = Some (d, h)"
        using None Some p by simp
      ultimately show ?thesis by (simp only: option.case prod.case) blast
    qed (use Cons.IH None no in auto)
  next
    case (Some h)
    then obtain i where i: "i < length held" "held ! i = h" "Overlaps c h"
      "\<forall>j < i. \<not> Overlaps c (held ! j)"
      by (auto simp: first_overlap_find find_Some_iff)
    have "held = take i held @ h # drop (Suc i) held"
      using i id_take_nth_drop by blast
    moreover have "\<forall>h' \<in> set (take i held). \<not> Overlaps c h'"
      using i by (auto simp: in_set_conv_nth)
    ultimately show ?thesis using Some i(3) by fastforce
  qed
qed simp

theorem FindScheduleConflict_spec_witness:
  "(let a = \<lparr>mtg_ID = 1, mtg_SectionID = 1, mtg_Weekday = 1, mtg_StartMinute = 480,
             mtg_EndMinute = 580, mtg_Room = ''N201''\<rparr>;
        b = \<lparr>mtg_ID = 2, mtg_SectionID = 2, mtg_Weekday = 1, mtg_StartMinute = 570,
             mtg_EndMinute = 600, mtg_Room = ''E105''\<rparr>
    in FindScheduleConflict [a] [b] = Some (a, b) \<and> Overlaps a b)"
proof -
  let ?a = "\<lparr>mtg_ID = 1, mtg_SectionID = 1, mtg_Weekday = 1, mtg_StartMinute = 480,
             mtg_EndMinute = 580, mtg_Room = ''N201''\<rparr>" and
    ?b = "\<lparr>mtg_ID = 2, mtg_SectionID = 2, mtg_Weekday = 1, mtg_StartMinute = 570,
             mtg_EndMinute = 600, mtg_Room = ''E105''\<rparr>"
  have f: "FindScheduleConflict [?a] [?b] = Some (?a, ?b)" by code_simp
  have "Overlaps ?a ?b" using FindScheduleConflict_spec [of "[?a]" "[?b]"] unfolding f by simp
  then show ?thesis using f by (simp only: Let_def simp_thms)
qed

end
