(* ===== verification/Enrollment.thy ===== *)
theory Enrollment
  imports Registration Catalog
begin

text \<open>
  Seat claims (\<open>internal/domain/enrollment.go\<close>): the seat life cycle with its time
  stamps, the effect of a move on the seat counter, the credit load, and the eligibility
  rules in the fixed order the code checks them.
\<close>

section \<open>The seat life cycle\<close>

datatype enrollment_status =
    EnrollmentPending | EnrollmentEnrolled | EnrollmentWaitlisted | EnrollmentDropped
  | EnrollmentWithdrawn | EnrollmentCompleted | EnrollmentOther string

fun enrollment_status_text :: "enrollment_status \<Rightarrow> string" where
  "enrollment_status_text EnrollmentPending = ''pending''"
| "enrollment_status_text EnrollmentEnrolled = ''enrolled''"
| "enrollment_status_text EnrollmentWaitlisted = ''waitlisted''"
| "enrollment_status_text EnrollmentDropped = ''dropped''"
| "enrollment_status_text EnrollmentWithdrawn = ''withdrawn''"
| "enrollment_status_text EnrollmentCompleted = ''completed''"
| "enrollment_status_text (EnrollmentOther s) = s"

fun enrollmentTransitions :: "enrollment_status \<Rightarrow> enrollment_status list" where
  "enrollmentTransitions EnrollmentPending =
     [EnrollmentEnrolled, EnrollmentWaitlisted, EnrollmentWithdrawn]"
| "enrollmentTransitions EnrollmentEnrolled = [EnrollmentDropped, EnrollmentCompleted]"
| "enrollmentTransitions EnrollmentWaitlisted = [EnrollmentEnrolled, EnrollmentWithdrawn]"
| "enrollmentTransitions EnrollmentDropped = []"
| "enrollmentTransitions EnrollmentWithdrawn = []"
| "enrollmentTransitions EnrollmentCompleted = []"
| "enrollmentTransitions (EnrollmentOther s) = []"

definition CanTransitionTo :: "enrollment_status \<Rightarrow> enrollment_status \<Rightarrow> bool" where
  "CanTransitionTo s target = list_ex (\<lambda>allowed. allowed = target) (enrollmentTransitions s)"

definition HoldsSeat :: "enrollment_status \<Rightarrow> bool" where
  "HoldsSeat s \<longleftrightarrow> s = EnrollmentEnrolled \<or> s = EnrollmentCompleted"

definition Active :: "enrollment_status \<Rightarrow> bool" where
  "Active s \<longleftrightarrow> s = EnrollmentPending \<or> s = EnrollmentEnrolled \<or> s = EnrollmentWaitlisted"

definition Terminal :: "enrollment_status \<Rightarrow> bool" where
  "Terminal s \<longleftrightarrow> length (enrollmentTransitions s) = 0"

record enrollment =
  enr_ID :: int
  enr_StudentID :: int
  enr_TermID :: int
  enr_SectionID :: int
  enr_CourseCode :: string
  enr_Credits :: int
  enr_Status :: enrollment_status
  enr_WaitlistRank :: int
  enr_RequestedAt :: instant
  enr_DecidedAt :: "instant option"
  enr_ReleasedAt :: "instant option"
  enr_ReleaseReason :: string
  enr_Version :: int
  enr_CreatedAt :: instant
  enr_UpdatedAt :: instant

definition stamp_transition ::
  "enrollment_status \<Rightarrow> instant \<Rightarrow> string \<Rightarrow> enrollment \<Rightarrow> enrollment" where
  \<comment> \<open>the \<open>switch\<close> of \<open>Transition\<close>\<close>
  "stamp_transition target now reason e = (case target of
     EnrollmentEnrolled \<Rightarrow> e\<lparr>enr_DecidedAt := Some now, enr_WaitlistRank := 0\<rparr>
   | EnrollmentWaitlisted \<Rightarrow> e\<lparr>enr_DecidedAt := Some now\<rparr>
   | EnrollmentDropped \<Rightarrow> e\<lparr>enr_ReleasedAt := Some now,
       enr_ReleaseReason := TrimSpace reason, enr_WaitlistRank := 0\<rparr>
   | EnrollmentWithdrawn \<Rightarrow> e\<lparr>enr_ReleasedAt := Some now,
       enr_ReleaseReason := TrimSpace reason, enr_WaitlistRank := 0\<rparr>
   | EnrollmentCompleted \<Rightarrow> e\<lparr>enr_DecidedAt := Some now\<rparr>
   | _ \<Rightarrow> e)"

definition Transition ::
  "enrollment \<Rightarrow> enrollment_status \<Rightarrow> instant \<Rightarrow> string \<Rightarrow> err + enrollment" where
  "Transition e target now reason =
     (if \<not> CanTransitionTo (enr_Status e) target
      then Inl (TransitionError ''enrollment'' (enrollment_status_text (enr_Status e))
        (enrollment_status_text target))
      else Inr ((stamp_transition target now reason e)
        \<lparr>enr_Status := target, enr_UpdatedAt := now\<rparr>))"

definition SeatDelta :: "enrollment_status \<Rightarrow> enrollment_status \<Rightarrow> int" where
  "SeatDelta frm target = (let before = (if HoldsSeat frm then 1 else 0);
     after = (if HoldsSeat target then 1 else 0) in after - before)"

record enrollment_request =
  erq_StudentID :: int
  erq_SectionID :: int
  erq_Reason :: string

definition request_Validate :: "enrollment_request \<Rightarrow> err option" where
  "request_Validate r =
     (if erq_StudentID r \<le> 0 then Some (FieldError ''student_id'' ''must be a positive identifier'')
      else if erq_SectionID r \<le> 0
      then Some (FieldError ''section_id'' ''must be a positive identifier'')
      else None)"

fun credit_total :: "enrollment list \<Rightarrow> int \<Rightarrow> int" where
  "credit_total [] acc = acc"
| "credit_total (r # records) acc =
     credit_total records (if Active (enr_Status r) then acc + enr_Credits r else acc)"

definition CreditLoad :: "enrollment list \<Rightarrow> int" where
  "CreditLoad records = credit_total records 0"

section \<open>Eligibility\<close>

record eligibility_input =
  in_Now :: instant
  in_Term :: academic_term
  in_Section :: course_section
  in_Registration :: registration
  in_CoursePrereqs :: "string list"
  in_CompletedCourses :: "academic_record list"
  in_HeldEnrollments :: "enrollment list"
  in_HeldMeetings :: "meeting list"

record eligibility_decision =
  dec_Waitlist :: bool
  dec_CreditsAfter :: int

fun duplicate_error :: "course_section \<Rightarrow> enrollment list \<Rightarrow> err option" where
  \<comment> \<open>the loop over the held enrollments\<close>
  "duplicate_error s [] = None"
| "duplicate_error s (held # rest) =
     (if \<not> Active (enr_Status held) then duplicate_error s rest
      else if enr_SectionID held = sec_ID s then Some (Sentinel ErrDuplicateEnrollment)
      else if enr_CourseCode held \<noteq> [] \<and> enr_CourseCode held = sec_CourseCode s
      then Some (ConflictError (Sentinel ErrDuplicateEnrollment)
        (''course '' @ sec_CourseCode s) (''section '' @ enr_CourseCode held))
      else duplicate_error s rest)"

definition seat_or_waitlist :: "course_section \<Rightarrow> int \<Rightarrow> err + eligibility_decision" where
  \<comment> \<open>the last rule: capacity, then room on the waitlist\<close>
  "seat_or_waitlist s creditsAfter =
     (if SeatsAvailable s \<le> 0 then
        (if sec_WaitlistLimit s \<le> 0 \<or> sec_WaitlistLength s \<ge> sec_WaitlistLimit s
         then Inl (Sentinel ErrWaitlistFull)
         else Inr \<lparr>dec_Waitlist = True, dec_CreditsAfter = creditsAfter\<rparr>)
      else Inr \<lparr>dec_Waitlist = False, dec_CreditsAfter = creditsAfter\<rparr>)"

definition CheckEnrollmentEligibility ::
  "eligibility_input \<Rightarrow> err + eligibility_decision" where
  "CheckEnrollmentEligibility i = (let s = in_Section i in
     if \<not> EnrollmentOpen (in_Term i) (in_Now i) then Inl (Sentinel ErrEnrollmentWindowClosed)
     else if \<not> Verified (in_Registration i) then Inl (Sentinel ErrRegistrationIncomplete)
     else if \<not> AcceptsEnrollment s
     then Inl (ConflictError (Sentinel ErrConflict) (''section '' @ sec_Code s)
       (''status '' @ section_status_text (sec_Status s)))
     else case duplicate_error s (in_HeldEnrollments i) of Some e \<Rightarrow> Inl e
     | None \<Rightarrow>
       (let missing = MissingPrerequisites (in_CoursePrereqs i) (in_CompletedCourses i) in
        if length missing > 0
        then Inl (ConflictError (Sentinel ErrPrerequisiteMissing)
          (''course '' @ sec_CourseCode s) (string_join '','' missing))
        else (let creditsAfter = CreditLoad (in_HeldEnrollments i) + sec_CourseCredits s in
          if creditsAfter > trm_CreditLimit (in_Term i) then Inl (Sentinel ErrCreditLimitExceeded)
          else case FindScheduleConflict (sec_Meetings s) (in_HeldMeetings i) of
            Some (candidate, held) \<Rightarrow>
              Inl (ConflictError (Sentinel ErrScheduleConflict)
                (meeting_Label candidate) (meeting_Label held))
          | None \<Rightarrow> seat_or_waitlist s creditsAfter)))"

section \<open>Facts\<close>

lemmas status_defs = HoldsSeat_def Active_def CanTransitionTo_def Terminal_def

fun lifecycle_rank :: "enrollment_status \<Rightarrow> nat" where
  "lifecycle_rank EnrollmentPending = 0"
| "lifecycle_rank EnrollmentWaitlisted = 1"
| "lifecycle_rank EnrollmentEnrolled = 2"
| "lifecycle_rank _ = 3"

interpretation seat_machine: ranked_lifecycle CanTransitionTo Terminal lifecycle_rank 3
proof unfold_locales
  fix s t
  show "Terminal s \<longleftrightarrow> (\<forall>t. \<not> CanTransitionTo s t)"
    by (cases s) (auto simp: status_defs)
  show "CanTransitionTo s t \<Longrightarrow> lifecycle_rank s < lifecycle_rank t"
    by (cases s) (auto simp: status_defs)
  show "lifecycle_rank s \<le> 3" by (cases s) auto
qed

lemma credit_total_acc:
  "credit_total records acc = acc + sum_list (map enr_Credits
     (filter (\<lambda>r. Active (enr_Status r)) records))"
  by (induction records arbitrary: acc) auto

lemma CreditLoad_eq:
  "CreditLoad records = sum_list (map enr_Credits (filter (\<lambda>r. Active (enr_Status r)) records))"
  by (simp add: CreditLoad_def credit_total_acc)

lemma duplicate_error_None:
  "duplicate_error s held = None \<longleftrightarrow> (\<forall>h \<in> set held. Active (enr_Status h) \<longrightarrow>
     enr_SectionID h \<noteq> sec_ID s \<and> (enr_CourseCode h = [] \<or> enr_CourseCode h \<noteq> sec_CourseCode s))"
  by (induction held) auto

lemma duplicate_error_kind:
  "duplicate_error s held = Some e \<Longrightarrow> errors_Is e ErrDuplicateEnrollment"
  by (induction held) (auto split: if_splits)

lemma Transition_Inr:
  assumes "Transition e target now reason = Inr e'"
  shows "CanTransitionTo (enr_Status e) target" "enr_Status e' = target"
    "enr_ID e' = enr_ID e" "enr_StudentID e' = enr_StudentID e" "enr_TermID e' = enr_TermID e"
    "enr_SectionID e' = enr_SectionID e" "enr_CourseCode e' = enr_CourseCode e"
    "enr_Credits e' = enr_Credits e" "enr_Version e' = enr_Version e"
    "enr_RequestedAt e' = enr_RequestedAt e" "enr_UpdatedAt e' = now"
    "enr_CreatedAt e' = enr_CreatedAt e"
  using assms
  by (auto simp: Transition_def stamp_transition_def split: if_splits enrollment_status.splits)

text \<open>A seat claim makes at most three moves in its life, never returns to a state it left, and
  a terminal one makes none.\<close>

theorem seat_lifecycle_finite:
  assumes "moves CanTransitionTo s ts"
  shows "length ts \<le> 3 \<and> s \<notin> set ts \<and> (Terminal s \<longrightarrow> ts = [])"
  using seat_machine.moves_bounded [OF assms] seat_machine.no_return [OF assms]
    seat_machine.terminal_stays assms by auto

theorem seat_lifecycle_finite_witness:
  "length [EnrollmentWaitlisted, EnrollmentEnrolled, EnrollmentDropped] \<le> 3
    \<and> EnrollmentPending \<notin> set [EnrollmentWaitlisted, EnrollmentEnrolled, EnrollmentDropped]"
proof -
  have "moves CanTransitionTo EnrollmentPending
      [EnrollmentWaitlisted, EnrollmentEnrolled, EnrollmentDropped]"
    by (simp add: CanTransitionTo_def)
  from seat_lifecycle_finite [OF this] show ?thesis by blast
qed

text \<open>the time stamps follow the state: a claim that leaves the plan carries its release time,
  and only a waitlisted claim keeps a rank.\<close>

theorem Transition_stamps:
  assumes "Transition e target now reason = Inr e'"
  shows "enr_UpdatedAt e' = now
    \<and> (target \<in> {EnrollmentDropped, EnrollmentWithdrawn} \<longrightarrow>
        enr_ReleasedAt e' = Some now \<and> enr_ReleaseReason e' = TrimSpace reason \<and> enr_WaitlistRank e' = 0)
    \<and> (target = EnrollmentEnrolled \<longrightarrow> enr_DecidedAt e' = Some now \<and> enr_WaitlistRank e' = 0)
    \<and> (target = EnrollmentWaitlisted \<longrightarrow> enr_DecidedAt e' = Some now
        \<and> enr_WaitlistRank e' = enr_WaitlistRank e)
    \<and> (target \<notin> {EnrollmentDropped, EnrollmentWithdrawn} \<longrightarrow> enr_ReleasedAt e' = enr_ReleasedAt e)"
  using assms
  by (auto simp: Transition_def stamp_transition_def split: if_splits enrollment_status.splits)

definition sample_enrollment :: enrollment where
  "sample_enrollment = \<lparr>enr_ID = 1, enr_StudentID = 7, enr_TermID = 1, enr_SectionID = 3,
     enr_CourseCode = ''CS110'', enr_Credits = 4, enr_Status = EnrollmentEnrolled,
     enr_WaitlistRank = 0, enr_RequestedAt = 0, enr_DecidedAt = Some 0, enr_ReleasedAt = None,
     enr_ReleaseReason = [], enr_Version = 1, enr_CreatedAt = 0, enr_UpdatedAt = 0\<rparr>"

theorem Transition_stamps_witness:
  "\<exists>e'. Transition sample_enrollment EnrollmentDropped 5 '' moved '' = Inr e'
    \<and> enr_ReleasedAt e' = Some 5 \<and> enr_ReleaseReason e' = ''moved''"
proof -
  obtain e' where e': "Transition sample_enrollment EnrollmentDropped 5 '' moved '' = Inr e'"
    by (simp add: Transition_def sample_enrollment_def CanTransitionTo_def)
  have "TrimSpace '' moved '' = ''moved''" by code_simp
  then show ?thesis using Transition_stamps [OF e'] e' by auto
qed

lemma CheckEnrollmentEligibility_Inr:
  "CheckEnrollmentEligibility i = Inr d \<longleftrightarrow>
     EnrollmentOpen (in_Term i) (in_Now i)
     \<and> Verified (in_Registration i)
     \<and> sec_Status (in_Section i) = SectionOpen
     \<and> (\<forall>h \<in> set (in_HeldEnrollments i). Active (enr_Status h) \<longrightarrow>
          enr_SectionID h \<noteq> sec_ID (in_Section i)
          \<and> (enr_CourseCode h = [] \<or> enr_CourseCode h \<noteq> sec_CourseCode (in_Section i)))
     \<and> MissingPrerequisites (in_CoursePrereqs i) (in_CompletedCourses i) = []
     \<and> dec_CreditsAfter d = CreditLoad (in_HeldEnrollments i) + sec_CourseCredits (in_Section i)
     \<and> dec_CreditsAfter d \<le> trm_CreditLimit (in_Term i)
     \<and> (\<forall>c \<in> set (sec_Meetings (in_Section i)). \<forall>h \<in> set (in_HeldMeetings i). \<not> Overlaps c h)
     \<and> (dec_Waitlist d \<longleftrightarrow> sec_SeatsTaken (in_Section i) \<ge> sec_Capacity (in_Section i))
     \<and> (dec_Waitlist d \<longrightarrow> 0 < sec_WaitlistLimit (in_Section i)
          \<and> sec_WaitlistLength (in_Section i) < sec_WaitlistLimit (in_Section i))"
proof -
  have seat: "seat_or_waitlist s c = Inr d \<longleftrightarrow> dec_CreditsAfter d = c
      \<and> (dec_Waitlist d \<longleftrightarrow> sec_SeatsTaken s \<ge> sec_Capacity s)
      \<and> (dec_Waitlist d \<longrightarrow> 0 < sec_WaitlistLimit s \<and> sec_WaitlistLength s < sec_WaitlistLimit s)"
    for s c
    by (cases d) (auto simp: seat_or_waitlist_def SeatsAvailable_def Let_def)
  show ?thesis
    unfolding CheckEnrollmentEligibility_def Let_def AcceptsEnrollment_def
      duplicate_error_None [symmetric] FindScheduleConflict_None [symmetric]
    by (auto simp: seat split: option.splits)
qed

text \<open>C11: a claim is admitted exactly when every rule holds, and it goes to the waitlist exactly when
  no seat is free.\<close>

theorem eligibility_admits_iff:
  "CheckEnrollmentEligibility i = Inr d \<longleftrightarrow>
     EnrollmentOpen (in_Term i) (in_Now i)
     \<and> Verified (in_Registration i)
     \<and> sec_Status (in_Section i) = SectionOpen
     \<and> (\<forall>h \<in> set (in_HeldEnrollments i). Active (enr_Status h) \<longrightarrow>
          enr_SectionID h \<noteq> sec_ID (in_Section i)
          \<and> (enr_CourseCode h = [] \<or> enr_CourseCode h \<noteq> sec_CourseCode (in_Section i)))
     \<and> MissingPrerequisites (in_CoursePrereqs i) (in_CompletedCourses i) = []
     \<and> dec_CreditsAfter d = CreditLoad (in_HeldEnrollments i) + sec_CourseCredits (in_Section i)
     \<and> dec_CreditsAfter d \<le> trm_CreditLimit (in_Term i)
     \<and> (\<forall>c \<in> set (sec_Meetings (in_Section i)). \<forall>h \<in> set (in_HeldMeetings i). \<not> Overlaps c h)
     \<and> (dec_Waitlist d \<longleftrightarrow> sec_SeatsTaken (in_Section i) \<ge> sec_Capacity (in_Section i))
     \<and> (dec_Waitlist d \<longrightarrow> 0 < sec_WaitlistLimit (in_Section i)
          \<and> sec_WaitlistLength (in_Section i) < sec_WaitlistLimit (in_Section i))"
  by (rule CheckEnrollmentEligibility_Inr)

definition sample_input :: eligibility_input where
  \<comment> \<open>a verified student without claims asks for a seat of an open section\<close>
  "sample_input = \<lparr>in_Now = 5,
     in_Term = \<lparr>trm_ID = 1, trm_Code = ''2026-autumn'', trm_Name = ''Autumn'', trm_EnrollmentOpensAt = 0,
       trm_EnrollmentClosesAt = 10, trm_AddDropClosesAt = 20, trm_CreditLimit = 18, trm_Archived = False\<rparr>,
     in_Section = \<lparr>sec_ID = 1, sec_TermID = 1, sec_CourseID = 1, sec_CourseCode = ''CS110'', sec_CourseCredits = 4,
       sec_Code = ''CS110-01'', sec_Status = SectionOpen, sec_Capacity = 1, sec_SeatsTaken = 1,
       sec_WaitlistLimit = 2, sec_WaitlistLength = 1, sec_Instructor = ''Lin'', sec_Version = 1, sec_Meetings = [],
       sec_UpdatedAt = 0\<rparr>,
     in_Registration = sample_registration\<lparr>reg_Status := RegistrationVerified\<rparr>, in_CoursePrereqs = [],
     in_CompletedCourses = [], in_HeldEnrollments = [], in_HeldMeetings = []\<rparr>"

theorem eligibility_admits_iff_witness:
  "CheckEnrollmentEligibility sample_input = Inr \<lparr>dec_Waitlist = True, dec_CreditsAfter = 4\<rparr>"
  unfolding eligibility_admits_iff
  by (simp add: sample_input_def EnrollmentOpen_def Verified_def MissingPrerequisites_def CreditLoad_def)

text \<open>C12: the rules are checked in the order of the business rules, so the code reported is that of
  the first rule that fails.\<close>

theorem eligibility_error_order:
  "(case CheckEnrollmentEligibility i of Inr d \<Rightarrow> True | Inl e \<Rightarrow> Code (Some e) =
     (if \<not> EnrollmentOpen (in_Term i) (in_Now i) then ''enrollment_window_closed''
      else if \<not> Verified (in_Registration i) then ''registration_incomplete''
      else if sec_Status (in_Section i) \<noteq> SectionOpen then ''conflict''
      else if duplicate_error (in_Section i) (in_HeldEnrollments i) \<noteq> None
      then ''duplicate_enrollment''
      else if MissingPrerequisites (in_CoursePrereqs i) (in_CompletedCourses i) \<noteq> []
      then ''prerequisite_missing''
      else if trm_CreditLimit (in_Term i)
        < CreditLoad (in_HeldEnrollments i) + sec_CourseCredits (in_Section i)
      then ''credit_limit_exceeded''
      else if FindScheduleConflict (sec_Meetings (in_Section i)) (in_HeldMeetings i) \<noteq> None
      then ''schedule_conflict''
      else ''waitlist_full''))"
proof -
  have codes: "Code (Some (Sentinel ErrEnrollmentWindowClosed)) = ''enrollment_window_closed''"
    "Code (Some (Sentinel ErrRegistrationIncomplete)) = ''registration_incomplete''"
    "Code (Some (Sentinel ErrConflict)) = ''conflict''"
    "Code (Some (Sentinel ErrDuplicateEnrollment)) = ''duplicate_enrollment''"
    "Code (Some (Sentinel ErrPrerequisiteMissing)) = ''prerequisite_missing''"
    "Code (Some (Sentinel ErrCreditLimitExceeded)) = ''credit_limit_exceeded''"
    "Code (Some (Sentinel ErrScheduleConflict)) = ''schedule_conflict''"
    "Code (Some (Sentinel ErrWaitlistFull)) = ''waitlist_full''"
    by (simp_all add: Code_def)
  have dup: "Code (Some e) = ''duplicate_enrollment''" if "duplicate_error s held = Some e" for s held e
    using that by (induction held) (auto simp: codes split: if_splits)
  show ?thesis
    unfolding CheckEnrollmentEligibility_def Let_def AcceptsEnrollment_def seat_or_waitlist_def
    by (simp add: codes dup split: option.split)
qed

end
