(* ===== verification/Table.thy ===== *)
theory Table
  imports Prelude
begin

text \<open>
  A relational table with an \<open>INTEGER PRIMARY KEY AUTOINCREMENT\<close> column: its rows in
  insertion order and the highest key ever given. A statement is a function on this state;
  the locale \<open>id_table\<close> states what makes the key column a key, and every table of the
  schema interprets it.
\<close>

section \<open>Statements\<close>

record 'r table =
  tbl_rows :: "'r list"
  tbl_seq :: int

definition empty_table :: "'r table" where
  "empty_table = \<lparr>tbl_rows = [], tbl_seq = 0\<rparr>"

definition table_insert :: "(int \<Rightarrow> 'r \<Rightarrow> 'r) \<Rightarrow> 'r \<Rightarrow> 'r table \<Rightarrow> 'r table" where
  \<comment> \<open>\<open>INSERT\<close>: the key column takes the next value of the sequence\<close>
  "table_insert set_id r t =
     \<lparr>tbl_rows = tbl_rows t @ [set_id (tbl_seq t + 1) r], tbl_seq = tbl_seq t + 1\<rparr>"

definition table_update :: "('r \<Rightarrow> bool) \<Rightarrow> ('r \<Rightarrow> 'r) \<Rightarrow> 'r table \<Rightarrow> 'r table" where
  \<comment> \<open>\<open>UPDATE ... SET f WHERE P\<close>\<close>
  "table_update P f t = t\<lparr>tbl_rows := map (\<lambda>r. if P r then f r else r) (tbl_rows t)\<rparr>"

definition table_delete :: "('r \<Rightarrow> bool) \<Rightarrow> 'r table \<Rightarrow> 'r table" where
  "table_delete P t = t\<lparr>tbl_rows := filter (\<lambda>r. \<not> P r) (tbl_rows t)\<rparr>"

definition count_where :: "('r \<Rightarrow> bool) \<Rightarrow> 'r table \<Rightarrow> int" where
  \<comment> \<open>\<open>SELECT COUNT(*) ... WHERE P\<close>, and the affected rows of an \<open>UPDATE\<close>\<close>
  "count_where P t = int (length (filter P (tbl_rows t)))"

definition select_where :: "('r \<Rightarrow> bool) \<Rightarrow> 'r table \<Rightarrow> 'r list" where
  "select_where P t = filter P (tbl_rows t)"

definition first_where :: "('r \<Rightarrow> bool) \<Rightarrow> 'r table \<Rightarrow> 'r option" where
  \<comment> \<open>the row \<open>QueryRow\<close> scans\<close>
  "first_where P t = find P (tbl_rows t)"

definition exists_where :: "('r \<Rightarrow> bool) \<Rightarrow> 'r table \<Rightarrow> bool" where
  "exists_where P t = list_ex P (tbl_rows t)"

section \<open>Ordering clauses\<close>

fun by_keys :: "('r \<Rightarrow> 'r \<Rightarrow> bool) list \<Rightarrow> 'r \<Rightarrow> 'r \<Rightarrow> bool" where
  \<comment> \<open>\<open>ORDER BY k1, k2, ...\<close>: a later key decides between rows the earlier ones hold equal\<close>
  "by_keys [] a b = True"
| "by_keys (le # les) a b = (if le a b \<and> le b a then by_keys les a b else le a b)"

definition asc :: "('r \<Rightarrow> 'k::ord) \<Rightarrow> 'r \<Rightarrow> 'r \<Rightarrow> bool" where
  "asc key a b \<longleftrightarrow> key a \<le> key b"

definition desc :: "('r \<Rightarrow> 'r \<Rightarrow> bool) \<Rightarrow> 'r \<Rightarrow> 'r \<Rightarrow> bool" where
  "desc le a b \<longleftrightarrow> le b a"

definition in_order :: "bool \<Rightarrow> ('r \<Rightarrow> 'r \<Rightarrow> bool) \<Rightarrow> 'r \<Rightarrow> 'r \<Rightarrow> bool" where
  "in_order descending le = (if descending then desc le else le)"

section \<open>Facts\<close>

lemma exists_where_iff: "exists_where P t \<longleftrightarrow> (\<exists>r \<in> set (tbl_rows t). P r)"
  by (auto simp: exists_where_def list_ex_iff)

lemma set_select_where [simp]: "set (select_where P t) = {r \<in> set (tbl_rows t). P r}"
  by (simp add: select_where_def)

lemma count_where_pos: "0 < count_where P t \<longleftrightarrow> (\<exists>r \<in> set (tbl_rows t). P r)"
  by (auto simp: count_where_def filter_empty_conv)

lemma count_where_zero: "count_where P t = 0 \<longleftrightarrow> (\<forall>r \<in> set (tbl_rows t). \<not> P r)"
  by (auto simp: count_where_def filter_empty_conv)

lemma count_where_nonneg [simp]: "0 \<le> count_where P t"
  by (simp add: count_where_def)

lemma first_where_Some: "first_where P t = Some r \<Longrightarrow> r \<in> set (tbl_rows t) \<and> P r"
  by (auto simp: first_where_def dest: find_Some_iff_set)

lemma first_where_None: "first_where P t = None \<longleftrightarrow> (\<forall>r \<in> set (tbl_rows t). \<not> P r)"
  by (simp add: first_where_def find_None_set)

lemma set_rows_update [simp]:
  "set (tbl_rows (table_update P f t)) = (\<lambda>r. if P r then f r else r) ` set (tbl_rows t)"
  by (simp add: table_update_def)

lemma count_where_insert:
  "count_where P (table_insert set_id r t)
     = count_where P t + (if P (set_id (tbl_seq t + 1) r) then 1 else 0)"
  by (simp add: count_where_def table_insert_def)

lemma count_where_update_other:
  assumes "\<And>r. r \<in> set (tbl_rows t) \<Longrightarrow> P r \<Longrightarrow> Q (f r) = Q r"
  shows "count_where Q (table_update P f t) = count_where Q t"
  using filter_map_if_other [of "tbl_rows t" P Q f] assms
  by (simp add: count_where_def table_update_def)

lemma length_filter_update_unique:
  assumes "distinct (map key xs)" "x \<in> set xs"
  shows "int (length (filter Q (map (\<lambda>r. if key r = key x then f r else r) xs)))
    = int (length (filter Q xs)) + (if Q (f x) then 1 else 0) - (if Q x then 1 else 0)"
  using assms
proof (induction xs)
  case (Cons y xs)
  show ?case
  proof (cases "y = x")
    case True
    then have "key r \<noteq> key x" if "r \<in> set xs" for r
      using Cons.prems(1) that by (metis distinct.simps(2) image_eqI list.simps(9) set_map)
    then have "map (\<lambda>r. if key r = key x then f r else r) xs = xs"
      by (intro map_idI) simp
    then show ?thesis using True by (simp del: filter_map length_filter_map)
  next
    case False
    then have x: "x \<in> set xs" using Cons.prems(2) by simp
    then have "key y \<noteq> key x" using Cons.prems(1) by auto
    have "int (length (filter Q (map (\<lambda>r. if key r = key x then f r else r) xs)))
      = int (length (filter Q xs)) + (if Q (f x) then 1 else 0) - (if Q x then 1 else 0)"
      by (rule Cons.IH) (use Cons.prems(1) x in simp_all)
    then show ?thesis using \<open>key y \<noteq> key x\<close>
      by (cases "Q (f x)"; cases "Q x") (simp_all del: filter_map length_filter_map)
  qed
qed simp

lemma find_distinct_key:
  assumes "distinct (map key xs)" "x \<in> set xs"
  shows "find (\<lambda>r. key r = key x) xs = Some x"
  using assms
proof (induction xs)
  case (Cons y xs)
  then show ?case by (cases "y = x") auto
qed simp

definition total_preorder :: "('r \<Rightarrow> 'r \<Rightarrow> bool) \<Rightarrow> bool" where
  "total_preorder le \<longleftrightarrow> (\<forall>x y. le x y \<or> le y x) \<and> (\<forall>x y z. le x y \<longrightarrow> le y z \<longrightarrow> le x z)"

lemma total_preorder_orders: "total_preorder le \<Longrightarrow> orders le A"
  by (auto simp: total_preorder_def orders_def)

lemma total_preorder_asc [simp]: "total_preorder (asc (key :: 'r \<Rightarrow> 'k::linorder))"
  by (auto simp: total_preorder_def asc_def)

lemma total_preorder_desc [simp]: "total_preorder le \<Longrightarrow> total_preorder (desc le)"
  by (auto simp: total_preorder_def desc_def)

lemma total_preorder_in_order [simp]: "total_preorder le \<Longrightarrow> total_preorder (in_order d le)"
  by (simp add: in_order_def)

lemma total_preorder_by_keys:
  "\<forall>le \<in> set les. total_preorder le \<Longrightarrow> total_preorder (by_keys les)"
proof (induction les)
  case Nil
  then show ?case by (simp add: total_preorder_def)
next
  case (Cons le les)
  then have "total_preorder le" "total_preorder (by_keys les)" by simp_all
  then show ?case by (simp add: total_preorder_def) blast
qed

lemma sorted_order_by_keys:
  "\<forall>le \<in> set les. total_preorder le \<Longrightarrow> sorted_wrt (by_keys les) (order_by (by_keys les) xs)"
  by (intro sorted_order_by total_preorder_orders total_preorder_by_keys)

section \<open>The key column\<close>

locale id_table =
  fixes get_id :: "'r \<Rightarrow> int" and set_id :: "int \<Rightarrow> 'r \<Rightarrow> 'r"
  assumes get_set: "get_id (set_id i r) = i"
begin

definition keyed :: "'r table \<Rightarrow> bool" where
  \<comment> \<open>keys are distinct and lie between 1 and the sequence\<close>
  "keyed t \<longleftrightarrow> distinct (map get_id (tbl_rows t)) \<and> 0 \<le> tbl_seq t
     \<and> (\<forall>r \<in> set (tbl_rows t). 1 \<le> get_id r \<and> get_id r \<le> tbl_seq t)"

lemma keyed_empty: "keyed empty_table"
  by (simp add: keyed_def empty_table_def)

lemma keyed_insert: "keyed t \<Longrightarrow> keyed (table_insert set_id r t)"
  by (fastforce simp: keyed_def table_insert_def get_set)

lemma keyed_update:
  assumes "keyed t" "\<And>r. get_id (f r) = get_id r"
  shows "keyed (table_update P f t)"
proof -
  have "get_id \<circ> (\<lambda>r. if P r then f r else r) = get_id"
    using assms(2) by auto
  then have "map get_id (tbl_rows (table_update P f t)) = map get_id (tbl_rows t)"
    by (simp add: table_update_def)
  moreover have "tbl_seq (table_update P f t) = tbl_seq t" by (simp add: table_update_def)
  ultimately show ?thesis
    using assms by (auto simp: keyed_def)
qed

lemma keyed_delete: "keyed t \<Longrightarrow> keyed (table_delete P t)"
  by (auto simp: keyed_def table_delete_def distinct_map_filter)

lemma by_id_unique:
  "keyed t \<Longrightarrow> r \<in> set (tbl_rows t) \<Longrightarrow> s \<in> set (tbl_rows t) \<Longrightarrow> get_id r = get_id s \<Longrightarrow> r = s"
  by (auto simp: keyed_def distinct_map dest: inj_onD)

lemma first_by_id:
  "keyed t \<Longrightarrow> r \<in> set (tbl_rows t) \<Longrightarrow> first_where (\<lambda>r'. get_id r' = get_id r) t = Some r"
  by (simp add: keyed_def first_where_def find_distinct_key)

lemma first_by_id_iff:
  assumes "keyed t"
  shows "first_where (\<lambda>r. get_id r = i) t = Some r \<longleftrightarrow> r \<in> set (tbl_rows t) \<and> get_id r = i"
  using first_by_id [OF assms] by (auto dest: first_where_Some)

lemma count_update_one:
  assumes "keyed t" "r \<in> set (tbl_rows t)"
    and "\<And>s. s \<in> set (tbl_rows t) \<Longrightarrow> P s \<longleftrightarrow> get_id s = get_id r"
  shows "count_where Q (table_update P f t)
    = count_where Q t + (if Q (f r) then 1 else 0) - (if Q r then 1 else 0)"
proof -
  have "map (\<lambda>s. if P s then f s else s) (tbl_rows t)
      = map (\<lambda>s. if get_id s = get_id r then f s else s) (tbl_rows t)"
    using assms(3) by simp
  then have "count_where Q (table_update P f t) = int (length (filter Q
      (map (\<lambda>s. if get_id s = get_id r then f s else s) (tbl_rows t))))"
    by (simp add: count_where_def table_update_def del: filter_map length_filter_map map_eq_conv)
  also have "\<dots> = count_where Q t + (if Q (f r) then 1 else 0) - (if Q r then 1 else 0)"
    unfolding count_where_def
    by (rule length_filter_update_unique) (use assms(1,2) in \<open>simp_all add: keyed_def\<close>)
  finally show ?thesis .
qed

lemma fresh_id: "keyed t \<Longrightarrow> r \<in> set (tbl_rows t) \<Longrightarrow> get_id r < tbl_seq t + 1"
  by (auto simp: keyed_def)

lemma first_insert_new:
  assumes "keyed t"
  shows "first_where (\<lambda>r'. get_id r' = tbl_seq t + 1) (table_insert set_id r t)
    = Some (set_id (tbl_seq t + 1) r)"
proof -
  have "set_id (tbl_seq t + 1) r \<in> set (tbl_rows (table_insert set_id r t))"
    by (simp add: table_insert_def)
  from first_by_id [OF keyed_insert [OF assms] this] show ?thesis by (simp add: get_set)
qed

end

end
