(* ===== verification/TimeText.thy ===== *)
theory TimeText
  imports Prelude
begin

text \<open>
  Stored timestamps (\<open>formatTime\<close> of \<open>internal/storage/sqlite/db.go\<close>).

  Every instant is stored as the text \<open>time.RFC3339Nano\<close> gives it in UTC, and the SQL of the
  store compares those texts. The calendar is the proleptic Gregorian one of package
  \<open>time\<close>. \<open>time_text_le\<close> is the comparison the database makes; the lemmas say where it
  agrees with the order of the instants: always across different seconds of the years 0 to
  9999, but not inside one second, because \<open>RFC3339Nano\<close> drops the trailing zeros of the
  fraction.
\<close>

section \<open>Calendar\<close>

definition days_before_year :: "int \<Rightarrow> int" where
  \<comment> \<open>days from 0000-01-01 to the first of January of year \<open>y\<close>\<close>
  "days_before_year y = 365 * y + (y + 3) div 4 - (y + 99) div 100 + (y + 399) div 400"

definition leap_year :: "int \<Rightarrow> bool" where
  "leap_year y \<longleftrightarrow> y mod 4 = 0 \<and> (y mod 100 \<noteq> 0 \<or> y mod 400 = 0)"

definition year_of_day :: "int \<Rightarrow> int" where
  "year_of_day n = (let y = 400 * n div 146097 in
     if days_before_year (y + 1) \<le> n then y + 1
     else if n < days_before_year y then y - 1 else y)"

definition month_day :: "bool \<Rightarrow> int \<Rightarrow> int \<times> int" where
  \<comment> \<open>month and day of month of the day \<open>d\<close> of a year, counted from 0\<close>
  "month_day leap d = (let l = (if leap then 1 else 0) in
     if d < 31 then (1, d + 1)
     else if d < 59 + l then (2, d - 30)
     else if d < 90 + l then (3, d - 58 - l)
     else if d < 120 + l then (4, d - 89 - l)
     else if d < 151 + l then (5, d - 119 - l)
     else if d < 181 + l then (6, d - 150 - l)
     else if d < 212 + l then (7, d - 180 - l)
     else if d < 243 + l then (8, d - 211 - l)
     else if d < 273 + l then (9, d - 242 - l)
     else if d < 304 + l then (10, d - 272 - l)
     else if d < 334 + l then (11, d - 303 - l)
     else (12, d - 333 - l))"

definition epoch_day :: int where "epoch_day = 719528"

section \<open>RFC 3339 text\<close>

definition two_digits :: "int \<Rightarrow> string" where
  "two_digits n = [digit (nat n div 10), digit (nat n)]"

definition four_digits :: "int \<Rightarrow> string" where
  \<comment> \<open>the year, at least four digits wide\<close>
  "four_digits n = (let m = nat \<bar>n\<bar> in
     (if n < 0 then ''-'' else '''') @
     (if m < 10000 then [digit (m div 1000), digit (m div 100), digit (m div 10), digit m]
      else utoa m))"

definition nano_digits :: "int \<Rightarrow> string" where
  "nano_digits ns = map (\<lambda>k. digit (nat ns div 10 ^ k)) (rev [0..<9])"

definition trim_zeros :: "string \<Rightarrow> string" where
  "trim_zeros ds = rev (dropWhile (\<lambda>c. c = CHR ''0'') (rev ds))"

definition fraction_text :: "int \<Rightarrow> string" where
  "fraction_text ns = (if ns = 0 then '''' else CHR ''.'' # trim_zeros (nano_digits ns))"

definition date_text :: "int \<Rightarrow> string" where
  "date_text n = (let y = year_of_day n;
       (mo, d) = month_day (leap_year y) (n - days_before_year y)
     in four_digits y @ ''-'' @ two_digits mo @ ''-'' @ two_digits d)"

definition clock_text :: "int \<Rightarrow> string" where
  "clock_text s = two_digits (s div 3600) @ '':'' @ two_digits (s div 60 mod 60)
     @ '':'' @ two_digits (s mod 60)"

definition second_text :: "int \<Rightarrow> string" where
  \<comment> \<open>date and time of a whole second since the epoch\<close>
  "second_text s = date_text (s div 86400 + epoch_day) @ ''T'' @ clock_text (s mod 86400)"

definition formatTime :: "instant \<Rightarrow> string" where
  "formatTime t = second_text (t div 1000000000) @ fraction_text (t mod 1000000000) @ ''Z''"

definition time_text_le :: "instant \<Rightarrow> instant \<Rightarrow> bool" where
  \<comment> \<open>\<open>a <= b\<close> in SQL, on the stored texts\<close>
  "time_text_le a b \<longleftrightarrow> formatTime a \<le> formatTime b"

definition time_text_less :: "instant \<Rightarrow> instant \<Rightarrow> bool" where
  "time_text_less a b \<longleftrightarrow> formatTime a < formatTime b"

definition storable :: "instant \<Rightarrow> bool" where
  \<comment> \<open>the instants of the years 0 to 9999\<close>
  "storable t \<longleftrightarrow> - 62167219200 * 1000000000 \<le> t \<and> t < 253402300800 * 1000000000"

section \<open>The order of the texts\<close>

lemma string_append_less:
  fixes u u' :: string
  assumes "length u = length u'"
  shows "u @ v < u' @ v' \<longleftrightarrow> u < u' \<or> (u = u' \<and> v < v')"
  using assms by (induction u u' rule: list_induct2) auto

lemma digit_code: "of_char (digit n) = (48 + n mod 10 :: nat)"
proof -
  have "n mod 10 = 0 \<or> n mod 10 = 1 \<or> n mod 10 = 2 \<or> n mod 10 = 3 \<or> n mod 10 = 4
    \<or> n mod 10 = 5 \<or> n mod 10 = 6 \<or> n mod 10 = 7 \<or> n mod 10 = 8 \<or> n mod 10 = 9"
    by presburger
  then show ?thesis by (elim disjE) (simp_all add: digit_def)
qed

lemma digit_less: "a < b \<Longrightarrow> b < 10 \<Longrightarrow> digit a < digit b"
  by (simp add: less_char_def digit_code)

lemma digit_mod [simp]: "digit (n mod 10) = digit n"
  by (simp add: digit_def)

lemma digit_le_9: "digit n \<le> CHR ''9''"
  by (simp add: less_eq_char_def digit_code)

lemma div_mod_less_nat:
  assumes "(a::nat) < b"
  shows "a div n < b div n \<or> (a div n = b div n \<and> a mod n < b mod n)"
proof (cases "a div n = b div n")
  case True
  have "a div n * n + a mod n < b div n * n + b mod n"
    using assms by (simp only: div_mult_mod_eq)
  then have "a mod n < b mod n" unfolding True by (simp only: add_less_cancel_left)
  then show ?thesis using True by simp
next
  case False
  then show ?thesis using div_le_mono [of a b n] assms by simp
qed

lemma div_mod_less_int:
  assumes "(a::int) < b" "0 < n"
  shows "a div n < b div n \<or> (a div n = b div n \<and> a mod n < b mod n)"
proof (cases "a div n = b div n")
  case True
  have "a div n * n + a mod n < b div n * n + b mod n"
    using assms by (simp only: div_mult_mod_eq)
  then have "a mod n < b mod n" unfolding True by (simp only: add_less_cancel_left)
  then show ?thesis using True by simp
next
  case False
  then show ?thesis using zdiv_mono1 [of a b n] assms by simp
qed

lemma two_digits_less:
  assumes "0 \<le> a" "a < b" "b < 100"
  shows "two_digits a < two_digits b"
proof -
  let ?a = "nat a" and ?b = "nat b"
  have lt: "?a < ?b" "?b div 10 < 10" "?b mod 10 < 10" using assms by auto
  from div_mod_less_nat [OF lt(1), of 10] show ?thesis
    using digit_less [OF _ lt(2), of "?a div 10"] digit_less [OF _ lt(3), of "?a mod 10"]
    by (auto simp: two_digits_def)
qed

lemma four_digits_split:
  assumes "0 \<le> n" "n < 10000"
  shows "four_digits n = two_digits (n div 100) @ two_digits (n mod 100)"
proof -
  have n: "nat (n div 100) = nat n div 100" "nat (n mod 100) = nat n mod 100"
    using assms by (simp_all add: nat_div_distrib nat_mod_distrib)
  have d: "k div 100 div 10 = k div 1000" "k mod 100 div 10 mod 10 = k div 10 mod 10"
    "k mod 100 mod 10 = k mod 10" for k :: nat
    using mod_mult2_eq [of k 10 10] by (simp_all add: div_mult2_eq [symmetric] mod_mod_cancel)
  have m: "nat n < 10000" using assms by simp
  show ?thesis
    using assms m by (simp add: four_digits_def two_digits_def n digit_def d Let_def)
qed

lemma length_two_digits [simp]: "length (two_digits n) = 2"
  by (simp add: two_digits_def)

lemma four_digits_less:
  assumes "0 \<le> a" "a < b" "b < 10000"
  shows "four_digits a < four_digits b"
proof -
  have hi: "two_digits (a div 100) < two_digits (b div 100)" if "a div 100 < b div 100"
    using that assms by (intro two_digits_less) auto
  have lo: "two_digits (a mod 100) < two_digits (b mod 100)" if "a mod 100 < b mod 100"
    using that by (intro two_digits_less) auto
  have "a div 100 < b div 100 \<or> (a div 100 = b div 100 \<and> a mod 100 < b mod 100)"
    using assms by (intro div_mod_less_int) auto
  then show ?thesis
    using hi lo assms by (auto simp: four_digits_split string_append_less)
qed

lemma length_clock_text [simp]: "length (clock_text s) = 8"
  by (simp add: clock_text_def)

lemma three_fields_less:
  fixes H :: string
  assumes "length H = length H'" "length M = length M'"
    and "H < H' \<or> (H = H' \<and> (M < M' \<or> (M = M' \<and> S < S')))"
  shows "H @ x @ M @ x @ S < H' @ x @ M' @ x @ S'"
  using assms by (auto simp: string_append_less)

lemma clock_text_less:
  assumes "0 \<le> a" "a < b" "b < 86400"
  shows "clock_text a < clock_text b"
proof -
  have hh: "c div 60 div 60 = c div 3600" for c :: int
    by (simp add: div_mult2_eq [symmetric])
  have sec: "a div 60 < b div 60 \<or> (a div 60 = b div 60 \<and> a mod 60 < b mod 60)"
    using assms by (intro div_mod_less_int) auto
  have mins: "a div 3600 < b div 3600
      \<or> (a div 3600 = b div 3600 \<and> a div 60 mod 60 < b div 60 mod 60)"
    if "a div 60 < b div 60"
    using div_mod_less_int [OF that, of 60] by (simp only: hh)
  have lt: "two_digits (x mod 60) < two_digits (y mod 60)" if "x mod 60 < y mod 60" for x y
    using that by (intro two_digits_less) (auto intro: order_less_trans [OF pos_mod_bound])
  have h: "two_digits (a div 3600) < two_digits (b div 3600)" if "a div 3600 < b div 3600"
    using that assms by (intro two_digits_less) auto
  have eqs: "a div 3600 = b div 3600" "a div 60 mod 60 = b div 60 mod 60" if "a div 60 = b div 60"
    using that hh [of a] hh [of b] by simp_all
  show ?thesis
    unfolding clock_text_def
    by (rule three_fields_less; (simp only: length_two_digits)?)
      (metis sec mins lt h eqs)
qed

lemma ceiling_div_step:
  assumes "0 < (n::int)"
  shows "(y + n) div n = (y + (n - 1)) div n + (if y mod n = 0 then 1 else 0)"
proof -
  have "(y + (n - 1)) div n = (y mod n + (n - 1) + n * (y div n)) div n"
    by (simp add: algebra_simps)
  also have "\<dots> = y div n + (y mod n + (n - 1)) div n"
    using assms by (intro div_mult_self2) simp
  also have "(y mod n + (n - 1)) div n = (if y mod n = 0 then 0 else 1)"
  proof (cases "y mod n = 0")
    case False
    have m: "0 \<le> y mod n" "y mod n < n" using assms by simp_all
    have "0 \<le> y mod n - 1" using m(1) False by linarith
    moreover have "y mod n - 1 < n" using m(2) by linarith
    ultimately have "(y mod n - 1) div n = 0" by (rule div_pos_pos_trivial)
    moreover have "(y mod n - 1 + n) div n = (y mod n - 1) div n + 1"
      using assms by (intro div_add_self2) simp
    ultimately show ?thesis using False by (simp add: algebra_simps)
  qed (use assms in simp)
  finally have "(y + (n - 1)) div n = y div n + (if y mod n = 0 then 0 else 1)" .
  moreover have "(y + n) div n = y div n + 1" using assms by (intro div_add_self2) simp
  ultimately show ?thesis by (simp split: if_split)
qed

lemma days_before_year_step:
  "days_before_year (y + 1) = days_before_year y + (if leap_year y then 366 else 365)"
proof -
  have 4: "(y + 4) div 4 = (y + 3) div 4 + (if y mod 4 = 0 then 1 else 0)"
    using ceiling_div_step [of 4 y] by simp
  have 100: "(y + 100) div 100 = (y + 99) div 100 + (if y mod 100 = 0 then 1 else 0)"
    using ceiling_div_step [of 100 y] by simp
  have 400: "(y + 400) div 400 = (y + 399) div 400 + (if y mod 400 = 0 then 1 else 0)"
    using ceiling_div_step [of 400 y] by simp
  have i: "y mod 100 = 0 \<Longrightarrow> y mod 4 = 0" "y mod 400 = 0 \<Longrightarrow> y mod 100 = 0"
    using mod_mod_cancel [of 4 100 y] mod_mod_cancel [of 100 400 y] by simp_all
  have "days_before_year (y + 1) = 365 * y + 365 + (y + 4) div 4 - (y + 100) div 100 + (y + 400) div 400"
    by (simp add: days_before_year_def algebra_simps)
  also have "\<dots> = 365 * y + (y + 3) div 4 - (y + 99) div 100 + (y + 399) div 400
      + (if leap_year y then 366 else 365)"
  proof -
    have sum: "x + 365 + (a + (if p then 1 else 0)) - (b + (if q then 1 else 0))
          + (c + (if r then 1 else 0))
        = x + a - b + c + (if p \<and> (\<not> q \<or> r) then 366 else (365::int))"
      if "q \<longrightarrow> p" "r \<longrightarrow> q" for p q r x a b c
      using that by (cases p; cases q; cases r; simp)
    show ?thesis
      unfolding 4 100 400 leap_year_def by (rule sum) (use i in blast)+
  qed
  finally show ?thesis by (simp only: days_before_year_def)
qed

lemma days_before_year_bounds:
  "146097 * y - 400 < 400 * days_before_year y \<and> 400 * days_before_year y < 146097 * y + 700"
proof -
  define a b c where abc: "a = (y + 3) div 4" "b = (y + 99) div 100" "c = (y + 399) div 400"
  have m: "x = n * (x div n) + x mod n" "0 \<le> x mod n" "x mod n < n" if "0 < n" for x n :: int
    using that by simp_all
  have "y \<le> 4 * a" "4 * a \<le> y + 3" "y \<le> 100 * b" "100 * b \<le> y + 99"
    "y \<le> 400 * c" "400 * c \<le> y + 399"
    using m [of 4 "y + 3"] m [of 100 "y + 99"] m [of 400 "y + 399"]
    unfolding abc by linarith+
  moreover have "days_before_year y = 365 * y + a - b + c"
    by (simp add: days_before_year_def abc)
  ultimately show ?thesis by linarith
qed

lemma year_of_day_bounds:
  "days_before_year (year_of_day n) \<le> n \<and> n < days_before_year (year_of_day n + 1)"
proof -
  define y where "y = 400 * n div 146097"
  have y: "146097 * y \<le> 400 * n" "400 * n < 146097 * y + 146097"
    using pos_mod_bound [of 146097 "400 * n"] pos_mod_sign [of 146097 "400 * n"]
      div_mult_mod_eq [of "400 * n" 146097]
    unfolding y_def by linarith+
  have b: "146097 * z - 400 < 400 * days_before_year z"
    "400 * days_before_year z < 146097 * z + 700" for z
    using days_before_year_bounds [of z] by simp_all
  have "400 * n < 400 * days_before_year (y + 2)" using y b(1) [of "y + 2"] by (simp add: algebra_simps)
  moreover have "400 * days_before_year (y - 1) \<le> 400 * n" using y b(2) [of "y - 1"] by (simp add: algebra_simps)
  ultimately show ?thesis
    unfolding year_of_day_def y_def [symmetric] Let_def by (auto simp: add.commute)
qed

lemma days_before_year_mono:
  assumes "x \<le> y"
  shows "days_before_year x \<le> days_before_year y"
  using assms
proof (induction y rule: int_ge_induct)
  case (step i)
  then show ?case using days_before_year_step [of i] by (auto split: if_splits)
qed simp

lemma year_of_day_mono:
  assumes "m \<le> n"
  shows "year_of_day m \<le> year_of_day n"
proof (rule ccontr)
  assume "\<not> ?thesis"
  then have "days_before_year (year_of_day n + 1) \<le> days_before_year (year_of_day m)"
    by (intro days_before_year_mono) simp
  then show False
    using year_of_day_bounds [of m] year_of_day_bounds [of n] assms by linarith
qed

lemma month_day_range:
  assumes "0 \<le> d" "d < (if leap then 366 else 365)" "month_day leap d = (m, k)"
  shows "1 \<le> m \<and> m \<le> 12 \<and> 1 \<le> k \<and> k \<le> 31"
  using assms by (auto simp: month_day_def Let_def split: if_splits)

lemma month_day_less:
  assumes "0 \<le> d" "d < e" "e < (if leap then 366 else 365)"
    and "month_day leap d = (m, k)" "month_day leap e = (m', k')"
  shows "m < m' \<or> (m = m' \<and> k < k')"
  using assms unfolding month_day_def Let_def
  by (cases leap) (simp_all split: if_split_asm)

lemma year_of_day_range:
  assumes "0 \<le> n" "n < 3652425"
  shows "0 \<le> year_of_day n \<and> year_of_day n < 10000"
proof -
  have ends: "days_before_year 0 = 0" "days_before_year 10000 = 3652425"
    by (simp_all add: days_before_year_def)
  have "\<not> year_of_day n \<le> - 1"
    using days_before_year_mono [of "year_of_day n + 1" 0] year_of_day_bounds [of n] ends assms
    by linarith
  moreover have "\<not> 10000 \<le> year_of_day n"
    using days_before_year_mono [of 10000 "year_of_day n"] year_of_day_bounds [of n] ends assms
    by linarith
  ultimately show ?thesis by simp
qed

lemma day_in_year:
  "0 \<le> n - days_before_year (year_of_day n)"
  "n - days_before_year (year_of_day n) < (if leap_year (year_of_day n) then 366 else 365)"
  using year_of_day_bounds [of n] days_before_year_step [of "year_of_day n"] by auto

lemma length_date_text:
  assumes "0 \<le> n" "n < 3652425"
  shows "length (date_text n) = 10"
  using year_of_day_range [OF assms]
  by (simp add: date_text_def four_digits_split Let_def split: prod.splits)

lemma date_text_less:
  assumes "0 \<le> m" "m < n" "n < 3652425"
  shows "date_text m < date_text n"
proof -
  let ?y = "year_of_day m" and ?z = "year_of_day n"
  let ?d = "m - days_before_year ?y" and ?e = "n - days_before_year ?z"
  obtain mo k where mo: "month_day (leap_year ?y) ?d = (mo, k)" by fastforce
  obtain no l where no: "month_day (leap_year ?z) ?e = (no, l)" by fastforce
  have y: "0 \<le> ?y" "?y < 10000" "0 \<le> ?z" "?z < 10000" "?y \<le> ?z"
    using assms year_of_day_range [of m] year_of_day_range [of n] year_of_day_mono [of m n] by auto
  have r: "1 \<le> mo" "mo < 100" "1 \<le> k" "k < 100" "1 \<le> no" "no < 100" "1 \<le> l" "l < 100"
    using month_day_range [OF day_in_year mo] month_day_range [OF day_in_year no] by auto
  have len: "length (four_digits ?y) = length (four_digits ?z)"
    using y by (simp add: four_digits_split)
  consider "?y < ?z" | "?y = ?z" "mo < no" | "?y = ?z" "mo = no" "k < l"
  proof (cases "?y < ?z")
    case False
    then have eq: "?y = ?z" using y by simp
    have "mo < no \<or> (mo = no \<and> k < l)"
      using month_day_less [of ?d ?e "leap_year ?z" mo k no l] mo no eq
        day_in_year(1) [of m] day_in_year(2) [of n] assms by simp
    then show ?thesis using that eq by blast
  qed (use that in blast)
  then have "four_digits ?y < four_digits ?z \<or> (four_digits ?y = four_digits ?z \<and>
      (two_digits mo < two_digits no \<or> (two_digits mo = two_digits no \<and> two_digits k < two_digits l)))"
    using four_digits_less [of ?y ?z] two_digits_less [of mo no] two_digits_less [of k l] y r
    by cases auto
  then show ?thesis
    unfolding date_text_def Let_def mo no prod.case
    by (rule three_fields_less [rotated 2]) (use len in simp_all)
qed

lemma second_text_less:
  assumes "- 62167219200 \<le> s" "s < t" "t < 253402300800"
  shows "second_text s < second_text t"
proof -
  let ?m = "s div 86400 + epoch_day" and ?n = "t div 86400 + epoch_day"
  have "- 62167219200 div 86400 \<le> s div 86400" "t div 86400 \<le> 253402300799 div (86400::int)"
    "s div 86400 \<le> t div 86400"
    using assms by (intro zdiv_mono1; simp)+
  then have d: "0 \<le> ?m" "?m < 3652425" "0 \<le> ?n" "?n < 3652425"
    by (simp_all add: epoch_day_def)
  have "s div 86400 < t div 86400 \<or> (s div 86400 = t div 86400 \<and> s mod 86400 < t mod 86400)"
    using assms by (intro div_mod_less_int) auto
  then have "date_text ?m < date_text ?n \<or> (date_text ?m = date_text ?n
      \<and> clock_text (s mod 86400) < clock_text (t mod 86400))"
    using date_text_less [of ?m ?n] clock_text_less [of "s mod 86400" "t mod 86400"] d by auto
  then show ?thesis
    using length_date_text d by (auto simp: second_text_def string_append_less)
qed

lemma length_second_text:
  assumes "- 62167219200 \<le> s" "s < 253402300800"
  shows "length (second_text s) = 19"
proof -
  have "- 62167219200 div 86400 \<le> s div 86400" "s div 86400 \<le> 253402300799 div (86400::int)"
    using assms by (intro zdiv_mono1; simp)+
  then show ?thesis
    using length_date_text [of "s div 86400 + epoch_day"]
    by (simp add: second_text_def epoch_day_def)
qed

lemma storable_second:
  assumes "storable t"
  shows "- 62167219200 \<le> t div 1000000000" "t div 1000000000 < 253402300800"
proof -
  have "- 62167219200 * 1000000000 div 1000000000 \<le> t div 1000000000"
    using assms by (intro zdiv_mono1) (simp_all add: storable_def)
  then show "- 62167219200 \<le> t div 1000000000" by simp
  have "t div 1000000000 \<le> (253402300800 * 1000000000 - 1) div 1000000000"
    using assms by (intro zdiv_mono1) (simp_all add: storable_def)
  then show "t div 1000000000 < 253402300800" by simp
qed

lemma formatTime_less_second:
  assumes "storable a" "storable b" "a div 1000000000 < b div 1000000000"
  shows "formatTime a < formatTime b"
  using second_text_less [of "a div 1000000000" "b div 1000000000"] storable_second assms
  by (simp add: formatTime_def string_append_less length_second_text)

lemma formatTime_same_second:
  assumes "storable a" "a div 1000000000 = b div 1000000000"
  shows "formatTime a < formatTime b \<longleftrightarrow>
    fraction_text (a mod 1000000000) @ ''Z'' < fraction_text (b mod 1000000000) @ ''Z''"
  using assms by (simp add: formatTime_def string_append_less)

subsection \<open>Inside one second\<close>

lemma fraction_text_nonzero:
  assumes "ns \<noteq> 0"
  shows "fraction_text ns @ ''Z'' < ''Z''"
  using assms by (simp add: fraction_text_def less_char_def)

lemma trim_zeros_pad:
  "\<exists>k. ds = trim_zeros ds @ replicate k CHR ''0''"
proof -
  let ?z = "\<lambda>c. c = CHR ''0''"
  have "takeWhile ?z (rev ds) = replicate (length (takeWhile ?z (rev ds))) CHR ''0''"
    by (intro replicate_eqI) (auto dest: set_takeWhileD)
  then obtain k where "takeWhile ?z (rev ds) = replicate k CHR ''0''" by blast
  then have "rev ds = replicate k CHR ''0'' @ dropWhile ?z (rev ds)"
    by (metis takeWhile_dropWhile_id)
  then have "ds = rev (dropWhile ?z (rev ds)) @ replicate k CHR ''0''"
    by (metis rev_append rev_replicate rev_rev_ident)
  then show ?thesis unfolding trim_zeros_def by blast
qed

lemma trim_zeros_inject:
  assumes "trim_zeros ds = trim_zeros es" "length ds = length es"
  shows "ds = es"
proof -
  obtain k l where "ds = trim_zeros ds @ replicate k CHR ''0''"
    "es = trim_zeros es @ replicate l CHR ''0''"
    using trim_zeros_pad by blast
  then show ?thesis using assms
    by (metis add_left_cancel length_append length_replicate)
qed

lemma decimal_digits_unique:
  fixes n m :: nat
  assumes "\<forall>k < K. n div 10 ^ k mod 10 = m div 10 ^ k mod 10" "n < 10 ^ K" "m < 10 ^ K"
  shows "n = m"
  using assms
proof (induction K arbitrary: n m)
  case (Suc K)
  have "\<forall>k < K. n div 10 div 10 ^ k mod 10 = m div 10 div 10 ^ k mod 10"
  proof (intro allI impI)
    fix k
    assume "k < K"
    then have "n div 10 ^ Suc k mod 10 = m div 10 ^ Suc k mod 10"
      using Suc.prems(1) Suc_less_eq by blast
    then show "n div 10 div 10 ^ k mod 10 = m div 10 div 10 ^ k mod 10"
      by (simp only: power_Suc div_mult2_eq)
  qed
  moreover have "n div 10 < 10 ^ K" "m div 10 < 10 ^ K" using Suc.prems(2,3) by auto
  ultimately have "n div 10 = m div 10" by (rule Suc.IH)
  moreover have "n mod 10 = m mod 10" using Suc.prems(1) by (auto dest!: spec [of _ 0])
  ultimately show ?case by (metis div_mult_mod_eq)
qed simp

lemma digit_eq_iff: "digit a = digit b \<longleftrightarrow> a mod 10 = b mod 10"
  by (metis add_left_cancel digit_code digit_mod)

lemma nano_digits_inject:
  assumes "nano_digits a = nano_digits b" "0 \<le> a" "a < 1000000000" "0 \<le> b" "b < 1000000000"
  shows "a = b"
proof -
  have "\<forall>k < 9. nat a div 10 ^ k mod 10 = nat b div 10 ^ k mod 10"
    using assms(1) unfolding nano_digits_def map_eq_conv digit_eq_iff by simp
  then have "nat a = nat b"
    by (rule decimal_digits_unique) (use assms in auto)
  then show ?thesis using assms by simp
qed

lemma fraction_text_inject:
  assumes "fraction_text a = fraction_text b" "0 \<le> a" "a < 1000000000" "0 \<le> b" "b < 1000000000"
  shows "a = b"
proof (cases "a = 0 \<or> b = 0")
  case True
  then show ?thesis using assms(1) by (auto simp: fraction_text_def split: if_split_asm)
next
  case False
  then have "trim_zeros (nano_digits a) = trim_zeros (nano_digits b)"
    using assms(1) by (simp add: fraction_text_def)
  then have "nano_digits a = nano_digits b"
    by (rule trim_zeros_inject) (simp add: nano_digits_def)
  then show ?thesis using assms nano_digits_inject by blast
qed

lemma formatTime_inject:
  assumes "storable a" "storable b" "formatTime a = formatTime b"
  shows "a = b"
proof -
  have sec: "a div 1000000000 = b div 1000000000"
    using formatTime_less_second [OF assms(1,2)] formatTime_less_second [OF assms(2,1)] assms(3)
    by (metis less_irrefl linorder_less_linear)
  then have "a mod 1000000000 = b mod 1000000000"
    using assms(3) by (intro fraction_text_inject) (auto simp: formatTime_def)
  then show ?thesis using sec by (metis div_mult_mod_eq)
qed

section \<open>What the order of the texts is good for\<close>

text \<open>Comparing stored timestamps compares the instants, as long as they fall into different seconds,
  and different instants have different texts.\<close>

theorem stored_times_order:
  assumes "storable a" "storable b"
  shows "(a div Second \<noteq> b div Second \<longrightarrow> (time_text_less a b \<longleftrightarrow> a < b)) \<and> (formatTime a = formatTime b \<longleftrightarrow> a = b)"
proof -
  have "time_text_less a b \<longleftrightarrow> a < b" if "a div Second \<noteq> b div Second"
  proof (cases "a div Second < b div Second")
    case True
    then have "a < b" using zdiv_mono1 [of b a Second] by (fastforce simp: Second_def)
    then show ?thesis using formatTime_less_second [OF assms] True by (simp add: time_text_less_def Second_def)
  next
    case False
    then have lt: "b div Second < a div Second" using that by simp
    then have "b < a" using zdiv_mono1 [of a b Second] by (fastforce simp: Second_def)
    moreover have "formatTime b < formatTime a"
      using formatTime_less_second [OF assms(2,1)] lt by (simp add: Second_def)
    ultimately show ?thesis by (auto simp: time_text_less_def)
  qed
  then show ?thesis using formatTime_inject [OF assms] by blast
qed

theorem stored_times_order_witness: "time_text_less (3 * Second) (5 * Second + 7)"
proof -
  have "storable (3 * Second)" "storable (5 * Second + 7)" "(3 * Second) div Second \<noteq> (5 * Second + 7) div Second"
    by (simp_all add: storable_def Second_def)
  then show ?thesis using stored_times_order [of "3 * Second" "5 * Second + 7"] by (simp add: Second_def)
qed

text \<open>Inside one second the order of the texts is not the order of the instants: every instant with a
  fraction sorts before the full second it follows, because the dot sorts before the final letter.\<close>

theorem stored_times_misordered:
  assumes "storable (s * Second)" "0 < ns" "ns < Second"
  shows "time_text_less (s * Second + ns) (s * Second)"
proof -
  have div: "(s * Second + ns) div 1000000000 = s" "(s * Second) div 1000000000 = s"
    using assms(2,3) by (simp_all add: Second_def)
  then have sto: "storable (s * Second + ns)"
    using assms by (simp add: storable_def Second_def)
  have mod: "(s * Second + ns) mod 1000000000 = ns" "(s * Second) mod 1000000000 = 0"
    using assms(2,3) by (simp_all add: Second_def)
  have "fraction_text 0 = []" by (simp add: fraction_text_def)
  then show ?thesis
    using formatTime_same_second [OF sto, of "s * Second"] div mod fraction_text_nonzero [of ns] assms(2)
    by (simp add: time_text_less_def)
qed

theorem stored_times_misordered_witness: "time_text_less (7 * Second + 500000000) (7 * Second)"
  using stored_times_misordered [of 7 500000000] by (simp add: storable_def Second_def)

end
