(* ===== verification/Store.thy ===== *)
theory Store
  imports AuditTrail Job Enrollment Table TimeText
begin

text \<open>
  The database and the way the program talks to it (\<open>internal/storage/sqlite/db.go\<close>,
  the schema under \<open>internal/migrations/sql\<close>). \<open>tables\<close> is the content of the
  database. \<open>world\<close> adds what a request consults outside it: the clock, the outcome of
  each driver call and of each \<open>ctx.Err()\<close>, each indexed by a counter that advances with
  every consultation. An operation maps a world to an error or a value and the next world.

  \<open>t_migrations\<close> is the table \<open>schema_migrations\<close>, absent at first, and \<open>t_scripts\<close>
  the schema scripts that ran; the statements of the other components run on a migrated database.

  Rows hold instants where the database holds their texts: \<open>formatTime_inject\<close> says that
  the text determines the instant. Comparisons and orderings made in SQL go through the texts
  (\<open>time_text_le\<close>).
\<close>

section \<open>The schema\<close>

record course_row =
  cr_ID :: int
  cr_Code :: string
  cr_Title :: string
  cr_Credits :: int
  cr_Department :: string
  cr_Retired :: bool

record prereq_row =
  pq_CourseID :: int
  pq_RequiredCode :: string
  pq_Ordinal :: int

record section_row =
  sr_ID :: int
  sr_TermID :: int
  sr_CourseID :: int
  sr_Code :: string
  sr_Status :: section_status
  sr_Capacity :: int
  sr_SeatsTaken :: int
  sr_WaitlistLimit :: int
  sr_WaitlistLength :: int
  sr_Instructor :: string
  sr_Version :: int
  sr_UpdatedAt :: instant

record idempotency_record =
  idem_ActorUserID :: int
  idem_Method :: string
  idem_Path :: string
  idem_Key :: string
  idem_RequestFingerprint :: string
  idem_ResponseStatus :: int
  idem_ResponseBody :: string
  idem_CreatedAt :: instant
  idem_ExpiresAt :: instant

record migration_row =
  mgr_Version :: int
  mgr_Name :: string
  mgr_Checksum :: string
  mgr_AppliedAt :: instant

record tables =
  t_users :: "user table"
  t_sessions :: "session table"
  t_terms :: "academic_term table"
  t_courses :: "course_row table"
  t_prereqs :: "prereq_row list"
  t_sections :: "section_row table"
  t_meetings :: "meeting table"
  t_registrations :: "registration table"
  t_records :: "academic_record table"
  t_enrollments :: "enrollment table"
  t_idempotency :: "idempotency_record list"
  t_audit :: "audit_event table"
  t_jobs :: "job table"
  t_migrations :: "migration_row list option"
  t_scripts :: "string list"

definition empty_tables :: tables where
  "empty_tables = \<lparr>t_users = empty_table, t_sessions = empty_table, t_terms = empty_table,
     t_courses = empty_table, t_prereqs = [], t_sections = empty_table, t_meetings = empty_table,
     t_registrations = empty_table, t_records = empty_table, t_enrollments = empty_table,
     t_idempotency = [], t_audit = empty_table, t_jobs = empty_table,
     t_migrations = None, t_scripts = []\<rparr>"

interpretation user_key: id_table usr_ID "\<lambda>i r. r\<lparr>usr_ID := i\<rparr>"
  by unfold_locales simp
interpretation session_key: id_table ses_ID "\<lambda>i r. r\<lparr>ses_ID := i\<rparr>"
  by unfold_locales simp
interpretation term_key: id_table trm_ID "\<lambda>i r. r\<lparr>trm_ID := i\<rparr>"
  by unfold_locales simp
interpretation course_row_key: id_table cr_ID "\<lambda>i r. r\<lparr>cr_ID := i\<rparr>"
  by unfold_locales simp
interpretation section_key: id_table sr_ID "\<lambda>i r. r\<lparr>sr_ID := i\<rparr>"
  by unfold_locales simp
interpretation registration_key: id_table reg_ID "\<lambda>i r. r\<lparr>reg_ID := i\<rparr>"
  by unfold_locales simp
interpretation enrollment_key: id_table enr_ID "\<lambda>i r. r\<lparr>enr_ID := i\<rparr>"
  by unfold_locales simp
interpretation audit_key: id_table aud_ID "\<lambda>i r. r\<lparr>aud_ID := i\<rparr>"
  by unfold_locales simp
interpretation job_key: id_table job_ID "\<lambda>i r. r\<lparr>job_ID := i\<rparr>"
  by unfold_locales simp

section \<open>Operations\<close>

datatype ctx_end = Canceled | DeadlineExceeded

datatype fault = DriverFailure string | DriverContext ctx_end
  \<comment> \<open>why a driver call failed: its own message, or the end of the context\<close>

fun ctx_error :: "ctx_end \<Rightarrow> err" where
  "ctx_error Canceled = CtxCanceled"
| "ctx_error DeadlineExceeded = CtxDeadlineExceeded"

fun fault_error :: "fault \<Rightarrow> err" where
  "fault_error (DriverFailure msg) = Plain msg"
| "fault_error (DriverContext c) = ctx_error c"

record world =
  tb :: tables
  w_tick :: nat
  w_clock :: "nat \<Rightarrow> instant"
  w_fault :: "nat \<Rightarrow> fault option"
  w_done :: "nat \<Rightarrow> ctx_end option"
  w_request_id :: string

type_synonym 'a op = "world \<Rightarrow> (err + 'a) \<times> world"

definition tick :: "world \<Rightarrow> world" where
  "tick w = w\<lparr>w_tick := Suc (w_tick w)\<rparr>"

definition ret :: "'a \<Rightarrow> 'a op" where
  "ret x w = (Inr x, w)"

definition raise :: "err \<Rightarrow> 'a op" where
  "raise e w = (Inl e, w)"

definition andThen :: "'a op \<Rightarrow> ('a \<Rightarrow> 'b op) \<Rightarrow> 'b op" where
  \<comment> \<open>\<open>x, err := m; if err != nil { return err }; f(x)\<close>\<close>
  "andThen m f w = (case m w of (Inl e, w') \<Rightarrow> (Inl e, w') | (Inr x, w') \<Rightarrow> f x w')"

definition attempt :: "'a op \<Rightarrow> (err + 'a) op" where
  \<comment> \<open>\<open>x, err := m\<close> where the code goes on to look at \<open>err\<close>\<close>
  "attempt m w = (case m w of (r, w') \<Rightarrow> (Inr r, w'))"

definition lift_result :: "err + 'a \<Rightarrow> 'a op" where
  "lift_result r w = (r, w)"

definition check :: "err option \<Rightarrow> unit op" where
  "check e w = (case e of Some err \<Rightarrow> (Inl err, w) | None \<Rightarrow> (Inr (), w))"

definition on_error :: "(err \<Rightarrow> err) \<Rightarrow> 'a op \<Rightarrow> 'a op" where
  \<comment> \<open>the error an accessor returns instead of the driver's\<close>
  "on_error f m w = (case m w of (Inl e, w') \<Rightarrow> (Inl (f e), w') | (Inr x, w') \<Rightarrow> (Inr x, w'))"

definition clock_now :: "instant op" where
  "clock_now w = (Inr (w_clock w (w_tick w)), tick w)"

definition ctx_Err :: "err option op" where
  "ctx_Err w = (Inr (map_option ctx_error (w_done w (w_tick w))), tick w)"

definition get_request_id :: "string op" where
  "get_request_id w = (Inr (w_request_id w), w)"

definition driver :: "unit op" where
  \<comment> \<open>a call of the driver that may fail\<close>
  "driver w = (case w_fault w (w_tick w) of
     Some f \<Rightarrow> (Inl (fault_error f), tick w) | None \<Rightarrow> (Inr (), tick w))"

definition query :: "(tables \<Rightarrow> 'a) \<Rightarrow> 'a op" where
  "query f = andThen driver (\<lambda>_ w. (Inr (f (tb w)), w))"

definition query_row :: "(tables \<Rightarrow> 'a option) \<Rightarrow> 'a op" where
  \<comment> \<open>\<open>QueryRow(...).Scan(...)\<close>\<close>
  "query_row f = andThen (query f)
     (\<lambda>r. case r of Some x \<Rightarrow> ret x | None \<Rightarrow> raise SqlNoRows)"

definition query_rows :: "string \<Rightarrow> string \<Rightarrow> (tables \<Rightarrow> 'a) \<Rightarrow> 'a op" where
  \<comment> \<open>\<open>QueryContext\<close>, then the iteration, whose error \<open>rows.Err\<close> reports\<close>
  "query_rows on_query on_iterate f =
     andThen (on_error (Wrapped on_query) (query f)) (\<lambda>rows.
     andThen (on_error (Wrapped on_iterate) driver) (\<lambda>_. ret rows))"

definition exec :: "(tables \<Rightarrow> err + ('a \<times> tables)) \<Rightarrow> 'a op" where
  \<comment> \<open>\<open>ExecContext\<close>: one statement, which a violated constraint undoes\<close>
  "exec f = andThen driver (\<lambda>_ w. case f (tb w) of
     Inl e \<Rightarrow> (Inl e, w) | Inr (x, t) \<Rightarrow> (Inr x, w\<lparr>tb := t\<rparr>))"

definition countRows :: "(tables \<Rightarrow> int) \<Rightarrow> int op" where
  "countRows f = on_error (Wrapped ''count rows'') (query f)"

definition InTx :: "'a op \<Rightarrow> 'a op" where
  "InTx body w = (case on_error (Wrapped ''begin transaction'') driver w of
       (Inl e, w1) \<Rightarrow> (Inl e, w1)
     | (Inr _, w1) \<Rightarrow>
        (case body w1 of
           (Inl e, w2) \<Rightarrow>
             (case driver (w2\<lparr>tb := tb w1\<rparr>) of
                (Inl r, w3) \<Rightarrow> (Inl (Joined [e, Wrapped ''rollback transaction'' r]), w3)
              | (Inr _, w3) \<Rightarrow> (Inl e, w3))
         | (Inr x, w2) \<Rightarrow>
             (case on_error (Wrapped ''commit transaction'') driver w2 of
                (Inl e, w3) \<Rightarrow> (Inl e, w3\<lparr>tb := tb w1\<rparr>)
              | (Inr _, w3) \<Rightarrow> (Inr x, w3))))"

definition run_tx :: "(err \<Rightarrow> err) \<Rightarrow> (err \<Rightarrow> err) \<Rightarrow> 'a op \<Rightarrow> 'a op" where
  \<comment> \<open>the transactions of the seed and of the migrations: as \<open>InTx\<close>, with messages of their own and the error
    of a rollback dropped\<close>
  "run_tx on_begin on_commit body w = (case on_error on_begin driver w of
       (Inl e, w1) \<Rightarrow> (Inl e, w1)
     | (Inr _, w1) \<Rightarrow>
        (case body w1 of
           (Inl e, w2) \<Rightarrow> (Inl e, snd (driver (w2\<lparr>tb := tb w1\<rparr>)))
         | (Inr x, w2) \<Rightarrow>
             (case on_error on_commit driver w2 of
                (Inl e, w3) \<Rightarrow> (Inl e, w3\<lparr>tb := tb w1\<rparr>)
              | (Inr _, w3) \<Rightarrow> (Inr x, w3))))"

definition Ping :: "unit op" where
  "Ping = on_error (Wrapped ''sqlite ping'') driver"

section \<open>Laws of the combinators\<close>

lemma ctx_error_simps [simp]: "\<not> errors_Is (ctx_error c) s" "\<not> is_no_rows (ctx_error c)"
  by (cases c; simp)+

lemma fault_error_simps [simp]: "\<not> errors_Is (fault_error f) s" "\<not> is_no_rows (fault_error f)"
  by (cases f; simp)+

lemmas op_defs = ret_def raise_def lift_result_def check_def get_request_id_def

lemma tick_simps [simp]:
  "tb (tick w) = tb w" "w_clock (tick w) = w_clock w" "w_fault (tick w) = w_fault w"
  "w_done (tick w) = w_done w" "w_request_id (tick w) = w_request_id w"
  "w_tick (tick w) = Suc (w_tick w)"
  by (simp_all add: tick_def)

lemma tick_tb [simp]: "tick (w\<lparr>tb := t\<rparr>) = (tick w)\<lparr>tb := t\<rparr>"
  by (simp add: tick_def)

lemma andThen_Inr [op_simps]:
  "andThen m f w = (Inr y, w'') \<longleftrightarrow> (\<exists>x w'. m w = (Inr x, w') \<and> f x w' = (Inr y, w''))"
  by (auto simp: andThen_def split: prod.splits sum.splits)

lemma andThen_Inl:
  "andThen m f w = (Inl e, w'') \<longleftrightarrow>
     m w = (Inl e, w'') \<or> (\<exists>x w'. m w = (Inr x, w') \<and> f x w' = (Inl e, w''))"
  by (auto simp: andThen_def split: prod.splits sum.splits)

lemma ret_iff [op_simps]: "ret x w = (r, w') \<longleftrightarrow> r = Inr x \<and> w' = w"
  by (auto simp: ret_def)

lemma raise_iff [op_simps]: "raise e w = (r, w') \<longleftrightarrow> r = Inl e \<and> w' = w"
  by (auto simp: raise_def)

lemma raise_if_simps:
  "(if b then raise e else m) w = (Inr x, w') \<longleftrightarrow> \<not> b \<and> m w = (Inr x, w')"
  by (auto simp: raise_def)

lemma lift_result_iff [op_simps]: "lift_result s w = (r, w') \<longleftrightarrow> s = r \<and> w' = w"
  by (auto simp: lift_result_def)

lemma check_Inr [op_simps]: "check e w = (Inr u, w') \<longleftrightarrow> e = None \<and> w' = w"
  by (auto simp: check_def split: option.splits)

lemma check_Inl: "check e w = (Inl err, w') \<longleftrightarrow> e = Some err \<and> w' = w"
  by (auto simp: check_def split: option.splits)

lemma get_request_id_iff [op_simps]:
  "get_request_id w = (r, w') \<longleftrightarrow> r = Inr (w_request_id w) \<and> w' = w"
  by (auto simp: get_request_id_def)

lemma on_error_Inr [op_simps]: "on_error f m w = (Inr x, w') \<longleftrightarrow> m w = (Inr x, w')"
  by (auto simp: on_error_def split: prod.splits sum.splits)

lemma on_error_Inl:
  "on_error f m w = (Inl e, w') \<longleftrightarrow> (\<exists>e'. m w = (Inl e', w') \<and> e = f e')"
  by (auto simp: on_error_def split: prod.splits sum.splits)

lemma attempt_Inr [op_simps]: "attempt m w = (Inr r, w') \<longleftrightarrow> m w = (r, w')"
  by (auto simp: attempt_def split: prod.splits)

lemma attempt_Inl [op_simps]: "attempt m w \<noteq> (Inl e, w')"
  by (auto simp: attempt_def split: prod.splits)

lemma clock_now_iff [op_simps]:
  "clock_now w = (r, w') \<longleftrightarrow> r = Inr (w_clock w (w_tick w)) \<and> w' = tick w"
  by (auto simp: clock_now_def)

lemma ctx_Err_iff [op_simps]:
  "ctx_Err w = (r, w') \<longleftrightarrow> r = Inr (map_option ctx_error (w_done w (w_tick w))) \<and> w' = tick w"
  by (auto simp: ctx_Err_def)

lemma driver_Inr [op_simps]:
  "driver w = (Inr u, w') \<longleftrightarrow> w_fault w (w_tick w) = None \<and> w' = tick w"
  by (auto simp: driver_def split: option.splits)

lemma driver_Inl:
  "driver w = (Inl e, w') \<longleftrightarrow> (\<exists>f. w_fault w (w_tick w) = Some f \<and> e = fault_error f) \<and> w' = tick w"
  by (auto simp: driver_def split: option.splits)

lemma query_Inr [op_simps]:
  "query f w = (Inr x, w') \<longleftrightarrow> w_fault w (w_tick w) = None \<and> x = f (tb w) \<and> w' = tick w"
  by (auto simp: query_def op_simps)

lemma query_row_Inr [op_simps]:
  "query_row f w = (Inr x, w') \<longleftrightarrow>
     w_fault w (w_tick w) = None \<and> f (tb w) = Some x \<and> w' = tick w"
  by (auto simp: query_row_def op_simps split: option.splits)

lemma query_row_Inl:
  assumes "query_row f w = (Inl e, w')"
  shows "(\<exists>flt. e = fault_error flt) \<or> (f (tb w) = None \<and> e = SqlNoRows)"
  using assms
  by (cases "w_fault w (w_tick w)"; cases "f (tb w)")
    (auto simp: query_row_def query_def andThen_def driver_def ret_def raise_def)

lemma lookup_not_found:
  \<comment> \<open>a lookup answers \<open>ErrNotFound\<close> only when there is no such row\<close>
  assumes "on_error (notFound entity) (query_row f) w = (Inl e, w')" "errors_Is e ErrNotFound"
  shows "f (tb w) = None"
  using assms by (auto simp: on_error_Inl notFound_def dest!: query_row_Inl)

lemma query_rows_Inr [op_simps]:
  "query_rows m1 m2 f w = (Inr x, w') \<longleftrightarrow> w_fault w (w_tick w) = None
     \<and> w_fault w (Suc (w_tick w)) = None \<and> x = f (tb w) \<and> w' = tick (tick w)"
  by (auto simp: query_rows_def op_simps)

lemma exec_Inr [op_simps]:
  "exec f w = (Inr x, w') \<longleftrightarrow> w_fault w (w_tick w) = None
     \<and> (\<exists>t. f (tb w) = Inr (x, t) \<and> w' = (tick w)\<lparr>tb := t\<rparr>)"
  by (auto simp: exec_def op_simps split: sum.splits prod.splits)

lemma countRows_Inr [op_simps]:
  "countRows f w = (Inr n, w') \<longleftrightarrow> w_fault w (w_tick w) = None \<and> n = f (tb w) \<and> w' = tick w"
  by (auto simp: countRows_def op_simps)

end
