(* ===== verification/Transactions.thy ===== *)
theory Transactions
  imports Store
begin

text \<open>
  What transactions and operations promise, independent of what they do: an operation that only
  reads, one that leaves the environment alone, and the two contracts of \<open>InTx\<close> (all or
  nothing; exact behaviour when no driver call fails), stated as locales.
\<close>

section \<open>Operations that read, operations that leave the environment alone\<close>

definition same_env :: "world \<Rightarrow> world \<Rightarrow> bool" where
  "same_env w w' \<longleftrightarrow> w_clock w' = w_clock w \<and> w_fault w' = w_fault w \<and> w_done w' = w_done w
     \<and> w_request_id w' = w_request_id w \<and> w_tick w \<le> w_tick w'"

definition reads :: "'a op \<Rightarrow> bool" where
  "reads m \<longleftrightarrow> (\<forall>w. tb (snd (m w)) = tb w)"

definition tame :: "'a op \<Rightarrow> bool" where
  "tame m \<longleftrightarrow> (\<forall>w. same_env w (snd (m w)))"

named_theorems reads_intro \<open>operations that only read\<close>
named_theorems tame_intro \<open>operations that leave the environment alone\<close>

lemma same_env_refl [simp]: "same_env w w"
  by (simp add: same_env_def)

lemma same_env_trans: "same_env u v \<Longrightarrow> same_env v w \<Longrightarrow> same_env u w"
  by (auto simp: same_env_def)

lemma same_env_tick [simp]: "same_env w (tick w)"
  by (simp add: same_env_def)

lemma same_env_tb [simp]: "same_env w (v\<lparr>tb := t\<rparr>) = same_env w v"
  by (simp add: same_env_def)

lemma reads_result: "reads m \<Longrightarrow> m w = (r, w') \<Longrightarrow> tb w' = tb w"
  unfolding reads_def by (metis snd_conv)

lemma tame_result: "tame m \<Longrightarrow> m w = (r, w') \<Longrightarrow> same_env w w'"
  unfolding tame_def by (metis snd_conv)

lemma reads_andThen [reads_intro]: "reads m \<Longrightarrow> (\<And>x. reads (f x)) \<Longrightarrow> reads (andThen m f)"
  unfolding reads_def andThen_def by (simp split: prod.split sum.split) (metis snd_conv)

lemma tame_andThen [tame_intro]:
  assumes "tame m" "\<And>x. tame (f x)"
  shows "tame (andThen m f)"
  unfolding tame_def
proof
  fix w
  obtain r w1 where m: "m w = (r, w1)" by fastforce
  then have "same_env w w1" using assms(1) by (rule tame_result [rotated])
  then show "same_env w (snd (andThen m f w))"
    using m assms(2) by (cases r) (auto simp: andThen_def tame_def intro: same_env_trans)
qed

lemma reads_basic [reads_intro]:
  "reads (ret x)" "reads (raise e)" "reads (lift_result s)" "reads (check c)"
  "reads get_request_id" "reads clock_now" "reads ctx_Err" "reads driver"
  by (auto simp: reads_def op_defs clock_now_def ctx_Err_def driver_def split: option.split)

lemma tame_basic [tame_intro]:
  "tame (ret x)" "tame (raise e)" "tame (lift_result s)" "tame (check c)"
  "tame get_request_id" "tame clock_now" "tame ctx_Err" "tame driver"
  by (auto simp: tame_def op_defs clock_now_def ctx_Err_def driver_def split: option.split)

lemma reads_attempt [reads_intro]: "reads m \<Longrightarrow> reads (attempt m)"
  by (auto simp: reads_def attempt_def split: prod.split) (metis snd_conv)

lemma tame_attempt [tame_intro]: "tame m \<Longrightarrow> tame (attempt m)"
  by (auto simp: tame_def attempt_def split: prod.split) (metis snd_conv)

lemma reads_on_error [reads_intro]: "reads m \<Longrightarrow> reads (on_error f m)"
  by (auto simp: reads_def on_error_def split: prod.split sum.split) (metis snd_conv)+

lemma tame_on_error [tame_intro]: "tame m \<Longrightarrow> tame (on_error f m)"
  by (auto simp: tame_def on_error_def split: prod.split sum.split) (metis snd_conv)+

lemma reads_query [reads_intro]: "reads (query f)"
  unfolding query_def by (intro reads_intro) (simp add: reads_def)

lemma tame_query [tame_intro]: "tame (query f)"
  unfolding query_def by (intro tame_intro) (simp add: tame_def)

lemma reads_option [reads_intro]:
  "reads f \<Longrightarrow> (\<And>x. reads (g x)) \<Longrightarrow> reads (case r of None \<Rightarrow> f | Some x \<Rightarrow> g x)"
  by (cases r) auto

lemma tame_option [tame_intro]:
  "tame f \<Longrightarrow> (\<And>x. tame (g x)) \<Longrightarrow> tame (case r of None \<Rightarrow> f | Some x \<Rightarrow> g x)"
  by (cases r) auto

lemma reads_sum [reads_intro]:
  "(\<And>e. reads (f e)) \<Longrightarrow> (\<And>x. reads (g x)) \<Longrightarrow> reads (case r of Inl e \<Rightarrow> f e | Inr x \<Rightarrow> g x)"
  by (cases r) auto

lemma tame_sum [tame_intro]:
  "(\<And>e. tame (f e)) \<Longrightarrow> (\<And>x. tame (g x)) \<Longrightarrow> tame (case r of Inl e \<Rightarrow> f e | Inr x \<Rightarrow> g x)"
  by (cases r) auto

lemma reads_if [reads_intro]: "reads f \<Longrightarrow> reads g \<Longrightarrow> reads (if b then f else g)"
  by simp

lemma tame_if [tame_intro]: "tame f \<Longrightarrow> tame g \<Longrightarrow> tame (if b then f else g)"
  by simp

lemma reads_queries [reads_intro]: "reads (query_row g)" "reads (query_rows a b h)" "reads (countRows k)"
  unfolding query_row_def query_rows_def countRows_def by (intro reads_intro)+

lemma tame_queries [tame_intro]: "tame (query_row g)" "tame (query_rows a b h)" "tame (countRows k)"
  unfolding query_row_def query_rows_def countRows_def by (intro tame_intro)+

lemma tame_exec [tame_intro]: "tame (exec f)"
  unfolding exec_def
  by (intro tame_intro) (auto simp: tame_def split: sum.split prod.split)

section \<open>All or nothing\<close>

locale transaction_runner =
  fixes run :: "'a op \<Rightarrow> 'a op"
  assumes rollback: "run m w = (Inl e, w') \<Longrightarrow> tb w' = tb w"
    and commit: "run m w = (Inr x, w') \<Longrightarrow>
      \<exists>w1 w2. tb w1 = tb w \<and> same_env w w1 \<and> m w1 = (Inr x, w2) \<and> tb w' = tb w2"
begin

lemma run_keeps:
  assumes "I (tb w)" "\<And>w1 x w2. I (tb w1) \<Longrightarrow> m w1 = (Inr x, w2) \<Longrightarrow> I (tb w2)"
  shows "I (tb (snd (run m w)))"
proof (cases "run m w")
  case (Pair r w')
  then show ?thesis
  proof (cases r)
    case (Inr x)
    then obtain w1 w2 where "tb w1 = tb w" "m w1 = (Inr x, w2)" "tb w' = tb w2"
      using Pair commit by blast
    then show ?thesis using assms Pair by (metis snd_conv)
  qed (use rollback assms in auto)
qed

lemma run_relates:
  assumes "\<And>t. R t t" "\<And>w1 x w2. m w1 = (Inr x, w2) \<Longrightarrow> R (tb w1) (tb w2)"
  shows "R (tb w) (tb (snd (run m w)))"
proof (cases "run m w")
  case (Pair r w')
  then show ?thesis
  proof (cases r)
    case (Inr x)
    then obtain w1 w2 where w: "tb w1 = tb w" "m w1 = (Inr x, w2)" "tb w' = tb w2"
      using Pair commit by blast
    from assms(2) [OF w(2)] show ?thesis using Pair w by simp
  qed (use rollback assms(1) in auto)
qed

end

text \<open>Exact behaviour when no call of the driver fails.\<close>

definition quiet :: "world \<Rightarrow> bool" where
  "quiet w \<longleftrightarrow> (\<forall>n. w_fault w n = None)"

locale exact_runner = transaction_runner +
  assumes quiet_commit: "quiet w \<Longrightarrow> tame m \<Longrightarrow> m (tick w) = (Inr x, w2) \<Longrightarrow> run m w = (Inr x, tick w2)"
    and quiet_rollback: "quiet w \<Longrightarrow> tame m \<Longrightarrow> m (tick w) = (Inl e, w2) \<Longrightarrow>
      run m w = (Inl e, (tick w2)\<lparr>tb := tb w\<rparr>)"
begin

lemma quiet_succeeds:
  assumes "quiet w" "tame m"
  shows "(\<exists>x w'. run m w = (Inr x, w')) \<longleftrightarrow> (\<exists>x w'. m (tick w) = (Inr x, w'))"
proof (cases "m (tick w)")
  case (Pair r w2)
  then show ?thesis
    using quiet_commit [OF assms] quiet_rollback [OF assms] by (cases r) auto
qed

end

lemma quiet_simps [simp]:
  "quiet (tick w) = quiet w" "quiet (w\<lparr>tb := t\<rparr>) = quiet w" "quiet w \<Longrightarrow> w_fault w n = None"
  by (simp_all add: quiet_def)

lemma quiet_same_env: "same_env w w' \<Longrightarrow> quiet w' = quiet w"
  by (simp add: same_env_def quiet_def)

text \<open>\<open>InTx\<close>, its driver calls resolved.\<close>

lemma InTx_eq:
  "InTx m w = (case w_fault w (w_tick w) of
     Some f \<Rightarrow> (Inl (Wrapped ''begin transaction'' (fault_error f)), tick w)
   | None \<Rightarrow> (case m (tick w) of (r, w2) \<Rightarrow>
      (case w_fault w2 (w_tick w2) of
         None \<Rightarrow> (r, if isl r then (tick w2)\<lparr>tb := tb w\<rparr> else tick w2)
       | Some c \<Rightarrow> (Inl (if isl r then Joined [projl r, Wrapped ''rollback transaction'' (fault_error c)]
             else Wrapped ''commit transaction'' (fault_error c)), (tick w2)\<lparr>tb := tb w\<rparr>))))"
proof (cases "w_fault w (w_tick w)")
  case None
  obtain r w2 where m: "m (tick w) = (r, w2)" by fastforce
  show ?thesis
    by (cases r; cases "w_fault w2 (w_tick w2)") (simp_all add: InTx_def on_error_def driver_def None m)
qed (simp add: InTx_def on_error_def driver_def)

lemma InTx_Inr:
  "InTx m w = (Inr x, w') \<longleftrightarrow> w_fault w (w_tick w) = None
     \<and> (\<exists>w2. m (tick w) = (Inr x, w2) \<and> w_fault w2 (w_tick w2) = None \<and> w' = tick w2)"
proof (cases "w_fault w (w_tick w)")
  case None
  obtain r w2 where m: "m (tick w) = (r, w2)" by fastforce
  show ?thesis
    by (cases r; cases "w_fault w2 (w_tick w2)") (auto simp: InTx_eq None m)
qed (simp add: InTx_eq)

lemma InTx_Inl_tb: "InTx m w = (Inl e, w') \<Longrightarrow> tb w' = tb w"
proof (cases "w_fault w (w_tick w)")
  case None
  obtain r w2 where m: "m (tick w) = (r, w2)" by fastforce
  show "InTx m w = (Inl e, w') \<Longrightarrow> tb w' = tb w"
    by (cases r; cases "w_fault w2 (w_tick w2)") (auto simp: InTx_eq None m)
qed (auto simp: InTx_eq)

lemma quiet_result: "quiet w \<Longrightarrow> tame m \<Longrightarrow> m (tick w) = (r, w2) \<Longrightarrow> quiet w2"
  using quiet_same_env [OF tame_result [of m "tick w"]] by simp

interpretation tx: exact_runner "InTx :: 'a op \<Rightarrow> 'a op"
proof unfold_locales
  fix m :: "'a op" and w e w'
  show "InTx m w = (Inl e, w') \<Longrightarrow> tb w' = tb w" by (rule InTx_Inl_tb)
next
  fix m :: "'a op" and w x w'
  assume "InTx m w = (Inr x, w')"
  then obtain w2 where "m (tick w) = (Inr x, w2)" "w' = tick w2" by (auto simp: InTx_Inr)
  then show "\<exists>w1 w2. tb w1 = tb w \<and> same_env w w1 \<and> m w1 = (Inr x, w2) \<and> tb w' = tb w2"
    by (intro exI [of _ "tick w"] exI [of _ w2]) simp
next
  fix m :: "'a op" and w x w2
  assume m: "quiet w" "tame m" "m (tick w) = (Inr x, w2)"
  then have "quiet w2" by (rule quiet_result)
  with m show "InTx m w = (Inr x, tick w2)" by (simp add: InTx_eq)
next
  fix m :: "'a op" and w e w2
  assume m: "quiet w" "tame m" "m (tick w) = (Inl e, w2)"
  then have "quiet w2" by (rule quiet_result)
  with m show "InTx m w = (Inl e, (tick w2)\<lparr>tb := tb w\<rparr>)" by (simp add: InTx_eq)
qed

lemma tame_InTx [tame_intro]: "tame m \<Longrightarrow> tame (InTx m)"
  unfolding tame_def
proof
  fix w
  assume m: "\<forall>w. same_env w (snd (m w))"
  obtain r w2 where w2: "m (tick w) = (r, w2)" by fastforce
  then have "same_env (tick w) w2" using m by (metis snd_conv)
  then have e: "same_env w w2" using same_env_tick same_env_trans by blast
  then have "same_env w (tick w2)" using same_env_tick same_env_trans by blast
  then show "same_env w (snd (InTx m w))"
    by (simp add: InTx_eq w2 split: option.split)
qed

section \<open>Transactions that drop the error of a rollback\<close>

lemma run_tx_result:
  assumes "run_tx f g m w = (r, w')"
  shows "(\<exists>e. r = Inl e) \<and> tb w' = tb w \<or> (\<exists>x w1 w2. r = Inr x \<and> tb w1 = tb w \<and> w_clock w1 = w_clock w
    \<and> m w1 = (Inr x, w2) \<and> tb w' = tb w2)"
proof -
  obtain b w1 where b: "on_error f driver w = (b, w1)" by fastforce
  have w1: "tb w1 = tb w" "w_clock w1 = w_clock w"
    using reads_result [OF reads_on_error [OF reads_basic(8)] b] tame_result [OF tame_on_error [OF tame_basic(8)] b]
    by (simp_all add: same_env_def)
  show ?thesis
  proof (cases b)
    case (Inl e)
    then show ?thesis using assms b w1 by (auto simp: run_tx_def)
  next
    case (Inr u)
    obtain q w2 where q: "m w1 = (q, w2)" by fastforce
    show ?thesis
    proof (cases q)
      case (Inl e)
      have "tb (snd (driver (w2\<lparr>tb := tb w1\<rparr>))) = tb w1"
        using reads_basic(8) [unfolded reads_def] by simp
      then show ?thesis using assms b Inr q Inl w1(1) by (simp add: run_tx_def) auto
    next
      case (Inr x)
      obtain c w3 where c: "on_error g driver w2 = (c, w3)" by fastforce
      have "tb w3 = tb w2" using reads_result [OF reads_on_error [OF reads_basic(8)] c] .
      then show ?thesis using assms b \<open>b = Inr u\<close> q Inr c w1
        by (cases c) (auto simp: run_tx_def)
    qed
  qed
qed

section \<open>Runs without interference\<close>

text \<open>A run in which the clock stands at \<open>now\<close>, no driver call fails and the context
  stays alive: its outcome depends on the tables alone.\<close>

definition calm :: "instant \<Rightarrow> string \<Rightarrow> world \<Rightarrow> bool" where
  "calm now rid w \<longleftrightarrow> (\<forall>n. w_fault w n = None \<and> w_done w n = None \<and> w_clock w n = now)
     \<and> w_request_id w = rid"

definition yields :: "instant \<Rightarrow> string \<Rightarrow> 'a op \<Rightarrow> tables \<Rightarrow> err + 'a \<Rightarrow> tables \<Rightarrow> bool" where
  "yields now rid m t r t' \<longleftrightarrow>
     (\<forall>w. calm now rid w \<longrightarrow> tb w = t \<longrightarrow> (\<exists>w'. m w = (r, w') \<and> calm now rid w' \<and> tb w' = t'))"

named_theorems yields_intro \<open>outcomes of operations in a calm run\<close>

lemma calm_simps [simp]:
  "calm now rid (tick w) = calm now rid w" "calm now rid (w\<lparr>tb := t\<rparr>) = calm now rid w"
  by (simp_all add: calm_def)

lemma calm_world:
  assumes "calm now rid w"
  shows "w_fault w n = None" "w_done w n = None" "w_clock w n = now" "w_request_id w = rid"
  using assms by (simp_all add: calm_def)

lemma calm_quiet: "calm now rid w \<Longrightarrow> quiet w"
  by (simp add: calm_def quiet_def)

lemma yieldsE:
  assumes "yields now rid m t r t'" "calm now rid w" "tb w = t"
  obtains w' where "m w = (r, w')" "calm now rid w'" "tb w' = t'"
  using assms unfolding yields_def by blast

lemma yieldsI:
  assumes "\<And>w. calm now rid w \<Longrightarrow> tb w = t \<Longrightarrow> \<exists>w'. m w = (r, w') \<and> calm now rid w' \<and> tb w' = t'"
  shows "yields now rid m t r t'"
  using assms unfolding yields_def by blast

lemma yields_andThen:
  assumes "yields now rid m t (Inr x) t1" "yields now rid (f x) t1 r t2"
  shows "yields now rid (andThen m f) t r t2"
  unfolding yields_def
proof (intro allI impI)
  fix w assume w: "calm now rid w" "tb w = t"
  then obtain w1 where m: "m w = (Inr x, w1)" "calm now rid w1" "tb w1 = t1"
    using assms(1) unfolding yields_def by blast
  then obtain w2 where "f x w1 = (r, w2)" "calm now rid w2" "tb w2 = t2"
    using assms(2) unfolding yields_def by blast
  with m show "\<exists>w'. andThen m f w = (r, w') \<and> calm now rid w' \<and> tb w' = t2"
    by (simp add: andThen_def)
qed

lemma yields_andThen_Inl:
  assumes "yields now rid m t (Inl e) t1"
  shows "yields now rid (andThen m f) t (Inl e) t1"
proof (rule yieldsI)
  fix w assume w: "calm now rid w" "tb w = t"
  from assms w obtain w1 where "m w = (Inl e, w1)" "calm now rid w1" "tb w1 = t1" by (rule yieldsE)
  then show "\<exists>w'. andThen m f w = (Inl e, w') \<and> calm now rid w' \<and> tb w' = t1"
    by (simp add: andThen_def)
qed

lemma yields_on_error:
  assumes "yields now rid m t r t'"
  shows "yields now rid (on_error g m) t (map_sum g id r) t'"
proof (rule yieldsI)
  fix w assume w: "calm now rid w" "tb w = t"
  from assms w obtain w1 where "m w = (r, w1)" "calm now rid w1" "tb w1 = t'" by (rule yieldsE)
  then show "\<exists>w'. on_error g m w = (map_sum g id r, w') \<and> calm now rid w' \<and> tb w' = t'"
    by (cases r) (simp_all add: on_error_def)
qed

lemma yields_on_error_Inr: "yields now rid m t (Inr x) t' \<Longrightarrow> yields now rid (on_error g m) t (Inr x) t'"
  using yields_on_error [of now rid m t "Inr x"] by simp

lemma yields_on_error_Inl:
  "yields now rid m t (Inl e) t' \<Longrightarrow> yields now rid (on_error g m) t (Inl (g e)) t'"
  using yields_on_error [of now rid m t "Inl e"] by simp

lemma yields_attempt:
  assumes "yields now rid m t r t'"
  shows "yields now rid (attempt m) t (Inr r) t'"
proof (rule yieldsI)
  fix w assume w: "calm now rid w" "tb w = t"
  from assms w obtain w1 where "m w = (r, w1)" "calm now rid w1" "tb w1 = t'" by (rule yieldsE)
  then show "\<exists>w'. attempt m w = (Inr r, w') \<and> calm now rid w' \<and> tb w' = t'"
    by (simp add: attempt_def)
qed

lemma yields_basic [yields_intro]:
  "yields now rid (ret x) t (Inr x) t" "yields now rid (raise e) t (Inl e) t"
  "yields now rid (lift_result s) t s t" "yields now rid get_request_id t (Inr rid) t"
  "yields now rid clock_now t (Inr now) t" "yields now rid ctx_Err t (Inr None) t"
  "yields now rid driver t (Inr ()) t"
  by (auto simp: yields_def op_defs clock_now_def ctx_Err_def driver_def calm_world)

lemma yields_check [yields_intro]:
  "yields now rid (check c) t (case c of None \<Rightarrow> Inr () | Some e \<Rightarrow> Inl e) t"
  by (auto simp: yields_def check_def split: option.split)

lemma yields_query [yields_intro]: "yields now rid (query f) t (Inr (f t)) t"
  unfolding query_def by (rule yields_andThen, rule yields_basic) (auto simp: yields_def)

lemma yields_query_row [yields_intro]:
  "yields now rid (query_row f) t (case f t of Some x \<Rightarrow> Inr x | None \<Rightarrow> Inl SqlNoRows) t"
  unfolding query_row_def
  by (rule yields_andThen [OF yields_query]) (auto intro: yields_basic split: option.split)

lemma yields_query_rows [yields_intro]: "yields now rid (query_rows a b f) t (Inr (f t)) t"
  unfolding query_rows_def
  by (rule yields_andThen [OF yields_on_error_Inr [OF yields_query]],
      rule yields_andThen [OF yields_on_error_Inr [OF yields_basic(7)]], rule yields_basic)

lemma yields_countRows [yields_intro]: "yields now rid (countRows f) t (Inr (f t)) t"
  unfolding countRows_def by (rule yields_on_error_Inr [OF yields_query])

lemma yields_exec [yields_intro]:
  "yields now rid (exec f) t (map_sum id fst (f t)) (case f t of Inl e \<Rightarrow> t | Inr (x, t') \<Rightarrow> t')"
  unfolding exec_def
  by (rule yields_andThen, rule yields_basic) (cases "f t"; auto simp: yields_def)

lemma yields_InTx_Inr:
  assumes "yields now rid m t (Inr x) t'"
  shows "yields now rid (InTx m) t (Inr x) t'"
  unfolding yields_def
proof (intro allI impI)
  fix w assume w: "calm now rid w" "tb w = t"
  then have "calm now rid (tick w)" "tb (tick w) = t" by simp_all
  with assms obtain w2 where "m (tick w) = (Inr x, w2)" "calm now rid w2" "tb w2 = t'" by (rule yieldsE)
  with w show "\<exists>w'. InTx m w = (Inr x, w') \<and> calm now rid w' \<and> tb w' = t'"
    by (simp add: InTx_eq calm_world)
qed

lemma yields_InTx_Inl:
  assumes "yields now rid m t (Inl e) t'"
  shows "yields now rid (InTx m) t (Inl e) t"
  unfolding yields_def
proof (intro allI impI)
  fix w assume w: "calm now rid w" "tb w = t"
  then have "calm now rid (tick w)" "tb (tick w) = t" by simp_all
  with assms obtain w2 where "m (tick w) = (Inl e, w2)" "calm now rid w2" "tb w2 = t'" by (rule yieldsE)
  with w show "\<exists>w'. InTx m w = (Inl e, w') \<and> calm now rid w' \<and> tb w' = t"
    by (simp add: InTx_eq calm_world)
qed

lemma yields_unique:
  assumes "yields now rid m t r t'" "calm now rid w" "tb w = t" "m w = (r', w')"
  shows "r' = r" "tb w' = t'"
  using yieldsE [OF assms(1-3)] assms(4) by auto

end
