(* ===== verification/CatalogStore.thy ===== *)
theory CatalogStore
  imports Transactions
begin

text \<open>
  The catalogue repository (\<open>internal/storage/sqlite/catalog.go\<close>): lookups of terms,
  courses and sections, the filtered section list, and the three conditional updates that
  move the seat and waitlist counters of a section.
\<close>

section \<open>Terms and courses\<close>

definition FindTermByID :: "int \<Rightarrow> academic_term op" where
  "FindTermByID i = on_error (notFound (''term '' @ itoa i))
     (query_row (\<lambda>t. first_where (\<lambda>r. trm_ID r = i) (t_terms t)))"

definition FindTermByCode :: "string \<Rightarrow> academic_term op" where
  "FindTermByCode code = (let normalized = ToLower (TrimSpace code) in
     on_error (notFound (''term '' @ normalized))
       (query_row (\<lambda>t. first_where (\<lambda>r. trm_Code r = normalized) (t_terms t))))"

definition terms_newest_first :: "academic_term \<Rightarrow> academic_term \<Rightarrow> bool" where
  \<comment> \<open>\<open>ORDER BY enrollment_opens_at DESC, id DESC\<close>\<close>
  "terms_newest_first = by_keys
     [desc (\<lambda>a b. time_text_le (trm_EnrollmentOpensAt a) (trm_EnrollmentOpensAt b)), desc (asc trm_ID)]"

definition store_ListTerms :: "bool \<Rightarrow> academic_term list op" where
  "store_ListTerms includeArchived = query_rows ''list terms'' ''iterate terms''
     (\<lambda>t. order_by terms_newest_first
        (select_where (\<lambda>r. includeArchived \<or> \<not> trm_Archived r) (t_terms t)))"

definition scan_course :: "course_row \<Rightarrow> course" where
  "scan_course c = \<lparr>crs_ID = cr_ID c, crs_Code = cr_Code c, crs_Title = cr_Title c,
     crs_Credits = cr_Credits c, crs_Department = cr_Department c, crs_Prerequisites = [],
     crs_Retired = cr_Retired c\<rparr>"

definition prereqs_of :: "tables \<Rightarrow> int \<Rightarrow> string list" where
  "prereqs_of t courseID = map pq_RequiredCode
     (order_by (by_keys [asc pq_Ordinal, asc pq_RequiredCode])
       (filter (\<lambda>r. pq_CourseID r = courseID) (t_prereqs t)))"

definition CoursePrerequisites :: "int \<Rightarrow> string list op" where
  "CoursePrerequisites courseID =
     query_rows (''list prerequisites of course '' @ itoa courseID) ''iterate prerequisites''
       (\<lambda>t. prereqs_of t courseID)"

definition FindCourseByID :: "int \<Rightarrow> course op" where
  "FindCourseByID i =
     andThen (on_error (notFound (''course '' @ itoa i))
       (query_row (\<lambda>t. map_option scan_course (first_where (\<lambda>r. cr_ID r = i) (t_courses t))))) (\<lambda>c.
     andThen (CoursePrerequisites (crs_ID c)) (\<lambda>prereqs.
     ret (c\<lparr>crs_Prerequisites := prereqs\<rparr>)))"

definition FindCourseByCode :: "string \<Rightarrow> course op" where
  "FindCourseByCode code = (let normalized = ToUpper (TrimSpace code) in
     andThen (on_error (notFound (''course '' @ normalized))
       (query_row (\<lambda>t. map_option scan_course
          (first_where (\<lambda>r. cr_Code r = normalized) (t_courses t))))) (\<lambda>c.
     andThen (CoursePrerequisites (crs_ID c)) (\<lambda>prereqs.
     ret (c\<lparr>crs_Prerequisites := prereqs\<rparr>))))"

section \<open>Sections\<close>

definition section_join :: "tables \<Rightarrow> (section_row \<times> course_row) list" where
  \<comment> \<open>\<open>FROM course_sections s JOIN courses c ON c.id = s.course_id\<close>\<close>
  "section_join t = concat (map (\<lambda>s. map (Pair s)
     (select_where (\<lambda>c. cr_ID c = sr_CourseID s) (t_courses t))) (tbl_rows (t_sections t)))"

fun scan_section :: "section_row \<times> course_row \<Rightarrow> course_section" where
  "scan_section (s, c) = \<lparr>sec_ID = sr_ID s, sec_TermID = sr_TermID s, sec_CourseID = sr_CourseID s,
     sec_CourseCode = cr_Code c, sec_CourseCredits = cr_Credits c, sec_Code = sr_Code s,
     sec_Status = sr_Status s, sec_Capacity = sr_Capacity s, sec_SeatsTaken = sr_SeatsTaken s,
     sec_WaitlistLimit = sr_WaitlistLimit s, sec_WaitlistLength = sr_WaitlistLength s,
     sec_Instructor = sr_Instructor s, sec_Version = sr_Version s, sec_Meetings = [],
     sec_UpdatedAt = sr_UpdatedAt s\<rparr>"

definition meetings_in :: "tables \<Rightarrow> int list \<Rightarrow> meeting list" where
  \<comment> \<open>\<open>WHERE section_id IN (...) ORDER BY section_id, weekday, start_minute\<close>\<close>
  "meetings_in t ids = order_by (by_keys [asc mtg_SectionID, asc mtg_Weekday, asc mtg_StartMinute])
     (select_where (\<lambda>m. mtg_SectionID m \<in> set ids) (t_meetings t))"

definition group_meetings :: "meeting list \<Rightarrow> int \<Rightarrow> meeting list" where
  \<comment> \<open>the map the scan loop fills, an absent key reading as the empty slice\<close>
  "group_meetings ms i = filter (\<lambda>m. mtg_SectionID m = i) ms"

definition SectionMeetings :: "int list \<Rightarrow> (int \<Rightarrow> meeting list) op" where
  "SectionMeetings ids = (if length ids = 0 then ret (\<lambda>i. [])
     else query_rows ''list section meetings'' ''iterate section meetings''
       (\<lambda>t. group_meetings (meetings_in t ids)))"

definition FindSectionByID :: "int \<Rightarrow> course_section op" where
  "FindSectionByID i =
     andThen (on_error (notFound (''section '' @ itoa i))
       (query_row (\<lambda>t. map_option scan_section (find (\<lambda>(s, c). sr_ID s = i) (section_join t))))) (\<lambda>s.
     andThen (SectionMeetings [sec_ID s]) (\<lambda>meetings.
     ret (s\<lparr>sec_Meetings := meetings (sec_ID s)\<rparr>)))"

definition FindSectionForUpdate :: "int \<Rightarrow> course_section op" where
  "FindSectionForUpdate i = FindSectionByID i"

section \<open>The section list\<close>

fun sql_like :: "string \<Rightarrow> string \<Rightarrow> bool" where
  \<comment> \<open>SQLite \<open>LIKE\<close>, the pattern first: percent and underscore are wild, letters match in any case\<close>
  "sql_like [] s = (s = [])"
| "sql_like (p # ps) [] = (p = CHR 0x25 \<and> sql_like ps [])"
| "sql_like (p # ps) (c # cs) =
     (if p = CHR 0x25 then sql_like ps (c # cs) \<or> sql_like (p # ps) cs
      else (p = CHR 0x5F \<or> lower_char p = lower_char c) \<and> sql_like ps cs)"

record section_filter =
  sf_TermID :: int
  sf_CourseCode :: string
  sf_Department :: string
  sf_Status :: "section_status option"
  sf_Instructor :: string
  sf_OnlyOpen :: bool
  sf_Page :: page

definition section_matches :: "section_filter \<Rightarrow> section_row \<times> course_row \<Rightarrow> bool" where
  \<comment> \<open>the conjunction of the conditions the filter adds\<close>
  "section_matches f = (\<lambda>(s, c).
     (sf_TermID f > 0 \<longrightarrow> sr_TermID s = sf_TermID f)
     \<and> (let code = ToUpper (TrimSpace (sf_CourseCode f)) in code \<noteq> [] \<longrightarrow> cr_Code c = code)
     \<and> (let dept = TrimSpace (sf_Department f) in dept \<noteq> [] \<longrightarrow> cr_Department c = dept)
     \<and> (case sf_Status f of None \<Rightarrow> True | Some status \<Rightarrow> sr_Status s = status)
     \<and> (sf_OnlyOpen f \<longrightarrow> sr_Status s = SectionOpen \<and> sr_SeatsTaken s < sr_Capacity s)
     \<and> (let who = TrimSpace (sf_Instructor f) in who \<noteq> [] \<longrightarrow>
          sql_like (CHR 0x25 # who @ [CHR 0x25]) (sr_Instructor s)))"

definition sectionSortColumns :: "(string \<times> string) list" where
  "sectionSortColumns = [(''code'', ''s.code''), (''course'', ''c.code''), (''capacity'', ''s.capacity''),
     (''seats_left'', ''(s.capacity - s.seats_taken)''), (''updated_at'', ''s.updated_at'')]"

definition section_column_le ::
  "string \<Rightarrow> section_row \<times> course_row \<Rightarrow> section_row \<times> course_row \<Rightarrow> bool" where
  "section_column_le key = (if key = ''code'' then asc (\<lambda>(s, c). sr_Code s)
     else if key = ''course'' then asc (\<lambda>(s, c). cr_Code c)
     else if key = ''capacity'' then asc (\<lambda>(s, c). sr_Capacity s)
     else if key = ''seats_left'' then asc (\<lambda>(s, c). sr_Capacity s - sr_SeatsTaken s)
     else (\<lambda>a b. time_text_le (sr_UpdatedAt (fst a)) (sr_UpdatedAt (fst b))))"

definition sections_ordered ::
  "page \<Rightarrow> section_filter \<Rightarrow> tables \<Rightarrow> (section_row \<times> course_row) list" where
  "sections_ordered p f t = order_by
     (by_keys [in_order (pg_Order p = SortDescending) (section_column_le (pg_SortBy p)),
               asc (\<lambda>(s, c). sr_ID s)])
     (filter (section_matches f) (section_join t))"

definition store_ListSections :: "section_filter \<Rightarrow> course_section page_result op" where
  "store_ListSections f =
     andThen (lift_result (Normalize (sf_Page f) sectionSortColumns ''code'')) (\<lambda>p.
     andThen (countRows (\<lambda>t. int (length (filter (section_matches f) (section_join t))))) (\<lambda>matching.
     andThen (query_rows ''list sections'' ''iterate sections''
       (\<lambda>t. map scan_section (page_rows p (sections_ordered p f t)))) (\<lambda>sections.
     andThen (SectionMeetings (map sec_ID sections)) (\<lambda>meetings.
     ret (NewPageResult (map (\<lambda>s. s\<lparr>sec_Meetings := meetings (sec_ID s)\<rparr>) sections) matching p)))))"

section \<open>Seat counters\<close>

definition section_row_ok :: "section_row \<Rightarrow> bool" where
  \<comment> \<open>the \<open>CHECK\<close> constraints of \<open>course_sections\<close>\<close>
  "section_row_ok s \<longleftrightarrow> sr_Status s \<in> {SectionDraft, SectionOpen, SectionClosed, SectionCancelled}
     \<and> 0 \<le> sr_Capacity s \<and> 0 \<le> sr_SeatsTaken s \<and> 0 \<le> sr_WaitlistLimit s
     \<and> 0 \<le> sr_WaitlistLength s \<and> sr_SeatsTaken s \<le> sr_Capacity s"

definition update_sections ::
  "(section_row \<Rightarrow> bool) \<Rightarrow> (section_row \<Rightarrow> section_row) \<Rightarrow> tables \<Rightarrow> err + (int \<times> tables)" where
  "update_sections P f t =
     (if list_ex (\<lambda>s. P s \<and> \<not> section_row_ok (f s)) (tbl_rows (t_sections t))
      then Inl (check_violation ''course_sections'')
      else Inr (count_where P (t_sections t), t\<lparr>t_sections := table_update P f (t_sections t)\<rparr>))"

definition seat_pred :: "int \<Rightarrow> int \<Rightarrow> section_row \<Rightarrow> bool" where
  "seat_pred sectionID expectedVersion s \<longleftrightarrow> sr_ID s = sectionID \<and> sr_Version s = expectedVersion
     \<and> sr_Status s = SectionOpen \<and> sr_SeatsTaken s < sr_Capacity s"

definition take_seat :: "instant \<Rightarrow> section_row \<Rightarrow> section_row" where
  "take_seat at s = s\<lparr>sr_SeatsTaken := sr_SeatsTaken s + 1, sr_Version := sr_Version s + 1,
     sr_UpdatedAt := at\<rparr>"

definition explainSeatFailure :: "int \<Rightarrow> int \<Rightarrow> course_section op" where
  "explainSeatFailure sectionID expectedVersion =
     andThen (FindSectionByID sectionID) (\<lambda>current.
       if sec_Version current \<noteq> expectedVersion
       then raise (Wrapped (''section '' @ itoa sectionID @ '' moved to version ''
         @ itoa (sec_Version current)) (Sentinel ErrVersionConflict))
       else if \<not> AcceptsEnrollment current
       then raise (ConflictError (Sentinel ErrConflict) (''section '' @ sec_Code current)
         (''status '' @ section_status_text (sec_Status current)))
       else raise (Wrapped (''section '' @ sec_Code current @ '' has '' @ itoa (sec_SeatsTaken current)
         @ '' of '' @ itoa (sec_Capacity current) @ '' seats taken'') (Sentinel ErrCapacityExhausted)))"

definition ClaimSeat :: "int \<Rightarrow> int \<Rightarrow> instant \<Rightarrow> course_section op" where
  "ClaimSeat sectionID expectedVersion at =
     andThen (on_error (Wrapped (''claim seat in section '' @ itoa sectionID))
       (exec (update_sections (seat_pred sectionID expectedVersion) (take_seat at)))) (\<lambda>affected.
     andThen (on_error (Wrapped ''claim seat rows'') driver) (\<lambda>_.
       if affected = 0 then explainSeatFailure sectionID expectedVersion
       else FindSectionByID sectionID))"

definition release_pred :: "int \<Rightarrow> int \<Rightarrow> section_row \<Rightarrow> bool" where
  "release_pred sectionID expectedVersion s \<longleftrightarrow> sr_ID s = sectionID
     \<and> sr_Version s = expectedVersion \<and> sr_SeatsTaken s > 0"

definition return_seat :: "instant \<Rightarrow> section_row \<Rightarrow> section_row" where
  "return_seat at s = s\<lparr>sr_SeatsTaken := sr_SeatsTaken s - 1, sr_Version := sr_Version s + 1,
     sr_UpdatedAt := at\<rparr>"

definition ReleaseSeat :: "int \<Rightarrow> int \<Rightarrow> instant \<Rightarrow> course_section op" where
  "ReleaseSeat sectionID expectedVersion at =
     andThen (on_error (Wrapped (''release seat in section '' @ itoa sectionID))
       (exec (update_sections (release_pred sectionID expectedVersion) (return_seat at)))) (\<lambda>affected.
     andThen (on_error (Wrapped ''release seat rows'') driver) (\<lambda>_.
       if affected = 0 then
         andThen (FindSectionByID sectionID) (\<lambda>current.
           if sec_Version current \<noteq> expectedVersion
           then raise (Wrapped (''section '' @ itoa sectionID @ '' moved to version ''
             @ itoa (sec_Version current)) (Sentinel ErrVersionConflict))
           else raise (Wrapped (''section '' @ itoa sectionID @ '' holds no seat to release'')
             (Sentinel ErrConflict)))
       else FindSectionByID sectionID))"

definition waitlist_pred :: "int \<Rightarrow> int \<Rightarrow> section_row \<Rightarrow> bool" where
  "waitlist_pred sectionID delta s \<longleftrightarrow> sr_ID s = sectionID
     \<and> sr_WaitlistLength s + delta \<ge> 0 \<and> sr_WaitlistLength s + delta \<le> sr_WaitlistLimit s"

definition move_waitlist :: "int \<Rightarrow> instant \<Rightarrow> section_row \<Rightarrow> section_row" where
  "move_waitlist delta at s = s\<lparr>sr_WaitlistLength := sr_WaitlistLength s + delta,
     sr_Version := sr_Version s + 1, sr_UpdatedAt := at\<rparr>"

definition AdjustWaitlistLength :: "int \<Rightarrow> int \<Rightarrow> instant \<Rightarrow> course_section op" where
  "AdjustWaitlistLength sectionID delta at =
     (if delta = 0 then FindSectionByID sectionID else
      andThen (on_error (Wrapped (''adjust waitlist of section '' @ itoa sectionID))
        (exec (update_sections (waitlist_pred sectionID delta) (move_waitlist delta at)))) (\<lambda>affected.
      andThen (on_error (Wrapped ''adjust waitlist rows'') driver) (\<lambda>_.
        if affected = 0
        then raise (Wrapped (''section '' @ itoa sectionID @ '' waitlist cannot move by ''
          @ itoa delta) (Sentinel ErrWaitlistFull))
        else FindSectionByID sectionID)))"

section \<open>Lookups\<close>

definition section_at :: "tables \<Rightarrow> int \<Rightarrow> course_section option" where
  \<comment> \<open>the section the store finds under an identifier\<close>
  "section_at t i = map_option (\<lambda>sc. (scan_section sc)
       \<lparr>sec_Meetings := group_meetings (meetings_in t [sec_ID (scan_section sc)]) (sec_ID (scan_section sc))\<rparr>)
     (find (\<lambda>(s, c). sr_ID s = i) (section_join t))"

lemma set_section_join:
  "(s, c) \<in> set (section_join t) \<longleftrightarrow>
     s \<in> set (tbl_rows (t_sections t)) \<and> c \<in> set (tbl_rows (t_courses t)) \<and> cr_ID c = sr_CourseID s"
  by (auto simp: section_join_def)

definition shows_row :: "tables \<Rightarrow> course_section \<Rightarrow> section_row \<Rightarrow> bool" where
  \<comment> \<open>the section is the row read back\<close>
  "shows_row t s r \<longleftrightarrow> sec_ID s = sr_ID r \<and> sec_TermID s = sr_TermID r \<and> sec_CourseID s = sr_CourseID r
     \<and> sec_Code s = sr_Code r \<and> sec_Status s = sr_Status r \<and> sec_Capacity s = sr_Capacity r
     \<and> sec_SeatsTaken s = sr_SeatsTaken r \<and> sec_WaitlistLimit s = sr_WaitlistLimit r
     \<and> sec_WaitlistLength s = sr_WaitlistLength r \<and> sec_Version s = sr_Version r
     \<and> sec_Meetings s = group_meetings (meetings_in t [sr_ID r]) (sr_ID r)
     \<and> (\<exists>c \<in> set (tbl_rows (t_courses t)). cr_ID c = sr_CourseID r \<and> sec_CourseCode s = cr_Code c
         \<and> sec_CourseCredits s = cr_Credits c)"

lemma section_at_Some:
  assumes "section_at t i = Some s"
  obtains r where "r \<in> set (tbl_rows (t_sections t))" "sr_ID r = i" "shows_row t s r"
proof -
  from assms obtain r c where rc: "find (\<lambda>(s, c). sr_ID s = i) (section_join t) = Some (r, c)"
    and s: "s = (scan_section (r, c))
      \<lparr>sec_Meetings := group_meetings (meetings_in t [sr_ID r]) (sr_ID r)\<rparr>"
    by (auto simp: section_at_def)
  from find_Some_iff_set [OF rc] have "(r, c) \<in> set (section_join t)" "sr_ID r = i" by auto
  then show ?thesis using that s by (auto simp: set_section_join shows_row_def)
qed

lemma section_at_ID: "section_at t i = Some s \<Longrightarrow> sec_ID s = i"
  by (erule section_at_Some) (simp add: shows_row_def)

lemma FindTermByID_Inr:
  "FindTermByID i w = (Inr x, w') \<Longrightarrow>
     x \<in> set (tbl_rows (t_terms (tb w))) \<and> trm_ID x = i \<and> w' = tick w"
  by (auto simp: FindTermByID_def op_simps dest: first_where_Some)

lemma FindSectionByID_Inr:
  "FindSectionByID i w = (Inr s, w') \<Longrightarrow> section_at (tb w) i = Some s \<and> tb w' = tb w"
  by (auto simp: FindSectionByID_def SectionMeetings_def section_at_def op_simps)

lemma catalog_reads [reads_intro]:
  "reads (FindTermByID i)" "reads (FindTermByCode code)" "reads (store_ListTerms b)"
  "reads (CoursePrerequisites i)" "reads (FindCourseByID i)" "reads (FindCourseByCode code)"
  "reads (SectionMeetings ids)" "reads (FindSectionByID i)" "reads (FindSectionForUpdate i)"
  "reads (store_ListSections f)" "reads (explainSeatFailure i v)"
  unfolding FindTermByID_def FindTermByCode_def store_ListTerms_def CoursePrerequisites_def
    FindCourseByID_def FindCourseByCode_def SectionMeetings_def FindSectionByID_def
    FindSectionForUpdate_def store_ListSections_def explainSeatFailure_def Let_def
  by (intro reads_intro)+

lemma catalog_tame [tame_intro]:
  "tame (FindTermByID i)" "tame (FindTermByCode code)" "tame (store_ListTerms b)"
  "tame (CoursePrerequisites i)" "tame (FindCourseByID i)" "tame (FindCourseByCode code)"
  "tame (SectionMeetings ids)" "tame (FindSectionByID i)" "tame (FindSectionForUpdate i)"
  "tame (store_ListSections f)" "tame (explainSeatFailure i v)" "tame (ClaimSeat i v at)"
  "tame (ReleaseSeat i v at)" "tame (AdjustWaitlistLength i d at)"
  unfolding FindTermByID_def FindTermByCode_def store_ListTerms_def CoursePrerequisites_def
    FindCourseByID_def FindCourseByCode_def SectionMeetings_def FindSectionByID_def
    FindSectionForUpdate_def store_ListSections_def explainSeatFailure_def Let_def
    ClaimSeat_def ReleaseSeat_def AdjustWaitlistLength_def
  by (intro tame_intro)+

section \<open>Guarded updates of one section\<close>

text \<open>The contract the three counter moves share: success means that one row satisfied the
  guard, that this row alone was changed by \<open>f\<close>, and that the result is the row read back.\<close>

locale guarded_update =
  fixes run :: "course_section op" and i :: int
    and P :: "section_row \<Rightarrow> bool" and f :: "section_row \<Rightarrow> section_row"
  assumes guard_id: "P r \<Longrightarrow> sr_ID r = i"
    and keeps_id: "sr_ID (f r) = sr_ID r"
    and effect: "run w = (Inr s, w') \<Longrightarrow>
      \<exists>n. n \<noteq> 0 \<and> update_sections P f (tb w) = Inr (n, tb w') \<and> section_at (tb w') i = Some s"
begin

lemma one_row:
  assumes "section_key.keyed (t_sections (tb w))" "run w = (Inr s, w')"
  obtains r where "r \<in> set (tbl_rows (t_sections (tb w)))" "P r" "sr_ID r = i" "section_row_ok (f r)"
    "tb w' = (tb w)\<lparr>t_sections := table_update (\<lambda>r. sr_ID r = i) (\<lambda>_. f r) (t_sections (tb w))\<rparr>"
    "shows_row (tb w') s (f r)"
proof -
  let ?rows = "tbl_rows (t_sections (tb w))"
  obtain n where n: "n \<noteq> 0" "update_sections P f (tb w) = Inr (n, tb w')" "section_at (tb w') i = Some s"
    using effect assms(2) by blast
  then have ok: "\<forall>s \<in> set ?rows. P s \<longrightarrow> section_row_ok (f s)"
    and t: "tb w' = (tb w)\<lparr>t_sections := table_update P f (t_sections (tb w))\<rparr>"
    and c: "count_where P (t_sections (tb w)) \<noteq> 0"
    by (auto simp: update_sections_def list_ex_iff split: if_splits)
  from c obtain r where r: "r \<in> set ?rows" "P r" by (auto simp: count_where_zero)
  then have i: "sr_ID r = i" by (simp add: guard_id)
  have uniq: "q = r" if "q \<in> set ?rows" "sr_ID q = i" for q
    using section_key.by_id_unique [OF assms(1) that(1) r(1)] that(2) i by simp
  have eq: "(if P q then f q else q) = (if sr_ID q = i then f r else q)" if q: "q \<in> set ?rows" for q
  proof (cases "sr_ID q = i")
    case True
    then have "q = r" using uniq q by blast
    then show ?thesis using r i by simp
  next
    case False
    then have "\<not> P q" using guard_id by blast
    then show ?thesis using False by simp
  qed
  then have upd: "table_update P f (t_sections (tb w))
      = table_update (\<lambda>r. sr_ID r = i) (\<lambda>_. f r) (t_sections (tb w))"
    by (simp add: table_update_def)
  obtain r' where r': "r' \<in> set (tbl_rows (t_sections (tb w')))" "sr_ID r' = i" "shows_row (tb w') s r'"
    using n(3) by (rule section_at_Some)
  then have "r' = f r"
    using t upd eq keeps_id i by auto
  with r r' i ok t upd that show ?thesis by simp
qed

end

interpretation claim_seat: guarded_update "ClaimSeat i v at" i "seat_pred i v" "take_seat at" for i v at
  by unfold_locales
    (auto simp: seat_pred_def take_seat_def ClaimSeat_def explainSeatFailure_def op_simps
      dest: FindSectionByID_Inr split: if_splits)

interpretation release_seat: guarded_update "ReleaseSeat i v at" i "release_pred i v" "return_seat at" for i v at
  by unfold_locales
    (auto simp: release_pred_def return_seat_def ReleaseSeat_def op_simps
      dest: FindSectionByID_Inr split: if_splits)

interpretation waitlist_up: guarded_update "AdjustWaitlistLength i 1 at" i "waitlist_pred i 1"
  "move_waitlist 1 at" for i at
  by unfold_locales
    (auto simp: waitlist_pred_def move_waitlist_def AdjustWaitlistLength_def op_simps
      dest: FindSectionByID_Inr split: if_splits)

interpretation waitlist_down: guarded_update "AdjustWaitlistLength i (- 1) at" i
  "waitlist_pred i (- 1)" "move_waitlist (- 1) at" for i at
  by unfold_locales
    (auto simp: waitlist_pred_def move_waitlist_def AdjustWaitlistLength_def op_simps
      dest: FindSectionByID_Inr split: if_splits)

end
