(* ===== verification/EnrollmentStore.thy ===== *)
theory EnrollmentStore
  imports CatalogStore
begin

text \<open>
  The enrollment repository (\<open>internal/storage/sqlite/enrollments.go\<close>): inserts and
  versioned updates of seat claims under the partial unique index on active claims, the reads
  that feed eligibility, and the waitlist of a section with its next rank and its head.
\<close>

section \<open>Writes\<close>

definition occupies :: "enrollment_status \<Rightarrow> bool" where
  \<comment> \<open>the predicate of the partial unique index \<open>ux_enrollments_active_seat\<close>\<close>
  "occupies s \<longleftrightarrow> s \<in> {EnrollmentPending, EnrollmentEnrolled, EnrollmentWaitlisted, EnrollmentCompleted}"

definition enrollment_row_ok :: "enrollment \<Rightarrow> bool" where
  \<comment> \<open>the \<open>CHECK\<close> constraints of \<open>enrollments\<close>\<close>
  "enrollment_row_ok e \<longleftrightarrow> enr_Credits e > 0
     \<and> (case enr_Status e of EnrollmentOther s \<Rightarrow> False | _ \<Rightarrow> True) \<and> enr_WaitlistRank e \<ge> 0"

definition enrollment_refs_ok :: "tables \<Rightarrow> enrollment \<Rightarrow> bool" where
  \<comment> \<open>the foreign keys of \<open>enrollments\<close>\<close>
  "enrollment_refs_ok t e \<longleftrightarrow> exists_where (\<lambda>u. usr_ID u = enr_StudentID e) (t_users t)
     \<and> exists_where (\<lambda>r. trm_ID r = enr_TermID e) (t_terms t)
     \<and> exists_where (\<lambda>s. sr_ID s = enr_SectionID e) (t_sections t)"

definition seat_clash :: "enrollment \<Rightarrow> enrollment \<Rightarrow> bool" where
  "seat_clash e r \<longleftrightarrow> enr_StudentID r = enr_StudentID e \<and> enr_SectionID r = enr_SectionID e
     \<and> occupies (enr_Status r) \<and> occupies (enr_Status e)"

definition insert_enrollment :: "enrollment \<Rightarrow> tables \<Rightarrow> err + (int \<times> tables)" where
  "insert_enrollment e t =
     (if \<not> enrollment_row_ok e then Inl (check_violation ''enrollments'')
      else if exists_where (seat_clash e) (t_enrollments t)
      then Inl (unique_violation ''enrollments.student_id, enrollments.section_id'')
      else if \<not> enrollment_refs_ok t e then Inl foreign_key_violation
      else Inr (tbl_seq (t_enrollments t) + 1,
        t\<lparr>t_enrollments := table_insert (\<lambda>i r. r\<lparr>enr_ID := i\<rparr>) (e\<lparr>enr_Version := 1\<rparr>) (t_enrollments t)\<rparr>))"

definition CreateEnrollment :: "enrollment \<Rightarrow> enrollment op" where
  "CreateEnrollment e =
     andThen (on_error (\<lambda>err. if isUniqueViolation err
         then Wrapped (''student '' @ itoa (enr_StudentID e) @ '' already holds section ''
           @ itoa (enr_SectionID e)) (Sentinel ErrDuplicateEnrollment)
         else Wrapped ''insert enrollment'' err)
       (exec (insert_enrollment e))) (\<lambda>i.
     andThen (on_error (Wrapped ''read inserted enrollment id'') driver) (\<lambda>_.
     ret (e\<lparr>enr_ID := i, enr_Version := 1\<rparr>)))"

definition write_enrollment :: "enrollment \<Rightarrow> enrollment \<Rightarrow> enrollment" where
  \<comment> \<open>the \<open>SET\<close> clause of the update\<close>
  "write_enrollment e r = r\<lparr>enr_Status := enr_Status e, enr_WaitlistRank := enr_WaitlistRank e,
     enr_DecidedAt := enr_DecidedAt e, enr_ReleasedAt := enr_ReleasedAt e,
     enr_ReleaseReason := enr_ReleaseReason e, enr_Version := enr_Version r + 1,
     enr_UpdatedAt := enr_UpdatedAt e\<rparr>"

definition enrollment_pred :: "int \<Rightarrow> int \<Rightarrow> enrollment \<Rightarrow> bool" where
  "enrollment_pred i v r \<longleftrightarrow> enr_ID r = i \<and> enr_Version r = v"

definition update_enrollment :: "enrollment \<Rightarrow> int \<Rightarrow> tables \<Rightarrow> err + (int \<times> tables)" where
  "update_enrollment e v t = (let P = enrollment_pred (enr_ID e) v; rows = tbl_rows (t_enrollments t) in
     if list_ex (\<lambda>r. P r \<and> \<not> enrollment_row_ok (write_enrollment e r)) rows
     then Inl (check_violation ''enrollments'')
     else if list_ex (\<lambda>r. P r \<and> list_ex (\<lambda>q. enr_ID q \<noteq> enr_ID r \<and> seat_clash (write_enrollment e r) q) rows) rows
     then Inl (unique_violation ''enrollments.student_id, enrollments.section_id'')
     else Inr (count_where P (t_enrollments t),
       t\<lparr>t_enrollments := table_update P (write_enrollment e) (t_enrollments t)\<rparr>))"

definition UpdateEnrollment :: "enrollment \<Rightarrow> int \<Rightarrow> enrollment op" where
  "UpdateEnrollment e expectedVersion =
     andThen (on_error (Wrapped (''update enrollment '' @ itoa (enr_ID e)))
       (exec (update_enrollment e expectedVersion))) (\<lambda>affected.
     andThen (on_error (Wrapped ''update enrollment rows'') driver) (\<lambda>_.
       if affected = 0
       then raise (Wrapped (''enrollment '' @ itoa (enr_ID e) @ '' changed concurrently'')
         (Sentinel ErrVersionConflict))
       else ret (e\<lparr>enr_Version := expectedVersion + 1\<rparr>)))"

section \<open>Reads\<close>

definition FindEnrollmentByID :: "int \<Rightarrow> enrollment op" where
  "FindEnrollmentByID i = on_error (notFound (''enrollment '' @ itoa i))
     (query_row (\<lambda>t. first_where (\<lambda>r. enr_ID r = i) (t_enrollments t)))"

definition FindActiveEnrollment :: "int \<Rightarrow> int \<Rightarrow> enrollment op" where
  "FindActiveEnrollment studentID sectionID =
     on_error (notFound (''active enrollment of student '' @ itoa studentID @ '' in section ''
         @ itoa sectionID))
       (query_row (\<lambda>t. first_where (\<lambda>r. enr_StudentID r = studentID \<and> enr_SectionID r = sectionID
          \<and> occupies (enr_Status r)) (t_enrollments t)))"

definition held_by :: "int \<Rightarrow> int \<Rightarrow> enrollment \<Rightarrow> bool" where
  "held_by studentID termID e \<longleftrightarrow> enr_StudentID e = studentID \<and> enr_TermID e = termID
     \<and> enr_Status e \<in> {EnrollmentPending, EnrollmentEnrolled, EnrollmentWaitlisted}"

definition active_of :: "tables \<Rightarrow> int \<Rightarrow> int \<Rightarrow> enrollment list" where
  "active_of t studentID termID = order_by
     (by_keys [\<lambda>a b. time_text_le (enr_RequestedAt a) (enr_RequestedAt b), asc enr_ID])
     (select_where (held_by studentID termID) (t_enrollments t))"

definition queryEnrollments :: "(tables \<Rightarrow> enrollment list) \<Rightarrow> enrollment list op" where
  "queryEnrollments f = query_rows ''query enrollments'' ''iterate enrollments'' f"

definition ActiveEnrollmentsForStudent :: "int \<Rightarrow> int \<Rightarrow> enrollment list op" where
  "ActiveEnrollmentsForStudent studentID termID = queryEnrollments (\<lambda>t. active_of t studentID termID)"

definition active_meetings_of :: "tables \<Rightarrow> int \<Rightarrow> int \<Rightarrow> meeting list" where
  \<comment> \<open>\<open>FROM section_meetings m JOIN enrollments e ON e.section_id = m.section_id\<close>\<close>
  "active_meetings_of t studentID termID = order_by
     (by_keys [asc mtg_Weekday, asc mtg_StartMinute, asc mtg_ID])
     (concat (map (\<lambda>m. map (\<lambda>e. m) (select_where (\<lambda>e. enr_SectionID e = mtg_SectionID m
         \<and> held_by studentID termID e) (t_enrollments t))) (tbl_rows (t_meetings t))))"

definition ActiveMeetingsForStudent :: "int \<Rightarrow> int \<Rightarrow> meeting list op" where
  "ActiveMeetingsForStudent studentID termID =
     query_rows (''list held meetings of student '' @ itoa studentID) ''iterate held meetings''
       (\<lambda>t. active_meetings_of t studentID termID)"

definition waiting_in :: "int \<Rightarrow> enrollment \<Rightarrow> bool" where
  "waiting_in sectionID e \<longleftrightarrow> enr_SectionID e = sectionID \<and> enr_Status e = EnrollmentWaitlisted"

definition highest_rank :: "tables \<Rightarrow> int \<Rightarrow> int option" where
  \<comment> \<open>\<open>SELECT MAX(waitlist_rank)\<close>, NULL without rows\<close>
  "highest_rank t sectionID =
     (let ranks = map enr_WaitlistRank (select_where (waiting_in sectionID) (t_enrollments t)) in
      if ranks = [] then None else Some (foldr max ranks (hd ranks)))"

definition NextWaitlistRank :: "int \<Rightarrow> int op" where
  "NextWaitlistRank sectionID =
     andThen (on_error (Wrapped (''read waitlist rank of section '' @ itoa sectionID))
       (query (\<lambda>t. highest_rank t sectionID))) (\<lambda>highest.
     ret (case highest of None \<Rightarrow> 1 | Some h \<Rightarrow> h + 1))"

definition waitlist_order :: "enrollment \<Rightarrow> enrollment \<Rightarrow> bool" where
  "waitlist_order = by_keys [asc enr_WaitlistRank,
     \<lambda>a b. time_text_le (enr_RequestedAt a) (enr_RequestedAt b), asc enr_ID]"

definition waitlist_of :: "tables \<Rightarrow> int \<Rightarrow> enrollment list" where
  "waitlist_of t sectionID = order_by waitlist_order (select_where (waiting_in sectionID) (t_enrollments t))"

definition HeadOfWaitlist :: "int \<Rightarrow> enrollment op" where
  "HeadOfWaitlist sectionID = on_error (notFound (''waitlist head of section '' @ itoa sectionID))
     (query_row (\<lambda>t. case limit_offset 1 0 (waitlist_of t sectionID) of [] \<Rightarrow> None | e # _ \<Rightarrow> Some e))"

section \<open>Lists\<close>

record enrollment_filter =
  ef_StudentID :: int
  ef_TermID :: int
  ef_SectionID :: int
  ef_Statuses :: "enrollment_status list"
  ef_Page :: page

definition enrollment_matches :: "enrollment_filter \<Rightarrow> enrollment \<Rightarrow> bool" where
  "enrollment_matches f e \<longleftrightarrow> (ef_StudentID f > 0 \<longrightarrow> enr_StudentID e = ef_StudentID f)
     \<and> (ef_TermID f > 0 \<longrightarrow> enr_TermID e = ef_TermID f)
     \<and> (ef_SectionID f > 0 \<longrightarrow> enr_SectionID e = ef_SectionID f)
     \<and> (length (ef_Statuses f) > 0 \<longrightarrow> enr_Status e \<in> set (ef_Statuses f))"

definition enrollmentSortColumns :: "(string \<times> string) list" where
  "enrollmentSortColumns = map (\<lambda>c. (c, c))
     [''requested_at'', ''updated_at'', ''status'', ''course_code'', ''waitlist_rank'', ''id'']"

definition rosterSortColumns :: "(string \<times> string) list" where
  "rosterSortColumns = map (\<lambda>c. (c, c)) [''waitlist_rank'', ''requested_at'', ''status'', ''id'']"

definition enrollment_column_le :: "string \<Rightarrow> enrollment \<Rightarrow> enrollment \<Rightarrow> bool" where
  "enrollment_column_le key =
     (if key = ''requested_at'' then (\<lambda>a b. time_text_le (enr_RequestedAt a) (enr_RequestedAt b))
      else if key = ''updated_at'' then (\<lambda>a b. time_text_le (enr_UpdatedAt a) (enr_UpdatedAt b))
      else if key = ''status'' then asc (\<lambda>e. enrollment_status_text (enr_Status e))
      else if key = ''course_code'' then asc enr_CourseCode
      else if key = ''waitlist_rank'' then asc enr_WaitlistRank
      else asc enr_ID)"

definition enrollments_ordered :: "page \<Rightarrow> (enrollment \<Rightarrow> bool) \<Rightarrow> tables \<Rightarrow> enrollment list" where
  "enrollments_ordered p P t = order_by
     (by_keys [in_order (pg_Order p = SortDescending) (enrollment_column_le (pg_SortBy p)), asc enr_ID])
     (select_where P (t_enrollments t))"

definition ListEnrollments :: "enrollment_filter \<Rightarrow> enrollment page_result op" where
  "ListEnrollments f =
     andThen (lift_result (Normalize (ef_Page f) enrollmentSortColumns ''requested_at'')) (\<lambda>p.
     andThen (countRows (\<lambda>t. count_where (enrollment_matches f) (t_enrollments t))) (\<lambda>matching.
     andThen (queryEnrollments (\<lambda>t. page_rows p (enrollments_ordered p (enrollment_matches f) t))) (\<lambda>items.
     ret (NewPageResult items matching p))))"

definition on_roster :: "int \<Rightarrow> enrollment \<Rightarrow> bool" where
  "on_roster sectionID e \<longleftrightarrow> enr_SectionID e = sectionID
     \<and> enr_Status e \<in> {EnrollmentEnrolled, EnrollmentWaitlisted, EnrollmentCompleted}"

definition store_SectionRoster :: "int \<Rightarrow> page \<Rightarrow> enrollment page_result op" where
  "store_SectionRoster sectionID pg =
     andThen (lift_result (Normalize pg rosterSortColumns ''requested_at'')) (\<lambda>p.
     andThen (countRows (\<lambda>t. count_where (on_roster sectionID) (t_enrollments t))) (\<lambda>matching.
     andThen (queryEnrollments (\<lambda>t. page_rows p (enrollments_ordered p (on_roster sectionID) t))) (\<lambda>items.
     ret (NewPageResult items matching p))))"

section \<open>What the writes do\<close>

lemma enrollment_reads [reads_intro]:
  "reads (FindEnrollmentByID i)" "reads (FindActiveEnrollment a b)" "reads (queryEnrollments g)"
  "reads (ActiveEnrollmentsForStudent a b)" "reads (ActiveMeetingsForStudent a b)"
  "reads (NextWaitlistRank i)" "reads (HeadOfWaitlist i)" "reads (ListEnrollments f)"
  "reads (store_SectionRoster i pg)"
  unfolding FindEnrollmentByID_def FindActiveEnrollment_def queryEnrollments_def
    ActiveEnrollmentsForStudent_def ActiveMeetingsForStudent_def NextWaitlistRank_def
    HeadOfWaitlist_def ListEnrollments_def store_SectionRoster_def
  by (intro reads_intro)+

lemma enrollment_tame [tame_intro]:
  "tame (FindEnrollmentByID i)" "tame (FindActiveEnrollment a b)" "tame (queryEnrollments g)"
  "tame (ActiveEnrollmentsForStudent a b)" "tame (ActiveMeetingsForStudent a b)"
  "tame (NextWaitlistRank i)" "tame (HeadOfWaitlist i)" "tame (ListEnrollments f)"
  "tame (store_SectionRoster i pg)" "tame (CreateEnrollment e)" "tame (UpdateEnrollment e v)"
  unfolding FindEnrollmentByID_def FindActiveEnrollment_def queryEnrollments_def
    ActiveEnrollmentsForStudent_def ActiveMeetingsForStudent_def NextWaitlistRank_def
    HeadOfWaitlist_def ListEnrollments_def store_SectionRoster_def CreateEnrollment_def
    UpdateEnrollment_def
  by (intro tame_intro)+

lemma CreateEnrollment_Inr:
  assumes "CreateEnrollment e w = (Inr e', w')"
  shows "enrollment_row_ok e" "\<not> exists_where (seat_clash e) (t_enrollments (tb w))"
    "enrollment_refs_ok (tb w) e"
    "e' = e\<lparr>enr_ID := tbl_seq (t_enrollments (tb w)) + 1, enr_Version := 1\<rparr>"
    "tb w' = (tb w)\<lparr>t_enrollments := table_insert (\<lambda>i r. r\<lparr>enr_ID := i\<rparr>) (e\<lparr>enr_Version := 1\<rparr>)
       (t_enrollments (tb w))\<rparr>"
  using assms by (auto simp: CreateEnrollment_def insert_enrollment_def op_simps split: if_splits)

lemma UpdateEnrollment_Inr:
  assumes "enrollment_key.keyed (t_enrollments (tb w))" "UpdateEnrollment e v w = (Inr e', w')"
  obtains r where "r \<in> set (tbl_rows (t_enrollments (tb w)))" "enr_ID r = enr_ID e" "enr_Version r = v"
    "enrollment_row_ok (write_enrollment e r)" "e' = e\<lparr>enr_Version := v + 1\<rparr>"
    "\<forall>q \<in> set (tbl_rows (t_enrollments (tb w))). enr_ID q \<noteq> enr_ID r \<longrightarrow>
       \<not> seat_clash (write_enrollment e r) q"
    "tb w' = (tb w)\<lparr>t_enrollments :=
       table_update (\<lambda>q. enr_ID q = enr_ID r) (\<lambda>_. write_enrollment e r) (t_enrollments (tb w))\<rparr>"
proof -
  let ?P = "enrollment_pred (enr_ID e) v" and ?rows = "tbl_rows (t_enrollments (tb w))"
  have u: "update_enrollment e v (tb w) = Inr (n, tb w') \<Longrightarrow> n \<noteq> 0 \<Longrightarrow> thesis" for n
  proof -
    assume u: "update_enrollment e v (tb w) = Inr (n, tb w')" "n \<noteq> 0"
    then have ok: "\<forall>r \<in> set ?rows. ?P r \<longrightarrow> enrollment_row_ok (write_enrollment e r)
        \<and> (\<forall>q \<in> set ?rows. enr_ID q \<noteq> enr_ID r \<longrightarrow> \<not> seat_clash (write_enrollment e r) q)"
      and t: "tb w' = (tb w)\<lparr>t_enrollments := table_update ?P (write_enrollment e) (t_enrollments (tb w))\<rparr>"
      and c: "count_where ?P (t_enrollments (tb w)) \<noteq> 0"
      by (auto simp: update_enrollment_def Let_def list_ex_iff split: if_splits)
    from c obtain r where r: "r \<in> set ?rows" "?P r" by (auto simp: count_where_zero)
    then have id: "enr_ID r = enr_ID e" "enr_Version r = v" by (simp_all add: enrollment_pred_def)
    have eq: "(if ?P q then write_enrollment e q else q)
        = (if enr_ID q = enr_ID r then write_enrollment e r else q)" if "q \<in> set ?rows" for q
      using enrollment_key.by_id_unique [OF assms(1) that r(1)] id r(2)
      by (cases "enr_ID q = enr_ID r") (auto simp: enrollment_pred_def)
    then have "tb w' = (tb w)\<lparr>t_enrollments :=
       table_update (\<lambda>q. enr_ID q = enr_ID r) (\<lambda>_. write_enrollment e r) (t_enrollments (tb w))\<rparr>"
      using t by (simp add: table_update_def)
    moreover have "e' = e\<lparr>enr_Version := v + 1\<rparr>"
      using assms(2) by (auto simp: UpdateEnrollment_def op_simps split: if_splits)
    ultimately show thesis using that r id ok by blast
  qed
  from assms(2) obtain n where "update_enrollment e v (tb w) = Inr (n, tb w')" "n \<noteq> 0"
    by (auto simp: UpdateEnrollment_def op_simps split: if_splits)
  then show thesis by (rule u)
qed

lemma FindEnrollmentByID_Inr:
  "FindEnrollmentByID i w = (Inr e, w') \<Longrightarrow>
     e \<in> set (tbl_rows (t_enrollments (tb w))) \<and> enr_ID e = i \<and> w' = tick w"
  by (auto simp: FindEnrollmentByID_def op_simps dest: first_where_Some)

end
