(* ===== verification/RegistrationStore.thy ===== *)
theory RegistrationStore
  imports Transactions
begin

text \<open>
  The registration repository (\<open>internal/storage/sqlite/registrations.go\<close>): the versioned
  upsert of orientation records, their lookups and the registrar work queue, and the academic
  records of a student.
\<close>

section \<open>Writes\<close>

definition registration_row_ok :: "registration \<Rightarrow> bool" where
  \<comment> \<open>the \<open>CHECK\<close> constraint of \<open>student_registrations\<close>\<close>
  "registration_row_ok r \<longleftrightarrow> (case reg_Status r of RegistrationOther s \<Rightarrow> False | _ \<Rightarrow> True)"

definition registration_refs_ok :: "tables \<Rightarrow> registration \<Rightarrow> bool" where
  \<comment> \<open>the foreign keys of \<open>student_registrations\<close>\<close>
  "registration_refs_ok t r \<longleftrightarrow> exists_where (\<lambda>u. usr_ID u = reg_StudentID r) (t_users t)
     \<and> exists_where (\<lambda>m. trm_ID m = reg_TermID r) (t_terms t)
     \<and> (case reg_DecidedByUserID r of None \<Rightarrow> True
         | Some d \<Rightarrow> exists_where (\<lambda>u. usr_ID u = d) (t_users t))"

definition insert_registration :: "registration \<Rightarrow> tables \<Rightarrow> err + (int \<times> tables)" where
  "insert_registration r t =
     (if \<not> registration_row_ok r then Inl (check_violation ''student_registrations'')
      else if exists_where (\<lambda>q. reg_StudentID q = reg_StudentID r \<and> reg_TermID q = reg_TermID r)
        (t_registrations t)
      then Inl (unique_violation ''student_registrations.student_id, student_registrations.term_id'')
      else if \<not> registration_refs_ok t r then Inl foreign_key_violation
      else Inr (tbl_seq (t_registrations t) + 1, t\<lparr>t_registrations :=
        table_insert (\<lambda>i r. r\<lparr>reg_ID := i\<rparr>) (r\<lparr>reg_Version := 1\<rparr>) (t_registrations t)\<rparr>))"

definition write_registration :: "registration \<Rightarrow> registration \<Rightarrow> registration" where
  \<comment> \<open>the \<open>SET\<close> clause of the update\<close>
  "write_registration r q = q\<lparr>reg_Status := reg_Status r, reg_ProgramCode := reg_ProgramCode r,
     reg_AdvisorEmail := reg_AdvisorEmail r, reg_DormPreference := reg_DormPreference r,
     reg_SubmittedAt := reg_SubmittedAt r, reg_DecidedAt := reg_DecidedAt r,
     reg_DecidedByUserID := reg_DecidedByUserID r, reg_DecisionNote := reg_DecisionNote r,
     reg_Version := reg_Version q + 1, reg_UpdatedAt := reg_UpdatedAt r\<rparr>"

definition registration_pred :: "registration \<Rightarrow> registration \<Rightarrow> bool" where
  "registration_pred r q \<longleftrightarrow> reg_ID q = reg_ID r \<and> reg_Version q = reg_Version r"

definition update_registration :: "registration \<Rightarrow> tables \<Rightarrow> err + (int \<times> tables)" where
  "update_registration r t =
     (if list_ex (\<lambda>q. registration_pred r q \<and> \<not> registration_row_ok (write_registration r q))
        (tbl_rows (t_registrations t)) then Inl (check_violation ''student_registrations'')
      else if list_ex (\<lambda>q. registration_pred r q \<and> \<not> registration_refs_ok t (write_registration r q))
        (tbl_rows (t_registrations t)) then Inl foreign_key_violation
      else Inr (count_where (registration_pred r) (t_registrations t), t\<lparr>t_registrations :=
        table_update (registration_pred r) (write_registration r) (t_registrations t)\<rparr>))"

definition UpsertRegistration :: "registration \<Rightarrow> registration op" where
  "UpsertRegistration r =
     (if reg_StudentID r \<le> 0 \<or> reg_TermID r \<le> 0
      then raise (FieldError ''registration'' ''student and term are required'')
      else if reg_ID r = 0 then
        andThen (on_error (\<lambda>err. if isUniqueViolation err
            then Wrapped (''registration for student '' @ itoa (reg_StudentID r) @ '' in term ''
              @ itoa (reg_TermID r) @ '' already exists'') (Sentinel ErrConflict)
            else Wrapped ''insert registration'' err)
          (exec (insert_registration r))) (\<lambda>i.
        andThen (on_error (Wrapped ''read inserted registration id'') driver) (\<lambda>_.
        ret (r\<lparr>reg_ID := i, reg_Version := 1\<rparr>)))
      else
        andThen (on_error (Wrapped (''update registration '' @ itoa (reg_ID r)))
          (exec (update_registration r))) (\<lambda>affected.
        andThen (on_error (Wrapped ''update registration rows'') driver) (\<lambda>_.
        if affected = 0
        then raise (Wrapped (''registration '' @ itoa (reg_ID r) @ '' changed concurrently'')
          (Sentinel ErrVersionConflict))
        else ret (r\<lparr>reg_Version := reg_Version r + 1\<rparr>))))"

section \<open>Reads\<close>

definition find_registration :: "int \<Rightarrow> int \<Rightarrow> tables \<Rightarrow> registration option" where
  "find_registration studentID termID t =
     first_where (\<lambda>r. reg_StudentID r = studentID \<and> reg_TermID r = termID) (t_registrations t)"

definition FindRegistration :: "int \<Rightarrow> int \<Rightarrow> registration op" where
  "FindRegistration studentID termID =
     on_error (notFound (''registration for student '' @ itoa studentID @ '' in term '' @ itoa termID))
       (query_row (find_registration studentID termID))"

definition records_of :: "tables \<Rightarrow> int \<Rightarrow> academic_record list" where
  "records_of t studentID = order_by
     (by_keys [\<lambda>a b. time_text_le (rec_CompletedAt a) (rec_CompletedAt b), asc rec_CourseCode])
     (select_where (\<lambda>r. rec_StudentID r = studentID) (t_records t))"

definition StudentAcademicRecords :: "int \<Rightarrow> academic_record list op" where
  "StudentAcademicRecords studentID =
     query_rows (''list academic records of student '' @ itoa studentID) ''iterate academic records''
       (\<lambda>t. records_of t studentID)"

definition FindRegistrationByID :: "int \<Rightarrow> registration op" where
  "FindRegistrationByID i = on_error (notFound (''registration '' @ itoa i))
     (query_row (\<lambda>t. first_where (\<lambda>r. reg_ID r = i) (t_registrations t)))"

definition registrationSortColumns :: "(string \<times> string) list" where
  "registrationSortColumns = map (\<lambda>c. (c, c)) [''submitted_at'', ''updated_at'', ''status'', ''id'']"

definition nullable_time_le :: "instant option \<Rightarrow> instant option \<Rightarrow> bool" where
  \<comment> \<open>NULL sorts before every text\<close>
  "nullable_time_le a b = (case a of None \<Rightarrow> True
     | Some x \<Rightarrow> (case b of None \<Rightarrow> False | Some y \<Rightarrow> time_text_le x y))"

definition registration_column_le :: "string \<Rightarrow> registration \<Rightarrow> registration \<Rightarrow> bool" where
  "registration_column_le key =
     (if key = ''submitted_at'' then (\<lambda>a b. nullable_time_le (reg_SubmittedAt a) (reg_SubmittedAt b))
      else if key = ''updated_at'' then (\<lambda>a b. time_text_le (reg_UpdatedAt a) (reg_UpdatedAt b))
      else if key = ''status'' then asc (\<lambda>r. registration_status_text (reg_Status r))
      else asc reg_ID)"

definition registration_matches :: "int \<Rightarrow> registration_status option \<Rightarrow> registration \<Rightarrow> bool" where
  "registration_matches termID status r \<longleftrightarrow> (termID > 0 \<longrightarrow> reg_TermID r = termID)
     \<and> (case status of None \<Rightarrow> True | Some s \<Rightarrow> reg_Status r = s)"

definition registrations_ordered ::
  "page \<Rightarrow> int \<Rightarrow> registration_status option \<Rightarrow> tables \<Rightarrow> registration list" where
  "registrations_ordered p termID status t = order_by
     (by_keys [in_order (pg_Order p = SortDescending) (registration_column_le (pg_SortBy p)), asc reg_ID])
     (select_where (registration_matches termID status) (t_registrations t))"

definition store_ListRegistrations ::
  "int \<Rightarrow> registration_status option \<Rightarrow> page \<Rightarrow> registration page_result op" where
  "store_ListRegistrations termID status pg =
     andThen (lift_result (Normalize pg registrationSortColumns ''submitted_at'')) (\<lambda>p.
     andThen (countRows (\<lambda>t. count_where (registration_matches termID status) (t_registrations t))) (\<lambda>matching.
     andThen (query_rows ''list registrations'' ''iterate registrations''
       (\<lambda>t. page_rows p (registrations_ordered p termID status t))) (\<lambda>items.
     ret (NewPageResult items matching p))))"

section \<open>What the operations do\<close>

lemma registration_reads [reads_intro]:
  "reads (FindRegistration a b)" "reads (StudentAcademicRecords a)" "reads (FindRegistrationByID i)"
  "reads (store_ListRegistrations i st pg)"
  unfolding FindRegistration_def StudentAcademicRecords_def FindRegistrationByID_def
    store_ListRegistrations_def
  by (intro reads_intro)+

lemma registration_tame [tame_intro]:
  "tame (FindRegistration a b)" "tame (StudentAcademicRecords a)" "tame (FindRegistrationByID i)"
  "tame (store_ListRegistrations i st pg)" "tame (UpsertRegistration r)"
  unfolding FindRegistration_def StudentAcademicRecords_def FindRegistrationByID_def
    store_ListRegistrations_def UpsertRegistration_def
  by (intro tame_intro)+

lemma UpsertRegistration_insert:
  assumes "UpsertRegistration r w = (Inr r', w')" "reg_ID r = 0"
  shows "r' = r\<lparr>reg_ID := tbl_seq (t_registrations (tb w)) + 1, reg_Version := 1\<rparr>"
    "find_registration (reg_StudentID r) (reg_TermID r) (tb w) = None"
    "tb w' = (tb w)\<lparr>t_registrations := table_insert (\<lambda>i r. r\<lparr>reg_ID := i\<rparr>) (r\<lparr>reg_Version := 1\<rparr>)
       (t_registrations (tb w))\<rparr>"
  using assms
  by (auto simp: UpsertRegistration_def insert_registration_def op_simps exists_where_iff
      find_registration_def first_where_None split: if_splits)

lemma UpsertRegistration_update:
  assumes "UpsertRegistration r w = (Inr r', w')" "reg_ID r \<noteq> 0"
  shows "r' = r\<lparr>reg_Version := reg_Version r + 1\<rparr>"
    "\<exists>q \<in> set (tbl_rows (t_registrations (tb w))). registration_pred r q"
    "tb w' = (tb w)\<lparr>t_registrations :=
       table_update (registration_pred r) (write_registration r) (t_registrations (tb w))\<rparr>"
  using assms
  by (auto simp: UpsertRegistration_def update_registration_def op_simps count_where_zero split: if_splits)

end
