(* ===== verification/Evolution.thy ===== *)
theory Evolution
  imports Transactions
begin

text \<open>
  Relations between the database before and after an operation, whatever fails on the way. A
  component gives a reflexive and transitive relation; the locale carries it through the
  combinators and through transactions, so that a component only looks at its statements.
\<close>

named_theorems keeps_intro \<open>operations that move the database along a relation\<close>

locale evolution =
  fixes R :: "tables \<Rightarrow> tables \<Rightarrow> bool"
  assumes refl: "R t t" and trans: "R t u \<Longrightarrow> R u v \<Longrightarrow> R t v"
begin

definition keeps :: "'a op \<Rightarrow> bool" where
  "keeps m \<longleftrightarrow> (\<forall>w. R (tb w) (tb (snd (m w))))"

lemma keeps_result: "keeps m \<Longrightarrow> m w = (r, w') \<Longrightarrow> R (tb w) (tb w')"
  unfolding keeps_def by (metis snd_conv)

lemma keepsI: "(\<And>w r w'. m w = (r, w') \<Longrightarrow> R (tb w) (tb w')) \<Longrightarrow> keeps m"
  unfolding keeps_def by (metis prod.collapse)

lemma keeps_reads: "reads m \<Longrightarrow> keeps m"
  by (auto simp: keeps_def reads_def refl)

lemma keeps_known:
  \<comment> \<open>what comes next is only asked of the results the first operation has\<close>
  assumes "keeps m" "\<And>w x w'. m w = (Inr x, w') \<Longrightarrow> keeps (f x)"
  shows "keeps (andThen m f)"
proof (rule keepsI)
  fix w r w'
  assume run: "andThen m f w = (r, w')"
  obtain s w1 where m: "m w = (s, w1)" by fastforce
  have first: "R (tb w) (tb w1)" using keeps_result [OF assms(1) m] .
  show "R (tb w) (tb w')"
  proof (cases s)
    case (Inr x)
    then have "f x w1 = (r, w')" using run m by (simp add: andThen_def)
    then show ?thesis using first keeps_result [OF assms(2)] m Inr trans by blast
  qed (use run m first in \<open>simp add: andThen_def\<close>)
qed

lemma keeps_andThen [keeps_intro]: "keeps m \<Longrightarrow> (\<And>x. keeps (f x)) \<Longrightarrow> keeps (andThen m f)"
  by (rule keeps_known)

lemma keeps_attempt [keeps_intro]: "keeps m \<Longrightarrow> keeps (attempt m)"
  by (rule keepsI) (auto simp: attempt_def dest: keeps_result split: prod.splits)

lemma keeps_on_error [keeps_intro]: "keeps m \<Longrightarrow> keeps (on_error f m)"
  by (rule keepsI) (auto simp: on_error_def dest: keeps_result split: prod.splits sum.splits)

lemma keeps_if [keeps_intro]: "(b \<Longrightarrow> keeps f) \<Longrightarrow> (\<not> b \<Longrightarrow> keeps g) \<Longrightarrow> keeps (if b then f else g)"
  by simp

lemma keeps_option [keeps_intro]:
  "keeps f \<Longrightarrow> (\<And>x. keeps (g x)) \<Longrightarrow> keeps (case r of None \<Rightarrow> f | Some x \<Rightarrow> g x)"
  by (cases r) auto

lemma keeps_sum [keeps_intro]:
  "(\<And>e. keeps (f e)) \<Longrightarrow> (\<And>x. keeps (g x)) \<Longrightarrow> keeps (case r of Inl e \<Rightarrow> f e | Inr x \<Rightarrow> g x)"
  by (cases r) auto

lemma keeps_exec [keeps_intro]:
  assumes "\<And>t x t'. f t = Inr (x, t') \<Longrightarrow> R t t'"
  shows "keeps (exec f)"
proof (rule keepsI)
  fix w r w'
  assume run: "exec f w = (r, w')"
  obtain d w1 where d: "driver w = (d, w1)" by fastforce
  then have same: "tb w1 = tb w" using reads_result [OF reads_basic(8) d] by simp
  show "R (tb w) (tb w')"
    using run d same assms [of "tb w"] refl
    by (cases d; cases "f (tb w1)") (auto simp: exec_def andThen_def)
qed

lemma keeps_InTx [keeps_intro]: "keeps m \<Longrightarrow> keeps (InTx m)"
  unfolding keeps_def
proof
  fix w
  assume m: "\<forall>w. R (tb w) (tb (snd (m w)))"
  show "R (tb w) (tb (snd (InTx m w)))"
    by (rule tx.run_relates [where R = R]) (use refl m in \<open>auto, metis snd_conv\<close>)
qed

lemma keeps_run_tx [keeps_intro]: "keeps m \<Longrightarrow> keeps (run_tx f g m)"
proof (rule keepsI)
  fix w r w'
  assume m: "keeps m" and run: "run_tx f g m w = (r, w')"
  from run_tx_result [OF run] show "R (tb w) (tb w')"
  proof (elim disjE conjE exE)
    fix x w1 w2 assume "tb w1 = tb w" "m w1 = (Inr x, w2)" "tb w' = tb w2"
    then show ?thesis using keeps_result [OF m] by metis
  qed (simp add: refl)
qed

lemma keeps_basic [keeps_intro]:
  "keeps (ret x)" "keeps (raise e)" "keeps (lift_result s)" "keeps (check c)"
  "keeps get_request_id" "keeps clock_now" "keeps ctx_Err" "keeps driver"
  by (intro keeps_reads reads_basic)+

lemma keeps_queries [keeps_intro]:
  "keeps (query g)" "keeps (query_row g')" "keeps (query_rows a b h)" "keeps (countRows k)"
  by (intro keeps_reads reads_query reads_queries)+

end

end
