(* ===== verification/AuditStore.thy ===== *)
theory AuditStore
  imports Evolution
begin

text \<open>
  The audit trail: its repository (\<open>internal/storage/sqlite/audit.go\<close>) and the
  recorder that builds entries (\<open>internal/audit/recorder.go\<close>).
\<close>

section \<open>The repository\<close>

definition insert_audit :: "audit_event \<Rightarrow> tables \<Rightarrow> err + (int \<times> tables)" where
  "insert_audit e t =
     (if (case aud_ActorUserID e of None \<Rightarrow> True | Some a \<Rightarrow> exists_where (\<lambda>u. usr_ID u = a) (t_users t))
      then Inr (tbl_seq (t_audit t) + 1,
        t\<lparr>t_audit := table_insert (\<lambda>i r. r\<lparr>aud_ID := i\<rparr>) e (t_audit t)\<rparr>)
      else Inl foreign_key_violation)"

definition AppendAuditEvent :: "audit_event \<Rightarrow> audit_event op" where
  "AppendAuditEvent e =
     andThen (check (event_Validate e)) (\<lambda>_.
     andThen (on_error (Wrapped (''insert audit event '' @ audit_action_text (aud_Action e)))
       (exec (insert_audit e))) (\<lambda>i.
     andThen (on_error (Wrapped ''read inserted audit event id'') driver) (\<lambda>_.
     ret (e\<lparr>aud_ID := i\<rparr>))))"

definition auditSortColumns :: "(string \<times> string) list" where
  "auditSortColumns = map (\<lambda>c. (c, c)) [''occurred_at'', ''action'', ''id'']"

definition audit_matches :: "audit_filter \<Rightarrow> audit_event \<Rightarrow> bool" where
  "audit_matches f e \<longleftrightarrow>
     (case af_ActorUserID f of None \<Rightarrow> True | Some u \<Rightarrow> aud_ActorUserID e = Some u)
     \<and> (let a = TrimSpace (af_Action f) in a \<noteq> [] \<longrightarrow> audit_action_text (aud_Action e) = a)
     \<and> (let o_type = TrimSpace (af_ObjectType f) in o_type \<noteq> [] \<longrightarrow> aud_ObjectType e = o_type)
     \<and> (let o_id = TrimSpace (af_ObjectID f) in o_id \<noteq> [] \<longrightarrow> aud_ObjectID e = o_id)
     \<and> (case af_Since f of None \<Rightarrow> True | Some since \<Rightarrow> time_text_le since (aud_OccurredAt e))"

definition audit_column_le :: "string \<Rightarrow> audit_event \<Rightarrow> audit_event \<Rightarrow> bool" where
  "audit_column_le key =
     (if key = ''occurred_at'' then (\<lambda>a b. time_text_le (aud_OccurredAt a) (aud_OccurredAt b))
      else if key = ''action'' then asc (\<lambda>e. audit_action_text (aud_Action e))
      else asc aud_ID)"

definition audit_ordered :: "page \<Rightarrow> audit_filter \<Rightarrow> tables \<Rightarrow> audit_event list" where
  "audit_ordered p f t = order_by
     (by_keys [in_order (pg_Order p = SortDescending) (audit_column_le (pg_SortBy p)), desc (asc aud_ID)])
     (select_where (audit_matches f) (t_audit t))"

definition store_ListAuditEvents :: "audit_filter \<Rightarrow> audit_event page_result op" where
  "store_ListAuditEvents f =
     andThen (lift_result (Normalize (af_Page f) auditSortColumns ''occurred_at'')) (\<lambda>p.
     andThen (countRows (\<lambda>t. count_where (audit_matches f) (t_audit t))) (\<lambda>matching.
     andThen (query_rows ''list audit events'' ''iterate audit events''
       (\<lambda>t. page_rows p (audit_ordered p f t))) (\<lambda>items.
     ret (NewPageResult items matching p))))"

section \<open>The recorder\<close>

record audit_entry =
  ent_Actor :: "principal option"
  ent_Action :: audit_action
  ent_ObjectType :: string
  ent_ObjectID :: string
  ent_Result :: audit_result
  ent_Detail :: string

definition Record :: "audit_entry \<Rightarrow> unit op" where
  "Record entry =
     andThen get_request_id (\<lambda>rid.
     andThen clock_now (\<lambda>now.
       let base = \<lparr>aud_ID = 0, aud_ActorUserID = None, aud_ActorRole = [], aud_Action = ent_Action entry,
             aud_ObjectType = ent_ObjectType entry, aud_ObjectID = ent_ObjectID entry,
             aud_Result = ent_Result entry, aud_RequestID = rid, aud_Detail = ent_Detail entry,
             aud_OccurredAt = now\<rparr>;
           event = (case ent_Actor entry of None \<Rightarrow> base
             | Some p \<Rightarrow> base\<lparr>aud_ActorUserID := Some (prn_UserID p), aud_ActorRole := role_text (prn_Role p)\<rparr>)
       in andThen (on_error (Wrapped (''audit entry '' @ audit_action_text (ent_Action entry) @ '' is invalid''))
            (check (event_Validate event))) (\<lambda>_.
          andThen (on_error (Wrapped (''record audit event '' @ audit_action_text (ent_Action entry)))
            (AppendAuditEvent event)) (\<lambda>_. ret ()))))"

definition RecordObjectID ::
  "principal option \<Rightarrow> audit_action \<Rightarrow> string \<Rightarrow> int \<Rightarrow> audit_result \<Rightarrow> string \<Rightarrow> unit op" where
  "RecordObjectID actor action objectType objectID result detail =
     Record \<lparr>ent_Actor = actor, ent_Action = action, ent_ObjectType = objectType,
       ent_ObjectID = itoa objectID, ent_Result = result, ent_Detail = detail\<rparr>"

section \<open>What an entry adds\<close>

definition audit_added :: "tables \<Rightarrow> tables \<Rightarrow> audit_event \<Rightarrow> bool" where
  \<comment> \<open>one row appended to the trail, everything else as it was\<close>
  "audit_added t t' e \<longleftrightarrow>
     t' = t\<lparr>t_audit := table_insert (\<lambda>i r. r\<lparr>aud_ID := i\<rparr>) e (t_audit t)\<rparr>"

lemma audit_reads [reads_intro]: "reads (store_ListAuditEvents f)"
  unfolding store_ListAuditEvents_def by (intro reads_intro)

lemma audit_tame [tame_intro]:
  "tame (AppendAuditEvent e)" "tame (store_ListAuditEvents f)" "tame (Record entry)"
  "tame (RecordObjectID actor action objectType objectID result detail)"
  unfolding AppendAuditEvent_def store_ListAuditEvents_def Record_def RecordObjectID_def Let_def
  by (intro tame_intro)+

lemma AppendAuditEvent_Inr:
  "AppendAuditEvent e w = (Inr e', w') \<Longrightarrow> audit_added (tb w) (tb w') e"
  by (auto simp: AppendAuditEvent_def insert_audit_def audit_added_def op_simps split: if_splits)

lemma Record_Inr:
  assumes "Record entry w = (Inr u, w')"
  shows "\<exists>e. audit_added (tb w) (tb w') e \<and> aud_Action e = ent_Action entry
    \<and> aud_ObjectType e = ent_ObjectType entry \<and> aud_ObjectID e = ent_ObjectID entry
    \<and> aud_Result e = ent_Result entry \<and> aud_Detail e = ent_Detail entry
    \<and> aud_ActorUserID e = map_option prn_UserID (ent_Actor entry)
    \<and> aud_RequestID e = w_request_id w"
  using assms
  by (cases "ent_Actor entry") (auto simp: Record_def Let_def op_simps dest!: AppendAuditEvent_Inr)

lemma RecordObjectID_Inr:
  assumes "RecordObjectID actor action objectType objectID result detail w = (Inr u, w')"
  shows "\<exists>e. audit_added (tb w) (tb w') e \<and> aud_Action e = action \<and> aud_ObjectType e = objectType
    \<and> aud_ObjectID e = itoa objectID \<and> aud_Result e = result \<and> aud_Detail e = detail
    \<and> aud_ActorUserID e = map_option prn_UserID actor \<and> aud_RequestID e = w_request_id w"
  using Record_Inr [OF assms [unfolded RecordObjectID_def]] by simp

section \<open>Relations along the trail\<close>

context evolution begin

lemma append_frame: "(\<And>t c. R t (t\<lparr>t_audit := c\<rparr>)) \<Longrightarrow> keeps (AppendAuditEvent e)"
  unfolding AppendAuditEvent_def by (intro keeps_intro) (auto simp: insert_audit_def split: if_splits)

end

locale trail_calls = evolution +
  \<comment> \<open>a relation that writing the audit trail moves along\<close>
  assumes appends: "keeps (AppendAuditEvent e)"
begin

lemma keeps_record [keeps_intro]: "keeps (Record entry)" "keeps (RecordObjectID a b c d r f)"
proof -
  have appended: "keeps (AppendAuditEvent e)" for e by (rule appends)
  show r: "keeps (Record entry)" for entry
    unfolding Record_def Let_def by (intro keeps_intro appended)
  show "keeps (RecordObjectID a b c d r f)" unfolding RecordObjectID_def by (rule r)
qed

end

end
