(* ===== verification/JobStore.thy ===== *)
theory JobStore
  imports Transactions
begin

text \<open>
  The durable queue (\<open>internal/storage/sqlite/jobs.go\<close>): enqueueing, the atomic lease
  of the oldest ready job, the three ways to close a lease, and the recovery of leases whose
  holder is gone.
\<close>

section \<open>Operations\<close>

definition job_row_ok :: "job \<Rightarrow> bool" where
  \<comment> \<open>the \<open>CHECK\<close> constraints of \<open>jobs\<close>\<close>
  "job_row_ok j \<longleftrightarrow> (case job_State j of JobStateOther s \<Rightarrow> False | _ \<Rightarrow> True) \<and> 0 \<le> job_Attempts j \<and> 0 < job_MaxAttempts j"

definition insert_job :: "job \<Rightarrow> tables \<Rightarrow> err + (int \<times> tables)" where
  "insert_job j t =
     (if \<not> job_row_ok j then Inl (check_violation ''jobs'')
      else Inr (tbl_seq (t_jobs t) + 1,
        t\<lparr>t_jobs := table_insert (\<lambda>i r. r\<lparr>job_ID := i\<rparr>) (j\<lparr>job_LockedAt := None, job_LockedBy := []\<rparr>)
          (t_jobs t)\<rparr>))"

definition EnqueueJob :: "job \<Rightarrow> job op" where
  "EnqueueJob j0 =
     (if TrimSpace (job_kind_text (job_Kind j0)) = []
      then raise (FieldError ''job.kind'' ''must not be empty'')
      else
       (let j1 = (if job_MaxAttempts j0 \<le> 0 then j0\<lparr>job_MaxAttempts := MaxJobAttempts\<rparr> else j0);
            j = (if job_State j1 = JobStateOther [] then j1\<lparr>job_State := JobQueued\<rparr> else j1)
        in andThen (on_error (Wrapped (''insert job '' @ job_kind_text (job_Kind j)))
             (exec (insert_job j))) (\<lambda>i.
           andThen (on_error (Wrapped ''read inserted job id'') driver) (\<lambda>_.
           ret (j\<lparr>job_ID := i\<rparr>)))))"

definition job_ready :: "job_kind list \<Rightarrow> instant \<Rightarrow> job \<Rightarrow> bool" where
  "job_ready kinds now j \<longleftrightarrow> job_State j = JobQueued \<and> time_text_le (job_RunAfter j) now
     \<and> job_Kind j \<in> set kinds"

definition ready_order :: "job \<Rightarrow> job \<Rightarrow> bool" where
  "ready_order = by_keys [\<lambda>a b. time_text_le (job_RunAfter a) (job_RunAfter b), asc job_ID]"

definition next_ready :: "job_kind list \<Rightarrow> instant \<Rightarrow> tables \<Rightarrow> job option" where
  \<comment> \<open>the subquery that picks the row\<close>
  "next_ready kinds now t =
     (case limit_offset 1 0 (order_by ready_order (select_where (job_ready kinds now) (t_jobs t))) of
        [] \<Rightarrow> None | j # _ \<Rightarrow> Some j)"

definition lease_job :: "string \<Rightarrow> instant \<Rightarrow> job \<Rightarrow> job" where
  "lease_job workerID now j = j\<lparr>job_State := JobRunning, job_LockedAt := Some now,
     job_LockedBy := workerID, job_Attempts := job_Attempts j + 1, job_UpdatedAt := now\<rparr>"

definition claim_next :: "job_kind list \<Rightarrow> string \<Rightarrow> instant \<Rightarrow> tables \<Rightarrow> err + (job option \<times> tables)" where
  \<comment> \<open>\<open>UPDATE ... WHERE id = (subquery) RETURNING\<close>\<close>
  "claim_next kinds workerID now t = (case next_ready kinds now t of
     None \<Rightarrow> Inr (None, t)
   | Some j \<Rightarrow>
      (let t' = t\<lparr>t_jobs := table_update (\<lambda>r. job_ID r = job_ID j) (lease_job workerID now) (t_jobs t)\<rparr>
       in Inr (first_where (\<lambda>r. job_ID r = job_ID j) (t_jobs t'), t')))"

definition ClaimNextJob :: "job_kind list \<Rightarrow> string \<Rightarrow> instant \<Rightarrow> job op" where
  \<comment> \<open>reading the returned row is a driver call of its own: it can fail after the lease has been written\<close>
  "ClaimNextJob kinds workerID now =
     (if length kinds = 0 then raise (FieldError ''kinds'' ''at least one job kind is required'')
      else on_error (notFound ''claimable job'')
        (andThen (exec (claim_next kinds workerID now)) (\<lambda>row.
         andThen driver (\<lambda>_.
         case row of Some j \<Rightarrow> ret j | None \<Rightarrow> raise SqlNoRows))))"

definition finish_pred :: "int \<Rightarrow> job \<Rightarrow> bool" where
  "finish_pred i j \<longleftrightarrow> job_ID j = i \<and> job_State j = JobRunning"

definition finishJob :: "int \<Rightarrow> (job \<Rightarrow> job) \<Rightarrow> unit op" where
  "finishJob i f =
     andThen (on_error (Wrapped (''update job '' @ itoa i))
       (exec (\<lambda>t. Inr (count_where (finish_pred i) (t_jobs t),
          t\<lparr>t_jobs := table_update (finish_pred i) f (t_jobs t)\<rparr>)))) (\<lambda>affected.
     andThen (on_error (Wrapped (''update job '' @ itoa i @ '' rows'')) driver) (\<lambda>_.
       if affected = 0
       then raise (Wrapped (''job '' @ itoa i @ '' is not held by this worker'') (Sentinel ErrConflict))
       else ret ()))"

definition release_lease :: "job_state \<Rightarrow> string \<Rightarrow> instant \<Rightarrow> job \<Rightarrow> job" where
  "release_lease s lastErr at j = j\<lparr>job_State := s, job_LockedAt := None, job_LockedBy := [],
     job_LastError := lastErr, job_UpdatedAt := at\<rparr>"

definition MarkJobSucceeded :: "int \<Rightarrow> instant \<Rightarrow> unit op" where
  "MarkJobSucceeded i at = finishJob i (release_lease JobSucceeded [] at)"

definition MarkJobRetry :: "int \<Rightarrow> instant \<Rightarrow> string \<Rightarrow> instant \<Rightarrow> unit op" where
  "MarkJobRetry i runAfter lastErr at =
     finishJob i (\<lambda>j. (release_lease JobQueued lastErr at j)\<lparr>job_RunAfter := runAfter\<rparr>)"

definition MarkJobPermanentlyFailed :: "int \<Rightarrow> string \<Rightarrow> instant \<Rightarrow> unit op" where
  "MarkJobPermanentlyFailed i lastErr at = finishJob i (release_lease JobPermanentlyFailed lastErr at)"

definition stale_pred :: "instant \<Rightarrow> job \<Rightarrow> bool" where
  "stale_pred lockedBefore j \<longleftrightarrow> job_State j = JobRunning
     \<and> (case job_LockedAt j of None \<Rightarrow> True | Some l \<Rightarrow> time_text_le l lockedBefore)"

definition requeue :: "instant \<Rightarrow> job \<Rightarrow> job" where
  "requeue at j = j\<lparr>job_State := JobQueued, job_LockedAt := None, job_LockedBy := [],
     job_RunAfter := at, job_UpdatedAt := at\<rparr>"

definition RequeueStaleJobs :: "instant \<Rightarrow> instant \<Rightarrow> int op" where
  "RequeueStaleJobs lockedBefore at =
     andThen (on_error (Wrapped ''requeue stale jobs'')
       (exec (\<lambda>t. Inr (count_where (stale_pred lockedBefore) (t_jobs t),
          t\<lparr>t_jobs := table_update (stale_pred lockedBefore) (requeue at) (t_jobs t)\<rparr>)))) (\<lambda>affected.
     andThen (on_error (Wrapped ''requeue stale job rows'') driver) (\<lambda>_. ret affected))"

definition FindJobByID :: "int \<Rightarrow> job op" where
  "FindJobByID i = on_error (notFound (''job '' @ itoa i))
     (query_row (\<lambda>t. first_where (\<lambda>r. job_ID r = i) (t_jobs t)))"

definition CountJobsByState :: "job_state \<Rightarrow> int op" where
  "CountJobsByState s = countRows (\<lambda>t. count_where (\<lambda>j. job_State j = s) (t_jobs t))"

section \<open>What the operations do\<close>

lemma job_reads [reads_intro]: "reads (FindJobByID i)" "reads (CountJobsByState s)"
  unfolding FindJobByID_def CountJobsByState_def by (intro reads_intro)+

lemma job_tame [tame_intro]:
  "tame (EnqueueJob j)" "tame (ClaimNextJob kinds workerID now)" "tame (finishJob i f)"
  "tame (MarkJobSucceeded i at)" "tame (MarkJobRetry i a e at)" "tame (MarkJobPermanentlyFailed i e at)"
  "tame (RequeueStaleJobs b at)" "tame (FindJobByID i)" "tame (CountJobsByState s)"
  unfolding EnqueueJob_def ClaimNextJob_def finishJob_def MarkJobSucceeded_def MarkJobRetry_def
    MarkJobPermanentlyFailed_def RequeueStaleJobs_def FindJobByID_def CountJobsByState_def Let_def
  by (intro tame_intro)+

lemma EnqueueJob_Inr:
  assumes "EnqueueJob j w = (Inr j', w')"
  shows "\<exists>row. job_row_ok row \<and> job_Kind row = job_Kind j \<and> job_Payload row = job_Payload j
    \<and> job_Attempts row = job_Attempts j
    \<and> tb w' = (tb w)\<lparr>t_jobs := table_insert (\<lambda>i r. r\<lparr>job_ID := i\<rparr>) row (t_jobs (tb w))\<rparr>"
proof -
  define j1 where "j1 = (if job_MaxAttempts j \<le> 0 then j\<lparr>job_MaxAttempts := MaxJobAttempts\<rparr> else j)"
  define j2 where "j2 = (if job_State j1 = JobStateOther [] then j1\<lparr>job_State := JobQueued\<rparr> else j1)"
  have same: "job_Kind j2 = job_Kind j" "job_Payload j2 = job_Payload j" "job_Attempts j2 = job_Attempts j"
    by (simp_all add: j1_def j2_def)
  from assms have "job_row_ok j2 \<and> tb w' = (tb w)\<lparr>t_jobs := table_insert (\<lambda>i r. r\<lparr>job_ID := i\<rparr>)
      (j2\<lparr>job_LockedAt := None, job_LockedBy := []\<rparr>) (t_jobs (tb w))\<rparr>"
    unfolding EnqueueJob_def Let_def j1_def [symmetric] j2_def [symmetric]
    by (auto simp: insert_job_def op_simps split: if_splits)
  then show ?thesis
    using same by (intro exI [of _ "j2\<lparr>job_LockedAt := None, job_LockedBy := []\<rparr>"])
      (simp add: job_row_ok_def)
qed

end
