(* ===== verification/EnrollmentService.thy ===== *)
theory EnrollmentService
  imports EnrollmentStore RegistrationStore AuditStore JobStore
begin

text \<open>
  The seat allocation use cases (\<open>internal/service/enrollment.go\<close>) and the helpers all
  services share (\<open>internal/service/service.go\<close>). Each \<open>InTx\<close> body is one
  operation composed of repository calls in the order of the code; \<open>Claim\<close> replays its
  body a bounded number of times, so its loop is recursion on the attempts left.
\<close>

section \<open>Shared helpers\<close>

definition requireRole :: "principal \<Rightarrow> role \<Rightarrow> err option" where
  "requireRole actor role = (if prn_Role actor \<noteq> role then Some (Sentinel ErrForbidden) else None)"

definition recordRejection :: "principal \<Rightarrow> audit_action \<Rightarrow> string \<Rightarrow> int \<Rightarrow> err \<Rightarrow> unit op" where
  "recordRejection actor action objectType objectID cause =
     (let code = Code (Some cause) in
      if code = ''internal_error'' then ret ()
      else andThen (attempt (InTx (RecordObjectID (Some actor) action objectType objectID
             ResultRejected (code @ '': '' @ error_text cause)))) (\<lambda>_. ret ()))"

section \<open>Claim\<close>

record claim_result =
  clm_Enrollment :: enrollment
  clm_Section :: course_section
  clm_Waitlisted :: bool

definition draft_registration :: "int \<Rightarrow> int \<Rightarrow> registration" where
  \<comment> \<open>the record assumed for a student without paperwork\<close>
  "draft_registration studentID termID = \<lparr>reg_ID = 0, reg_StudentID = studentID, reg_TermID = termID,
     reg_Status = RegistrationDraft, reg_ProgramCode = [], reg_AdvisorEmail = [], reg_DormPreference = [],
     reg_SubmittedAt = None, reg_DecidedAt = None, reg_DecidedByUserID = None, reg_DecisionNote = [],
     reg_Version = 0, reg_CreatedAt = zero_time, reg_UpdatedAt = zero_time\<rparr>"

definition new_claim :: "int \<Rightarrow> academic_term \<Rightarrow> course_section \<Rightarrow> instant \<Rightarrow> enrollment" where
  \<comment> \<open>the literal \<open>domain.Enrollment{...}\<close> of \<open>claimOnce\<close>\<close>
  "new_claim studentID trm s now = \<lparr>enr_ID = 0, enr_StudentID = studentID, enr_TermID = trm_ID trm,
     enr_SectionID = sec_ID s, enr_CourseCode = sec_CourseCode s, enr_Credits = sec_CourseCredits s,
     enr_Status = EnrollmentPending, enr_WaitlistRank = 0, enr_RequestedAt = now, enr_DecidedAt = None,
     enr_ReleasedAt = None, enr_ReleaseReason = [], enr_Version = 0, enr_CreatedAt = now,
     enr_UpdatedAt = now\<rparr>"

definition join_waitlist ::
  "principal \<Rightarrow> enrollment_request \<Rightarrow> course_section \<Rightarrow> enrollment \<Rightarrow> instant \<Rightarrow> claim_result op" where
  \<comment> \<open>the branch \<open>if decision.Waitlist\<close> of \<open>claimOnce\<close>\<close>
  "join_waitlist actor req s e now =
     andThen (NextWaitlistRank (sec_ID s)) (\<lambda>rank.
     andThen (lift_result (Transition e EnrollmentWaitlisted now [])) (\<lambda>e1.
     andThen (CreateEnrollment (e1\<lparr>enr_WaitlistRank := rank\<rparr>)) (\<lambda>created.
     andThen (AdjustWaitlistLength (sec_ID s) 1 now) (\<lambda>updatedSection.
     andThen (RecordObjectID (Some actor) ActionEnrollmentWaitlist ''enrollment'' (enr_ID created)
       ResultSuccess (''student '' @ itoa (erq_StudentID req) @ '' waitlisted at rank '' @ itoa rank
         @ '' in '' @ sec_Code s)) (\<lambda>_.
     ret \<lparr>clm_Enrollment = created, clm_Section = updatedSection, clm_Waitlisted = True\<rparr>)))))"

definition take_free_seat ::
  "principal \<Rightarrow> enrollment_request \<Rightarrow> course_section \<Rightarrow> enrollment \<Rightarrow> instant \<Rightarrow> claim_result op" where
  \<comment> \<open>the rest of \<open>claimOnce\<close>\<close>
  "take_free_seat actor req s e now =
     andThen (ClaimSeat (sec_ID s) (sec_Version s) now) (\<lambda>updatedSection.
     andThen (lift_result (Transition e EnrollmentEnrolled now [])) (\<lambda>e1.
     andThen (CreateEnrollment e1) (\<lambda>created.
     andThen (RecordObjectID (Some actor) ActionEnrollmentClaim ''enrollment'' (enr_ID created)
       ResultSuccess (''student '' @ itoa (erq_StudentID req) @ '' enrolled in '' @ sec_Code s @ '', ''
         @ itoa (sec_SeatsTaken updatedSection) @ '' of '' @ itoa (sec_Capacity updatedSection)
         @ '' seats taken'')) (\<lambda>_.
     ret \<lparr>clm_Enrollment = created, clm_Section = updatedSection, clm_Waitlisted = False\<rparr>))))"

definition read_registration :: "int \<Rightarrow> int \<Rightarrow> registration op" where
  \<comment> \<open>\<open>FindRegistration\<close>, a missing record read as a draft\<close>
  "read_registration studentID termID =
     andThen (attempt (FindRegistration studentID termID)) (\<lambda>r. case r of
       Inr found \<Rightarrow> ret found
     | Inl err \<Rightarrow> if \<not> errors_Is err ErrNotFound then raise err
         else ret (draft_registration studentID termID))"

definition claimOnce :: "principal \<Rightarrow> enrollment_request \<Rightarrow> claim_result op" where
  "claimOnce actor req =
     andThen (FindSectionForUpdate (erq_SectionID req)) (\<lambda>s.
     andThen (FindTermByID (sec_TermID s)) (\<lambda>trm.
     andThen (read_registration (erq_StudentID req) (trm_ID trm)) (\<lambda>registration.
     andThen (CoursePrerequisites (sec_CourseID s)) (\<lambda>prereqs.
     andThen (StudentAcademicRecords (erq_StudentID req)) (\<lambda>completed.
     andThen (ActiveEnrollmentsForStudent (erq_StudentID req) (trm_ID trm)) (\<lambda>held.
     andThen (ActiveMeetingsForStudent (erq_StudentID req) (trm_ID trm)) (\<lambda>heldMeetings.
     andThen clock_now (\<lambda>now.
     andThen (lift_result (CheckEnrollmentEligibility \<lparr>in_Now = now, in_Term = trm, in_Section = s,
       in_Registration = registration, in_CoursePrereqs = prereqs, in_CompletedCourses = completed,
       in_HeldEnrollments = held, in_HeldMeetings = heldMeetings\<rparr>)) (\<lambda>decision.
     if dec_Waitlist decision
     then join_waitlist actor req s (new_claim (erq_StudentID req) trm s now) now
     else take_free_seat actor req s (new_claim (erq_StudentID req) trm s now) now)))))))))"

fun claim_loop :: "principal \<Rightarrow> enrollment_request \<Rightarrow> nat \<Rightarrow> nat \<Rightarrow> claim_result op" where
  \<comment> \<open>\<open>for attempt := 1; attempt <= attempts; attempt++\<close>, on the attempts left\<close>
  "claim_loop actor req attempts 0 =
     (let unsettled = Wrapped (''seat allocation for section '' @ itoa (erq_SectionID req)
        @ '' did not settle after '' @ itoa (int attempts) @ '' attempts'') (Sentinel ErrVersionConflict)
      in andThen (recordRejection actor ActionEnrollmentClaim ''section'' (erq_SectionID req) unsettled)
           (\<lambda>_. raise unsettled))"
| "claim_loop actor req attempts (Suc left) =
     andThen ctx_Err (\<lambda>done. case done of
       Some e \<Rightarrow> raise (Wrapped (''claim seat in section '' @ itoa (erq_SectionID req)) e)
     | None \<Rightarrow> andThen (attempt (InTx (claimOnce actor req))) (\<lambda>r. case r of
         Inr result \<Rightarrow> ret result
       | Inl e \<Rightarrow>
           if errors_Is e ErrVersionConflict \<and> left > 0 then claim_loop actor req attempts left
           else andThen (recordRejection actor ActionEnrollmentClaim ''section'' (erq_SectionID req) e)
                  (\<lambda>_. raise e)))"

definition NewEnrollmentService :: "int \<Rightarrow> err + int" where
  \<comment> \<open>the retry budget the constructor admits\<close>
  "NewEnrollmentService maxRetries = (if maxRetries < 0 \<or> maxRetries > 32
     then Inl (FieldError ''max_retries'' ''must be between 0 and 32'') else Inr maxRetries)"

definition Claim :: "int \<Rightarrow> principal \<Rightarrow> int \<Rightarrow> int \<Rightarrow> claim_result op" where
  "Claim maxRetries actor studentID sectionID =
     (let req = \<lparr>erq_StudentID = (if studentID \<le> 0 then prn_UserID actor else studentID),
            erq_SectionID = sectionID, erq_Reason = []\<rparr> in
      andThen (check (request_Validate req)) (\<lambda>_.
      if \<not> CanActOnStudent actor (erq_StudentID req)
      then raise (Wrapped (''claim a seat for student '' @ itoa (erq_StudentID req)) (Sentinel ErrForbidden))
      else claim_loop actor req (nat (maxRetries + 1)) (nat (maxRetries + 1))))"

section \<open>Drop\<close>

definition waitlist_payload :: "int \<Rightarrow> string" where
  \<comment> \<open>\<open>json.Marshal(WaitlistJobPayload{SectionID: id})\<close>\<close>
  "waitlist_payload sectionID = ''{'' @ quoted ''section_id'' @ '':'' @ itoa sectionID @ ''}''"

definition enqueueWaitlistPromotion :: "int \<Rightarrow> instant \<Rightarrow> unit op" where
  "enqueueWaitlistPromotion sectionID now =
     andThen (EnqueueJob \<lparr>job_ID = 0, job_Kind = JobPromoteWaitlist, job_Payload = waitlist_payload sectionID,
       job_State = JobQueued, job_Attempts = 0, job_MaxAttempts = MaxJobAttempts, job_LastError = [],
       job_RunAfter = now, job_LockedAt = None, job_LockedBy = [], job_CreatedAt = now,
       job_UpdatedAt = now\<rparr>) (\<lambda>_. ret ())"

definition release_counters :: "course_section \<Rightarrow> enrollment_status \<Rightarrow> enrollment_status \<Rightarrow> instant \<Rightarrow> unit op" where
  \<comment> \<open>what \<open>Drop\<close> does to the section after the claim is written\<close>
  "release_counters s previous target now =
     andThen (if SeatDelta previous target < 0
       then andThen (ReleaseSeat (sec_ID s) (sec_Version s) now) (\<lambda>released.
              if sec_WaitlistLength released > 0 then enqueueWaitlistPromotion (sec_ID s) now else ret ())
       else ret ()) (\<lambda>_.
     if previous = EnrollmentWaitlisted
     then andThen (AdjustWaitlistLength (sec_ID s) (- 1) now) (\<lambda>_. ret ())
     else ret ())"

definition drop_once :: "principal \<Rightarrow> int \<Rightarrow> string \<Rightarrow> instant \<Rightarrow> enrollment op" where
  \<comment> \<open>the transaction body of \<open>Drop\<close>\<close>
  "drop_once actor enrollmentID reason now =
     andThen (FindEnrollmentByID enrollmentID) (\<lambda>e.
     if \<not> CanActOnStudent actor (enr_StudentID e)
     then raise (Wrapped (''drop enrollment '' @ itoa enrollmentID) (Sentinel ErrForbidden))
     else
     andThen (FindTermByID (enr_TermID e)) (\<lambda>trm.
     if \<not> IsRegistrarRole actor \<and> \<not> DropAllowed trm now
     then raise (Wrapped (''add/drop window of term '' @ trm_Code trm @ '' is closed'')
       (Sentinel ErrEnrollmentWindowClosed))
     else
     andThen (FindSectionForUpdate (enr_SectionID e)) (\<lambda>s.
     let target = (if HoldsSeat (enr_Status e) then EnrollmentDropped else EnrollmentWithdrawn) in
     andThen (lift_result (Transition e target now reason)) (\<lambda>e1.
     andThen (UpdateEnrollment e1 (enr_Version e)) (\<lambda>saved.
     andThen (release_counters s (enr_Status e) target now) (\<lambda>_.
     andThen (RecordObjectID (Some actor) ActionEnrollmentDrop ''enrollment'' (enr_ID saved) ResultSuccess
       (''enrollment moved from '' @ enrollment_status_text (enr_Status e) @ '' to ''
         @ enrollment_status_text target @ '' in '' @ sec_Code s)) (\<lambda>_.
     ret saved)))))))"

definition Drop :: "principal \<Rightarrow> int \<Rightarrow> string \<Rightarrow> enrollment op" where
  "Drop actor enrollmentID reason =
     (if enrollmentID \<le> 0 then raise (FieldError ''enrollment_id'' ''must be a positive identifier'')
      else andThen clock_now (\<lambda>now.
        andThen (attempt (InTx (drop_once actor enrollmentID reason now))) (\<lambda>r. case r of
          Inr result \<Rightarrow> ret result
        | Inl e \<Rightarrow> andThen (recordRejection actor ActionEnrollmentDrop ''enrollment'' enrollmentID e)
            (\<lambda>_. raise e))))"

section \<open>Promotion\<close>

definition promote_head :: "course_section \<Rightarrow> enrollment \<Rightarrow> instant \<Rightarrow> bool op" where
  \<comment> \<open>the part of the body that runs once the head of the waitlist is known\<close>
  "promote_head s head now =
     andThen (ClaimSeat (sec_ID s) (sec_Version s) now) (\<lambda>_.
     andThen (lift_result (Transition head EnrollmentEnrolled now [])) (\<lambda>head1.
     andThen (UpdateEnrollment head1 (enr_Version head)) (\<lambda>saved.
     andThen (AdjustWaitlistLength (sec_ID s) (- 1) now) (\<lambda>_.
     andThen (RecordObjectID None ActionEnrollmentPromote ''enrollment'' (enr_ID saved) ResultSuccess
       (''student '' @ itoa (enr_StudentID saved) @ '' promoted from the waitlist of '' @ sec_Code s)) (\<lambda>_.
     ret True)))))"

definition promote_once :: "int \<Rightarrow> instant \<Rightarrow> bool op" where
  \<comment> \<open>the transaction body of \<open>PromoteWaitlist\<close>, with the flag it sets\<close>
  "promote_once sectionID now =
     andThen (FindSectionForUpdate sectionID) (\<lambda>s.
     if \<not> AcceptsEnrollment s \<or> SeatsAvailable s \<le> 0 then ret False
     else andThen (attempt (HeadOfWaitlist sectionID)) (\<lambda>h. case h of
       Inl e \<Rightarrow> if errors_Is e ErrNotFound then ret False else raise e
     | Inr head \<Rightarrow> promote_head s head now))"

definition PromoteWaitlist :: "int \<Rightarrow> bool op" where
  "PromoteWaitlist sectionID =
     (if sectionID \<le> 0 then raise (FieldError ''section_id'' ''must be a positive identifier'')
      else andThen clock_now (\<lambda>now. InTx (promote_once sectionID now)))"

section \<open>Batch, list, get\<close>

record batch_item =
  bi_SectionID :: int
  bi_Status :: "enrollment_status option"
  bi_Succeeded :: bool
  bi_Code :: string
  bi_Message :: string

fun batch_loop ::
  "int \<Rightarrow> principal \<Rightarrow> int \<Rightarrow> int list \<Rightarrow> batch_item list \<Rightarrow> (batch_item list \<times> err option) op" where
  "batch_loop maxRetries actor studentID [] results = ret (results, None)"
| "batch_loop maxRetries actor studentID (sectionID # rest) results =
     andThen ctx_Err (\<lambda>done. case done of
       Some e \<Rightarrow> ret (results, Some (Wrapped ''batch claim interrupted'' e))
     | None \<Rightarrow> andThen (attempt (Claim maxRetries actor studentID sectionID)) (\<lambda>r.
         batch_loop maxRetries actor studentID rest (results @ [case r of
           Inl e \<Rightarrow> \<lparr>bi_SectionID = sectionID, bi_Status = None, bi_Succeeded = False,
             bi_Code = Code (Some e), bi_Message = error_text e\<rparr>
         | Inr claimed \<Rightarrow> \<lparr>bi_SectionID = sectionID, bi_Status = Some (enr_Status (clm_Enrollment claimed)),
             bi_Succeeded = True, bi_Code = ''ok'',
             bi_Message = ''enrollment '' @ itoa (enr_ID (clm_Enrollment claimed)) @ '' created''\<rparr>])))"

definition BatchClaim :: "int \<Rightarrow> principal \<Rightarrow> int \<Rightarrow> int list \<Rightarrow> (batch_item list \<times> err option) op" where
  \<comment> \<open>the Go function returns a slice and an error; both are returned\<close>
  "BatchClaim maxRetries actor studentID0 sectionIDs =
     (if length sectionIDs = 0
      then ret ([], Some (FieldError ''section_ids'' ''must contain at least one section''))
      else if length sectionIDs > 20
      then ret ([], Some (FieldError ''section_ids'' ''must contain at most 20 sections''))
      else
       (let studentID = (if studentID0 \<le> 0 then prn_UserID actor else studentID0) in
        if \<not> CanActOnStudent actor studentID
        then ret ([], Some (Wrapped (''batch claim for student '' @ itoa studentID) (Sentinel ErrForbidden)))
        else batch_loop maxRetries actor studentID sectionIDs []))"

definition List_enrollments :: "principal \<Rightarrow> enrollment_filter \<Rightarrow> enrollment page_result op" where
  "List_enrollments actor f =
     ListEnrollments (if \<not> IsRegistrarRole actor then f\<lparr>ef_StudentID := prn_UserID actor\<rparr> else f)"

definition Get_enrollment :: "principal \<Rightarrow> int \<Rightarrow> enrollment op" where
  "Get_enrollment actor enrollmentID =
     andThen (FindEnrollmentByID enrollmentID) (\<lambda>e.
     if \<not> CanActOnStudent actor (enr_StudentID e)
     then raise (Wrapped (''read enrollment '' @ itoa enrollmentID) (Sentinel ErrForbidden))
     else ret e)"

section \<open>What a claim reads\<close>

definition claim_input ::
  "tables \<Rightarrow> int \<Rightarrow> course_section \<Rightarrow> academic_term \<Rightarrow> instant \<Rightarrow> eligibility_input" where
  \<comment> \<open>the eligibility input the reads of \<open>claimOnce\<close> put together from the tables\<close>
  "claim_input t studentID s trm now = \<lparr>in_Now = now, in_Term = trm, in_Section = s,
     in_Registration = (case find_registration studentID (trm_ID trm) t of Some r \<Rightarrow> r
       | None \<Rightarrow> draft_registration studentID (trm_ID trm)),
     in_CoursePrereqs = prereqs_of t (sec_CourseID s), in_CompletedCourses = records_of t studentID,
     in_HeldEnrollments = active_of t studentID (trm_ID trm),
     in_HeldMeetings = active_meetings_of t studentID (trm_ID trm)\<rparr>"

lemma service_reads [reads_intro]:
  "reads (read_registration a b)" "reads (List_enrollments actor f)" "reads (Get_enrollment actor i)"
  unfolding read_registration_def List_enrollments_def Get_enrollment_def by (intro reads_intro)+

lemma service_tame [tame_intro]:
  "tame (recordRejection actor action oty i cause)" "tame (read_registration a b)"
  "tame (join_waitlist actor req s e now)" "tame (take_free_seat actor req s e now)"
  "tame (enqueueWaitlistPromotion i now)" "tame (List_enrollments actor f)"
  "tame (Get_enrollment actor i)" "tame (promote_head s head now)"
  unfolding recordRejection_def read_registration_def join_waitlist_def take_free_seat_def
    enqueueWaitlistPromotion_def List_enrollments_def Get_enrollment_def promote_head_def Let_def
  by (intro tame_intro)+

lemma tame_parts [tame_intro]: "tame (release_counters s p q now)" "tame (promote_once i now)"
  unfolding release_counters_def promote_once_def by (intro tame_intro)+

lemma tame_transactions [tame_intro]: "tame (claimOnce actor req)" "tame (drop_once actor i reason now)"
  unfolding claimOnce_def drop_once_def Let_def by (intro tame_intro)+

lemma tame_claim_loop [tame_intro]: "tame (claim_loop actor req n k)"
  by (induction k) (simp_all add: Let_def, (intro tame_intro | assumption)+)

lemma tame_services [tame_intro]:
  "tame (Claim k actor a b)" "tame (Drop actor i reason)" "tame (PromoteWaitlist i)"
  unfolding Claim_def Drop_def PromoteWaitlist_def Let_def by (intro tame_intro)+

lemma FindRegistration_Inl:
  "FindRegistration studentID termID w = (Inl e, w') \<Longrightarrow> errors_Is e ErrNotFound \<Longrightarrow>
     find_registration studentID termID (tb w) = None"
  unfolding FindRegistration_def by (rule lookup_not_found)

lemma read_registration_Inr:
  assumes "read_registration studentID termID w = (Inr r, w')"
  shows "r = (case find_registration studentID termID (tb w) of Some r \<Rightarrow> r
    | None \<Rightarrow> draft_registration studentID termID)"
proof -
  from assms obtain f w1 where f: "FindRegistration studentID termID w = (f, w1)"
    by (auto simp: read_registration_def op_simps)
  show ?thesis
  proof (cases f)
    case (Inl e)
    then show ?thesis
      using assms f FindRegistration_Inl [of studentID termID w e w1]
      by (auto simp: read_registration_def op_simps split: if_splits)
  next
    case (Inr x)
    then have "find_registration studentID termID (tb w) = Some x"
      using f by (simp add: FindRegistration_def op_simps)
    then show ?thesis
      using assms f Inr by (auto simp: read_registration_def op_simps)
  qed
qed

lemma claimOnce_Inr:
  assumes "claimOnce actor req w = (Inr c, w')"
  obtains s trm now d w1 where "tb w1 = tb w" "section_at (tb w) (erq_SectionID req) = Some s"
    "trm \<in> set (tbl_rows (t_terms (tb w)))" "trm_ID trm = sec_TermID s"
    "CheckEnrollmentEligibility (claim_input (tb w) (erq_StudentID req) s trm now) = Inr d"
    "(if dec_Waitlist d then join_waitlist actor req s (new_claim (erq_StudentID req) trm s now) now
      else take_free_seat actor req s (new_claim (erq_StudentID req) trm s now) now) w1 = (Inr c, w')"
proof -
  from assms obtain s trm reg prereqs completed held meetings now d w1 w2 w3 w4 w5 w6 w7 where
    r: "FindSectionForUpdate (erq_SectionID req) w = (Inr s, w1)"
    "FindTermByID (sec_TermID s) w1 = (Inr trm, w2)"
    "read_registration (erq_StudentID req) (trm_ID trm) w2 = (Inr reg, w3)"
    "CoursePrerequisites (sec_CourseID s) w3 = (Inr prereqs, w4)"
    "StudentAcademicRecords (erq_StudentID req) w4 = (Inr completed, w5)"
    "ActiveEnrollmentsForStudent (erq_StudentID req) (trm_ID trm) w5 = (Inr held, w6)"
    "ActiveMeetingsForStudent (erq_StudentID req) (trm_ID trm) w6 = (Inr meetings, w7)"
    and d: "CheckEnrollmentEligibility \<lparr>in_Now = now, in_Term = trm, in_Section = s,
       in_Registration = reg, in_CoursePrereqs = prereqs, in_CompletedCourses = completed,
       in_HeldEnrollments = held, in_HeldMeetings = meetings\<rparr> = Inr d"
    and rest: "(if dec_Waitlist d then join_waitlist actor req s (new_claim (erq_StudentID req) trm s now) now
      else take_free_seat actor req s (new_claim (erq_StudentID req) trm s now) now) (tick w7) = (Inr c, w')"
    unfolding claimOnce_def op_simps by blast
  have same: "tb w1 = tb w" "tb w2 = tb w" "tb w3 = tb w" "tb w4 = tb w" "tb w5 = tb w" "tb w6 = tb w"
    "tb w7 = tb w"
    using r by (auto dest!: reads_result [rotated] intro!: reads_intro)
  have "reg = (case find_registration (erq_StudentID req) (trm_ID trm) (tb w) of Some r \<Rightarrow> r
      | None \<Rightarrow> draft_registration (erq_StudentID req) (trm_ID trm))"
    using read_registration_Inr [OF r(3)] same by simp
  moreover have "prereqs = prereqs_of (tb w) (sec_CourseID s)" "completed = records_of (tb w) (erq_StudentID req)"
    "held = active_of (tb w) (erq_StudentID req) (trm_ID trm)"
    "meetings = active_meetings_of (tb w) (erq_StudentID req) (trm_ID trm)"
    using r(4-7) same
    by (simp_all add: CoursePrerequisites_def StudentAcademicRecords_def ActiveEnrollmentsForStudent_def
        ActiveMeetingsForStudent_def queryEnrollments_def op_simps)
  ultimately have "CheckEnrollmentEligibility (claim_input (tb w) (erq_StudentID req) s trm now) = Inr d"
    using d by (simp add: claim_input_def)
  then show thesis
    using that [of "tick w7"] rest same FindSectionByID_Inr r(1) FindTermByID_Inr [OF r(2)]
    by (auto simp: FindSectionForUpdate_def)
qed

end
