(* ===== verification/SeatSteps.thy ===== *)
theory SeatSteps
  imports EnrollmentService
begin

text \<open>
  The enrollment transactions as steps on the tables. Each relation says which rows a
  transaction that commits has found and what it leaves behind, in one piece; the lemmas
  \<open>claimOnce_step\<close>, \<open>drop_once_step\<close> and \<open>promote_once_step\<close> say that the
  statement-by-statement code of the service takes such a step whenever it succeeds.
\<close>

section \<open>Effects on the tables\<close>

definition put_section :: "section_row \<Rightarrow> tables \<Rightarrow> tables" where
  "put_section r t = t\<lparr>t_sections := table_update (\<lambda>q. sr_ID q = sr_ID r) (\<lambda>_. r) (t_sections t)\<rparr>"

definition put_enrollment :: "enrollment \<Rightarrow> tables \<Rightarrow> tables" where
  "put_enrollment e t =
     t\<lparr>t_enrollments := table_update (\<lambda>q. enr_ID q = enr_ID e) (\<lambda>_. e) (t_enrollments t)\<rparr>"

definition add_enrollment :: "enrollment \<Rightarrow> tables \<Rightarrow> tables" where
  "add_enrollment e t =
     t\<lparr>t_enrollments := table_insert (\<lambda>i r. r\<lparr>enr_ID := i\<rparr>) (e\<lparr>enr_Version := 1\<rparr>) (t_enrollments t)\<rparr>"

definition add_audit :: "audit_event \<Rightarrow> tables \<Rightarrow> tables" where
  "add_audit ev t = t\<lparr>t_audit := table_insert (\<lambda>i r. r\<lparr>aud_ID := i\<rparr>) ev (t_audit t)\<rparr>"

definition add_job :: "job \<Rightarrow> tables \<Rightarrow> tables" where
  "add_job j t = t\<lparr>t_jobs := table_insert (\<lambda>i r. r\<lparr>job_ID := i\<rparr>) j (t_jobs t)\<rparr>"

lemmas put_defs = put_section_def put_enrollment_def add_enrollment_def add_audit_def add_job_def

definition logs :: "audit_event \<Rightarrow> principal option \<Rightarrow> audit_action \<Rightarrow> int \<Rightarrow> bool" where
  \<comment> \<open>the trail entry a successful enrollment transaction writes\<close>
  "logs ev actor action i \<longleftrightarrow> aud_Action ev = action \<and> aud_ObjectType ev = ''enrollment''
     \<and> aud_ObjectID ev = itoa i \<and> aud_Result ev = ResultSuccess
     \<and> aud_ActorUserID ev = map_option prn_UserID actor"

definition next_rank :: "tables \<Rightarrow> int \<Rightarrow> int" where
  "next_rank t i = (case highest_rank t i of None \<Rightarrow> 1 | Some h \<Rightarrow> h + 1)"

section \<open>Steps\<close>

inductive claim_step ::
  "principal \<Rightarrow> enrollment_request \<Rightarrow> tables \<Rightarrow> claim_result \<Rightarrow> tables \<Rightarrow> bool" for actor req t where
  enroll: "\<lbrakk>r \<in> set (tbl_rows (t_sections t)); shows_row t s r; sr_ID r = erq_SectionID req;
      trm \<in> set (tbl_rows (t_terms t)); trm_ID trm = sr_TermID r;
      CheckEnrollmentEligibility (claim_input t (erq_StudentID req) s trm now) = Inr d; \<not> dec_Waitlist d;
      Transition (new_claim (erq_StudentID req) trm s now) EnrollmentEnrolled now [] = Inr e;
      sr_Status r = SectionOpen; sr_SeatsTaken r < sr_Capacity r; section_row_ok (take_seat now r);
      \<not> exists_where (seat_clash e) (t_enrollments t); enrollment_row_ok e;
      i = tbl_seq (t_enrollments t) + 1; clm_Enrollment c = e\<lparr>enr_ID := i, enr_Version := 1\<rparr>;
      clm_Waitlisted c = False; logs ev (Some actor) ActionEnrollmentClaim i\<rbrakk>
    \<Longrightarrow> claim_step actor req t c (add_audit ev (add_enrollment e (put_section (take_seat now r) t)))"
| wait: "\<lbrakk>r \<in> set (tbl_rows (t_sections t)); shows_row t s r; sr_ID r = erq_SectionID req;
      trm \<in> set (tbl_rows (t_terms t)); trm_ID trm = sr_TermID r;
      CheckEnrollmentEligibility (claim_input t (erq_StudentID req) s trm now) = Inr d; dec_Waitlist d;
      Transition (new_claim (erq_StudentID req) trm s now) EnrollmentWaitlisted now [] = Inr e0;
      e = e0\<lparr>enr_WaitlistRank := next_rank t (sr_ID r)\<rparr>;
      sr_WaitlistLength r < sr_WaitlistLimit r; section_row_ok (move_waitlist 1 now r);
      \<not> exists_where (seat_clash e) (t_enrollments t); enrollment_row_ok e;
      i = tbl_seq (t_enrollments t) + 1; clm_Enrollment c = e\<lparr>enr_ID := i, enr_Version := 1\<rparr>;
      clm_Waitlisted c = True; logs ev (Some actor) ActionEnrollmentWaitlist i\<rbrakk>
    \<Longrightarrow> claim_step actor req t c (add_audit ev (add_enrollment e (put_section (move_waitlist 1 now r) t)))"

inductive promote_step :: "int \<Rightarrow> tables \<Rightarrow> bool \<Rightarrow> tables \<Rightarrow> bool" for i t where
  idle: "promote_step i t False t"
| promote: "\<lbrakk>r \<in> set (tbl_rows (t_sections t)); sr_ID r = i; sr_Status r = SectionOpen;
      sr_SeatsTaken r < sr_Capacity r; waitlist_of t i = e # rest;
      Transition e EnrollmentEnrolled now [] = Inr e1; 0 < sr_WaitlistLength r;
      section_row_ok (move_waitlist (- 1) now (take_seat now r)); logs ev None ActionEnrollmentPromote (enr_ID e)\<rbrakk>
    \<Longrightarrow> promote_step i t True (add_audit ev (put_section (move_waitlist (- 1) now (take_seat now r))
          (put_enrollment (write_enrollment e1 e) t)))"

inductive drop_step ::
  "principal \<Rightarrow> int \<Rightarrow> string \<Rightarrow> tables \<Rightarrow> enrollment \<Rightarrow> tables \<Rightarrow> bool" for actor i reason t where
  release: "\<lbrakk>e \<in> set (tbl_rows (t_enrollments t)); enr_ID e = i; CanActOnStudent actor (enr_StudentID e);
      enr_Status e = EnrollmentEnrolled; Transition e EnrollmentDropped now reason = Inr e1;
      r \<in> set (tbl_rows (t_sections t)); sr_ID r = enr_SectionID e; 0 < sr_SeatsTaken r;
      section_row_ok (return_seat now r); saved = e1\<lparr>enr_Version := enr_Version e + 1\<rparr>;
      t1 = put_section (return_seat now r) (put_enrollment (write_enrollment e1 e) t);
      (if 0 < sr_WaitlistLength r then \<exists>j. job_Kind j = JobPromoteWaitlist
          \<and> job_Payload j = waitlist_payload (sr_ID r) \<and> t2 = add_job j t1 else t2 = t1);
      logs ev (Some actor) ActionEnrollmentDrop i\<rbrakk>
    \<Longrightarrow> drop_step actor i reason t saved (add_audit ev t2)"
| leave_waitlist: "\<lbrakk>e \<in> set (tbl_rows (t_enrollments t)); enr_ID e = i; CanActOnStudent actor (enr_StudentID e);
      enr_Status e = EnrollmentWaitlisted; Transition e EnrollmentWithdrawn now reason = Inr e1;
      r \<in> set (tbl_rows (t_sections t)); sr_ID r = enr_SectionID e; 0 < sr_WaitlistLength r;
      section_row_ok (move_waitlist (- 1) now r); saved = e1\<lparr>enr_Version := enr_Version e + 1\<rparr>;
      t1 = put_section (move_waitlist (- 1) now r) (put_enrollment (write_enrollment e1 e) t);
      logs ev (Some actor) ActionEnrollmentDrop i\<rbrakk>
    \<Longrightarrow> drop_step actor i reason t saved (add_audit ev t1)"
| cancel: "\<lbrakk>e \<in> set (tbl_rows (t_enrollments t)); enr_ID e = i; CanActOnStudent actor (enr_StudentID e);
      enr_Status e = EnrollmentPending; Transition e EnrollmentWithdrawn now reason = Inr e1;
      saved = e1\<lparr>enr_Version := enr_Version e + 1\<rparr>; t1 = put_enrollment (write_enrollment e1 e) t;
      logs ev (Some actor) ActionEnrollmentDrop i\<rbrakk>
    \<Longrightarrow> drop_step actor i reason t saved (add_audit ev t1)"

section \<open>The claim transaction takes a step\<close>

lemma Transition_new_claim:
  assumes "Transition (new_claim st trm s now) target now [] = Inr e"
    and "target = EnrollmentEnrolled \<or> target = EnrollmentWaitlisted"
  shows "enr_SectionID e = sec_ID s" "enr_Status e = target" "enr_StudentID e = st"
    "enr_TermID e = trm_ID trm" "enr_Credits e = sec_CourseCredits s" "enr_CourseCode e = sec_CourseCode s"
    "enr_WaitlistRank e = 0" "enr_RequestedAt e = now"
  using assms(2) by (auto simp: Transition_Inr [OF assms(1)])
    (use assms in \<open>auto simp: new_claim_def Transition_def stamp_transition_def split: if_splits\<close>)

lemma RecordObjectID_adds:
  assumes "RecordObjectID actor action ''enrollment'' i ResultSuccess d w = (Inr u, w')"
  obtains ev where "logs ev actor action i" "tb w' = add_audit ev (tb w)"
  using RecordObjectID_Inr [OF assms] by (auto simp: logs_def audit_added_def add_audit_def)

lemma NextWaitlistRank_Inr: "NextWaitlistRank i w = (Inr n, w') \<Longrightarrow> n = next_rank (tb w) i \<and> tb w' = tb w"
  by (auto simp: NextWaitlistRank_def next_rank_def op_simps)

lemma section_at_keyed:
  assumes "section_key.keyed (t_sections t)" "section_at t i = Some s"
    and "r \<in> set (tbl_rows (t_sections t))" "sr_ID r = i"
  shows "shows_row t s r"
  using section_at_Some [OF assms(2)] section_key.by_id_unique [OF assms(1)] assms(3,4) by metis

lemma take_free_seat_step:
  assumes "take_free_seat actor req s (new_claim (erq_StudentID req) trm s now) now w = (Inr c, w')"
    and "section_key.keyed (t_sections (tb w))" "section_at (tb w) (erq_SectionID req) = Some s"
    and "trm \<in> set (tbl_rows (t_terms (tb w)))" "trm_ID trm = sec_TermID s" "\<not> dec_Waitlist d"
    and "CheckEnrollmentEligibility (claim_input (tb w) (erq_StudentID req) s trm now) = Inr d"
  shows "claim_step actor req (tb w) c (tb w')"
proof -
  from assms(1) obtain u w1 e w2 created w3 m and v :: unit where
    claim: "ClaimSeat (sec_ID s) (sec_Version s) now w = (Inr u, w1)"
    and tr: "Transition (new_claim (erq_StudentID req) trm s now) EnrollmentEnrolled now [] = Inr e"
    and cr: "CreateEnrollment e w1 = (Inr created, w2)"
    and au: "RecordObjectID (Some actor) ActionEnrollmentClaim ''enrollment'' (enr_ID created)
      ResultSuccess m w2 = (Inr v, w3)"
    and c: "c = \<lparr>clm_Enrollment = created, clm_Section = u, clm_Waitlisted = False\<rparr>" and w': "w' = w3"
    unfolding take_free_seat_def op_simps sum.inject by blast
  obtain r where r: "r \<in> set (tbl_rows (t_sections (tb w)))" "seat_pred (sec_ID s) (sec_Version s) r"
    "sr_ID r = sec_ID s" "section_row_ok (take_seat now r)"
    and t1: "tb w1 = (tb w)\<lparr>t_sections :=
      table_update (\<lambda>r. sr_ID r = sec_ID s) (\<lambda>_. take_seat now r) (t_sections (tb w))\<rparr>"
    using claim_seat.one_row [OF assms(2) claim] by metis
  have p: "tb w1 = put_section (take_seat now r) (tb w)"
    using t1 r(3) by (simp add: put_section_def take_seat_def)
  have i: "sr_ID r = erq_SectionID req" using r(3) section_at_ID [OF assms(3)] by simp
  have sh: "shows_row (tb w) s r" using section_at_keyed [OF assms(2,3) r(1) i] .
  obtain ev where ev: "logs ev (Some actor) ActionEnrollmentClaim (enr_ID created)" "tb w3 = add_audit ev (tb w2)"
    using au by (rule RecordObjectID_adds)
  note C = CreateEnrollment_Inr [OF cr]
  have "tb w' = add_audit ev (add_enrollment e (put_section (take_seat now r) (tb w)))"
    using w' ev(2) C(5) p by (simp add: add_enrollment_def)
  moreover have "claim_step actor req (tb w) c (add_audit ev (add_enrollment e (put_section (take_seat now r) (tb w))))"
    by (rule claim_step.enroll [where s = s and trm = trm and d = d, OF r(1) sh i assms(4) _ assms(7,6) tr])
      (use assms(5) sh r C ev c p in \<open>auto simp: shows_row_def seat_pred_def put_section_def\<close>)
  ultimately show ?thesis by simp
qed

lemma join_waitlist_step:
  assumes "join_waitlist actor req s (new_claim (erq_StudentID req) trm s now) now w = (Inr c, w')"
    and "section_key.keyed (t_sections (tb w))" "section_at (tb w) (erq_SectionID req) = Some s"
    and "trm \<in> set (tbl_rows (t_terms (tb w)))" "trm_ID trm = sec_TermID s" "dec_Waitlist d"
    and "CheckEnrollmentEligibility (claim_input (tb w) (erq_StudentID req) s trm now) = Inr d"
  shows "claim_step actor req (tb w) c (tb w')"
proof -
  from assms(1) obtain rank w0 e0 created w1 u w2 w3 m and v :: unit where
    rank: "NextWaitlistRank (sec_ID s) w = (Inr rank, w0)"
    and tr: "Transition (new_claim (erq_StudentID req) trm s now) EnrollmentWaitlisted now [] = Inr e0"
    and cr: "CreateEnrollment (e0\<lparr>enr_WaitlistRank := rank\<rparr>) w0 = (Inr created, w1)"
    and adj: "AdjustWaitlistLength (sec_ID s) 1 now w1 = (Inr u, w2)"
    and au: "RecordObjectID (Some actor) ActionEnrollmentWaitlist ''enrollment'' (enr_ID created)
      ResultSuccess m w2 = (Inr v, w3)"
    and c: "c = \<lparr>clm_Enrollment = created, clm_Section = u, clm_Waitlisted = True\<rparr>" and w': "w' = w3"
    unfolding join_waitlist_def op_simps sum.inject by blast
  define e where "e = e0\<lparr>enr_WaitlistRank := next_rank (tb w) (sec_ID s)\<rparr>"
  have t0: "tb w0 = tb w" "rank = next_rank (tb w) (sec_ID s)" using NextWaitlistRank_Inr [OF rank] by simp_all
  note C = CreateEnrollment_Inr [OF cr [unfolded t0(2), folded e_def], unfolded t0(1)]
  have k1: "section_key.keyed (t_sections (tb w1))" using C(5) assms(2) by simp
  obtain r where r: "r \<in> set (tbl_rows (t_sections (tb w1)))" "waitlist_pred (sec_ID s) 1 r"
    "sr_ID r = sec_ID s" "section_row_ok (move_waitlist 1 now r)"
    and t2: "tb w2 = (tb w1)\<lparr>t_sections :=
      table_update (\<lambda>r. sr_ID r = sec_ID s) (\<lambda>_. move_waitlist 1 now r) (t_sections (tb w1))\<rparr>"
    using waitlist_up.one_row [OF k1 adj] by metis
  have r1: "r \<in> set (tbl_rows (t_sections (tb w)))" using r(1) C(5) by simp
  have p: "tb w2 = add_enrollment e (put_section (move_waitlist 1 now r) (tb w))"
    using t2 r(3) C(5) by (simp add: put_section_def add_enrollment_def move_waitlist_def)
  have i: "sr_ID r = erq_SectionID req" using r(3) section_at_ID [OF assms(3)] by simp
  have sh: "shows_row (tb w) s r" using section_at_keyed [OF assms(2,3) r1 i] .
  obtain ev where ev: "logs ev (Some actor) ActionEnrollmentWaitlist (enr_ID created)" "tb w3 = add_audit ev (tb w2)"
    using au by (rule RecordObjectID_adds)
  have "tb w' = add_audit ev (add_enrollment e (put_section (move_waitlist 1 now r) (tb w)))"
    using w' ev(2) p by simp
  moreover have "claim_step actor req (tb w) c (add_audit ev (add_enrollment e (put_section (move_waitlist 1 now r) (tb w))))"
    by (rule claim_step.wait [where s = s and trm = trm and d = d, OF r1 sh i assms(4) _ assms(7,6) tr])
      (use assms(5) sh r C ev c e_def in \<open>auto simp: shows_row_def waitlist_pred_def\<close>)
  ultimately show ?thesis by simp
qed

lemma claimOnce_step:
  assumes "claimOnce actor req w = (Inr c, w')" "section_key.keyed (t_sections (tb w))"
  shows "claim_step actor req (tb w) c (tb w')"
proof -
  from assms(1) obtain s trm now d w1 where w: "tb w1 = tb w" "section_at (tb w) (erq_SectionID req) = Some s"
    "trm \<in> set (tbl_rows (t_terms (tb w)))" "trm_ID trm = sec_TermID s"
    "CheckEnrollmentEligibility (claim_input (tb w) (erq_StudentID req) s trm now) = Inr d"
    "(if dec_Waitlist d then join_waitlist actor req s (new_claim (erq_StudentID req) trm s now) now
      else take_free_seat actor req s (new_claim (erq_StudentID req) trm s now) now) w1 = (Inr c, w')"
    by (rule claimOnce_Inr)
  show ?thesis
  proof (cases "dec_Waitlist d")
    case True
    then show ?thesis using join_waitlist_step [of actor req s trm now w1 c w' d] w assms(2) by simp
  next
    case False
    then show ?thesis using take_free_seat_step [of actor req s trm now w1 c w' d] w assms(2) by simp
  qed
qed

section \<open>Promotion and drop take a step\<close>

lemma put_section_twice: "sr_ID a = sr_ID b \<Longrightarrow> put_section a (put_section b t) = put_section a t"
  by (simp add: put_section_def table_update_def comp_def)

lemma put_commute: "put_section r (put_enrollment e t) = put_enrollment e (put_section r t)"
  by (simp add: put_section_def put_enrollment_def)

lemma put_section_take:
  "sr_ID r = i \<Longrightarrow> t\<lparr>t_sections := table_update (\<lambda>r. sr_ID r = i) (\<lambda>_. take_seat now r) (t_sections t)\<rparr>
     = put_section (take_seat now r) t"
  by (simp add: put_section_def take_seat_def)

lemma put_section_return:
  "sr_ID r = i \<Longrightarrow> t\<lparr>t_sections := table_update (\<lambda>r. sr_ID r = i) (\<lambda>_. return_seat now r) (t_sections t)\<rparr>
     = put_section (return_seat now r) t"
  by (simp add: put_section_def return_seat_def)

lemma put_section_move:
  "sr_ID r = i \<Longrightarrow> t\<lparr>t_sections := table_update (\<lambda>r. sr_ID r = i) (\<lambda>_. move_waitlist d now r) (t_sections t)\<rparr>
     = put_section (move_waitlist d now r) t"
  by (simp add: put_section_def move_waitlist_def)

lemma put_section_row:
  assumes "section_key.keyed (t_sections t)" "r \<in> set (tbl_rows (t_sections t))" "sr_ID r' = sr_ID r"
    and "q \<in> set (tbl_rows (t_sections (put_section r' t)))" "sr_ID q = sr_ID r"
  shows "q = r'"
  using assms by (auto simp: put_section_def)

lemma keyed_put_section:
  assumes "section_key.keyed (t_sections t)"
  shows "section_key.keyed (t_sections (put_section r t))"
proof -
  have "put_section r t = t\<lparr>t_sections := table_update (\<lambda>q. True) (\<lambda>q. if sr_ID q = sr_ID r then r else q) (t_sections t)\<rparr>"
    by (simp add: put_section_def table_update_def)
  moreover have "section_key.keyed (table_update (\<lambda>q. True) (\<lambda>q. if sr_ID q = sr_ID r then r else q) (t_sections t))"
    by (rule section_key.keyed_update [OF assms]) simp
  ultimately show ?thesis by simp
qed

lemma keyed_put_enrollment:
  assumes "enrollment_key.keyed (t_enrollments t)"
  shows "enrollment_key.keyed (t_enrollments (put_enrollment e t))"
proof -
  have "put_enrollment e t = t\<lparr>t_enrollments :=
      table_update (\<lambda>q. True) (\<lambda>q. if enr_ID q = enr_ID e then e else q) (t_enrollments t)\<rparr>"
    by (simp add: put_enrollment_def table_update_def)
  moreover have "enrollment_key.keyed (table_update (\<lambda>q. True) (\<lambda>q. if enr_ID q = enr_ID e then e else q) (t_enrollments t))"
    by (rule enrollment_key.keyed_update [OF assms]) simp
  ultimately show ?thesis by simp
qed

lemma UpdateEnrollment_put:
  assumes "UpdateEnrollment e1 v w = (Inr saved, w')" "enrollment_key.keyed (t_enrollments (tb w))"
    and "e \<in> set (tbl_rows (t_enrollments (tb w)))" "enr_ID e1 = enr_ID e"
  shows "tb w' = put_enrollment (write_enrollment e1 e) (tb w)" "saved = e1\<lparr>enr_Version := v + 1\<rparr>"
proof -
  obtain q where q: "q \<in> set (tbl_rows (t_enrollments (tb w)))" "enr_ID q = enr_ID e1"
    "saved = e1\<lparr>enr_Version := v + 1\<rparr>"
    "tb w' = (tb w)\<lparr>t_enrollments :=
       table_update (\<lambda>p. enr_ID p = enr_ID q) (\<lambda>_. write_enrollment e1 q) (t_enrollments (tb w))\<rparr>"
    using UpdateEnrollment_Inr [OF assms(2,1)] by metis
  have "q = e" using enrollment_key.by_id_unique [OF assms(2) q(1) assms(3)] q(2) assms(4) by simp
  with q show "tb w' = put_enrollment (write_enrollment e1 e) (tb w)" "saved = e1\<lparr>enr_Version := v + 1\<rparr>"
    by (simp_all add: put_enrollment_def write_enrollment_def)
qed

lemma HeadOfWaitlist_Inr:
  "HeadOfWaitlist i w = (Inr e, w') \<Longrightarrow> (\<exists>rest. waitlist_of (tb w) i = e # rest) \<and> tb w' = tb w"
  by (cases "waitlist_of (tb w) i") (auto simp: HeadOfWaitlist_def limit_offset_def op_simps)

lemma waitlist_of_mem:
  "e \<in> set (waitlist_of t i) \<longleftrightarrow> e \<in> set (tbl_rows (t_enrollments t)) \<and> waiting_in i e"
  by (simp add: waitlist_of_def)

lemma promote_head_step:
  assumes "promote_head s head now w = (Inr b, w')" "sec_ID s = i"
    and "section_key.keyed (t_sections (tb w))" "enrollment_key.keyed (t_enrollments (tb w))"
    and "waitlist_of (tb w) i = head # rest"
  shows "promote_step i (tb w) b (tb w')"
proof -
  from assms(1) obtain u w3 head1 saved w4 u2 w5 m v w6 where
    claim: "ClaimSeat (sec_ID s) (sec_Version s) now w = (Inr u, w3)"
    and tr: "Transition head EnrollmentEnrolled now [] = Inr head1"
    and up: "UpdateEnrollment head1 (enr_Version head) w3 = (Inr saved, w4)"
    and adj: "AdjustWaitlistLength (sec_ID s) (- 1) now w4 = (Inr u2, w5)"
    and au: "RecordObjectID None ActionEnrollmentPromote ''enrollment'' (enr_ID saved) ResultSuccess m w5 = (Inr v, w6)"
    and b: "b = True" and w': "w' = w6"
    unfolding promote_head_def op_simps sum.inject by blast
  have mem: "head \<in> set (tbl_rows (t_enrollments (tb w)))"
    using waitlist_of_mem [of head "tb w" i] assms(5) by simp
  obtain r where r: "r \<in> set (tbl_rows (t_sections (tb w)))" "seat_pred (sec_ID s) (sec_Version s) r"
    "sr_ID r = sec_ID s" and p3: "tb w3 = put_section (take_seat now r) (tb w)"
    using claim_seat.one_row [OF assms(3) claim] put_section_take by metis
  have "enrollment_key.keyed (t_enrollments (tb w3))" "head \<in> set (tbl_rows (t_enrollments (tb w3)))"
    using assms(4) mem p3 by (simp_all add: put_section_def)
  note up' = UpdateEnrollment_put [OF up this Transition_Inr(3) [OF tr]]
  have k4: "section_key.keyed (t_sections (tb w4))"
    using keyed_put_section [OF assms(3)] p3 up'(1) by (simp add: put_enrollment_def)
  obtain r2 where r2: "r2 \<in> set (tbl_rows (t_sections (tb w4)))" "waitlist_pred (sec_ID s) (- 1) r2"
    "sr_ID r2 = sec_ID s" "section_row_ok (move_waitlist (- 1) now r2)"
    and p5: "tb w5 = put_section (move_waitlist (- 1) now r2) (tb w4)"
    using waitlist_down.one_row [OF k4 adj] put_section_move by metis
  have r2_eq: "r2 = take_seat now r"
    using put_section_row [OF assms(3) r(1), of "take_seat now r" r2] r2(1,3) r(3) p3 up'(1)
    by (simp add: put_enrollment_def take_seat_def)
  have p5': "tb w5 = put_section (move_waitlist (- 1) now (take_seat now r))
      (put_enrollment (write_enrollment head1 head) (tb w))"
    using p5 up'(1) p3 r2_eq by (simp add: put_commute put_section_twice move_waitlist_def take_seat_def)
  obtain ev where ev: "logs ev None ActionEnrollmentPromote (enr_ID saved)" "tb w6 = add_audit ev (tb w5)"
    using au by (rule RecordObjectID_adds)
  have "promote_step i (tb w) True (add_audit ev (put_section (move_waitlist (- 1) now (take_seat now r))
      (put_enrollment (write_enrollment head1 head) (tb w))))"
    by (rule promote_step.promote [OF r(1) _ _ _ assms(5) tr])
      (use r r2 r2_eq assms(2) ev(1) up'(2) Transition_Inr(3) [OF tr] in
        \<open>auto simp: seat_pred_def waitlist_pred_def take_seat_def\<close>)
  then show ?thesis using b w' ev(2) p5' by simp
qed

lemma promote_once_step:
  assumes "promote_once i now w = (Inr b, w')"
    and "section_key.keyed (t_sections (tb w))" "enrollment_key.keyed (t_enrollments (tb w))"
  shows "promote_step i (tb w) b (tb w')"
proof -
  from assms(1) obtain s w1 where s: "FindSectionForUpdate i w = (Inr s, w1)"
    and rest: "(if \<not> AcceptsEnrollment s \<or> SeatsAvailable s \<le> 0 then ret False
     else andThen (attempt (HeadOfWaitlist i)) (\<lambda>h. case h of
       Inl e \<Rightarrow> if errors_Is e ErrNotFound then ret False else raise e
     | Inr head \<Rightarrow> promote_head s head now)) w1 = (Inr b, w')"
    unfolding promote_once_def andThen_Inr by blast
  have t1: "tb w1 = tb w" and sat: "section_at (tb w) i = Some s"
    using s FindSectionByID_Inr by (auto simp: FindSectionForUpdate_def)
  show ?thesis
  proof (cases "\<not> AcceptsEnrollment s \<or> SeatsAvailable s \<le> 0")
    case True
    then show ?thesis using rest t1 by (auto simp: op_simps intro: promote_step.idle)
  next
    case False
    then obtain h w2 where h: "HeadOfWaitlist i w1 = (h, w2)"
      and rest2: "(case h of Inl e \<Rightarrow> if errors_Is e ErrNotFound then ret False else raise e
         | Inr head \<Rightarrow> promote_head s head now) w2 = (Inr b, w')"
      using rest unfolding andThen_Inr if_not_P [OF False] by (elim exE conjE) (simp add: attempt_Inr)
    have t2: "tb w2 = tb w" using h t1 by (metis enrollment_reads(7) reads_result)
    show ?thesis
    proof (cases h)
      case (Inl e)
      then show ?thesis using rest2 t2 by (auto simp: op_simps intro: promote_step.idle split: if_splits)
    next
      case (Inr head)
      then obtain rest where "waitlist_of (tb w2) i = head # rest"
        using HeadOfWaitlist_Inr h t1 t2 by metis
      then show ?thesis
        using promote_head_step [of s head now w2 b w' i rest] rest2 Inr assms(2,3) t2 section_at_ID [OF sat]
        by simp
    qed
  qed
qed

section \<open>Drop takes a step\<close>

lemma release_counters_enrolled:
  assumes "release_counters s EnrollmentEnrolled EnrollmentDropped now w = (Inr u, w')"
    and "section_key.keyed (t_sections (tb w))"
  obtains r where "r \<in> set (tbl_rows (t_sections (tb w)))" "sr_ID r = sec_ID s" "0 < sr_SeatsTaken r"
    "section_row_ok (return_seat now r)"
    "if 0 < sr_WaitlistLength r then \<exists>j. job_Kind j = JobPromoteWaitlist
        \<and> job_Payload j = waitlist_payload (sr_ID r) \<and> tb w' = add_job j (put_section (return_seat now r) (tb w))
     else tb w' = put_section (return_seat now r) (tb w)"
proof -
  from assms(1) obtain rel w1 where rel: "ReleaseSeat (sec_ID s) (sec_Version s) now w = (Inr rel, w1)"
    and rest: "(if sec_WaitlistLength rel > 0 then enqueueWaitlistPromotion (sec_ID s) now else ret ()) w1 = (Inr u, w')"
    by (auto simp: release_counters_def SeatDelta_def HoldsSeat_def op_simps)
  obtain r where r: "r \<in> set (tbl_rows (t_sections (tb w)))" "release_pred (sec_ID s) (sec_Version s) r"
    "sr_ID r = sec_ID s" "section_row_ok (return_seat now r)" "shows_row (tb w1) rel (return_seat now r)"
    and p: "tb w1 = put_section (return_seat now r) (tb w)"
    using release_seat.one_row [OF assms(2) rel] put_section_return by metis
  have len: "sec_WaitlistLength rel = sr_WaitlistLength r"
    using r(5) by (simp add: shows_row_def return_seat_def)
  have "if 0 < sr_WaitlistLength r then \<exists>j. job_Kind j = JobPromoteWaitlist
        \<and> job_Payload j = waitlist_payload (sr_ID r) \<and> tb w' = add_job j (put_section (return_seat now r) (tb w))
     else tb w' = put_section (return_seat now r) (tb w)"
  proof (cases "0 < sr_WaitlistLength r")
    case True
    with rest len obtain j w2 where "EnqueueJob \<lparr>job_ID = 0, job_Kind = JobPromoteWaitlist,
        job_Payload = waitlist_payload (sec_ID s), job_State = JobQueued, job_Attempts = 0,
        job_MaxAttempts = MaxJobAttempts, job_LastError = [], job_RunAfter = now, job_LockedAt = None,
        job_LockedBy = [], job_CreatedAt = now, job_UpdatedAt = now\<rparr> w1 = (Inr j, w2)" "w' = w2"
      by (auto simp: enqueueWaitlistPromotion_def op_simps)
    from EnqueueJob_Inr [OF this(1)] this(2) show ?thesis
      using True p r(3) by (auto simp: add_job_def)
  next
    case False
    then show ?thesis using rest len p by (simp add: op_simps)
  qed
  then show thesis using that r by (simp add: release_pred_def)
qed

lemma release_counters_waitlisted:
  assumes "release_counters s EnrollmentWaitlisted EnrollmentWithdrawn now w = (Inr u, w')"
    and "section_key.keyed (t_sections (tb w))"
  obtains r where "r \<in> set (tbl_rows (t_sections (tb w)))" "sr_ID r = sec_ID s" "0 < sr_WaitlistLength r"
    "section_row_ok (move_waitlist (- 1) now r)" "tb w' = put_section (move_waitlist (- 1) now r) (tb w)"
proof -
  from assms(1) obtain rel where rel: "AdjustWaitlistLength (sec_ID s) (- 1) now w = (Inr rel, w')"
    by (auto simp: release_counters_def SeatDelta_def HoldsSeat_def op_simps)
  obtain r where "r \<in> set (tbl_rows (t_sections (tb w)))" "waitlist_pred (sec_ID s) (- 1) r"
    "sr_ID r = sec_ID s" "section_row_ok (move_waitlist (- 1) now r)"
    "tb w' = put_section (move_waitlist (- 1) now r) (tb w)"
    using waitlist_down.one_row [OF assms(2) rel] put_section_move by metis
  then show thesis using that by (simp add: waitlist_pred_def)
qed

lemma release_counters_pending:
  "release_counters s EnrollmentPending EnrollmentWithdrawn now w = (Inr u, w') \<Longrightarrow> w' = w"
  by (auto simp: release_counters_def SeatDelta_def HoldsSeat_def op_simps)

lemma drop_transition:
  assumes "Transition e (if HoldsSeat (enr_Status e) then EnrollmentDropped else EnrollmentWithdrawn) now reason = Inr e1"
  shows "enr_Status e \<in> {EnrollmentPending, EnrollmentEnrolled, EnrollmentWaitlisted}"
  using Transition_Inr(1) [OF assms] by (cases "enr_Status e") (auto simp: status_defs)

lemma drop_once_Inr:
  assumes "drop_once actor i reason now w = (Inr saved, w')"
    and "enrollment_key.keyed (t_enrollments (tb w))"
  obtains e s e1 w1 w2 ev where "e \<in> set (tbl_rows (t_enrollments (tb w)))" "enr_ID e = i"
    "CanActOnStudent actor (enr_StudentID e)" "sec_ID s = enr_SectionID e"
    "Transition e (if HoldsSeat (enr_Status e) then EnrollmentDropped else EnrollmentWithdrawn) now reason = Inr e1"
    "tb w1 = put_enrollment (write_enrollment e1 e) (tb w)" "saved = e1\<lparr>enr_Version := enr_Version e + 1\<rparr>"
    "release_counters s (enr_Status e) (if HoldsSeat (enr_Status e) then EnrollmentDropped else EnrollmentWithdrawn)
       now w1 = (Inr (), w2)"
    "logs ev (Some actor) ActionEnrollmentDrop i" "tb w' = add_audit ev (tb w2)"
proof -
  from assms(1) obtain e trm s e1 wa wb wc wd we m and u :: unit and v :: unit where
    e: "FindEnrollmentByID i w = (Inr e, wa)" and can: "CanActOnStudent actor (enr_StudentID e)"
    and trm: "FindTermByID (enr_TermID e) wa = (Inr trm, wb)"
    and s: "FindSectionForUpdate (enr_SectionID e) wb = (Inr s, wc)"
    and tr: "Transition e (if HoldsSeat (enr_Status e) then EnrollmentDropped else EnrollmentWithdrawn) now reason = Inr e1"
    and up: "UpdateEnrollment e1 (enr_Version e) wc = (Inr saved, wd)"
    and rc: "release_counters s (enr_Status e)
      (if HoldsSeat (enr_Status e) then EnrollmentDropped else EnrollmentWithdrawn) now wd = (Inr u, we)"
    and au: "RecordObjectID (Some actor) ActionEnrollmentDrop ''enrollment'' (enr_ID saved) ResultSuccess m we = (Inr v, w')"
    unfolding drop_once_def Let_def
    by (simp only: op_simps sum.inject raise_if_simps) blast
  have same: "tb wa = tb w" "tb wb = tb w" "tb wc = tb w"
    using e trm s by (auto dest!: reads_result [rotated] intro!: reads_intro)
  have mem: "e \<in> set (tbl_rows (t_enrollments (tb w)))" "enr_ID e = i"
    using FindEnrollmentByID_Inr [OF e] by simp_all
  note up' = UpdateEnrollment_put [OF up _ _ Transition_Inr(3) [OF tr], unfolded same, OF assms(2) mem(1)]
  have sid: "sec_ID s = enr_SectionID e"
    using s FindSectionByID_Inr section_at_ID unfolding FindSectionForUpdate_def by metis
  have id: "enr_ID saved = i" using up'(2) Transition_Inr(3) [OF tr] mem(2) by simp
  obtain ev where "logs ev (Some actor) ActionEnrollmentDrop i" "tb w' = add_audit ev (tb we)"
    using RecordObjectID_adds [OF au] id by metis
  then show thesis using that mem can sid tr up' rc by simp
qed

lemma put_enrollment_sections [simp]: "t_sections (put_enrollment e t) = t_sections t"
  by (simp add: put_enrollment_def)

lemma drop_once_step:
  assumes "drop_once actor i reason now w = (Inr saved, w')"
    and "section_key.keyed (t_sections (tb w))" "enrollment_key.keyed (t_enrollments (tb w))"
  shows "drop_step actor i reason (tb w) saved (tb w')"
proof -
  obtain e s e1 w1 w2 ev where e: "e \<in> set (tbl_rows (t_enrollments (tb w)))" "enr_ID e = i"
    "CanActOnStudent actor (enr_StudentID e)" "sec_ID s = enr_SectionID e"
    and tr: "Transition e (if HoldsSeat (enr_Status e) then EnrollmentDropped else EnrollmentWithdrawn) now reason = Inr e1"
    and t1: "tb w1 = put_enrollment (write_enrollment e1 e) (tb w)"
    and sv: "saved = e1\<lparr>enr_Version := enr_Version e + 1\<rparr>"
    and rc: "release_counters s (enr_Status e) (if HoldsSeat (enr_Status e) then EnrollmentDropped else EnrollmentWithdrawn)
       now w1 = (Inr (), w2)"
    and ev: "logs ev (Some actor) ActionEnrollmentDrop i" "tb w' = add_audit ev (tb w2)"
    using drop_once_Inr [OF assms(1,3)] by metis
  have k1: "section_key.keyed (t_sections (tb w1))" using t1 assms(2) by simp
  from drop_transition [OF tr] consider "enr_Status e = EnrollmentPending"
    | "enr_Status e = EnrollmentEnrolled" | "enr_Status e = EnrollmentWaitlisted" by blast
  then show ?thesis
  proof cases
    case 1
    then have "w2 = w1" "Transition e EnrollmentWithdrawn now reason = Inr e1"
      using rc tr release_counters_pending by (simp_all add: HoldsSeat_def)
    then show ?thesis
      using drop_step.cancel [OF e(1-3) 1 _ sv t1 ev(1)] ev(2) by simp
  next
    case 2
    then have rc': "release_counters s EnrollmentEnrolled EnrollmentDropped now w1 = (Inr (), w2)"
      and tr': "Transition e EnrollmentDropped now reason = Inr e1"
      using rc tr by (simp_all add: HoldsSeat_def)
    obtain r where r: "r \<in> set (tbl_rows (t_sections (tb w1)))" "sr_ID r = sec_ID s" "0 < sr_SeatsTaken r"
      "section_row_ok (return_seat now r)"
      and j: "if 0 < sr_WaitlistLength r then \<exists>j. job_Kind j = JobPromoteWaitlist
        \<and> job_Payload j = waitlist_payload (sr_ID r) \<and> tb w2 = add_job j (put_section (return_seat now r) (tb w1))
       else tb w2 = put_section (return_seat now r) (tb w1)"
      using rc' k1 by (rule release_counters_enrolled)
    have "r \<in> set (tbl_rows (t_sections (tb w)))" "sr_ID r = enr_SectionID e" using r t1 e(4) by simp_all
    from drop_step.release [OF e(1-3) 2 tr' this r(3,4) sv refl j [unfolded t1] ev(1)] ev(2)
    show ?thesis by simp
  next
    case 3
    then have rc': "release_counters s EnrollmentWaitlisted EnrollmentWithdrawn now w1 = (Inr (), w2)"
      and tr': "Transition e EnrollmentWithdrawn now reason = Inr e1"
      using rc tr by (simp_all add: HoldsSeat_def)
    obtain r where r: "r \<in> set (tbl_rows (t_sections (tb w1)))" "sr_ID r = sec_ID s" "0 < sr_WaitlistLength r"
      "section_row_ok (move_waitlist (- 1) now r)" "tb w2 = put_section (move_waitlist (- 1) now r) (tb w1)"
      using rc' k1 by (rule release_counters_waitlisted)
    have "r \<in> set (tbl_rows (t_sections (tb w)))" "sr_ID r = enr_SectionID e" using r t1 e(4) by simp_all
    from drop_step.leave_waitlist [OF e(1-3) 3 tr' this r(3,4) sv _ ev(1)] r(5) ev(2) t1
    show ?thesis by simp
  qed
qed

end
