(* ===== verification/Ledger.thy ===== *)
theory Ledger
  imports SeatSteps
begin

text \<open>
  The seat ledger: the counters a section row carries agree with the claims stored against it,
  no section is oversold and no waitlist outgrows its limit. Every step keeps it.
\<close>

section \<open>The invariant\<close>

definition seats_held :: "tables \<Rightarrow> int \<Rightarrow> int" where
  "seats_held t i = count_where (\<lambda>e. enr_SectionID e = i \<and> HoldsSeat (enr_Status e)) (t_enrollments t)"

definition waiting :: "tables \<Rightarrow> int \<Rightarrow> int" where
  "waiting t i = count_where (waiting_in i) (t_enrollments t)"

definition row_balanced :: "tables \<Rightarrow> section_row \<Rightarrow> bool" where
  "row_balanced t r \<longleftrightarrow> section_row_ok r \<and> sr_SeatsTaken r = seats_held t (sr_ID r)
     \<and> sr_WaitlistLength r = waiting t (sr_ID r) \<and> sr_WaitlistLength r \<le> sr_WaitlistLimit r"

definition ids_ok :: "tables \<Rightarrow> bool" where
  "ids_ok t \<longleftrightarrow> section_key.keyed (t_sections t) \<and> enrollment_key.keyed (t_enrollments t)"

definition ledger :: "tables \<Rightarrow> bool" where
  "ledger t \<longleftrightarrow> ids_ok t \<and> (\<forall>r \<in> set (tbl_rows (t_sections t)). row_balanced t r)"

lemma ids_okD: "ids_ok t \<Longrightarrow> section_key.keyed (t_sections t)" "ids_ok t \<Longrightarrow> enrollment_key.keyed (t_enrollments t)"
  by (simp_all add: ids_ok_def)

lemma ledgerD:
  assumes "ledger t"
  shows "ids_ok t" "r \<in> set (tbl_rows (t_sections t)) \<Longrightarrow> row_balanced t r"
  using assms by (simp_all add: ledger_def)

section \<open>The effects, seen by the counts\<close>

lemma sections_frame [simp]:
  "t_sections (add_audit ev t) = t_sections t" "t_sections (add_job j t) = t_sections t"
  "t_sections (add_enrollment e t) = t_sections t"
  by (simp_all add: put_defs)

lemma enrollments_frame [simp]:
  "t_enrollments (add_audit ev t) = t_enrollments t" "t_enrollments (add_job j t) = t_enrollments t"
  "t_enrollments (put_section r t) = t_enrollments t"
  by (simp_all add: put_defs)

lemma counts_frame [simp]:
  "seats_held (add_audit ev t) i = seats_held t i" "waiting (add_audit ev t) i = waiting t i"
  "seats_held (add_job j t) i = seats_held t i" "waiting (add_job j t) i = waiting t i"
  "seats_held (put_section r t) i = seats_held t i" "waiting (put_section r t) i = waiting t i"
  by (simp_all add: seats_held_def waiting_def)

lemma counts_add [simp]:
  "seats_held (add_enrollment e t) i
     = seats_held t i + (if enr_SectionID e = i \<and> HoldsSeat (enr_Status e) then 1 else 0)"
  "waiting (add_enrollment e t) i = waiting t i + (if waiting_in i e then 1 else 0)"
  by (simp_all add: seats_held_def waiting_def add_enrollment_def count_where_insert waiting_in_def)

lemma counts_put:
  assumes "enrollment_key.keyed (t_enrollments t)" "e \<in> set (tbl_rows (t_enrollments t))"
    and "enr_ID e' = enr_ID e" "enr_SectionID e' = enr_SectionID e"
  shows "seats_held (put_enrollment e' t) i = seats_held t i
      + (if enr_SectionID e = i then SeatDelta (enr_Status e) (enr_Status e') else 0)"
    "waiting (put_enrollment e' t) i
      = waiting t i + (if waiting_in i e' then 1 else 0) - (if waiting_in i e then 1 else 0)"
proof -
  note one = enrollment_key.count_update_one [OF assms(1,2), of "\<lambda>p. enr_ID p = enr_ID e" _ "\<lambda>_. e'"]
  show "seats_held (put_enrollment e' t) i = seats_held t i
      + (if enr_SectionID e = i then SeatDelta (enr_Status e) (enr_Status e') else 0)"
    using assms(3,4) by (simp add: seats_held_def put_enrollment_def one SeatDelta_def)
  show "waiting (put_enrollment e' t) i
      = waiting t i + (if waiting_in i e' then 1 else 0) - (if waiting_in i e then 1 else 0)"
    using assms(3,4) by (simp add: waiting_def put_enrollment_def one waiting_in_def)
qed

lemma ids_ok_effects [simp]:
  "ids_ok t \<Longrightarrow> ids_ok (add_audit ev t)" "ids_ok t \<Longrightarrow> ids_ok (add_job j t)"
  "ids_ok t \<Longrightarrow> ids_ok (put_section r t)" "ids_ok t \<Longrightarrow> ids_ok (put_enrollment e t)"
  "ids_ok t \<Longrightarrow> ids_ok (add_enrollment e t)"
  by (simp_all add: ids_ok_def keyed_put_section keyed_put_enrollment)
    (simp add: add_enrollment_def enrollment_key.keyed_insert)

lemma write_enrollment_simps [simp]:
  "enr_ID (write_enrollment e r) = enr_ID r" "enr_SectionID (write_enrollment e r) = enr_SectionID r"
  "enr_Status (write_enrollment e r) = enr_Status e" "enr_StudentID (write_enrollment e r) = enr_StudentID r"
  "enr_TermID (write_enrollment e r) = enr_TermID r" "enr_Credits (write_enrollment e r) = enr_Credits r"
  "enr_CourseCode (write_enrollment e r) = enr_CourseCode r"
  "enr_WaitlistRank (write_enrollment e r) = enr_WaitlistRank e"
  "enr_RequestedAt (write_enrollment e r) = enr_RequestedAt r"
  by (simp_all add: write_enrollment_def)

lemma section_row_moves [simp]:
  "sr_ID (take_seat now r) = sr_ID r" "sr_ID (return_seat now r) = sr_ID r" "sr_ID (move_waitlist d now r) = sr_ID r"
  "sr_SeatsTaken (take_seat now r) = sr_SeatsTaken r + 1" "sr_SeatsTaken (return_seat now r) = sr_SeatsTaken r - 1"
  "sr_SeatsTaken (move_waitlist d now r) = sr_SeatsTaken r"
  "sr_WaitlistLength (take_seat now r) = sr_WaitlistLength r"
  "sr_WaitlistLength (return_seat now r) = sr_WaitlistLength r"
  "sr_WaitlistLength (move_waitlist d now r) = sr_WaitlistLength r + d"
  "sr_WaitlistLimit (take_seat now r) = sr_WaitlistLimit r" "sr_WaitlistLimit (return_seat now r) = sr_WaitlistLimit r"
  "sr_WaitlistLimit (move_waitlist d now r) = sr_WaitlistLimit r"
  "sr_TermID (take_seat now r) = sr_TermID r" "sr_TermID (return_seat now r) = sr_TermID r"
  "sr_TermID (move_waitlist d now r) = sr_TermID r"
  by (simp_all add: take_seat_def return_seat_def move_waitlist_def)

section \<open>Balance\<close>

text \<open>One section row is rewritten, and the claims against it change by what the row says.\<close>

lemma ledger_move:
  assumes "ledger t" "r \<in> set (tbl_rows (t_sections t))"
    and "t_sections t' = t_sections (put_section r' t)" "sr_ID r' = sr_ID r" "section_row_ok r'"
    and "sr_WaitlistLength r' \<le> sr_WaitlistLimit r'" "ids_ok t'"
    and "\<And>i. seats_held t' i = seats_held t i + (if i = sr_ID r then sr_SeatsTaken r' - sr_SeatsTaken r else 0)"
    and "\<And>i. waiting t' i = waiting t i + (if i = sr_ID r then sr_WaitlistLength r' - sr_WaitlistLength r else 0)"
  shows "ledger t'"
proof -
  note bal = ledgerD(2) [OF assms(1)]
  have "row_balanced t' q" if q: "q \<in> set (tbl_rows (t_sections t'))" for q
  proof -
    from q assms(3,4) obtain p where p: "p \<in> set (tbl_rows (t_sections t))"
      "q = (if sr_ID p = sr_ID r then r' else p)" by (auto simp: put_section_def)
    show ?thesis
    proof (cases "sr_ID p = sr_ID r")
      case True
      then have "q = r'" using p by simp
      then show ?thesis
        using bal [OF assms(2)] assms(4,5,6) assms(8) [of "sr_ID r"] assms(9) [of "sr_ID r"]
        by (simp add: row_balanced_def)
    next
      case False
      then have "q = p" using p by simp
      then show ?thesis
        using bal [OF p(1)] False assms(8) [of "sr_ID p"] assms(9) [of "sr_ID p"]
        by (simp add: row_balanced_def)
    qed
  qed
  then show ?thesis using assms(7) by (simp add: ledger_def)
qed

lemma ledger_same:
  assumes "ledger t" "t_sections t' = t_sections t" "ids_ok t'"
    and "\<And>i. seats_held t' i = seats_held t i" "\<And>i. waiting t' i = waiting t i"
  shows "ledger t'"
proof -
  have "row_balanced t' r = row_balanced t r" for r by (simp add: row_balanced_def assms)
  then show ?thesis using assms(1-3) by (simp add: ledger_def)
qed

lemma ledger_claim:
  assumes "claim_step actor req t c t'" "ledger t"
  shows "ledger t'"
  using assms(1)
proof cases
  case (enroll r s trm now d e i ev)
  note e = Transition_new_claim [OF enroll(9), simplified]
  have id: "sec_ID s = sr_ID r" using enroll(3) by (simp add: shows_row_def)
  have b: "sr_WaitlistLength r \<le> sr_WaitlistLimit r"
    using ledgerD(2) [OF assms(2) enroll(2)] by (simp add: row_balanced_def)
  show ?thesis
  proof (rule ledger_move [OF assms(2) enroll(2), of _ "take_seat now r"])
    show "ids_ok t'" unfolding enroll(1) using ledgerD(1) [OF assms(2)] by simp
  qed (use enroll(12) e(1,2) id b in \<open>auto simp: enroll(1) waiting_in_def HoldsSeat_def\<close>)
next
  case (wait r s trm now d e0 e i ev)
  note e = Transition_new_claim [OF wait(9), simplified]
  have id: "sec_ID s = sr_ID r" using wait(3) by (simp add: shows_row_def)
  have st: "enr_Status e = EnrollmentWaitlisted" "enr_SectionID e = sr_ID r" using wait(10) e id by simp_all
  show ?thesis
  proof (rule ledger_move [OF assms(2) wait(2), of _ "move_waitlist 1 now r"])
    show "ids_ok t'" unfolding wait(1) using ledgerD(1) [OF assms(2)] by simp
  qed (use wait(11,12) st in \<open>auto simp: wait(1) waiting_in_def HoldsSeat_def\<close>)
qed

lemma ledger_promote:
  assumes "promote_step i t b t'" "ledger t"
  shows "ledger t'"
  using assms(1)
proof cases
  case idle
  then show ?thesis using assms(2) by simp
next
  case (promote r e rest now e1 ev)
  note k = ids_okD(2) [OF ledgerD(1) [OF assms(2)]]
  have e: "e \<in> set (tbl_rows (t_enrollments t))" "waiting_in i e"
    using waitlist_of_mem [of e t i] promote(7) by simp_all
  note c = counts_put [OF k e(1), of "write_enrollment e1 e", simplified]
  note tr = Transition_Inr [OF promote(8)]
  let ?r = "move_waitlist (- 1) now (take_seat now r)"
  show ?thesis
  proof (rule ledger_move [OF assms(2) promote(3), of _ ?r])
    show "ids_ok t'" unfolding promote(2) using ledgerD(1) [OF assms(2)] by simp
    show "t_sections t' = t_sections (put_section ?r t)"
      unfolding promote(2) by (simp add: put_section_def put_enrollment_def)
    show "seats_held t' j = seats_held t j + (if j = sr_ID r then sr_SeatsTaken ?r - sr_SeatsTaken r else 0)" for j
      using c(1) [of j] e(2) promote(4) tr(2)
      by (auto simp: promote(2) waiting_in_def SeatDelta_def HoldsSeat_def)
    show "waiting t' j = waiting t j + (if j = sr_ID r then sr_WaitlistLength ?r - sr_WaitlistLength r else 0)" for j
      using c(2) [of j] e(2) promote(4) tr(2) by (auto simp: promote(2) waiting_in_def)
    show "sr_WaitlistLength ?r \<le> sr_WaitlistLimit ?r"
      using ledgerD(2) [OF assms(2) promote(3)] by (simp add: row_balanced_def)
  qed (use promote(10) in simp_all)
qed

lemma ledger_drop:
  assumes "drop_step actor i reason t saved t'" "ledger t"
  shows "ledger t'"
  using assms(1)
proof cases
  case (release e now e1 r t1 t2 ev)
  note k = ids_okD(2) [OF ledgerD(1) [OF assms(2)]]
  note c = counts_put [OF k release(2), of "write_enrollment e1 e", simplified]
  note tr = Transition_Inr [OF release(6)]
  have t2: "t2 = t1 \<or> (\<exists>j. t2 = add_job j t1)" using release(13) by (auto split: if_splits)
  then have frame: "t_sections t2 = t_sections t1" "seats_held t2 j = seats_held t1 j" "waiting t2 j = waiting t1 j" for j
    by auto
  show ?thesis
  proof (rule ledger_move [OF assms(2) release(7), of _ "return_seat now r"])
    show "ids_ok t'" unfolding release(1) using t2 ledgerD(1) [OF assms(2)] by (auto simp: release(12))
    show "t_sections t' = t_sections (put_section (return_seat now r) t)"
      by (simp add: release(1,12) frame put_section_def put_enrollment_def)
    show "seats_held t' j = seats_held t j + (if j = sr_ID r then sr_SeatsTaken (return_seat now r) - sr_SeatsTaken r else 0)" for j
      using c(1) [of j] release(5,8) tr(2) by (auto simp: release(1,12) frame SeatDelta_def HoldsSeat_def)
    show "waiting t' j = waiting t j
        + (if j = sr_ID r then sr_WaitlistLength (return_seat now r) - sr_WaitlistLength r else 0)" for j
      using c(2) [of j] release(5) tr(2) by (auto simp: release(1,12) frame waiting_in_def)
    show "sr_WaitlistLength (return_seat now r) \<le> sr_WaitlistLimit (return_seat now r)"
      using ledgerD(2) [OF assms(2) release(7)] by (simp add: row_balanced_def)
  qed (use release(10) in simp_all)
next
  case (leave_waitlist e now e1 r t1 ev)
  note k = ids_okD(2) [OF ledgerD(1) [OF assms(2)]]
  note c = counts_put [OF k leave_waitlist(2), of "write_enrollment e1 e", simplified]
  note tr = Transition_Inr [OF leave_waitlist(6)]
  let ?r = "move_waitlist (- 1) now r"
  show ?thesis
  proof (rule ledger_move [OF assms(2) leave_waitlist(7), of _ ?r])
    show "ids_ok t'" unfolding leave_waitlist(1,12) using ledgerD(1) [OF assms(2)] by simp
    show "t_sections t' = t_sections (put_section ?r t)"
      by (simp add: leave_waitlist(1,12) put_section_def put_enrollment_def)
    show "seats_held t' j = seats_held t j + (if j = sr_ID r then sr_SeatsTaken ?r - sr_SeatsTaken r else 0)" for j
      using c(1) [of j] leave_waitlist(5) tr(2) by (auto simp: leave_waitlist(1,12) SeatDelta_def HoldsSeat_def)
    show "waiting t' j = waiting t j + (if j = sr_ID r then sr_WaitlistLength ?r - sr_WaitlistLength r else 0)" for j
      using c(2) [of j] leave_waitlist(5,8) tr(2) by (auto simp: leave_waitlist(1,12) waiting_in_def)
    show "sr_WaitlistLength ?r \<le> sr_WaitlistLimit ?r"
      using ledgerD(2) [OF assms(2) leave_waitlist(7)] by (simp add: row_balanced_def)
  qed (use leave_waitlist(10) in simp_all)
next
  case (cancel e now e1 t1 ev)
  note k = ids_okD(2) [OF ledgerD(1) [OF assms(2)]]
  note c = counts_put [OF k cancel(2), of "write_enrollment e1 e", simplified]
  note tr = Transition_Inr [OF cancel(6)]
  show ?thesis
  proof (rule ledger_same [OF assms(2)])
    show "ids_ok t'" unfolding cancel(1,8) using ledgerD(1) [OF assms(2)] by simp
    show "t_sections t' = t_sections t" by (simp add: cancel(1,8))
    show "seats_held t' j = seats_held t j" "waiting t' j = waiting t j" for j
      using c [of j] cancel(5) tr(2) by (auto simp: cancel(1,8) SeatDelta_def HoldsSeat_def waiting_in_def)
  qed
qed

end
