(* ===== verification/SeatRuns.thy ===== *)
theory SeatRuns
  imports Ledger
begin

text \<open>
  Runs of the platform as sequences of committed transactions. Transactions are atomic (the
  store opens each with an immediate lock), so concurrent requests interleave between them; a
  run is any sequence of steps. An invariant of the steps holds after every service call,
  whatever driver calls fail: that is the contract \<open>step_invariant\<close>.
\<close>

section \<open>Steps of the whole platform\<close>

inductive seat_step :: "tables \<Rightarrow> tables \<Rightarrow> bool" where
  claim: "claim_step actor req t c t' \<Longrightarrow> seat_step t t'"
| promote: "promote_step i t b t' \<Longrightarrow> seat_step t t'"
| drop: "drop_step actor i reason t saved t' \<Longrightarrow> seat_step t t'"
| elsewhere: "\<lbrakk>t_sections t' = t_sections t; t_enrollments t' = t_enrollments t; t_terms t' = t_terms t;
    t_courses t' = t_courses t; t_meetings t' = t_meetings t\<rbrakk> \<Longrightarrow> seat_step t t'"
  \<comment> \<open>sessions, paperwork, jobs, replay records, the trail\<close>

inductive_cases seat_stepE: "seat_step t t'"

lemma ids_ok_claim: "claim_step actor req t c t' \<Longrightarrow> ids_ok t \<Longrightarrow> ids_ok t'"
  by (erule claim_step.cases) simp_all

lemma ids_ok_promote: "promote_step i t b t' \<Longrightarrow> ids_ok t \<Longrightarrow> ids_ok t'"
  by (erule promote_step.cases) simp_all

lemma ids_ok_drop: "drop_step actor i reason t saved t' \<Longrightarrow> ids_ok t \<Longrightarrow> ids_ok t'"
  by (erule drop_step.cases) (auto split: if_splits)

lemma ids_ok_step: "seat_step t t' \<Longrightarrow> ids_ok t \<Longrightarrow> ids_ok t'"
  by (erule seat_stepE) (auto dest: ids_ok_claim ids_ok_promote ids_ok_drop simp: ids_ok_def)

lemma ids_ok_run: "seat_step\<^sup>*\<^sup>* t t' \<Longrightarrow> ids_ok t \<Longrightarrow> ids_ok t'"
  by (induction rule: rtranclp_induct) (auto dest: ids_ok_step)

section \<open>Service calls are runs\<close>

definition evolves :: "'a op \<Rightarrow> bool" where
  "evolves m \<longleftrightarrow> (\<forall>w. ids_ok (tb w) \<longrightarrow> seat_step\<^sup>*\<^sup>* (tb w) (tb (snd (m w))))"

named_theorems evolves_intro \<open>operations that are runs\<close>

lemma evolvesD: "evolves m \<Longrightarrow> ids_ok (tb w) \<Longrightarrow> m w = (r, w') \<Longrightarrow> seat_step\<^sup>*\<^sup>* (tb w) (tb w')"
  unfolding evolves_def by (metis snd_conv)

lemma reads_evolves: "reads m \<Longrightarrow> evolves m"
  by (simp add: reads_def evolves_def)

lemma evolves_andThen [evolves_intro]:
  assumes "evolves m" "\<And>x. evolves (f x)"
  shows "evolves (andThen m f)"
  unfolding evolves_def
proof (intro allI impI)
  fix w :: world assume ok: "ids_ok (tb w)"
  obtain r w1 where m: "m w = (r, w1)" by fastforce
  then have run: "seat_step\<^sup>*\<^sup>* (tb w) (tb w1)" using assms(1) ok by (blast intro: evolvesD)
  show "seat_step\<^sup>*\<^sup>* (tb w) (tb (snd (andThen m f w)))"
  proof (cases r)
    case (Inl e)
    then show ?thesis using m run by (simp add: andThen_def)
  next
    case (Inr x)
    have "seat_step\<^sup>*\<^sup>* (tb w1) (tb (snd (f x w1)))"
      using assms(2) ids_ok_run [OF run ok] by (simp add: evolves_def)
    then show ?thesis using m run Inr by (simp add: andThen_def)
  qed
qed

lemma evolves_attempt [evolves_intro]: "evolves m \<Longrightarrow> evolves (attempt m)"
  by (auto simp: evolves_def attempt_def split: prod.split dest: evolvesD)

lemma evolves_basic [evolves_intro]:
  "evolves (ret x)" "evolves (raise e)" "evolves (check c)" "evolves clock_now" "evolves ctx_Err"
  by (rule reads_evolves, rule reads_intro)+

lemma evolves_option [evolves_intro]:
  "evolves f \<Longrightarrow> (\<And>x. evolves (g x)) \<Longrightarrow> evolves (case r of None \<Rightarrow> f | Some x \<Rightarrow> g x)"
  by (cases r) auto

lemma evolves_sum [evolves_intro]:
  "(\<And>e. evolves (f e)) \<Longrightarrow> (\<And>x. evolves (g x)) \<Longrightarrow> evolves (case r of Inl e \<Rightarrow> f e | Inr x \<Rightarrow> g x)"
  by (cases r) auto

lemma evolves_if [evolves_intro]: "evolves f \<Longrightarrow> evolves g \<Longrightarrow> evolves (if b then f else g)"
  by simp

lemma evolves_InTx:
  assumes "\<And>w x w'. ids_ok (tb w) \<Longrightarrow> m w = (Inr x, w') \<Longrightarrow> seat_step (tb w) (tb w')"
  shows "evolves (InTx m)"
  unfolding evolves_def
proof (intro allI impI)
  fix w :: world assume ok: "ids_ok (tb w)"
  show "seat_step\<^sup>*\<^sup>* (tb w) (tb (snd (InTx m w)))"
  proof (cases "InTx m w")
    case (Pair r w')
    show ?thesis
    proof (cases r)
      case (Inl e)
      then show ?thesis using tx.rollback [of m w] Pair by simp
    next
      case (Inr x)
      then have "InTx m w = (Inr x, w')" using Pair by simp
      from tx.commit [OF this] obtain w1 w2 where w: "tb w1 = tb w" "m w1 = (Inr x, w2)" "tb w' = tb w2"
        by blast
      then have "seat_step (tb w1) (tb w2)" using ok by (intro assms) simp_all
      then have "seat_step (tb w) (tb w')" by (simp only: w)
      then show ?thesis unfolding Pair snd_conv by (rule r_into_rtranclp)
    qed
  qed
qed

lemma RecordObjectID_elsewhere:
  assumes "RecordObjectID actor action oty i res d w = (Inr u, w')"
  shows "seat_step (tb w) (tb w')"
proof -
  obtain e where "audit_added (tb w) (tb w') e" using RecordObjectID_Inr [OF assms] by blast
  then show ?thesis by (intro seat_step.elsewhere) (simp_all add: audit_added_def)
qed

lemma evolves_recordRejection [evolves_intro]: "evolves (recordRejection actor action oty i cause)"
  unfolding recordRejection_def Let_def
  by (intro evolves_intro evolves_InTx) (rule RecordObjectID_elsewhere)

lemma evolves_claimOnce [evolves_intro]: "evolves (InTx (claimOnce actor req))"
  by (rule evolves_InTx) (auto intro!: seat_step.claim claimOnce_step dest: ids_okD)

lemma evolves_claim_loop [evolves_intro]: "evolves (claim_loop actor req n k)"
  by (induction k) (simp_all add: Let_def, (intro evolves_intro | assumption)+)

lemma evolves_Claim [evolves_intro]: "evolves (Claim k actor a b)"
  unfolding Claim_def Let_def by (intro evolves_intro)

lemma evolves_Drop [evolves_intro]: "evolves (Drop actor i reason)"
  unfolding Drop_def
  by (intro evolves_intro evolves_InTx) (auto intro!: seat_step.drop drop_once_step dest: ids_okD)

lemma evolves_PromoteWaitlist [evolves_intro]: "evolves (PromoteWaitlist i)"
  unfolding PromoteWaitlist_def
  by (intro evolves_intro evolves_InTx) (auto intro!: seat_step.promote promote_once_step dest: ids_okD)

lemma evolves_batch_loop [evolves_intro]: "evolves (batch_loop k actor st secs results)"
  by (induction secs arbitrary: results) (simp_all, (intro evolves_intro | assumption)+)

lemma evolves_BatchClaim [evolves_intro]: "evolves (BatchClaim k actor st secs)"
  unfolding BatchClaim_def Let_def by (intro evolves_intro)

section \<open>Invariants of the steps\<close>

locale step_invariant =
  fixes I :: "tables \<Rightarrow> bool"
  assumes ids: "I t \<Longrightarrow> ids_ok t"
    and keeps: "I t \<Longrightarrow> seat_step t t' \<Longrightarrow> I t'"
begin

lemma run: "seat_step\<^sup>*\<^sup>* t t' \<Longrightarrow> I t \<Longrightarrow> I t'"
  by (induction rule: rtranclp_induct) (auto intro: keeps)

lemma service: "evolves m \<Longrightarrow> I (tb w) \<Longrightarrow> I (tb (snd (m w)))"
  using run ids by (auto simp: evolves_def)

end

lemma ledger_step: "seat_step t t' \<Longrightarrow> ledger t \<Longrightarrow> ledger t'"
proof (erule seat_stepE)
  assume "ledger t" "t_sections t' = t_sections t" "t_enrollments t' = t_enrollments t"
  then show "ledger t'"
    by (intro ledger_same [of t t']) (auto simp: seats_held_def waiting_def ids_ok_def ledger_def)
qed (auto dest: ledger_claim ledger_promote ledger_drop)

interpretation ledger_inv: step_invariant ledger
  by unfold_locales (auto dest: ledgerD ledger_step)

end
