(* ===== verification/Waitlist.thy ===== *)
theory Waitlist
  imports SeatRuns
begin

text \<open>
  The waitlist of a section as a first-in first-out queue. The invariant \<open>ranked\<close> says that
  waiting claims of a section carry distinct positive ranks; with it the answer of
  each transaction is an event, to which an abstract section that knows only who holds a seat and who
  waits, in order, reacts in one way only, and ends where the tables do.
\<close>

section \<open>Ranks\<close>

definition ranked :: "tables \<Rightarrow> bool" where
  "ranked t \<longleftrightarrow> ids_ok t
     \<and> (\<forall>e \<in> set (tbl_rows (t_enrollments t)). enr_Status e = EnrollmentWaitlisted \<longrightarrow> 1 \<le> enr_WaitlistRank e)
     \<and> (\<forall>e \<in> set (tbl_rows (t_enrollments t)). \<forall>e' \<in> set (tbl_rows (t_enrollments t)).
          enr_Status e = EnrollmentWaitlisted \<longrightarrow> enr_Status e' = EnrollmentWaitlisted
          \<longrightarrow> enr_SectionID e = enr_SectionID e' \<longrightarrow> enr_WaitlistRank e = enr_WaitlistRank e' \<longrightarrow> e = e')"

lemma rankedD:
  assumes "ranked t"
  shows "ids_ok t"
    "e \<in> set (tbl_rows (t_enrollments t)) \<Longrightarrow> waiting_in i e \<Longrightarrow> 1 \<le> enr_WaitlistRank e"
    "e \<in> set (tbl_rows (t_enrollments t)) \<Longrightarrow> e' \<in> set (tbl_rows (t_enrollments t)) \<Longrightarrow>
      waiting_in i e \<Longrightarrow> waiting_in i e' \<Longrightarrow> enr_WaitlistRank e = enr_WaitlistRank e' \<Longrightarrow> e = e'"
proof -
  show "ids_ok t" using assms by (simp add: ranked_def)
  show "e \<in> set (tbl_rows (t_enrollments t)) \<Longrightarrow> waiting_in i e \<Longrightarrow> 1 \<le> enr_WaitlistRank e"
    using assms by (simp add: ranked_def waiting_in_def)
  assume "e \<in> set (tbl_rows (t_enrollments t))" "e' \<in> set (tbl_rows (t_enrollments t))"
    "waiting_in i e" "waiting_in i e'" "enr_WaitlistRank e = enr_WaitlistRank e'"
  moreover from this have "enr_Status e = EnrollmentWaitlisted" "enr_Status e' = EnrollmentWaitlisted"
    "enr_SectionID e = enr_SectionID e'" by (simp_all add: waiting_in_def)
  ultimately show "e = e'" using assms unfolding ranked_def by blast
qed

lemma strict_sorted_unique:
  fixes key :: "'r \<Rightarrow> int"
  assumes "sorted_wrt (\<lambda>a b. key a < key b) xs" "sorted_wrt (\<lambda>a b. key a < key b) ys" "set xs = set ys"
  shows "xs = ys"
proof -
  have "sorted_wrt (<) (map key xs)" "sorted_wrt (<) (map key ys)" "set (map key xs) = set (map key ys)"
    using assms by (simp_all add: sorted_wrt_map)
  then have m: "map key xs = map key ys" by (metis strict_sorted_equal)
  have "inj_on key (set ys)"
    using assms(2) by (metis distinct_map sorted_wrt_map strict_sorted_iff)
  then show ?thesis using m assms(3) by (metis map_inj_on sup.idem)
qed

lemma rank_bound:
  assumes "e \<in> set (tbl_rows (t_enrollments t))" "waiting_in i e"
  shows "enr_WaitlistRank e < next_rank t i"
proof -
  have fold: "x \<in> set xs \<Longrightarrow> x \<le> foldr max xs (z::int)" for x xs z
    by (induction xs) auto
  have "enr_WaitlistRank e \<in> set (map enr_WaitlistRank (select_where (waiting_in i) (t_enrollments t)))"
    using assms by simp
  with fold [OF this] show ?thesis
    by (auto simp: next_rank_def highest_rank_def Let_def simp del: set_map)
qed

lemma next_rank_pos:
  assumes "ranked t"
  shows "1 \<le> next_rank t i"
proof (cases "select_where (waiting_in i) (t_enrollments t)")
  case Nil
  then show ?thesis by (simp add: next_rank_def highest_rank_def)
next
  case (Cons e es)
  then have "e \<in> set (select_where (waiting_in i) (t_enrollments t))" by simp
  then have "e \<in> set (tbl_rows (t_enrollments t))" "waiting_in i e" by simp_all
  then show ?thesis using rank_bound [of e t i] rankedD(2) [OF assms, of e i] by simp
qed

lemma waitlist_sorted:
  assumes "ranked t"
  shows "sorted_wrt (\<lambda>a b. enr_WaitlistRank a < enr_WaitlistRank b) (waitlist_of t i)"
proof -
  let ?xs = "waitlist_of t i"
  have "total_preorder (\<lambda>a b. time_text_le (enr_RequestedAt a) (enr_RequestedAt b))"
    by (auto simp: total_preorder_def time_text_le_def)
  then have s: "sorted_wrt waitlist_order ?xs"
    unfolding waitlist_of_def waitlist_order_def by (intro sorted_order_by_keys) auto
  have "distinct (tbl_rows (t_enrollments t))"
    using rankedD(1) [OF assms] by (simp add: ids_ok_def enrollment_key.keyed_def distinct_map)
  then have d: "distinct ?xs" by (simp add: waitlist_of_def select_where_def)
  show ?thesis
    unfolding sorted_wrt_iff_nth_less
  proof (intro allI impI)
    fix a b assume ab: "a < b" "b < length ?xs"
    then have ne: "?xs ! a \<noteq> ?xs ! b" using d by (simp add: nth_eq_iff_index_eq)
    have m: "?xs ! a \<in> set ?xs" "?xs ! b \<in> set ?xs" using ab by simp_all
    have "enr_WaitlistRank (?xs ! a) \<le> enr_WaitlistRank (?xs ! b)"
      using sorted_wrt_nth_less [OF s ab] by (auto simp: waitlist_order_def asc_def split: if_splits)
    moreover have "enr_WaitlistRank (?xs ! a) \<noteq> enr_WaitlistRank (?xs ! b)"
      using rankedD(3) [OF assms, of "?xs ! a" "?xs ! b" i] m ne by (auto simp: waitlist_of_mem)
    ultimately show "enr_WaitlistRank (?xs ! a) < enr_WaitlistRank (?xs ! b)" by simp
  qed
qed

lemma waitlist_eqI:
  assumes "ranked t" "sorted_wrt (\<lambda>a b. enr_WaitlistRank a < enr_WaitlistRank b) xs"
    and "\<And>e. e \<in> set xs \<longleftrightarrow> e \<in> set (tbl_rows (t_enrollments t)) \<and> waiting_in i e"
  shows "waitlist_of t i = xs"
  using waitlist_sorted [OF assms(1)] assms(2)
  by (rule strict_sorted_unique) (auto simp: waitlist_of_mem assms(3))

section \<open>The rows a step leaves\<close>

definition stored :: "enrollment \<Rightarrow> tables \<Rightarrow> enrollment" where
  \<comment> \<open>a new claim, as the insert stores it\<close>
  "stored e t = e\<lparr>enr_ID := tbl_seq (t_enrollments t) + 1, enr_Version := 1\<rparr>"

lemma rows_add [simp]:
  "set (tbl_rows (t_enrollments (add_enrollment e t))) = insert (stored e t) (set (tbl_rows (t_enrollments t)))"
  by (auto simp: add_enrollment_def table_insert_def stored_def)

lemma stored_simps [simp]:
  "enr_ID (stored e t) = tbl_seq (t_enrollments t) + 1" "enr_SectionID (stored e t) = enr_SectionID e"
  "enr_Status (stored e t) = enr_Status e" "enr_WaitlistRank (stored e t) = enr_WaitlistRank e"
  "enr_StudentID (stored e t) = enr_StudentID e" "enr_TermID (stored e t) = enr_TermID e"
  "enr_Credits (stored e t) = enr_Credits e" "enr_CourseCode (stored e t) = enr_CourseCode e"
  "stored e (put_section r t) = stored e t"
  by (simp_all add: stored_def)

lemma rows_put:
  assumes "ids_ok t" "e \<in> set (tbl_rows (t_enrollments t))" "enr_ID e' = enr_ID e"
  shows "set (tbl_rows (t_enrollments (put_enrollment e' t)))
    = insert e' (set (tbl_rows (t_enrollments t)) - {e})"
proof -
  have uniq: "q = e" if "q \<in> set (tbl_rows (t_enrollments t))" "enr_ID q = enr_ID e" for q
    using enrollment_key.by_id_unique [OF ids_okD(2) [OF assms(1)] that(1) assms(2) that(2)] .
  have "set (tbl_rows (t_enrollments (put_enrollment e' t)))
      = (\<lambda>q. if enr_ID q = enr_ID e then e' else q) ` set (tbl_rows (t_enrollments t))"
    using assms(3) by (simp add: put_enrollment_def)
  also have "\<dots> = insert e' (set (tbl_rows (t_enrollments t)) - {e})"
    using uniq assms(2) by (auto simp: image_iff)
  finally show ?thesis .
qed

lemma ranked_same_rows:
  "ranked t \<Longrightarrow> ids_ok t' \<Longrightarrow> set (tbl_rows (t_enrollments t')) = set (tbl_rows (t_enrollments t)) \<Longrightarrow> ranked t'"
  by (simp add: ranked_def)

lemma ranked_add:
  assumes "ranked t" "ids_ok t'" "t_enrollments t' = t_enrollments (add_enrollment e t)"
    and "enr_Status e = EnrollmentWaitlisted \<Longrightarrow> enr_WaitlistRank e = next_rank t (enr_SectionID e)"
  shows "ranked t'"
proof -
  have lt: "enr_Status e = EnrollmentWaitlisted \<Longrightarrow> q \<in> set (tbl_rows (t_enrollments t)) \<Longrightarrow>
      enr_Status q = EnrollmentWaitlisted \<Longrightarrow> enr_SectionID q = enr_SectionID e \<Longrightarrow>
      enr_WaitlistRank q < enr_WaitlistRank e" for q
    using rank_bound [of q t "enr_SectionID e"] assms(4) by (simp add: waiting_in_def)
  have pos: "enr_Status e = EnrollmentWaitlisted \<Longrightarrow> 1 \<le> enr_WaitlistRank e"
    using next_rank_pos [OF assms(1)] assms(4) by simp
  let ?rows = "set (tbl_rows (t_enrollments t))"
  have one: "q = q'" if "q \<in> insert (stored e t) ?rows" "q' \<in> insert (stored e t) ?rows"
    and w: "enr_Status q = EnrollmentWaitlisted" "enr_Status q' = EnrollmentWaitlisted"
    "enr_SectionID q = enr_SectionID q'" "enr_WaitlistRank q = enr_WaitlistRank q'" for q q'
  proof -
    from that(1,2) consider "q = stored e t" "q' = stored e t" | "q = stored e t" "q' \<in> ?rows"
      | "q \<in> ?rows" "q' = stored e t" | "q \<in> ?rows" "q' \<in> ?rows" by blast
    then show ?thesis
    proof cases
      case 2
      then show ?thesis using lt [of q'] w by simp
    next
      case 3
      then show ?thesis using lt [of q] w by simp
    next
      case 4
      then show ?thesis using rankedD(3) [OF assms(1), of q q' "enr_SectionID q"] w by (simp add: waiting_in_def)
    qed simp
  qed
  have "1 \<le> enr_WaitlistRank q" if "q \<in> insert (stored e t) ?rows" "enr_Status q = EnrollmentWaitlisted" for q
    using that pos rankedD(2) [OF assms(1), of q "enr_SectionID q"] by (auto simp: waiting_in_def)
  then show ?thesis
    using assms(2) one unfolding ranked_def assms(3) rows_add by blast
qed

lemma ranked_put:
  assumes "ranked t" "ids_ok t'" "t_enrollments t' = t_enrollments (put_enrollment e' t)"
    and "e \<in> set (tbl_rows (t_enrollments t))" "enr_ID e' = enr_ID e" "enr_Status e' \<noteq> EnrollmentWaitlisted"
  shows "ranked t'"
  using assms(1,2,6) unfolding ranked_def assms(3) rows_put [OF rankedD(1) [OF assms(1)] assms(4,5)]
  by blast

lemma ranked_step: "seat_step t t' \<Longrightarrow> ranked t \<Longrightarrow> ranked t'"
proof (induction rule: seat_step.induct)
  case (claim actor req t c t')
  from claim.hyps show ?case
  proof cases
    case (enroll r s trm now d e i ev)
    show ?thesis
      by (rule ranked_add [OF claim.prems ids_ok_claim [OF claim.hyps rankedD(1) [OF claim.prems]], of e])
        (use Transition_new_claim [OF enroll(9), simplified] in \<open>simp_all add: enroll(1) add_enrollment_def\<close>)
  next
    case (wait r s trm now d e0 e i ev)
    show ?thesis
      by (rule ranked_add [OF claim.prems ids_ok_claim [OF claim.hyps rankedD(1) [OF claim.prems]], of e])
        (use Transition_new_claim [OF wait(9), simplified] wait(3) in
          \<open>simp_all add: wait(1,10) add_enrollment_def shows_row_def\<close>)
  qed
next
  case (promote i t b t')
  from promote.hyps show ?case
  proof cases
    case idle
    then show ?thesis using promote.prems by simp
  next
    case (promote r e rest now e1 ev)
    have "e \<in> set (tbl_rows (t_enrollments t))" using waitlist_of_mem [of e t i] promote(7) by simp
    then show ?thesis
      by (intro ranked_put [OF promote.prems ids_ok_promote [OF promote.hyps rankedD(1) [OF promote.prems]],
            of "write_enrollment e1 e" e])
        (use Transition_Inr(2) [OF promote(8)] in \<open>simp_all add: promote(2)\<close>)
  qed
next
  case (drop actor i reason t saved t')
  note ok = ids_ok_drop [OF drop.hyps rankedD(1) [OF drop.prems]]
  from drop.hyps show ?case
  proof cases
    case (release e now e1 r t1 t2 ev)
    have "t_enrollments t2 = t_enrollments t1" using release(13) by (auto split: if_splits)
    then show ?thesis
      by (intro ranked_put [OF drop.prems ok, of "write_enrollment e1 e" e])
        (use release(2) Transition_Inr(2) [OF release(6)] in \<open>simp_all add: release(1,12)\<close>)
  next
    case (leave_waitlist e now e1 r t1 ev)
    show ?thesis
      by (rule ranked_put [OF drop.prems ok, of "write_enrollment e1 e" e])
        (use leave_waitlist(2) Transition_Inr(2) [OF leave_waitlist(6)] in \<open>simp_all add: leave_waitlist(1,12)\<close>)
  next
    case (cancel e now e1 t1 ev)
    show ?thesis
      by (rule ranked_put [OF drop.prems ok, of "write_enrollment e1 e" e])
        (use cancel(2) Transition_Inr(2) [OF cancel(6)] in \<open>simp_all add: cancel(1,8)\<close>)
  qed
next
  case (elsewhere t' t)
  then show ?case by (simp add: ranked_def ids_ok_def)
qed

interpretation ranked_inv: step_invariant ranked
  by unfold_locales (auto dest: rankedD ranked_step)

section \<open>An abstract section\<close>

record seat_view =
  sv_Holders :: "int set"
  sv_Queue :: "int list"

datatype section_event =
    Seated int
    \<comment> \<open>a new claim gets a seat\<close>
  | Queued int
    \<comment> \<open>a new claim goes to the end of the waitlist\<close>
  | Advanced
    \<comment> \<open>the head of the waitlist, whoever it is, gets a seat\<close>
  | Released int
    \<comment> \<open>a claim gives its seat back\<close>
  | Left int
    \<comment> \<open>a claim that holds no seat is withdrawn\<close>

fun react :: "int \<Rightarrow> int \<Rightarrow> section_event \<Rightarrow> seat_view \<Rightarrow> seat_view option" where
  \<comment> \<open>what an event does to a section with this capacity and waitlist limit, when it can happen at all\<close>
  "react capacity limit (Seated x) v =
     (if x \<notin> sv_Holders v \<and> x \<notin> set (sv_Queue v) \<and> int (card (sv_Holders v)) < capacity
      then Some (v\<lparr>sv_Holders := insert x (sv_Holders v)\<rparr>) else None)"
| "react capacity limit (Queued x) v =
     (if x \<notin> sv_Holders v \<and> x \<notin> set (sv_Queue v) \<and> int (card (sv_Holders v)) = capacity
         \<and> int (length (sv_Queue v)) < limit
      then Some (v\<lparr>sv_Queue := sv_Queue v @ [x]\<rparr>) else None)"
| "react capacity limit Advanced v = (case sv_Queue v of
       [] \<Rightarrow> None
     | x # rest \<Rightarrow> if x \<notin> sv_Holders v \<and> int (card (sv_Holders v)) < capacity
         then Some \<lparr>sv_Holders = insert x (sv_Holders v), sv_Queue = rest\<rparr> else None)"
| "react capacity limit (Released x) v =
     (if x \<in> sv_Holders v then Some (v\<lparr>sv_Holders := sv_Holders v - {x}\<rparr>) else None)"
| "react capacity limit (Left x) v =
     (if x \<notin> sv_Holders v then Some (v\<lparr>sv_Queue := remove1 x (sv_Queue v)\<rparr>) else None)"

fun react_all :: "int \<Rightarrow> int \<Rightarrow> section_event list \<Rightarrow> seat_view \<Rightarrow> seat_view option" where
  "react_all capacity limit [] v = Some v"
| "react_all capacity limit (ev # evs) v = Option.bind (react capacity limit ev v) (react_all capacity limit evs)"

lemma react_all_append:
  "react_all capacity limit (es @ fs) v = Option.bind (react_all capacity limit es v) (react_all capacity limit fs)"
  by (induction es arbitrary: v) (auto split: Option.bind_split)

definition holders :: "tables \<Rightarrow> int \<Rightarrow> enrollment set" where
  "holders t i = {e \<in> set (tbl_rows (t_enrollments t)). enr_SectionID e = i \<and> HoldsSeat (enr_Status e)}"

definition view :: "tables \<Rightarrow> int \<Rightarrow> seat_view" where
  \<comment> \<open>the abstract section a table content stands for\<close>
  "view t i = \<lparr>sv_Holders = enr_ID ` holders t i, sv_Queue = map enr_ID (waitlist_of t i)\<rparr>"

lemma inj_on_rows: "ids_ok t \<Longrightarrow> inj_on enr_ID (set (tbl_rows (t_enrollments t)))"
  by (simp add: ids_ok_def enrollment_key.keyed_def distinct_map)

lemma distinct_rows: "ids_ok t \<Longrightarrow> distinct (tbl_rows (t_enrollments t))"
  by (simp add: ids_ok_def enrollment_key.keyed_def distinct_map)

lemma card_holders:
  assumes "ids_ok t"
  shows "int (card (sv_Holders (view t i))) = seats_held t i"
proof -
  have "inj_on enr_ID (holders t i)"
    using inj_on_rows [OF assms] by (rule inj_on_subset) (auto simp: holders_def)
  then have "card (enr_ID ` holders t i) = card (holders t i)" by (rule card_image)
  also have "holders t i
      = set (filter (\<lambda>e. enr_SectionID e = i \<and> HoldsSeat (enr_Status e)) (tbl_rows (t_enrollments t)))"
    by (auto simp: holders_def)
  also have "card \<dots> = length (filter (\<lambda>e. enr_SectionID e = i \<and> HoldsSeat (enr_Status e)) (tbl_rows (t_enrollments t)))"
    using distinct_rows [OF assms] by (intro distinct_card) simp
  finally show ?thesis by (simp add: view_def seats_held_def count_where_def holders_def)
qed

lemma length_queue: "int (length (sv_Queue (view t i))) = waiting t i"
  by (simp add: view_def waitlist_of_def waiting_def count_where_def select_where_def)

lemma view_eqI:
  assumes "ranked t" "ranked t'" "holders t' i = holders t i"
    and "\<And>e. e \<in> set (tbl_rows (t_enrollments t')) \<and> waiting_in i e
      \<longleftrightarrow> e \<in> set (tbl_rows (t_enrollments t)) \<and> waiting_in i e"
  shows "view t' i = view t i"
proof -
  have "waitlist_of t' i = waitlist_of t i"
    by (rule waitlist_eqI [OF assms(2) waitlist_sorted [OF assms(1)]]) (simp add: waitlist_of_mem assms(4))
  then show ?thesis using assms(3) by (simp add: view_def)
qed

lemma view_put_other:
  \<comment> \<open>rewriting a claim on another section\<close>
  assumes "ranked t" "ranked t'" "t_enrollments t' = t_enrollments (put_enrollment e' t)"
    and "e \<in> set (tbl_rows (t_enrollments t))" "enr_ID e' = enr_ID e"
    and "enr_SectionID e' = enr_SectionID e" "enr_SectionID e \<noteq> i"
  shows "view t' i = view t i"
proof (rule view_eqI [OF assms(1,2)])
  note rows = rows_put [OF rankedD(1) [OF assms(1)] assms(4,5)]
  show "holders t' i = holders t i"
    using assms(4,6,7) by (auto simp: holders_def assms(3) rows)
  show "q \<in> set (tbl_rows (t_enrollments t')) \<and> waiting_in i q
      \<longleftrightarrow> q \<in> set (tbl_rows (t_enrollments t)) \<and> waiting_in i q" for q
    using assms(6,7) by (auto simp: assms(3) rows waiting_in_def)
qed

lemma view_add_other:
  assumes "ranked t" "ranked t'" "t_enrollments t' = t_enrollments (add_enrollment e t)" "enr_SectionID e \<noteq> i"
  shows "view t' i = view t i"
  by (rule view_eqI [OF assms(1,2)]) (use assms(4) in \<open>auto simp: holders_def assms(3) waiting_in_def\<close>)

lemma fresh_claim:
  assumes "ids_ok t"
  shows "tbl_seq (t_enrollments t) + 1 \<notin> sv_Holders (view t i)"
    "tbl_seq (t_enrollments t) + 1 \<notin> set (sv_Queue (view t i))"
  using enrollment_key.fresh_id [OF ids_okD(2) [OF assms]]
  by (fastforce simp: view_def holders_def waitlist_of_mem)+

lemma view_take:
  assumes "ranked t" "ranked t'" "t_enrollments t' = t_enrollments (add_enrollment e t)"
    and "enr_SectionID e = i" "enr_Status e = EnrollmentEnrolled"
  shows "view t' i = (view t i)\<lparr>sv_Holders := insert (tbl_seq (t_enrollments t) + 1) (sv_Holders (view t i))\<rparr>"
proof -
  have "waitlist_of t' i = waitlist_of t i"
    by (rule waitlist_eqI [OF assms(2) waitlist_sorted [OF assms(1)]])
      (use assms(5) in \<open>auto simp: waitlist_of_mem assms(3) waiting_in_def\<close>)
  moreover have "holders t' i = insert (stored e t) (holders t i)"
    using assms(4,5) by (auto simp: holders_def assms(3) HoldsSeat_def)
  ultimately show ?thesis by (simp add: view_def)
qed

lemma view_join:
  assumes "ranked t" "ranked t'" "t_enrollments t' = t_enrollments (add_enrollment e t)"
    and "enr_SectionID e = i" "enr_Status e = EnrollmentWaitlisted" "enr_WaitlistRank e = next_rank t i"
  shows "view t' i = (view t i)\<lparr>sv_Queue := sv_Queue (view t i) @ [tbl_seq (t_enrollments t) + 1]\<rparr>"
proof -
  have "waitlist_of t' i = waitlist_of t i @ [stored e t]"
  proof (rule waitlist_eqI [OF assms(2)])
    show "sorted_wrt (\<lambda>a b. enr_WaitlistRank a < enr_WaitlistRank b) (waitlist_of t i @ [stored e t])"
      using waitlist_sorted [OF assms(1)] rank_bound [of _ t i] assms(6)
      by (auto simp: sorted_wrt_append waitlist_of_mem)
    show "q \<in> set (waitlist_of t i @ [stored e t])
        \<longleftrightarrow> q \<in> set (tbl_rows (t_enrollments t')) \<and> waiting_in i q" for q
      using assms(4,5) by (auto simp: waitlist_of_mem assms(3) waiting_in_def)
  qed
  moreover have "holders t' i = holders t i"
    using assms(5) by (auto simp: holders_def assms(3) HoldsSeat_def)
  ultimately show ?thesis by (simp add: view_def)
qed

lemma view_unwait:
  \<comment> \<open>a waiting claim leaves the queue\<close>
  assumes "ranked t" "ranked t'" "t_enrollments t' = t_enrollments (put_enrollment e' t)"
    and "e \<in> set (tbl_rows (t_enrollments t))" "enr_ID e' = enr_ID e" "enr_SectionID e' = enr_SectionID e"
    and "waiting_in i e" "enr_Status e' \<noteq> EnrollmentWaitlisted"
  shows "waitlist_of t' i = remove1 e (waitlist_of t i)"
    "holders t' i = holders t i \<union> (if HoldsSeat (enr_Status e') then {e'} else {})"
proof -
  note rows = rows_put [OF rankedD(1) [OF assms(1)] assms(4,5)]
  have d: "distinct (waitlist_of t i)"
    using distinct_rows [OF rankedD(1) [OF assms(1)]] by (simp add: waitlist_of_def select_where_def)
  show "waitlist_of t' i = remove1 e (waitlist_of t i)"
  proof (rule waitlist_eqI [OF assms(2)])
    show "sorted_wrt (\<lambda>a b. enr_WaitlistRank a < enr_WaitlistRank b) (remove1 e (waitlist_of t i))"
      using waitlist_sorted [OF assms(1)] d by (simp add: distinct_remove1_removeAll removeAll_filter_not_eq sorted_wrt_filter)
    show "q \<in> set (remove1 e (waitlist_of t i))
        \<longleftrightarrow> q \<in> set (tbl_rows (t_enrollments t')) \<and> waiting_in i q" for q
      using d assms(8) by (auto simp: waitlist_of_mem assms(3) rows waiting_in_def)
  qed
  show "holders t' i = holders t i \<union> (if HoldsSeat (enr_Status e') then {e'} else {})"
    using assms(6,7) by (auto simp: holders_def assms(3) rows waiting_in_def HoldsSeat_def)
qed

section \<open>Each transaction refines the events it answers\<close>

lemma section_facts:
  assumes "ledger t" "r \<in> set (tbl_rows (t_sections t))"
  shows "int (card (sv_Holders (view t (sr_ID r)))) = sr_SeatsTaken r"
    "int (length (sv_Queue (view t (sr_ID r)))) = sr_WaitlistLength r"
    "sr_SeatsTaken r \<le> sr_Capacity r"
  using ledgerD(2) [OF assms] card_holders [OF ledgerD(1) [OF assms(1)]] length_queue
  by (simp_all add: row_balanced_def section_row_ok_def)

lemma same_section_row:
  assumes "ledger t" "r \<in> set (tbl_rows (t_sections t))" "q \<in> set (tbl_rows (t_sections t))" "sr_ID q = sr_ID r"
  shows "q = r"
  using section_key.by_id_unique [OF ids_okD(1) [OF ledgerD(1) [OF assms(1)]] assms(3,2,4)] .

definition claim_events :: "int \<Rightarrow> claim_result \<Rightarrow> section_event list" where
  \<comment> \<open>what a claim that answered means for the section\<close>
  "claim_events i c = (if enr_SectionID (clm_Enrollment c) \<noteq> i then []
     else if clm_Waitlisted c then [Queued (enr_ID (clm_Enrollment c))] else [Seated (enr_ID (clm_Enrollment c))])"

definition drop_events :: "int \<Rightarrow> enrollment \<Rightarrow> section_event list" where
  "drop_events i saved = (if enr_SectionID saved \<noteq> i then []
     else if enr_Status saved = EnrollmentDropped then [Released (enr_ID saved)] else [Left (enr_ID saved)])"

definition promote_events :: "int \<Rightarrow> int \<Rightarrow> bool \<Rightarrow> section_event list" where
  "promote_events i j promoted = (if promoted \<and> j = i then [Advanced] else [])"

lemma claim_refines:
  assumes "claim_step actor req t c t'" "ledger t" "ranked t" "q \<in> set (tbl_rows (t_sections t))"
  shows "react_all (sr_Capacity q) (sr_WaitlistLimit q) (claim_events (sr_ID q) c) (view t (sr_ID q)) = Some (view t' (sr_ID q))"
proof -
  have r': "ranked t'" using ranked_step [OF seat_step.claim [OF assms(1)] assms(3)] .
  note fresh = fresh_claim [OF ledgerD(1) [OF assms(2)], of "sr_ID q"] and facts = section_facts [OF assms(2,4)]
  from assms(1) show ?thesis
  proof cases
    case (enroll r s trm now d e i ev)
    have e: "enr_SectionID e = sr_ID r" "enr_Status e = EnrollmentEnrolled"
      using Transition_new_claim [OF enroll(9), simplified] enroll(3) by (simp_all add: shows_row_def)
    have te: "t_enrollments t' = t_enrollments (add_enrollment e t)"
      by (simp add: enroll(1) add_enrollment_def)
    show ?thesis
    proof (cases "sr_ID q = sr_ID r")
      case True
      then have "q = r" using same_section_row assms(2,4) enroll(2) by blast
      then show ?thesis
        using fresh facts enroll(11,15-17) view_take [OF assms(3) r' te e(1) e(2)] e(1) by (simp add: claim_events_def)
    next
      case False
      then show ?thesis
        using view_add_other [OF assms(3) r' te, of "sr_ID q"] e(1) enroll(16) by (simp add: claim_events_def)
    qed
  next
    case (wait r s trm now d e0 e i ev)
    have e: "enr_SectionID e = sr_ID r" "enr_Status e = EnrollmentWaitlisted"
      "enr_WaitlistRank e = next_rank t (sr_ID r)"
      using Transition_new_claim [OF wait(9), simplified] wait(3,10) by (simp_all add: shows_row_def)
    have te: "t_enrollments t' = t_enrollments (add_enrollment e t)"
      by (simp add: wait(1) add_enrollment_def)
    have full: "sr_Capacity r \<le> sr_SeatsTaken r"
      using wait(3,7,8) by (simp add: CheckEnrollmentEligibility_Inr claim_input_def shows_row_def)
    show ?thesis
    proof (cases "sr_ID q = sr_ID r")
      case True
      then have "q = r" using same_section_row assms(2,4) wait(2) by blast
      then show ?thesis
        using fresh facts full wait(11,15-17) view_join [OF assms(3) r' te e] e(1) by (simp add: claim_events_def)
    next
      case False
      then show ?thesis
        using view_add_other [OF assms(3) r' te, of "sr_ID q"] e(1) wait(16) by (simp add: claim_events_def)
    qed
  qed
qed

lemma not_holder:
  assumes "ids_ok t" "e \<in> set (tbl_rows (t_enrollments t))" "\<not> HoldsSeat (enr_Status e)"
  shows "enr_ID e \<notin> sv_Holders (view t i)"
proof
  assume "enr_ID e \<in> sv_Holders (view t i)"
  then obtain h where h: "h \<in> set (tbl_rows (t_enrollments t))" "HoldsSeat (enr_Status h)" "enr_ID e = enr_ID h"
    by (auto simp: view_def holders_def)
  from inj_onD [OF inj_on_rows [OF assms(1)] h(3) assms(2) h(1)] h(2) assms(3) show False by simp
qed

lemma map_remove1_ids:
  assumes "inj_on f (insert x (set xs))"
  shows "map f (remove1 x xs) = remove1 (f x) (map f xs)"
  using assms
proof (induction xs)
  case (Cons y ys)
  then have "f x = f y \<longleftrightarrow> x = y" by (auto dest: inj_onD)
  moreover have "map f (remove1 x ys) = remove1 (f x) (map f ys)"
    using Cons by (auto intro: inj_on_subset)
  ultimately show ?case by auto
qed simp

lemma promote_refines:
  assumes "promote_step j t b t'" "ledger t" "ranked t" "q \<in> set (tbl_rows (t_sections t))"
  shows "react_all (sr_Capacity q) (sr_WaitlistLimit q) (promote_events (sr_ID q) j b) (view t (sr_ID q)) = Some (view t' (sr_ID q))"
proof -
  have r': "ranked t'" using ranked_step [OF seat_step.promote [OF assms(1)] assms(3)] .
  from assms(1) show ?thesis
  proof cases
    case idle
    then show ?thesis by (simp add: promote_events_def)
  next
    case (promote r e rest now e1 ev)
    have e: "e \<in> set (tbl_rows (t_enrollments t))" "waiting_in j e"
      using waitlist_of_mem [of e t j] promote(7) by simp_all
    have te: "t_enrollments t' = t_enrollments (put_enrollment (write_enrollment e1 e) t)"
      by (simp add: promote(2))
    have st: "enr_Status e1 = EnrollmentEnrolled" using Transition_Inr(2) [OF promote(8)] .
    show ?thesis
    proof (cases "sr_ID q = j")
      case True
      then have "q = r" using same_section_row assms(2,4) promote(3,4) by metis
      note v = view_unwait [OF assms(3) r' te e(1) _ _ e(2), simplified, unfolded st, simplified]
      have "enr_ID e \<notin> sv_Holders (view t j)"
        using not_holder [OF ledgerD(1) [OF assms(2)] e(1)] e(2) by (simp add: waiting_in_def HoldsSeat_def)
      moreover have "view t' j = \<lparr>sv_Holders = insert (enr_ID e) (sv_Holders (view t j)), sv_Queue = map enr_ID rest\<rparr>"
        using v promote(7) by (simp add: view_def HoldsSeat_def)
      ultimately show ?thesis
        using section_facts(1) [OF assms(2,4)] promote(1,6,7) True \<open>q = r\<close> by (simp add: promote_events_def view_def)
    next
      case False
      then have "view t' (sr_ID q) = view t (sr_ID q)"
        using view_put_other [OF assms(3) r' te e(1), of "sr_ID q"] e(2) by (simp add: waiting_in_def)
      then show ?thesis using False by (simp add: promote_events_def)
    qed
  qed
qed

lemma drop_view:
  assumes "drop_step actor j reason t saved t'"
  obtains e e1 where "e \<in> set (tbl_rows (t_enrollments t))"
    "t_enrollments t' = t_enrollments (put_enrollment (write_enrollment e1 e) t)"
    "enr_ID saved = enr_ID e" "enr_SectionID saved = enr_SectionID e" "enr_Status saved = enr_Status e1"
    "enr_Status e = EnrollmentEnrolled \<and> enr_Status e1 = EnrollmentDropped
     \<or> enr_Status e = EnrollmentWaitlisted \<and> enr_Status e1 = EnrollmentWithdrawn
     \<or> enr_Status e = EnrollmentPending \<and> enr_Status e1 = EnrollmentWithdrawn"
  using assms
proof cases
  case (release e now e1 r t1 t2 ev)
  have "t_enrollments t' = t_enrollments (put_enrollment (write_enrollment e1 e) t)"
    using release(13) by (auto simp: release(1,12) split: if_splits)
  then show thesis using that [OF release(2)] release(5,11) Transition_Inr [OF release(6)] by simp
next
  case (leave_waitlist e now e1 r t1 ev)
  have "t_enrollments t' = t_enrollments (put_enrollment (write_enrollment e1 e) t)"
    by (simp add: leave_waitlist(1,12))
  then show thesis using that [OF leave_waitlist(2)] leave_waitlist(5,11) Transition_Inr [OF leave_waitlist(6)] by simp
next
  case (cancel e now e1 t1 ev)
  have "t_enrollments t' = t_enrollments (put_enrollment (write_enrollment e1 e) t)"
    by (simp add: cancel(1,8))
  then show thesis using that [OF cancel(2)] cancel(5,7) Transition_Inr [OF cancel(6)] by simp
qed

lemma drop_refines:
  assumes "drop_step actor j reason t saved t'" "ledger t" "ranked t" "q \<in> set (tbl_rows (t_sections t))"
  shows "react_all (sr_Capacity q) (sr_WaitlistLimit q) (drop_events (sr_ID q) saved) (view t (sr_ID q)) = Some (view t' (sr_ID q))"
proof -
  have r': "ranked t'" using ranked_step [OF seat_step.drop [OF assms(1)] assms(3)] .
  obtain e e1 where e: "e \<in> set (tbl_rows (t_enrollments t))"
    and te: "t_enrollments t' = t_enrollments (put_enrollment (write_enrollment e1 e) t)"
    and sv: "enr_ID saved = enr_ID e" "enr_SectionID saved = enr_SectionID e" "enr_Status saved = enr_Status e1"
    and st: "enr_Status e = EnrollmentEnrolled \<and> enr_Status e1 = EnrollmentDropped
     \<or> enr_Status e = EnrollmentWaitlisted \<and> enr_Status e1 = EnrollmentWithdrawn
     \<or> enr_Status e = EnrollmentPending \<and> enr_Status e1 = EnrollmentWithdrawn"
    using assms(1) by (rule drop_view)
  note inj = inj_on_rows [OF ledgerD(1) [OF assms(2)]]
  note rows = rows_put [OF ledgerD(1) [OF assms(2)] e, of "write_enrollment e1 e", simplified]
  show ?thesis
  proof (cases "enr_SectionID e = sr_ID q")
    case False
    then show ?thesis
      using view_put_other [OF assms(3) r' te e, of "sr_ID q"] sv by (simp add: drop_events_def)
  next
    case True
    from st consider "enr_Status e = EnrollmentWaitlisted" "enr_Status e1 = EnrollmentWithdrawn"
      | "enr_Status e = EnrollmentEnrolled" "enr_Status e1 = EnrollmentDropped"
      | "enr_Status e = EnrollmentPending" "enr_Status e1 = EnrollmentWithdrawn" by blast
    then show ?thesis
    proof cases
      case 1
      then have w: "waiting_in (sr_ID q) e" using True by (simp add: waiting_in_def)
      note v = view_unwait [OF assms(3) r' te e _ _ w, simplified, unfolded 1, simplified]
      have "inj_on enr_ID (insert e (set (waitlist_of t (sr_ID q))))"
        using inj by (rule inj_on_subset) (use e in \<open>auto simp: waitlist_of_mem\<close>)
      then have "view t' (sr_ID q) = (view t (sr_ID q))\<lparr>sv_Queue := remove1 (enr_ID e) (sv_Queue (view t (sr_ID q)))\<rparr>"
        using v by (simp add: view_def HoldsSeat_def map_remove1_ids)
      moreover have "enr_ID e \<notin> sv_Holders (view t (sr_ID q))"
        using not_holder [OF ledgerD(1) [OF assms(2)] e] 1 by (simp add: HoldsSeat_def)
      ultimately show ?thesis using 1 True sv by (simp add: drop_events_def)
    next
      case 2
      have "waitlist_of t' (sr_ID q) = waitlist_of t (sr_ID q)"
        by (rule waitlist_eqI [OF r' waitlist_sorted [OF assms(3)]])
          (use 2 in \<open>auto simp: waitlist_of_mem te rows waiting_in_def\<close>)
      moreover have "write_enrollment e1 e \<noteq> e"
      proof
        assume "write_enrollment e1 e = e"
        then have "enr_Status (write_enrollment e1 e) = enr_Status e" by simp
        then show False using 2 by simp
      qed
      then have "holders t' (sr_ID q) = holders t (sr_ID q) - {e}"
        using 2 by (auto simp: holders_def te rows HoldsSeat_def)
      moreover have mem: "e \<in> holders t (sr_ID q)" using e True 2 by (simp add: holders_def HoldsSeat_def)
      moreover have "enr_ID ` (holders t (sr_ID q) - {e}) = enr_ID ` holders t (sr_ID q) - {enr_ID e}"
        using inj_on_image_set_diff [OF inj, of "holders t (sr_ID q)" "{e}"] e by (auto simp: holders_def)
      ultimately have "view t' (sr_ID q)
          = (view t (sr_ID q))\<lparr>sv_Holders := sv_Holders (view t (sr_ID q)) - {enr_ID e}\<rparr>"
        by (simp add: view_def)
      moreover have "enr_ID e \<in> sv_Holders (view t (sr_ID q))" using mem by (simp add: view_def)
      ultimately show ?thesis using 2 True sv by (simp add: drop_events_def)
    next
      case 3
      have "view t' (sr_ID q) = view t (sr_ID q)"
        by (rule view_eqI [OF assms(3) r'])
          (use 3 in \<open>auto simp: holders_def te rows HoldsSeat_def waiting_in_def\<close>)
      moreover have "enr_ID e \<notin> set (sv_Queue (view t (sr_ID q)))"
        using inj 3 e by (auto simp: view_def waitlist_of_mem waiting_in_def dest: inj_onD)
      ultimately show ?thesis
        using 3 True sv not_holder [OF ledgerD(1) [OF assms(2)] e, of "sr_ID q"]
        by (simp add: drop_events_def HoldsSeat_def remove1_idem)
    qed
  qed
qed

end
