(* ===== verification/Plans.thy ===== *)
theory Plans
  imports Waitlist
begin

text \<open>
  The term plan of a student: the claims that are pending, enrolled or waitlisted. The
  invariant \<open>plans_ok\<close> says that every plan respects the credit limit of its term and
  that no two claims of a plan share a section, a course or a minute of the week.
\<close>

section \<open>The invariant\<close>

definition credits_held :: "tables \<Rightarrow> int \<Rightarrow> int \<Rightarrow> int" where
  "credits_held t st trm = sum_list (map enr_Credits (select_where (held_by st trm) (t_enrollments t)))"

definition compatible :: "tables \<Rightarrow> enrollment \<Rightarrow> enrollment \<Rightarrow> bool" where
  "compatible t e h \<longleftrightarrow> enr_SectionID e \<noteq> enr_SectionID h
     \<and> (enr_CourseCode h = [] \<or> enr_CourseCode e \<noteq> enr_CourseCode h)
     \<and> (\<forall>m \<in> set (tbl_rows (t_meetings t)). \<forall>n \<in> set (tbl_rows (t_meetings t)).
          mtg_SectionID m = enr_SectionID e \<longrightarrow> mtg_SectionID n = enr_SectionID h \<longrightarrow> \<not> Overlaps m n)"

definition plans_ok :: "tables \<Rightarrow> bool" where
  "plans_ok t \<longleftrightarrow> ids_ok t \<and> term_key.keyed (t_terms t)
     \<and> (\<forall>e \<in> set (tbl_rows (t_enrollments t)). 0 < enr_Credits e)
     \<and> (\<forall>trm \<in> set (tbl_rows (t_terms t)). \<forall>st. credits_held t st (trm_ID trm) \<le> trm_CreditLimit trm)
     \<and> (\<forall>e \<in> set (tbl_rows (t_enrollments t)). \<forall>h \<in> set (tbl_rows (t_enrollments t)). \<forall>st trm.
          e \<noteq> h \<longrightarrow> held_by st trm e \<longrightarrow> held_by st trm h \<longrightarrow> compatible t e h)"

lemma plans_okD:
  assumes "plans_ok t"
  shows "ids_ok t" "term_key.keyed (t_terms t)"
    "e \<in> set (tbl_rows (t_enrollments t)) \<Longrightarrow> 0 < enr_Credits e"
    "trm \<in> set (tbl_rows (t_terms t)) \<Longrightarrow> credits_held t st (trm_ID trm) \<le> trm_CreditLimit trm"
    "e \<in> set (tbl_rows (t_enrollments t)) \<Longrightarrow> h \<in> set (tbl_rows (t_enrollments t)) \<Longrightarrow> e \<noteq> h \<Longrightarrow>
      held_by st i e \<Longrightarrow> held_by st i h \<Longrightarrow> compatible t e h"
  using assms unfolding plans_ok_def by blast+

lemma compatible_sym: "compatible t e h \<Longrightarrow> enr_CourseCode e \<noteq> [] \<Longrightarrow> compatible t h e"
  unfolding compatible_def using Overlaps_sym by metis

section \<open>What eligibility guarantees\<close>

lemma sum_order_by: "sum_list (map (f :: 'r \<Rightarrow> int) (order_by le xs)) = sum_list (map f xs)"
proof -
  have ins: "sum_list (map f (insert_by le x ys)) = f x + sum_list (map f ys)" for x ys
    by (induction ys) auto
  show ?thesis by (induction xs) (simp_all add: order_by_Cons ins)
qed

lemma held_by_Active: "held_by st trm e \<Longrightarrow> Active (enr_Status e)"
  by (auto simp: held_by_def Active_def)

lemma CreditLoad_active_of: "CreditLoad (active_of t st trm) = credits_held t st trm"
proof -
  have "filter (\<lambda>r. Active (enr_Status r)) (active_of t st trm) = active_of t st trm"
    by (rule filter_True) (auto simp: active_of_def dest: held_by_Active)
  then show ?thesis
    by (simp add: CreditLoad_eq credits_held_def active_of_def sum_order_by)
qed

lemma meetings_of_section:
  assumes "shows_row t s r" "m \<in> set (tbl_rows (t_meetings t))" "mtg_SectionID m = sr_ID r"
  shows "m \<in> set (sec_Meetings s)"
  using assms by (simp add: shows_row_def group_meetings_def meetings_in_def)

lemma meeting_held:
  assumes "m \<in> set (tbl_rows (t_meetings t))" "h \<in> set (tbl_rows (t_enrollments t))"
    and "mtg_SectionID m = enr_SectionID h" "held_by st trm h"
  shows "m \<in> set (active_meetings_of t st trm)"
  using assms by (auto simp: active_meetings_of_def intro!: bexI [of _ m])

lemma eligible_compatible:
  assumes "CheckEnrollmentEligibility (claim_input t st s trm now) = Inr d" "shows_row t s r"
    and "enr_SectionID e = sec_ID s" "enr_CourseCode e = sec_CourseCode s"
    and "h \<in> set (tbl_rows (t_enrollments t))" "held_by st (trm_ID trm) h"
  shows "compatible t e h \<and> compatible t h e"
proof -
  have el: "\<forall>h \<in> set (active_of t st (trm_ID trm)). Active (enr_Status h) \<longrightarrow>
          enr_SectionID h \<noteq> sec_ID s \<and> (enr_CourseCode h = [] \<or> enr_CourseCode h \<noteq> sec_CourseCode s)"
    "\<forall>c \<in> set (sec_Meetings s). \<forall>h \<in> set (active_meetings_of t st (trm_ID trm)). \<not> Overlaps c h"
    using assms(1) by (simp_all add: CheckEnrollmentEligibility_Inr claim_input_def)
  have "h \<in> set (active_of t st (trm_ID trm))" using assms(5,6) by (simp add: active_of_def)
  then have c: "enr_SectionID h \<noteq> sec_ID s" "enr_CourseCode h = [] \<or> enr_CourseCode h \<noteq> sec_CourseCode s"
    using el(1) held_by_Active [OF assms(6)] by auto
  have "\<not> Overlaps m n" if "m \<in> set (tbl_rows (t_meetings t))" "n \<in> set (tbl_rows (t_meetings t))"
    "mtg_SectionID m = enr_SectionID e" "mtg_SectionID n = enr_SectionID h" for m n
    using el(2) meetings_of_section [OF assms(2) that(1)] meeting_held [OF that(2) assms(5) that(4) assms(6)]
      that(3) assms(2,3) by (simp add: shows_row_def)
  then have "\<forall>m \<in> set (tbl_rows (t_meetings t)). \<forall>n \<in> set (tbl_rows (t_meetings t)).
      mtg_SectionID m = enr_SectionID e \<longrightarrow> mtg_SectionID n = enr_SectionID h \<longrightarrow> \<not> Overlaps m n \<and> \<not> Overlaps n m"
    using Overlaps_sym by blast
  then show ?thesis
    using c assms(3,4) unfolding compatible_def by auto
qed

section \<open>The steps keep it\<close>

lemma tables_frame [simp]:
  "t_terms (add_audit ev t) = t_terms t" "t_terms (add_job j t) = t_terms t"
  "t_terms (add_enrollment e t) = t_terms t" "t_terms (put_enrollment e t) = t_terms t"
  "t_terms (put_section r t) = t_terms t" "t_meetings (add_audit ev t) = t_meetings t"
  "t_meetings (add_job j t) = t_meetings t" "t_meetings (add_enrollment e t) = t_meetings t"
  "t_meetings (put_enrollment e t) = t_meetings t" "t_meetings (put_section r t) = t_meetings t"
  by (simp_all add: put_defs)

lemma credits_add:
  "t_enrollments t' = t_enrollments (add_enrollment e t) \<Longrightarrow>
     credits_held t' st trm = credits_held t st trm + (if held_by st trm e then enr_Credits e else 0)"
proof -
  have "held_by st trm (e\<lparr>enr_Version := 1, enr_ID := i\<rparr>) = held_by st trm e" for i
    by (simp add: held_by_def)
  then show "t_enrollments t' = t_enrollments (add_enrollment e t) \<Longrightarrow>
     credits_held t' st trm = credits_held t st trm + (if held_by st trm e then enr_Credits e else 0)"
    by (simp add: credits_held_def select_where_def add_enrollment_def table_insert_def)
qed

lemma sum_put_le:
  assumes "\<forall>q \<in> set xs. k q \<longrightarrow> q = e" "\<forall>q \<in> set xs. 0 < enr_Credits q" "P e' \<longrightarrow> P e" "enr_Credits e' = enr_Credits e"
  shows "sum_list (map enr_Credits (filter P (map (\<lambda>q. if k q then e' else q) xs)))
    \<le> sum_list (map enr_Credits (filter P xs))"
  using assms by (induction xs) (auto simp del: filter_map)

lemma credits_put:
  assumes "plans_ok t" "e \<in> set (tbl_rows (t_enrollments t))" "enr_ID e' = enr_ID e"
    and "enr_Credits e' = enr_Credits e" "held_by st trm e' \<longrightarrow> held_by st trm e"
    and "t_enrollments t' = t_enrollments (put_enrollment e' t)"
  shows "credits_held t' st trm \<le> credits_held t st trm"
proof -
  have "\<forall>q \<in> set (tbl_rows (t_enrollments t)). enr_ID q = enr_ID e' \<longrightarrow> q = e"
    using enrollment_key.by_id_unique [OF ids_okD(2) [OF plans_okD(1) [OF assms(1)]] _ assms(2)] assms(3) by auto
  from sum_put_le [OF this, of "held_by st trm" e'] show ?thesis
    using assms(4,5) plans_okD(3) [OF assms(1)]
    by (simp add: credits_held_def select_where_def assms(6) put_enrollment_def table_update_def)
qed

lemma plans_put:
  assumes "plans_ok t" "ids_ok t'" "e \<in> set (tbl_rows (t_enrollments t))" "enr_ID e' = enr_ID e"
    and "enr_Credits e' = enr_Credits e" "enr_SectionID e' = enr_SectionID e" "enr_CourseCode e' = enr_CourseCode e"
    and "\<And>st trm. held_by st trm e' \<longrightarrow> held_by st trm e"
    and "t_enrollments t' = t_enrollments (put_enrollment e' t)" "t_terms t' = t_terms t" "t_meetings t' = t_meetings t"
  shows "plans_ok t'"
proof -
  let ?rows = "set (tbl_rows (t_enrollments t))"
  have rows: "set (tbl_rows (t_enrollments t')) = insert e' (?rows - {e})"
    unfolding assms(9) using rows_put [OF plans_okD(1) [OF assms(1)] assms(3,4)] .
  have comp: "compatible t' a b = compatible t a b" for a b by (simp add: compatible_def assms(11))
  have swap: "compatible t e' b = compatible t e b" "compatible t b e' = compatible t b e" for b
    by (simp_all add: compatible_def assms(6,7))
  have "compatible t' a b" if a: "a \<in> insert e' (?rows - {e})" and b: "b \<in> insert e' (?rows - {e})" and ne: "a \<noteq> b"
    and h: "held_by st trm a" "held_by st trm b" for a b st trm
  proof -
    consider "a = e'" "b \<in> ?rows" "b \<noteq> e" | "b = e'" "a \<in> ?rows" "a \<noteq> e" | "a \<in> ?rows" "b \<in> ?rows"
      using a b ne by blast
    then show ?thesis
    proof cases
      case 1
      then show ?thesis using plans_okD(5) [OF assms(1,3), of b st trm] assms(8) h by (simp add: comp swap)
    next
      case 2
      then show ?thesis using plans_okD(5) [OF assms(1) _ assms(3), of a st trm] assms(8) h by (simp add: comp swap)
    next
      case 3
      then show ?thesis using plans_okD(5) [OF assms(1), of a b st trm] ne h by (simp add: comp)
    qed
  qed
  moreover have "0 < enr_Credits a" if "a \<in> insert e' (?rows - {e})" for a
    using that plans_okD(3) [OF assms(1)] assms(3,5) by auto
  moreover have "credits_held t' st (trm_ID trm) \<le> trm_CreditLimit trm" if "trm \<in> set (tbl_rows (t_terms t))" for st trm
    using credits_put [OF assms(1,3,4,5,8,9)] plans_okD(4) [OF assms(1) that] by (rule order_trans)
  ultimately show ?thesis
    using assms(2,10) plans_okD(2) [OF assms(1)] unfolding plans_ok_def rows by simp
qed

lemma plans_add:
  assumes "plans_ok t" "ids_ok t'" "t_enrollments t' = t_enrollments (add_enrollment e t)"
    and "t_terms t' = t_terms t" "t_meetings t' = t_meetings t"
    and "CheckEnrollmentEligibility (claim_input t st s trm now) = Inr d" "shows_row t s r"
    and "trm \<in> set (tbl_rows (t_terms t))" "0 < enr_Credits e" "enr_SectionID e = sec_ID s"
    and "enr_CourseCode e = sec_CourseCode s" "enr_Credits e = sec_CourseCredits s"
    and "enr_StudentID e = st" "enr_TermID e = trm_ID trm"
  shows "plans_ok t'"
proof -
  let ?rows = "set (tbl_rows (t_enrollments t))" and ?new = "stored e t"
  have rows: "set (tbl_rows (t_enrollments t')) = insert ?new ?rows" unfolding assms(3) by simp
  have comp: "compatible t' a b = compatible t a b" for a b by (simp add: compatible_def assms(5))
  have swap: "compatible t ?new b = compatible t e b" "compatible t b ?new = compatible t b e" for b
    by (simp_all add: compatible_def)
  have new: "compatible t e h \<and> compatible t h e" if "h \<in> ?rows" "held_by st (trm_ID trm) h" for h
    by (rule eligible_compatible [OF assms(6,7,10,11) that])
  have own: "a = st \<and> i = trm_ID trm" if "held_by a i ?new" for a i
    using that assms(13,14) by (simp add: held_by_def)
  have "compatible t' a b" if a: "a \<in> insert ?new ?rows" and b: "b \<in> insert ?new ?rows" and ne: "a \<noteq> b"
    and h: "held_by x i a" "held_by x i b" for a b x i
  proof -
    consider "a = ?new" "b \<in> ?rows" | "b = ?new" "a \<in> ?rows" | "a \<in> ?rows" "b \<in> ?rows"
      using a b ne by blast
    then show ?thesis
    proof cases
      case 1
      then show ?thesis using own [of x i] h new [of b] by (simp add: comp swap)
    next
      case 2
      then show ?thesis using own [of x i] h new [of a] by (simp add: comp swap)
    next
      case 3
      then show ?thesis using plans_okD(5) [OF assms(1), of a b x i] ne h by (simp add: comp)
    qed
  qed
  moreover have "0 < enr_Credits a" if "a \<in> insert ?new ?rows" for a
    using that plans_okD(3) [OF assms(1)] assms(9) by auto
  moreover have "credits_held t' x (trm_ID q) \<le> trm_CreditLimit q" if q: "q \<in> set (tbl_rows (t_terms t))" for x q
  proof (cases "held_by x (trm_ID q) e")
    case True
    then have "x = st" "trm_ID q = trm_ID trm" using assms(13,14) by (simp_all add: held_by_def)
    moreover from this have "q = trm"
      using term_key.by_id_unique [OF plans_okD(2) [OF assms(1)] q assms(8)] by simp
    moreover have "credits_held t st (trm_ID trm) + sec_CourseCredits s \<le> trm_CreditLimit trm"
      using assms(6) by (simp add: CheckEnrollmentEligibility_Inr claim_input_def CreditLoad_active_of)
    ultimately show ?thesis using assms(12) True by (simp add: credits_add [OF assms(3)])
  next
    case False
    then show ?thesis using plans_okD(4) [OF assms(1) q] by (simp add: credits_add [OF assms(3)])
  qed
  ultimately show ?thesis
    using assms(2,4) plans_okD(2) [OF assms(1)] unfolding plans_ok_def rows by simp
qed

lemma plans_step: "seat_step t t' \<Longrightarrow> plans_ok t \<Longrightarrow> plans_ok t'"
proof (induction rule: seat_step.induct)
  case (claim actor req t c t')
  note ok = ids_ok_claim [OF claim.hyps plans_okD(1) [OF claim.prems]]
  from claim.hyps show ?case
  proof cases
    case (enroll r s trm now d e i ev)
    show ?thesis
      by (rule plans_add [OF claim.prems ok _ _ _ enroll(7,3,5), where e = e])
        (use enroll(14) Transition_new_claim [OF enroll(9), simplified] in
          \<open>simp_all add: enroll(1) enrollment_row_ok_def add_enrollment_def put_section_def add_audit_def\<close>)
  next
    case (wait r s trm now d e0 e i ev)
    show ?thesis
      by (rule plans_add [OF claim.prems ok _ _ _ wait(7,3,5), where e = e])
        (use wait(14) Transition_new_claim [OF wait(9), simplified] in
          \<open>simp_all add: wait(1,10) enrollment_row_ok_def add_enrollment_def put_section_def add_audit_def\<close>)
  qed
next
  case (promote i t b t')
  note ok = ids_ok_promote [OF promote.hyps plans_okD(1) [OF promote.prems]]
  from promote.hyps show ?case
  proof cases
    case idle
    then show ?thesis using promote.prems by simp
  next
    case (promote r e rest now e1 ev)
    have "e \<in> set (tbl_rows (t_enrollments t))" "enr_Status e = EnrollmentWaitlisted"
      using waitlist_of_mem [of e t i] promote(7) by (simp_all add: waiting_in_def)
    then show ?thesis
      by (intro plans_put [OF promote.prems ok, of e "write_enrollment e1 e"])
        (simp_all add: promote(2) held_by_def)
  qed
next
  case (drop actor i reason t saved t')
  note ok = ids_ok_drop [OF drop.hyps plans_okD(1) [OF drop.prems]]
  obtain e e1 where e: "e \<in> set (tbl_rows (t_enrollments t))"
    "t_enrollments t' = t_enrollments (put_enrollment (write_enrollment e1 e) t)"
    "enr_Status e1 = EnrollmentDropped \<or> enr_Status e1 = EnrollmentWithdrawn"
    using drop_view [OF drop.hyps] by metis
  have "t_terms t' = t_terms t" "t_meetings t' = t_meetings t"
    using drop.hyps by (cases; auto split: if_splits)+
  then show ?case
    using e(3) by (intro plans_put [OF drop.prems ok e(1), of "write_enrollment e1 e"])
      (auto simp: e(2) held_by_def)
next
  case (elsewhere t' t)
  then show ?case
    by (simp add: plans_ok_def ids_ok_def credits_held_def compatible_def)
qed

interpretation plans_inv: step_invariant plans_ok
  by unfold_locales (auto dest: plans_okD(1) plans_step)

end
