(* ===== verification/Samples.thy ===== *)
theory Samples
  imports SeatRuns
begin

text \<open>
  A small campus used by the concrete instances of the properties: one term, one course with
  one section of one seat and one waitlist place, two verified students and a registrar.
\<close>

definition sample_user :: "int \<Rightarrow> string \<Rightarrow> role \<Rightarrow> user" where
  "sample_user i email role = \<lparr>usr_ID = i, usr_Email = email, usr_DisplayName = email, usr_Role = role,
     usr_PasswordHash = ''x'', usr_Disabled = False, usr_CreatedAt = 0, usr_UpdatedAt = 0\<rparr>"

definition sample_principal :: "int \<Rightarrow> role \<Rightarrow> principal" where
  "sample_principal i role = \<lparr>prn_UserID = i, prn_SessionID = i, prn_Email = ''p@campus'',
     prn_DisplayName = ''p'', prn_Role = role\<rparr>"

definition ana :: principal where "ana = sample_principal 1 RoleStudent"
definition ben :: principal where "ben = sample_principal 2 RoleStudent"
definition registrar :: principal where "registrar = sample_principal 3 RoleRegistrar"

definition sample_term :: academic_term where
  "sample_term = \<lparr>trm_ID = 1, trm_Code = ''2026-autumn'', trm_Name = ''Autumn'', trm_EnrollmentOpensAt = 0,
     trm_EnrollmentClosesAt = 1000 * Second, trm_AddDropClosesAt = 2000 * Second, trm_CreditLimit = 18,
     trm_Archived = False\<rparr>"

definition sample_course :: course_row where
  "sample_course = \<lparr>cr_ID = 1, cr_Code = ''CS110'', cr_Title = ''Programming'', cr_Credits = 4,
     cr_Department = ''CS'', cr_Retired = False\<rparr>"

definition sample_section :: section_row where
  "sample_section = \<lparr>sr_ID = 1, sr_TermID = 1, sr_CourseID = 1, sr_Code = ''CS110-01'', sr_Status = SectionOpen,
     sr_Capacity = 1, sr_SeatsTaken = 0, sr_WaitlistLimit = 1, sr_WaitlistLength = 0, sr_Instructor = ''Lin'',
     sr_Version = 1, sr_UpdatedAt = 0\<rparr>"

definition sample_meeting :: meeting where
  "sample_meeting = \<lparr>mtg_ID = 1, mtg_SectionID = 1, mtg_Weekday = 1, mtg_StartMinute = 480,
     mtg_EndMinute = 580, mtg_Room = ''N201''\<rparr>"

definition verified_registration :: "int \<Rightarrow> registration" where
  "verified_registration i = sample_registration\<lparr>reg_ID := i, reg_StudentID := i,
     reg_Status := RegistrationVerified\<rparr>"

definition campus :: tables where
  "campus = empty_tables\<lparr>
     t_users := \<lparr>tbl_rows = [sample_user 1 ''ana@campus'' RoleStudent, sample_user 2 ''ben@campus'' RoleStudent,
       sample_user 3 ''reg@campus'' RoleRegistrar], tbl_seq = 3\<rparr>,
     t_terms := \<lparr>tbl_rows = [sample_term], tbl_seq = 1\<rparr>,
     t_courses := \<lparr>tbl_rows = [sample_course], tbl_seq = 1\<rparr>,
     t_sections := \<lparr>tbl_rows = [sample_section], tbl_seq = 1\<rparr>,
     t_meetings := \<lparr>tbl_rows = [sample_meeting], tbl_seq = 1\<rparr>,
     t_registrations := \<lparr>tbl_rows = [verified_registration 1, verified_registration 2], tbl_seq = 2\<rparr>\<rparr>"

definition at_time :: "instant \<Rightarrow> tables \<Rightarrow> world" where
  \<comment> \<open>a world without interference\<close>
  "at_time now t = \<lparr>tb = t, w_tick = 0, w_clock = (\<lambda>_. now), w_fault = (\<lambda>_. None), w_done = (\<lambda>_. None),
     w_request_id = ''req-1''\<rparr>"

definition failing_at :: "nat \<Rightarrow> world \<Rightarrow> world" where
  \<comment> \<open>the same world with the driver call at that tick failing\<close>
  "failing_at n w = w\<lparr>w_fault := (\<lambda>k. if k = n then Some (DriverFailure ''disk I/O error'') else None)\<rparr>"

lemma ledger_campus [simp]: "ledger campus"
  by (simp add: ledger_def ids_ok_def row_balanced_def section_key.keyed_def enrollment_key.keyed_def
      section_row_ok_def seats_held_def waiting_def count_where_def campus_def empty_tables_def
      empty_table_def sample_section_def)

lemma calm_at_time [simp]: "calm now ''req-1'' (at_time now t)" "tb (at_time now t) = t"
  by (simp_all add: calm_def at_time_def)

end
