(* ===== verification/ClaimOutcomes.thy ===== *)
theory ClaimOutcomes
  imports Samples
begin

text \<open>
  Outcomes of the service calls: what a call leaves in the tables when it fails (nothing but a
  rejection in the trail) and when it succeeds (exactly one step), whichever driver calls fail
  and however often a claim is replayed.
\<close>

definition rejection :: "principal \<Rightarrow> audit_action \<Rightarrow> int \<Rightarrow> err \<Rightarrow> audit_event \<Rightarrow> bool" where
  \<comment> \<open>the trail entry of a refused call\<close>
  "rejection actor action i e ev \<longleftrightarrow> aud_Result ev = ResultRejected \<and> aud_Action ev = action
     \<and> aud_ObjectID ev = itoa i \<and> aud_ActorUserID ev = Some (prn_UserID actor)
     \<and> aud_Detail ev = Code (Some e) @ '': '' @ error_text e \<and> Code (Some e) \<noteq> ''internal_error''"

definition refused :: "principal \<Rightarrow> audit_action \<Rightarrow> int \<Rightarrow> err \<Rightarrow> tables \<Rightarrow> tables \<Rightarrow> bool" where
  "refused actor action i e t t' \<longleftrightarrow> t' = t \<or> (\<exists>ev. rejection actor action i e ev \<and> t' = add_audit ev t)"

lemma refused_refl [simp]: "refused actor action i e t t"
  by (simp add: refused_def)

lemma recordRejection_Inr:
  assumes "recordRejection actor action oty i e w = (r, w')"
  shows "r = Inr () \<and> refused actor action i e (tb w) (tb w')"
proof (cases "Code (Some e) = ''internal_error''")
  case True
  then show ?thesis using assms by (auto simp: recordRejection_def Let_def ret_iff)
next
  case False
  let ?m = "RecordObjectID (Some actor) action oty i ResultRejected (Code (Some e) @ '': '' @ error_text e)"
  obtain q w1 where q: "InTx ?m w = (q, w1)" by fastforce
  then have r: "r = Inr ()" "w' = w1"
    using assms False by (simp_all add: recordRejection_def Let_def andThen_def attempt_def ret_def)
  show ?thesis
  proof (cases q)
    case (Inl err)
    then have "tb w1 = tb w" using InTx_Inl_tb [of ?m w err w1] q by simp
    then show ?thesis using r by simp
  next
    case (Inr u)
    then have "InTx ?m w = (Inr u, w1)" using q by simp
    from tx.commit [OF this] obtain v1 v2 where v: "tb v1 = tb w" "?m v1 = (Inr u, v2)" "tb w1 = tb v2"
      by blast
    from RecordObjectID_Inr [OF v(2)] obtain ev where "audit_added (tb v1) (tb v2) ev"
      "aud_Action ev = action" "aud_ObjectID ev = itoa i" "aud_Result ev = ResultRejected"
      "aud_Detail ev = Code (Some e) @ '': '' @ error_text e"
      "aud_ActorUserID ev = Some (prn_UserID actor)" by auto
    then have "rejection actor action i e ev \<and> tb w1 = add_audit ev (tb w)"
      using v False by (simp add: rejection_def audit_added_def add_audit_def)
    then show ?thesis using r by (auto simp: refused_def)
  qed
qed

lemma reject_and_raise:
  assumes "andThen (recordRejection actor action oty i e) (\<lambda>_. raise e) w = (r, w')"
  shows "r = Inl e \<and> refused actor action i e (tb w) (tb w')"
proof -
  obtain q w1 where q: "recordRejection actor action oty i e w = (q, w1)" by fastforce
  from recordRejection_Inr [OF q] assms q show ?thesis by (auto simp: andThen_def raise_def)
qed

lemma claim_loop_outcome:
  assumes "claim_loop actor req n k w = (r, w')" "ids_ok (tb w)"
  shows "case r of Inr c \<Rightarrow> claim_step actor req (tb w) c (tb w')
    | Inl e \<Rightarrow> refused actor ActionEnrollmentClaim (erq_SectionID req) e (tb w) (tb w')"
  using assms
proof (induction k arbitrary: w)
  case 0
  then show ?case by (auto simp: Let_def dest: reject_and_raise)
next
  case (Suc k)
  let ?tx = "InTx (claimOnce actor req)"
  show ?case
  proof (cases "w_done w (w_tick w)")
    case (Some d)
    then show ?thesis using Suc.prems by (auto simp: andThen_def ctx_Err_def raise_def)
  next
    case None
    obtain q w1 where q: "?tx (tick w) = (q, w1)" by fastforce
    have loop: "(case q of Inr result \<Rightarrow> ret result
       | Inl e \<Rightarrow> if errors_Is e ErrVersionConflict \<and> k > 0 then claim_loop actor req n k
           else andThen (recordRejection actor ActionEnrollmentClaim ''section'' (erq_SectionID req) e)
                  (\<lambda>_. raise e)) w1 = (r, w')"
      using Suc.prems(1) None q by (simp add: andThen_def [of ctx_Err] andThen_def [of "attempt ?tx"]
          ctx_Err_def attempt_def)
    show ?thesis
    proof (cases q)
      case (Inl e)
      then have t1: "tb w1 = tb w" using InTx_Inl_tb q by fastforce
      show ?thesis
      proof (cases "errors_Is e ErrVersionConflict \<and> k > 0")
        case True
        then have "claim_loop actor req n k w1 = (r, w')" using loop Inl by simp
        from Suc.IH [OF this] show ?thesis unfolding t1 using Suc.prems(2) by simp
      next
        case False
        then have "andThen (recordRejection actor ActionEnrollmentClaim ''section'' (erq_SectionID req) e)
            (\<lambda>_. raise e) w1 = (r, w')" using loop Inl by (simp only: sum.case if_False)
        from reject_and_raise [OF this] show ?thesis using t1 by auto
      qed
    next
      case (Inr c)
      then have "?tx (tick w) = (Inr c, w1)" using q by simp
      from tx.commit [OF this] obtain v1 v2 where v: "tb v1 = tb (tick w)"
        "claimOnce actor req v1 = (Inr c, v2)" "tb w1 = tb v2" by blast
      have "claim_step actor req (tb v1) c (tb v2)"
        using claimOnce_step [OF v(2)] v(1) Suc.prems(2) by (simp add: ids_okD)
      moreover have "r = Inr c" "w' = w1" using loop Inr by (simp_all add: ret_def)
      ultimately show ?thesis using v by simp
    qed
  qed
qed

lemma Claim_outcome:
  assumes "Claim k actor st sec w = (r, w')" "ids_ok (tb w)"
  shows "case r of
      Inr c \<Rightarrow> claim_step actor \<lparr>erq_StudentID = (if st \<le> 0 then prn_UserID actor else st),
          erq_SectionID = sec, erq_Reason = []\<rparr> (tb w) c (tb w')
        \<and> CanActOnStudent actor (if st \<le> 0 then prn_UserID actor else st)
    | Inl e \<Rightarrow> refused actor ActionEnrollmentClaim sec e (tb w) (tb w')"
proof -
  define req where "req = \<lparr>erq_StudentID = (if st \<le> 0 then prn_UserID actor else st),
      erq_SectionID = sec, erq_Reason = []\<rparr>"
  have run: "andThen (check (request_Validate req)) (\<lambda>_.
      if \<not> CanActOnStudent actor (erq_StudentID req)
      then raise (Wrapped (''claim a seat for student '' @ itoa (erq_StudentID req)) (Sentinel ErrForbidden))
      else claim_loop actor req (nat (k + 1)) (nat (k + 1))) w = (r, w')"
    using assms(1) unfolding Claim_def Let_def req_def .
  show ?thesis
  proof (cases "request_Validate req = None \<and> CanActOnStudent actor (erq_StudentID req)")
    case True
    then have "claim_loop actor req (nat (k + 1)) (nat (k + 1)) w = (r, w')"
      using run by (simp add: andThen_def check_def)
    from claim_loop_outcome [OF this assms(2)] True show ?thesis
      by (cases r) (simp_all add: req_def)
  next
    case False
    then have "\<exists>e. r = Inl e \<and> tb w' = tb w"
      using run by (cases "request_Validate req") (auto simp: andThen_def check_def raise_def)
    then show ?thesis by auto
  qed
qed

lemma Drop_outcome:
  assumes "Drop actor i reason w = (r, w')" "ids_ok (tb w)"
  shows "case r of Inr saved \<Rightarrow> drop_step actor i reason (tb w) saved (tb w')
    | Inl e \<Rightarrow> refused actor ActionEnrollmentDrop i e (tb w) (tb w')"
proof (cases "i \<le> 0")
  case True
  then show ?thesis using assms by (auto simp: Drop_def raise_def)
next
  case False
  let ?tx = "InTx (drop_once actor i reason (w_clock w (w_tick w)))"
  obtain q w1 where q: "?tx (tick w) = (q, w1)" by fastforce
  have rest: "(case q of Inr result \<Rightarrow> ret result
      | Inl e \<Rightarrow> andThen (recordRejection actor ActionEnrollmentDrop ''enrollment'' i e) (\<lambda>_. raise e)) w1 = (r, w')"
    using assms(1) False q by (simp add: Drop_def andThen_def [of clock_now] andThen_def [of "attempt ?tx"]
        clock_now_def attempt_def)
  show ?thesis
  proof (cases q)
    case (Inl e)
    then have "tb w1 = tb w" using InTx_Inl_tb q by fastforce
    moreover have "r = Inl e \<and> refused actor ActionEnrollmentDrop i e (tb w1) (tb w')"
      using rest Inl by (intro reject_and_raise) simp
    ultimately show ?thesis by auto
  next
    case (Inr saved)
    then have "?tx (tick w) = (Inr saved, w1)" using q by simp
    from tx.commit [OF this] obtain v1 v2 where v: "tb v1 = tb (tick w)"
      "drop_once actor i reason (w_clock w (w_tick w)) v1 = (Inr saved, v2)" "tb w1 = tb v2" by blast
    have "drop_step actor i reason (tb v1) saved (tb v2)"
      using drop_once_step [OF v(2)] v(1) assms(2) by (simp add: ids_okD)
    moreover have "r = Inr saved" "w' = w1" using rest Inr by (simp_all add: ret_def)
    ultimately show ?thesis using v by simp
  qed
qed

end
