(* ===== verification/CalmRuns.thy ===== *)
theory CalmRuns
  imports Plans ClaimOutcomes
begin

text \<open>
  What a claim does when nothing interferes: no driver call fails and the clock stands still.
  Then the statement-by-statement transaction decides exactly as the eligibility rules do, in
  its first attempt.
\<close>

section \<open>Outcomes of repository calls\<close>

lemma yields_query_row_Some: "f t = Some x \<Longrightarrow> yields now rid (query_row f) t (Inr x) t"
  using yields_query_row [of now rid f t] by simp

lemma yields_query_row_None: "f t = None \<Longrightarrow> yields now rid (query_row f) t (Inl SqlNoRows) t"
  using yields_query_row [of now rid f t] by simp

lemma yields_exec_Inr: "f t = Inr (x, t') \<Longrightarrow> yields now rid (exec f) t (Inr x) t'"
  using yields_exec [of now rid f t] by simp

lemma yields_lift: "s = r \<Longrightarrow> yields now rid (lift_result s) t r t"
  using yields_basic(3) by metis

lemma yields_check_None: "c = None \<Longrightarrow> yields now rid (check c) t (Inr ()) t"
  using yields_check [of now rid c t] by simp

lemma yields_FindSectionByID:
  assumes "section_at t i = Some s"
  shows "yields now rid (FindSectionByID i) t (Inr s) t"
proof -
  obtain sc where sc: "find (\<lambda>(s, c). sr_ID s = i) (section_join t) = Some sc"
    and s: "s = (scan_section sc)
       \<lparr>sec_Meetings := group_meetings (meetings_in t [sec_ID (scan_section sc)]) (sec_ID (scan_section sc))\<rparr>"
    using assms by (auto simp: section_at_def)
  let ?i = "sec_ID (scan_section sc)"
  have m: "yields now rid (SectionMeetings [?i]) t (Inr (group_meetings (meetings_in t [?i]))) t"
    unfolding SectionMeetings_def by (simp, rule yields_query_rows)
  have row: "yields now rid (on_error (notFound (''section '' @ itoa i))
       (query_row (\<lambda>t. map_option scan_section (find (\<lambda>(s, c). sr_ID s = i) (section_join t))))) t
       (Inr (scan_section sc)) t"
    by (rule yields_on_error_Inr, rule yields_query_row_Some) (simp add: sc)
  show ?thesis
    unfolding FindSectionByID_def s
    by (rule yields_andThen [OF row], rule yields_andThen [OF m], rule yields_basic(1))
qed

lemma yields_FindTermByID:
  "first_where (\<lambda>r. trm_ID r = i) (t_terms t) = Some trm \<Longrightarrow> yields now rid (FindTermByID i) t (Inr trm) t"
  unfolding FindTermByID_def by (rule yields_on_error_Inr, rule yields_query_row_Some)

lemma yields_read_registration:
  "yields now rid (read_registration st trm) t (Inr (case find_registration st trm t of Some r \<Rightarrow> r
     | None \<Rightarrow> draft_registration st trm)) t"
proof (cases "find_registration st trm t")
  case None
  have "yields now rid (FindRegistration st trm) t
     (Inl (notFound (''registration for student '' @ itoa st @ '' in term '' @ itoa trm) SqlNoRows)) t"
    unfolding FindRegistration_def by (rule yields_on_error_Inl, rule yields_query_row_None) (rule None)
  then show ?thesis
    unfolding read_registration_def None by (rule yields_andThen [OF yields_attempt]) (simp add: yields_basic)
next
  case (Some r)
  have "yields now rid (FindRegistration st trm) t (Inr r) t"
    unfolding FindRegistration_def by (rule yields_on_error_Inr, rule yields_query_row_Some) (rule Some)
  then show ?thesis
    unfolding read_registration_def Some by (rule yields_andThen [OF yields_attempt]) (simp add: yields_basic)
qed

text \<open>The reads of \<open>claimOnce\<close>, up to its decision.\<close>

lemma yields_claimOnce:
  assumes "section_at t (erq_SectionID req) = Some s"
    and "first_where (\<lambda>r. trm_ID r = sec_TermID s) (t_terms t) = Some trm"
    and "yields now rid (andThen (lift_result (CheckEnrollmentEligibility (claim_input t (erq_StudentID req) s trm now)))
      (\<lambda>d. if dec_Waitlist d then join_waitlist actor req s (new_claim (erq_StudentID req) trm s now) now
        else take_free_seat actor req s (new_claim (erq_StudentID req) trm s now) now)) t r t'"
  shows "yields now rid (claimOnce actor req) t r t'"
  unfolding claimOnce_def FindSectionForUpdate_def CoursePrerequisites_def StudentAcademicRecords_def
    ActiveEnrollmentsForStudent_def ActiveMeetingsForStudent_def queryEnrollments_def
  by (rule yields_andThen [OF yields_FindSectionByID [OF assms(1)]],
      rule yields_andThen [OF yields_FindTermByID [OF assms(2)]],
      rule yields_andThen [OF yields_read_registration],
      rule yields_andThen [OF yields_query_rows], rule yields_andThen [OF yields_query_rows],
      rule yields_andThen [OF yields_query_rows], rule yields_andThen [OF yields_query_rows],
      rule yields_andThen [OF yields_basic(5)], rule assms(3) [unfolded claim_input_def])

lemma yields_claim_loop:
  assumes "yields now rid (claimOnce actor req) t (Inr c) t'" "0 < k"
  shows "yields now rid (claim_loop actor req n k) t (Inr c) t'"
proof -
  obtain l where k: "k = Suc l" using assms(2) by (cases k) auto
  show ?thesis
    unfolding k claim_loop.simps
    by (rule yields_andThen [OF yields_basic(6)], unfold option.case,
        rule yields_andThen [OF yields_attempt [OF yields_InTx_Inr [OF assms(1)]]], unfold sum.case, rule yields_basic)
qed

section \<open>The writes of an admitted claim succeed\<close>

lemma section_at_exists:
  assumes "r \<in> set (tbl_rows (t_sections t))" "sr_ID r = i"
    and "c \<in> set (tbl_rows (t_courses t))" "cr_ID c = sr_CourseID r"
  shows "\<exists>s. section_at t i = Some s"
proof -
  have "(r, c) \<in> set (section_join t)" using assms by (simp add: set_section_join)
  then have "find (\<lambda>(s, c). sr_ID s = i) (section_join t) \<noteq> None"
    using assms(2) by (auto simp: find_None_set)
  then show ?thesis by (auto simp: section_at_def)
qed

lemma section_at_put:
  assumes "r \<in> set (tbl_rows (t_sections t))" "shows_row t s r" "sr_ID r' = sr_ID r" "sr_CourseID r' = sr_CourseID r"
    and "t_sections t' = t_sections (put_section r' t)" "t_courses t' = t_courses t"
  shows "\<exists>s. section_at t' (sr_ID r) = Some s"
proof -
  obtain c where c: "c \<in> set (tbl_rows (t_courses t))" "cr_ID c = sr_CourseID r"
    using assms(2) by (auto simp: shows_row_def)
  have "r' \<in> set (tbl_rows (t_sections t'))"
    using assms(1,3) unfolding assms(5) by (auto simp: put_section_def image_iff)
  then show ?thesis using section_at_exists [of r' t' "sr_ID r" c] c assms(3,4,6) by simp
qed

lemma update_one_section:
  assumes "section_key.keyed (t_sections t)" "r \<in> set (tbl_rows (t_sections t))" "P r"
    and "\<And>q. P q \<Longrightarrow> sr_ID q = sr_ID r" "section_row_ok (f r)" "sr_ID (f r) = sr_ID r"
  shows "\<exists>n. n \<noteq> 0 \<and> update_sections P f t = Inr (n, put_section (f r) t)"
proof -
  have uniq: "q = r" if "q \<in> set (tbl_rows (t_sections t))" "sr_ID q = sr_ID r" for q
    using section_key.by_id_unique [OF assms(1) that(1) assms(2) that(2)] .
  have only: "P q \<longleftrightarrow> q = r" if "q \<in> set (tbl_rows (t_sections t))" for q
    using uniq [OF that] assms(3,4) by blast
  have "(if P q then f q else q) = (if sr_ID q = sr_ID r then f r else q)"
    if "q \<in> set (tbl_rows (t_sections t))" for q
    using only [OF that] uniq [OF that] by (cases "q = r") auto
  then have "t\<lparr>t_sections := table_update P f (t_sections t)\<rparr> = put_section (f r) t"
    using assms(6) by (simp add: put_section_def table_update_def)
  moreover have "\<not> list_ex (\<lambda>s. P s \<and> \<not> section_row_ok (f s)) (tbl_rows (t_sections t))"
    using only assms(5) by (auto simp: list_ex_iff)
  moreover have "count_where P (t_sections t) \<noteq> 0" using assms(2,3) by (auto simp: count_where_zero)
  ultimately show ?thesis by (simp add: update_sections_def)
qed

lemma yields_ClaimSeat:
  assumes "section_key.keyed (t_sections t)" "r \<in> set (tbl_rows (t_sections t))" "shows_row t s r"
    and "sr_Status r = SectionOpen" "sr_SeatsTaken r < sr_Capacity r" "section_row_ok r"
  shows "\<exists>u. yields now rid (ClaimSeat (sr_ID r) (sr_Version r) now) t (Inr u) (put_section (take_seat now r) t)"
proof -
  let ?P = "seat_pred (sr_ID r) (sr_Version r)" and ?t = "put_section (take_seat now r) t"
  obtain n where n: "n \<noteq> 0" "update_sections ?P (take_seat now) t = Inr (n, ?t)"
  proof -
    have "?P r" "section_row_ok (take_seat now r)"
      using assms(4-6) by (simp_all add: seat_pred_def section_row_ok_def take_seat_def)
    moreover have "sr_ID q = sr_ID r" if "?P q" for q using that by (simp add: seat_pred_def)
    ultimately show thesis
      using update_one_section [OF assms(1,2), of ?P "take_seat now"] that by (metis section_row_moves(1))
  qed
  obtain u where "section_at ?t (sr_ID r) = Some u"
    using section_at_put [OF assms(2,3), of "take_seat now r" ?t] by (auto simp: take_seat_def put_section_def)
  note find = yields_FindSectionByID [OF this]
  have ex: "yields now rid (on_error g (exec (update_sections ?P (take_seat now)))) t (Inr n) ?t" for g
    by (rule yields_on_error_Inr, rule yields_exec_Inr, rule n(2))
  have "yields now rid (ClaimSeat (sr_ID r) (sr_Version r) now) t (Inr u) ?t"
    unfolding ClaimSeat_def
    by (rule yields_andThen [OF ex], rule yields_andThen [OF yields_on_error_Inr [OF yields_basic(7)]])
      (simp add: n(1) find)
  then show ?thesis ..
qed

lemma yields_AdjustWaitlistLength:
  assumes "section_key.keyed (t_sections t)" "r \<in> set (tbl_rows (t_sections t))" "shows_row t s r"
    and "sr_WaitlistLength r < sr_WaitlistLimit r" "section_row_ok r"
  shows "\<exists>u. yields now rid (AdjustWaitlistLength (sr_ID r) 1 now) t (Inr u) (put_section (move_waitlist 1 now r) t)"
proof -
  let ?P = "waitlist_pred (sr_ID r) 1" and ?t = "put_section (move_waitlist 1 now r) t"
  obtain n where n: "n \<noteq> 0" "update_sections ?P (move_waitlist 1 now) t = Inr (n, ?t)"
  proof -
    have "?P r" "section_row_ok (move_waitlist 1 now r)"
      using assms(4,5) by (simp_all add: waitlist_pred_def section_row_ok_def move_waitlist_def)
    moreover have "sr_ID q = sr_ID r" if "?P q" for q using that by (simp add: waitlist_pred_def)
    ultimately show thesis
      using update_one_section [OF assms(1,2), of ?P "move_waitlist 1 now"] that by (metis section_row_moves(3))
  qed
  obtain u where "section_at ?t (sr_ID r) = Some u"
    using section_at_put [OF assms(2,3), of "move_waitlist 1 now r" ?t] by (auto simp: move_waitlist_def put_section_def)
  note find = yields_FindSectionByID [OF this]
  have ex: "yields now rid (on_error g (exec (update_sections ?P (move_waitlist 1 now)))) t (Inr n) ?t" for g
    by (rule yields_on_error_Inr, rule yields_exec_Inr, rule n(2))
  have "yields now rid (AdjustWaitlistLength (sr_ID r) 1 now) t (Inr u) ?t"
    unfolding AdjustWaitlistLength_def
    by (simp, rule yields_andThen [OF ex], rule yields_andThen [OF yields_on_error_Inr [OF yields_basic(7)]])
      (simp add: n(1) find)
  then show ?thesis ..
qed

lemma yields_CreateEnrollment:
  assumes "enrollment_row_ok e" "\<not> exists_where (seat_clash e) (t_enrollments t)" "enrollment_refs_ok t e"
  shows "yields now rid (CreateEnrollment e) t (Inr (stored e t)) (add_enrollment e t)"
  unfolding CreateEnrollment_def
  by (rule yields_andThen [OF yields_on_error_Inr [OF yields_exec_Inr [where x = "tbl_seq (t_enrollments t) + 1"
        and t' = "add_enrollment e t"]]], use assms in \<open>simp add: insert_enrollment_def add_enrollment_def\<close>,
      rule yields_andThen [OF yields_on_error_Inr [OF yields_basic(7)]], unfold stored_def, rule yields_basic)

definition logged :: "principal option \<Rightarrow> audit_action \<Rightarrow> string \<Rightarrow> int \<Rightarrow> audit_result \<Rightarrow> string \<Rightarrow> string
    \<Rightarrow> instant \<Rightarrow> audit_event" where
  \<comment> \<open>the entry the recorder writes\<close>
  "logged p action oty i res rid d now = \<lparr>aud_ID = 0, aud_ActorUserID = map_option prn_UserID p,
    aud_ActorRole = (case p of None \<Rightarrow> [] | Some q \<Rightarrow> role_text (prn_Role q)), aud_Action = action, aud_ObjectType = oty, aud_ObjectID = itoa i,
    aud_Result = res, aud_RequestID = rid, aud_Detail = d, aud_OccurredAt = now\<rparr>"

lemma yields_Record:
  assumes "\<forall>q. p = Some q \<longrightarrow> exists_where (\<lambda>u. usr_ID u = prn_UserID q) (t_users t)"
    and "\<forall>s. action \<noteq> ActionOther s" "TrimSpace oty \<noteq> []" "\<forall>s. res \<noteq> ResultOther s"
  shows "yields now rid (RecordObjectID p action oty i res d) t (Inr ())
    (add_audit (logged p action oty i res rid d now) t)"
proof -
  let ?ev = "logged p action oty i res rid d now"
  have valid: "event_Validate ?ev = None"
    using action_text_trimmed [OF assms(2)] assms(3,4)
    by (cases res) (simp_all add: logged_def event_Validate_def)
  have ins: "insert_audit ?ev t = Inr (tbl_seq (t_audit t) + 1, add_audit ?ev t)"
    using assms(1) by (simp add: insert_audit_def logged_def add_audit_def split: option.split)
  have app: "yields now rid (AppendAuditEvent ?ev) t (Inr (?ev\<lparr>aud_ID := tbl_seq (t_audit t) + 1\<rparr>)) (add_audit ?ev t)"
    unfolding AppendAuditEvent_def
    by (rule yields_andThen [OF yields_check_None [OF valid]],
        rule yields_andThen [OF yields_on_error_Inr [OF yields_exec_Inr [where f = "insert_audit ?ev", OF ins]]],
        rule yields_andThen [OF yields_on_error_Inr [OF yields_basic(7)]], rule yields_basic)
  have key: "yields now rid (andThen (on_error g (check (event_Validate ?ev))) (\<lambda>_.
      andThen (on_error h (AppendAuditEvent ?ev)) (\<lambda>_. ret ()))) t (Inr ()) (add_audit ?ev t)" for g h
    by (rule yields_andThen [OF yields_on_error_Inr [OF yields_check_None [OF valid]]],
        rule yields_andThen [OF yields_on_error_Inr [OF app]], rule yields_basic)
  have base: "logged None action oty i res rid d now = \<lparr>aud_ID = 0, aud_ActorUserID = None, aud_ActorRole = [],
      aud_Action = action, aud_ObjectType = oty, aud_ObjectID = itoa i, aud_Result = res, aud_RequestID = rid,
      aud_Detail = d, aud_OccurredAt = now\<rparr>"
    "(case p of None \<Rightarrow> logged None action oty i res rid d now | Some q \<Rightarrow> (logged None action oty i res rid d now)
      \<lparr>aud_ActorUserID := Some (prn_UserID q), aud_ActorRole := role_text (prn_Role q)\<rparr>) = ?ev"
    by (simp_all add: logged_def split: option.split)
  show ?thesis
    unfolding RecordObjectID_def Record_def
    by (rule yields_andThen [OF yields_basic(4)], rule yields_andThen [OF yields_basic(5)],
        simp only: Let_def audit_entry.simps base(1) [symmetric] base(2)) (rule key)
qed

lemma yields_RecordObjectID:
  assumes "exists_where (\<lambda>u. usr_ID u = prn_UserID p) (t_users t)"
    and "\<forall>s. action \<noteq> ActionOther s" "TrimSpace oty \<noteq> []"
  shows "\<exists>ev. yields now rid (RecordObjectID (Some p) action oty i ResultSuccess d) t (Inr ()) (add_audit ev t)"
  using yields_Record [of "Some p" t action oty ResultSuccess] assms by blast

lemma yields_recordRejection:
  assumes "exists_where (\<lambda>u. usr_ID u = prn_UserID p) (t_users t)"
    and "\<forall>s. action \<noteq> ActionOther s" "TrimSpace oty \<noteq> []" "Code (Some e) \<noteq> ''internal_error''"
  shows "\<exists>ev. rejection p action i e ev
    \<and> yields now rid (recordRejection p action oty i e) t (Inr ()) (add_audit ev t)"
proof -
  let ?d = "Code (Some e) @ '': '' @ error_text e"
  have res: "\<forall>s. ResultRejected \<noteq> ResultOther s" by simp
  note rec = yields_Record [of "Some p" t, OF _ assms(2,3) res, simplified, OF assms(1), of now rid i ?d]
  have "yields now rid (recordRejection p action oty i e) t (Inr ())
      (add_audit (logged (Some p) action oty i ResultRejected rid ?d now) t)"
    unfolding recordRejection_def Let_def if_not_P [OF assms(4)]
    by (rule yields_andThen [OF yields_attempt [OF yields_InTx_Inr [OF rec]]], rule yields_basic)
  moreover have "rejection p action i e (logged (Some p) action oty i ResultRejected rid ?d now)"
    using assms(4) by (simp add: rejection_def logged_def)
  ultimately show ?thesis by blast
qed

lemma yields_claim_loop_refused:
  assumes "yields now rid (claimOnce actor req) t (Inl e) t1" "\<not> errors_Is e ErrVersionConflict" "0 < k"
    and "exists_where (\<lambda>u. usr_ID u = prn_UserID actor) (t_users t)" "Code (Some e) \<noteq> ''internal_error''"
  shows "\<exists>ev. rejection actor ActionEnrollmentClaim (erq_SectionID req) e ev
    \<and> yields now rid (claim_loop actor req n k) t (Inl e) (add_audit ev t)"
proof -
  obtain l where k: "k = Suc l" using assms(3) by (cases k) auto
  have cond: "\<not> (errors_Is e ErrVersionConflict \<and> 0 < l)" using assms(2) by simp
  obtain ev where ev: "rejection actor ActionEnrollmentClaim (erq_SectionID req) e ev"
    and rec: "yields now rid (recordRejection actor ActionEnrollmentClaim ''section'' (erq_SectionID req) e) t
      (Inr ()) (add_audit ev t)"
    using yields_recordRejection [OF assms(4) _ _ assms(5), of ActionEnrollmentClaim "''section''"] by fastforce
  have "yields now rid (claim_loop actor req n k) t (Inl e) (add_audit ev t)"
    unfolding k claim_loop.simps
    by (rule yields_andThen [OF yields_basic(6)], unfold option.case,
        rule yields_andThen [OF yields_attempt [OF yields_InTx_Inl [OF assms(1)]]], unfold sum.case if_not_P [OF cond],
        rule yields_andThen [OF rec], rule yields_basic)
  with ev show ?thesis by blast
qed

section \<open>The claim as a whole\<close>

definition can_hold :: "tables \<Rightarrow> principal \<Rightarrow> enrollment_request \<Rightarrow> course_section \<Rightarrow> bool" where
  \<comment> \<open>the constraints of the schema an admitted claim must still meet\<close>
  "can_hold t actor req s \<longleftrightarrow> exists_where (\<lambda>u. usr_ID u = prn_UserID actor) (t_users t)
     \<and> exists_where (\<lambda>u. usr_ID u = erq_StudentID req) (t_users t) \<and> 0 < sec_CourseCredits s
     \<and> \<not> exists_where (\<lambda>q. enr_StudentID q = erq_StudentID req \<and> enr_SectionID q = erq_SectionID req
          \<and> occupies (enr_Status q)) (t_enrollments t)"

lemma exists_whereI: "x \<in> set (tbl_rows t) \<Longrightarrow> P x \<Longrightarrow> exists_where P t"
  by (auto simp: exists_where_iff)

lemma new_claim_transition:
  assumes "target = EnrollmentEnrolled \<or> target = EnrollmentWaitlisted"
  obtains e where "Transition (new_claim st trm s now) target now [] = Inr e"
  using assms by (auto simp: Transition_def new_claim_def CanTransitionTo_def)

lemma claim_row_ok:
  assumes "can_hold t actor req s" "section_at t (erq_SectionID req) = Some s" "trm \<in> set (tbl_rows (t_terms t))"
    and "enr_StudentID e = erq_StudentID req" "enr_SectionID e = sec_ID s" "enr_TermID e = trm_ID trm"
    and "enr_Credits e = sec_CourseCredits s" "enr_Status e = EnrollmentEnrolled \<or> enr_Status e = EnrollmentWaitlisted"
    and "0 \<le> enr_WaitlistRank e"
    and "t_enrollments t' = t_enrollments t" "t_users t' = t_users t" "t_terms t' = t_terms t"
    and "\<exists>r \<in> set (tbl_rows (t_sections t')). sr_ID r = sec_ID s"
  shows "enrollment_row_ok e" "\<not> exists_where (seat_clash e) (t_enrollments t')" "enrollment_refs_ok t' e"
proof -
  show "enrollment_row_ok e"
    using assms(1,7,8,9) by (auto simp: enrollment_row_ok_def can_hold_def)
  show "\<not> exists_where (seat_clash e) (t_enrollments t')"
    using assms(1,4,5) section_at_ID [OF assms(2)]
    by (auto simp: can_hold_def exists_where_iff seat_clash_def assms(10))
  show "enrollment_refs_ok t' e"
    using assms(1,3,4,5,6,13) by (auto simp: enrollment_refs_ok_def can_hold_def exists_where_iff assms(11,12))
qed

lemma admitted_seat:
  assumes "ledger t" "section_at t (erq_SectionID req) = Some s" "trm \<in> set (tbl_rows (t_terms t))"
    and "can_hold t actor req s" "sec_Status s = SectionOpen" "sec_SeatsTaken s < sec_Capacity s"
  shows "\<exists>c t'. yields now rid (take_free_seat actor req s (new_claim (erq_StudentID req) trm s now) now) t (Inr c) t'
    \<and> \<not> clm_Waitlisted c"
proof -
  obtain r where r: "r \<in> set (tbl_rows (t_sections t))" "sr_ID r = erq_SectionID req" "shows_row t s r"
    using assms(2) by (rule section_at_Some)
  let ?t1 = "put_section (take_seat now r) t"
  have ids: "sec_ID s = sr_ID r" "sec_Version s = sr_Version r" using r(3) by (simp_all add: shows_row_def)
  obtain u where claim: "yields now rid (ClaimSeat (sec_ID s) (sec_Version s) now) t (Inr u) ?t1"
    using yields_ClaimSeat [OF ids_okD(1) [OF ledgerD(1) [OF assms(1)]] r(1,3)] assms(5,6) r(3)
      ledgerD(2) [OF assms(1) r(1)] ids by (auto simp: shows_row_def row_balanced_def)
  obtain e where tr: "Transition (new_claim (erq_StudentID req) trm s now) EnrollmentEnrolled now [] = Inr e"
    using new_claim_transition by blast
  note e = Transition_new_claim [OF tr, simplified]
  have mem: "\<exists>q \<in> set (tbl_rows (t_sections ?t1)). sr_ID q = sec_ID s"
    using r(1) ids by (intro bexI [of _ "take_seat now r"]) (auto simp: put_section_def image_iff)
  have same: "t_enrollments ?t1 = t_enrollments t" "t_users ?t1 = t_users t" "t_terms ?t1 = t_terms t"
    by (simp_all add: put_section_def)
  note ok = claim_row_ok [OF assms(4,2,3) e(3,1,4,5) _ _ same mem]
  have cr: "yields now rid (CreateEnrollment e) ?t1 (Inr (stored e ?t1)) (add_enrollment e ?t1)"
    by (rule yields_CreateEnrollment) (use ok e in simp_all)
  obtain ev where au: "yields now rid (RecordObjectID (Some actor) ActionEnrollmentClaim ''enrollment''
      (enr_ID (stored e ?t1)) ResultSuccess (''student '' @ itoa (erq_StudentID req) @ '' enrolled in '' @ sec_Code s
         @ '', '' @ itoa (sec_SeatsTaken u) @ '' of '' @ itoa (sec_Capacity u) @ '' seats taken''))
      (add_enrollment e ?t1) (Inr ()) (add_audit ev (add_enrollment e ?t1))"
    using yields_RecordObjectID assms(4) by (force simp: can_hold_def add_enrollment_def put_section_def)
  have "yields now rid (take_free_seat actor req s (new_claim (erq_StudentID req) trm s now) now) t
      (Inr \<lparr>clm_Enrollment = stored e ?t1, clm_Section = u, clm_Waitlisted = False\<rparr>) (add_audit ev (add_enrollment e ?t1))"
    unfolding take_free_seat_def
    by (rule yields_andThen [OF claim], rule yields_andThen [OF yields_lift [OF tr]], rule yields_andThen [OF cr],
        rule yields_andThen [OF au], rule yields_basic)
  then show ?thesis by (metis claim_result.select_convs(3))
qed

lemma yields_NextWaitlistRank: "yields now rid (NextWaitlistRank i) t (Inr (next_rank t i)) t"
  unfolding NextWaitlistRank_def next_rank_def
  by (rule yields_andThen [OF yields_on_error_Inr [OF yields_query]], rule yields_basic)

lemma shows_row_add [simp]: "shows_row (add_enrollment e t) s r = shows_row t s r"
  by (simp add: shows_row_def add_enrollment_def meetings_in_def)

lemma admitted_waitlist:
  assumes "ledger t" "ranked t" "section_at t (erq_SectionID req) = Some s" "trm \<in> set (tbl_rows (t_terms t))"
    and "can_hold t actor req s" "sec_WaitlistLength s < sec_WaitlistLimit s"
  shows "\<exists>c t'. yields now rid (join_waitlist actor req s (new_claim (erq_StudentID req) trm s now) now) t (Inr c) t'
    \<and> clm_Waitlisted c"
proof -
  obtain r where r: "r \<in> set (tbl_rows (t_sections t))" "sr_ID r = erq_SectionID req" "shows_row t s r"
    using assms(3) by (rule section_at_Some)
  have ids: "sec_ID s = sr_ID r" using r(3) by (simp add: shows_row_def)
  obtain e0 where tr: "Transition (new_claim (erq_StudentID req) trm s now) EnrollmentWaitlisted now [] = Inr e0"
    using new_claim_transition by blast
  define e where "e = e0\<lparr>enr_WaitlistRank := next_rank t (sec_ID s)\<rparr>"
  have e: "enr_StudentID e = erq_StudentID req" "enr_SectionID e = sec_ID s" "enr_TermID e = trm_ID trm"
    "enr_Credits e = sec_CourseCredits s" "enr_Status e = EnrollmentWaitlisted" "0 \<le> enr_WaitlistRank e"
    using Transition_new_claim [OF tr, simplified] next_rank_pos [OF assms(2), of "sec_ID s"] by (simp_all add: e_def)
  have mem: "\<exists>q \<in> set (tbl_rows (t_sections t)). sr_ID q = sec_ID s" using r(1) ids by auto
  note ok = claim_row_ok [OF assms(5,3,4) e(1-4) disjI2 [OF e(5)] e(6) refl refl refl mem]
  let ?t1 = "add_enrollment e t"
  have cr: "yields now rid (CreateEnrollment e) t (Inr (stored e t)) ?t1"
    by (rule yields_CreateEnrollment) (rule ok)+
  have "section_key.keyed (t_sections ?t1)" "r \<in> set (tbl_rows (t_sections ?t1))" "shows_row ?t1 s r"
    using ids_okD(1) [OF ledgerD(1) [OF assms(1)]] r(1,3) by simp_all
  moreover have "sr_WaitlistLength r < sr_WaitlistLimit r" "section_row_ok r"
    using r(3) assms(6) ledgerD(2) [OF assms(1) r(1)] by (simp_all add: shows_row_def row_balanced_def)
  ultimately have "section_key.keyed (t_sections ?t1)" "r \<in> set (tbl_rows (t_sections ?t1))" "shows_row ?t1 s r"
    "sr_WaitlistLength r < sr_WaitlistLimit r" "section_row_ok r" by simp_all
  from yields_AdjustWaitlistLength [OF this, of now rid] obtain u where
    adj: "yields now rid (AdjustWaitlistLength (sec_ID s) 1 now) ?t1 (Inr u) (put_section (move_waitlist 1 now r) ?t1)"
    using ids by auto
  let ?t2 = "put_section (move_waitlist 1 now r) ?t1"
  obtain ev where au: "yields now rid (RecordObjectID (Some actor) ActionEnrollmentWaitlist ''enrollment''
      (enr_ID (stored e t)) ResultSuccess (''student '' @ itoa (erq_StudentID req) @ '' waitlisted at rank ''
        @ itoa (next_rank t (sec_ID s)) @ '' in '' @ sec_Code s)) ?t2 (Inr ()) (add_audit ev ?t2)"
    using yields_RecordObjectID assms(5) by (force simp: can_hold_def add_enrollment_def put_section_def)
  have "yields now rid (join_waitlist actor req s (new_claim (erq_StudentID req) trm s now) now) t
      (Inr \<lparr>clm_Enrollment = stored e t, clm_Section = u, clm_Waitlisted = True\<rparr>) (add_audit ev ?t2)"
    unfolding join_waitlist_def
    by (rule yields_andThen [OF yields_NextWaitlistRank], rule yields_andThen [OF yields_lift [OF tr]],
        rule yields_andThen [OF cr [unfolded e_def]], rule yields_andThen [OF adj [unfolded e_def]],
        rule yields_andThen [OF au [unfolded e_def]], unfold e_def, rule yields_basic)
  then show ?thesis by (metis claim_result.select_convs(3))
qed

lemma eligibility_error_final:
  "CheckEnrollmentEligibility i = Inl e \<Longrightarrow> \<not> errors_Is e ErrVersionConflict"
proof -
  have dup: "duplicate_error s held = Some e \<Longrightarrow> \<not> errors_Is e ErrVersionConflict" for s held e
    by (induction held) (auto split: if_splits)
  show "CheckEnrollmentEligibility i = Inl e \<Longrightarrow> \<not> errors_Is e ErrVersionConflict"
    unfolding CheckEnrollmentEligibility_def Let_def seat_or_waitlist_def
    by (auto split: if_splits option.splits dest: dup)
qed

lemma first_where_mem: "first_where P t = Some x \<Longrightarrow> x \<in> set (tbl_rows t) \<and> P x"
  by (simp add: first_where_def find_Some_iff) (metis nth_mem)

lemma eligibility_error_business:
  "CheckEnrollmentEligibility i = Inl e \<Longrightarrow> Code (Some e) \<noteq> ''internal_error''"
proof -
  have leaf: "Code (Some (Sentinel s)) \<noteq> ''internal_error''" for s by (cases s) (simp_all add: Code_def)
  have dup: "duplicate_error s held = Some e \<Longrightarrow> Code (Some e) \<noteq> ''internal_error''" for s held e
    by (induction held) (auto simp: leaf simp del: neq_Nil_conv split: if_splits)
  show "CheckEnrollmentEligibility i = Inl e \<Longrightarrow> Code (Some e) \<noteq> ''internal_error''"
    unfolding CheckEnrollmentEligibility_def Let_def seat_or_waitlist_def
    using leaf dup by (auto split: if_splits option.splits)
qed

lemma claim_loop_decides:
  assumes "ledger t" "ranked t" "section_at t (erq_SectionID req) = Some s"
    and "first_where (\<lambda>r. trm_ID r = sec_TermID s) (t_terms t) = Some trm" "can_hold t actor req s" "0 < k"
  shows "case CheckEnrollmentEligibility (claim_input t (erq_StudentID req) s trm now) of
      Inl e \<Rightarrow> (\<exists>ev. rejection actor ActionEnrollmentClaim (erq_SectionID req) e ev
        \<and> yields now rid (claim_loop actor req n k) t (Inl e) (add_audit ev t))
    | Inr d \<Rightarrow> (\<exists>c t'. yields now rid (claim_loop actor req n k) t (Inr c) t' \<and> clm_Waitlisted c = dec_Waitlist d)"
proof (cases "CheckEnrollmentEligibility (claim_input t (erq_StudentID req) s trm now)")
  case (Inl e)
  have user: "exists_where (\<lambda>u. usr_ID u = prn_UserID actor) (t_users t)" using assms(5) by (simp add: can_hold_def)
  have "yields now rid (claimOnce actor req) t (Inl e) t"
    by (rule yields_claimOnce [OF assms(3,4)], rule yields_andThen_Inl, rule yields_lift, rule Inl)
  from yields_claim_loop_refused [OF this eligibility_error_final [OF Inl] assms(6) user
      eligibility_error_business [OF Inl]]
  show ?thesis unfolding Inl by simp
next
  case (Inr d)
  let ?body = "if dec_Waitlist d then join_waitlist actor req s (new_claim (erq_StudentID req) trm s now) now
        else take_free_seat actor req s (new_claim (erq_StudentID req) trm s now) now"
  have trm: "trm \<in> set (tbl_rows (t_terms t))" using first_where_mem [OF assms(4)] by blast
  have adm: "sec_Status s = SectionOpen" "dec_Waitlist d \<longleftrightarrow> sec_Capacity s \<le> sec_SeatsTaken s"
    "dec_Waitlist d \<longrightarrow> sec_WaitlistLength s < sec_WaitlistLimit s"
    using Inr by (simp_all add: CheckEnrollmentEligibility_Inr claim_input_def)
  have "\<exists>c t'. yields now rid ?body t (Inr c) t' \<and> clm_Waitlisted c = dec_Waitlist d"
  proof (cases "dec_Waitlist d")
    case True
    then show ?thesis using admitted_waitlist [OF assms(1-3) trm assms(5)] adm(3) by auto
  next
    case False
    then show ?thesis using admitted_seat [OF assms(1,3) trm assms(5) adm(1)] adm(2) by auto
  qed
  then obtain c t' where body: "yields now rid ?body t (Inr c) t'" and c: "clm_Waitlisted c = dec_Waitlist d"
    by blast
  have "yields now rid (claimOnce actor req) t (Inr c) t'"
    by (rule yields_claimOnce [OF assms(3,4)], rule yields_andThen [OF yields_lift [OF Inr]], rule body)
  from yields_claim_loop [OF this assms(6)] c show ?thesis unfolding Inr by auto
qed

lemma yields_Claim:
  assumes "yields now rid (claim_loop actor req (nat (k + 1)) (nat (k + 1))) t r t'"
    and "req = \<lparr>erq_StudentID = (if st \<le> 0 then prn_UserID actor else st), erq_SectionID = sec, erq_Reason = []\<rparr>"
    and "request_Validate req = None" "CanActOnStudent actor (erq_StudentID req)"
  shows "yields now rid (Claim k actor st sec) t r t'"
  unfolding Claim_def Let_def assms(2) [symmetric]
  by (rule yields_andThen [OF yields_check_None [OF assms(3)]]) (simp add: assms(1,4))

end
