(* ===== verification/LiveClaims.thy ===== *)
theory LiveClaims
  imports Plans
begin

text \<open>
  What the schema keeps of the enrollments table through every step: each row meets the
  \<open>CHECK\<close> constraints, and a student has at most one live claim on a section (the partial
  unique index \<open>ux_enrollments_active_seat\<close>).
\<close>

definition claims_ok :: "tables \<Rightarrow> bool" where
  "claims_ok t \<longleftrightarrow> ids_ok t \<and> (\<forall>e \<in> set (tbl_rows (t_enrollments t)). enrollment_row_ok e)
     \<and> (\<forall>e \<in> set (tbl_rows (t_enrollments t)). \<forall>h \<in> set (tbl_rows (t_enrollments t)). seat_clash e h \<longrightarrow> e = h)"

lemma claims_okD:
  assumes "claims_ok t"
  shows "ids_ok t" "e \<in> set (tbl_rows (t_enrollments t)) \<Longrightarrow> enrollment_row_ok e"
    "e \<in> set (tbl_rows (t_enrollments t)) \<Longrightarrow> h \<in> set (tbl_rows (t_enrollments t)) \<Longrightarrow> seat_clash e h \<Longrightarrow> e = h"
  using assms unfolding claims_ok_def by blast+

lemma seat_clash_sym: "seat_clash e h \<Longrightarrow> seat_clash h e"
  by (auto simp: seat_clash_def)

lemma seat_clash_stored [simp]: "seat_clash (stored e t) h = seat_clash e h" "seat_clash h (stored e t) = seat_clash h e"
  by (simp_all add: seat_clash_def)

lemma claims_add:
  assumes "claims_ok t" "ids_ok t'" "t_enrollments t' = t_enrollments (add_enrollment e t)"
    and "enrollment_row_ok e" "\<not> exists_where (seat_clash e) (t_enrollments t)"
  shows "claims_ok t'"
proof -
  let ?rows = "set (tbl_rows (t_enrollments t))"
  have free: "\<not> seat_clash e h" "\<not> seat_clash h e" if "h \<in> ?rows" for h
    using assms(5) that seat_clash_sym by (auto simp: exists_where_iff)
  have "a = b" if "a \<in> insert (stored e t) ?rows" "b \<in> insert (stored e t) ?rows" "seat_clash a b" for a b
    using that free claims_okD(3) [OF assms(1), of a b] by auto
  moreover have "enrollment_row_ok (stored e t)" using assms(4) by (simp add: enrollment_row_ok_def)
  ultimately show ?thesis
    using assms(2) claims_okD(2) [OF assms(1)] unfolding claims_ok_def assms(3) rows_add by blast
qed

lemma claims_put:
  assumes "claims_ok t" "ids_ok t'" "t_enrollments t' = t_enrollments (put_enrollment e' t)"
    and "e \<in> set (tbl_rows (t_enrollments t))" "enr_ID e' = enr_ID e" "enr_SectionID e' = enr_SectionID e"
    and "enr_StudentID e' = enr_StudentID e" "occupies (enr_Status e') \<longrightarrow> occupies (enr_Status e)" "enrollment_row_ok e'"
  shows "claims_ok t'"
proof -
  let ?rows = "set (tbl_rows (t_enrollments t))"
  note rows = rows_put [OF claims_okD(1) [OF assms(1)] assms(4,5)]
  have mono: "seat_clash e' h \<Longrightarrow> seat_clash e h" for h
    using assms(6-8) by (auto simp: seat_clash_def)
  have free: "\<not> seat_clash e' h" "\<not> seat_clash h e'" if "h \<in> ?rows - {e}" for h
    using claims_okD(3) [OF assms(1,4), of h] that mono [of h] seat_clash_sym [of h e'] by auto
  have "a = b" if "a \<in> insert e' (?rows - {e})" "b \<in> insert e' (?rows - {e})" "seat_clash a b" for a b
    using that free claims_okD(3) [OF assms(1), of a b] by auto
  then show ?thesis
    using assms(2,9) claims_okD(2) [OF assms(1)] unfolding claims_ok_def assms(3) rows by blast
qed

lemma row_ok_move:
  assumes "Transition e target now reason = Inr e1" "enrollment_row_ok e" "target \<noteq> EnrollmentOther s"
    and "target \<in> {EnrollmentEnrolled, EnrollmentDropped, EnrollmentWithdrawn}"
  shows "enrollment_row_ok (write_enrollment e1 e)"
  using assms by (auto simp: Transition_def stamp_transition_def enrollment_row_ok_def split: if_splits)

lemma claims_step: "seat_step t t' \<Longrightarrow> claims_ok t \<Longrightarrow> claims_ok t'"
proof (induction rule: seat_step.induct)
  case (claim actor req t c t')
  note ok = ids_ok_claim [OF claim.hyps claims_okD(1) [OF claim.prems]]
  from claim.hyps show ?case
  proof cases
    case (enroll r s trm now d e i ev)
    then show ?thesis by (intro claims_add [OF claim.prems ok, of e]) (simp_all add: add_enrollment_def)
  next
    case (wait r s trm now d e0 e i ev)
    then show ?thesis by (intro claims_add [OF claim.prems ok, of e]) (simp_all add: add_enrollment_def)
  qed
next
  case (promote i t b t')
  note ok = ids_ok_promote [OF promote.hyps claims_okD(1) [OF promote.prems]]
  from promote.hyps show ?case
  proof cases
    case idle
    then show ?thesis using promote.prems by simp
  next
    case (promote r e rest now e1 ev)
    have e: "e \<in> set (tbl_rows (t_enrollments t))" "enr_Status e = EnrollmentWaitlisted"
      using waitlist_of_mem [of e t i] promote(7) by (simp_all add: waiting_in_def)
    then show ?thesis
      by (intro claims_put [OF promote.prems ok, of "write_enrollment e1 e" e])
        (use row_ok_move [OF promote(8) claims_okD(2) [OF promote.prems e(1)]] in
          \<open>simp_all add: promote(2) occupies_def\<close>)
  qed
next
  case (drop actor i reason t saved t')
  note ok = ids_ok_drop [OF drop.hyps claims_okD(1) [OF drop.prems]]
  note row = row_ok_move [OF _ claims_okD(2) [OF drop.prems]]
  from drop.hyps show ?case
  proof cases
    case (release e now e1 r t1 t2 ev)
    have "t_enrollments t2 = t_enrollments t1" using release(13) by (auto split: if_splits)
    then show ?thesis
      by (intro claims_put [OF drop.prems ok, of "write_enrollment e1 e" e])
        (use release(2,5) row [OF release(6,2)] in \<open>simp_all add: release(1,12) occupies_def\<close>)
  next
    case (leave_waitlist e now e1 r t1 ev)
    then show ?thesis
      by (intro claims_put [OF drop.prems ok, of "write_enrollment e1 e" e])
        (use row [OF leave_waitlist(6,2)] in \<open>simp_all add: occupies_def\<close>)
  next
    case (cancel e now e1 t1 ev)
    then show ?thesis
      by (intro claims_put [OF drop.prems ok, of "write_enrollment e1 e" e])
        (use row [OF cancel(6,2)] in \<open>simp_all add: occupies_def\<close>)
  qed
next
  case (elsewhere t' t)
  then show ?case by (simp add: claims_ok_def ids_ok_def)
qed

interpretation claims_inv: step_invariant claims_ok
  by unfold_locales (auto dest: claims_okD(1) claims_step)

end
