(* ===== verification/CalmPromotion.thy ===== *)
theory CalmPromotion
  imports CalmRuns LiveClaims
begin

text \<open>
  What a promotion does when nothing interferes: a free seat of an open section goes to the
  claim at the head of the waitlist.
\<close>

lemma yields_HeadOfWaitlist:
  "waitlist_of t i = e # rest \<Longrightarrow> yields now rid (HeadOfWaitlist i) t (Inr e) t"
  unfolding HeadOfWaitlist_def by (rule yields_on_error_Inr, rule yields_query_row_Some) (simp add: limit_offset_def)

lemma yields_UpdateEnrollment:
  assumes "enrollment_key.keyed (t_enrollments t)" "r \<in> set (tbl_rows (t_enrollments t))"
    and "enr_ID e = enr_ID r" "enr_Version r = v" "enrollment_row_ok (write_enrollment e r)"
    and "\<forall>q \<in> set (tbl_rows (t_enrollments t)). enr_ID q \<noteq> enr_ID r \<longrightarrow> \<not> seat_clash (write_enrollment e r) q"
  shows "yields now rid (UpdateEnrollment e v) t (Inr (e\<lparr>enr_Version := v + 1\<rparr>)) (put_enrollment (write_enrollment e r) t)"
proof -
  let ?P = "enrollment_pred (enr_ID e) v" and ?rows = "tbl_rows (t_enrollments t)"
  have only: "?P q \<longleftrightarrow> q = r" if "q \<in> set ?rows" for q
    using enrollment_key.by_id_unique [OF assms(1) that assms(2)] assms(3,4) by (auto simp: enrollment_pred_def)
  have "(if ?P q then write_enrollment e q else q) = (if enr_ID q = enr_ID r then write_enrollment e r else q)"
    if "q \<in> set ?rows" for q
    using only [OF that] enrollment_key.by_id_unique [OF assms(1) that assms(2)] by (cases "q = r") auto
  then have put: "t\<lparr>t_enrollments := table_update ?P (write_enrollment e) (t_enrollments t)\<rparr>
      = put_enrollment (write_enrollment e r) t"
    by (simp add: put_enrollment_def table_update_def)
  have "count_where ?P (t_enrollments t) \<noteq> 0" using only assms(2) by (auto simp: count_where_zero)
  moreover have "\<not> list_ex (\<lambda>r. ?P r \<and> \<not> enrollment_row_ok (write_enrollment e r)) ?rows"
    using only assms(5) by (auto simp: list_ex_iff)
  moreover have "\<not> list_ex (\<lambda>r. ?P r \<and> list_ex (\<lambda>q. enr_ID q \<noteq> enr_ID r \<and> seat_clash (write_enrollment e r) q) ?rows) ?rows"
    using only assms(6) by (auto simp: list_ex_iff)
  ultimately obtain n where n: "n \<noteq> 0" "update_enrollment e v t = Inr (n, put_enrollment (write_enrollment e r) t)"
    using put by (simp add: update_enrollment_def Let_def)
  show ?thesis
    unfolding UpdateEnrollment_def
    by (rule yields_andThen [OF yields_on_error_Inr [OF yields_exec_Inr [where f = "update_enrollment e v", OF n(2)]]],
        rule yields_andThen [OF yields_on_error_Inr [OF yields_basic(7)]]) (simp add: n(1) yields_basic)
qed

lemma yields_AdjustWaitlist_down:
  assumes "section_key.keyed (t_sections t)" "r \<in> set (tbl_rows (t_sections t))" "shows_row t s r"
    and "0 < sr_WaitlistLength r" "sr_WaitlistLength r \<le> sr_WaitlistLimit r" "section_row_ok r"
  shows "\<exists>u. yields now rid (AdjustWaitlistLength (sr_ID r) (- 1) now) t (Inr u) (put_section (move_waitlist (- 1) now r) t)"
proof -
  let ?P = "waitlist_pred (sr_ID r) (- 1)" and ?t = "put_section (move_waitlist (- 1) now r) t"
  obtain n where n: "n \<noteq> 0" "update_sections ?P (move_waitlist (- 1) now) t = Inr (n, ?t)"
  proof -
    have "?P r" "section_row_ok (move_waitlist (- 1) now r)"
      using assms(4-6) by (simp_all add: waitlist_pred_def section_row_ok_def move_waitlist_def)
    moreover have "sr_ID q = sr_ID r" if "?P q" for q using that by (simp add: waitlist_pred_def)
    ultimately show thesis
      using update_one_section [OF assms(1,2), of ?P "move_waitlist (- 1) now"] that by (metis section_row_moves(3))
  qed
  obtain u where "section_at ?t (sr_ID r) = Some u"
    using section_at_put [OF assms(2,3), of "move_waitlist (- 1) now r" ?t] by (auto simp: move_waitlist_def put_section_def)
  note find = yields_FindSectionByID [OF this]
  have ex: "yields now rid (on_error g (exec (update_sections ?P (move_waitlist (- 1) now)))) t (Inr n) ?t" for g
    by (rule yields_on_error_Inr, rule yields_exec_Inr, rule n(2))
  have "yields now rid (AdjustWaitlistLength (sr_ID r) (- 1) now) t (Inr u) ?t"
    unfolding AdjustWaitlistLength_def
    by (simp, rule yields_andThen [OF ex], rule yields_andThen [OF yields_on_error_Inr [OF yields_basic(7)]])
      (simp add: n(1) find)
  then show ?thesis ..
qed

lemma shows_row_take:
  assumes "section_key.keyed (t_sections t)" "r \<in> set (tbl_rows (t_sections t))" "shows_row t s r"
    and "t1 = put_enrollment e (put_section (take_seat now r) t)"
  shows "take_seat now r \<in> set (tbl_rows (t_sections t1))" "section_key.keyed (t_sections t1)"
    "shows_row t1 (s\<lparr>sec_SeatsTaken := sec_SeatsTaken s + 1, sec_Version := sec_Version s + 1\<rparr>) (take_seat now r)"
proof -
  show "take_seat now r \<in> set (tbl_rows (t_sections t1))"
    unfolding assms(4) using assms(2) by (auto simp: put_section_def image_iff)
  show "section_key.keyed (t_sections t1)"
    unfolding assms(4) using assms(1) by (simp add: keyed_put_section)
  show "shows_row t1 (s\<lparr>sec_SeatsTaken := sec_SeatsTaken s + 1, sec_Version := sec_Version s + 1\<rparr>) (take_seat now r)"
    unfolding assms(4) using assms(3)
    by (simp add: shows_row_def take_seat_def put_section_def put_enrollment_def meetings_in_def)
qed

lemma promoted_head:
  assumes "ledger t" "ranked t" "claims_ok t" "section_at t i = Some s" "sec_Status s = SectionOpen"
    and "sec_SeatsTaken s < sec_Capacity s" "waitlist_of t i = e # rest"
  shows "\<exists>t'. yields now rid (promote_head s e now) t (Inr True) t'"
proof -
  obtain r where r: "r \<in> set (tbl_rows (t_sections t))" "sr_ID r = i" "shows_row t s r"
    using assms(4) by (rule section_at_Some)
  note keyed = ids_okD [OF ledgerD(1) [OF assms(1)]]
  have ids: "sec_ID s = sr_ID r" "sec_Version s = sr_Version r" using r(3) by (simp_all add: shows_row_def)
  have bal: "section_row_ok r" "sr_WaitlistLength r = waiting t (sr_ID r)" "sr_WaitlistLength r \<le> sr_WaitlistLimit r"
    using ledgerD(2) [OF assms(1) r(1)] by (simp_all add: row_balanced_def)
  have free: "sr_Status r = SectionOpen" "sr_SeatsTaken r < sr_Capacity r"
    using assms(5,6) r(3) by (simp_all add: shows_row_def)
  have e: "e \<in> set (tbl_rows (t_enrollments t))" "waiting_in i e"
    using waitlist_of_mem [of e t i] assms(7) by simp_all
  let ?t1 = "put_section (take_seat now r) t"
  obtain u where claim: "yields now rid (ClaimSeat (sec_ID s) (sec_Version s) now) t (Inr u) ?t1"
    using yields_ClaimSeat [OF keyed(1) r(1,3) free bal(1)] ids by auto
  have st: "enr_Status e = EnrollmentWaitlisted" using e(2) by (simp add: waiting_in_def)
  then obtain e1 where tr: "Transition e EnrollmentEnrolled now [] = Inr e1"
    by (auto simp: Transition_def CanTransitionTo_def)
  let ?e' = "write_enrollment e1 e" and ?t2 = "put_enrollment (write_enrollment e1 e) ?t1"
  have clash: "\<forall>q \<in> set (tbl_rows (t_enrollments ?t1)). enr_ID q \<noteq> enr_ID e \<longrightarrow> \<not> seat_clash ?e' q"
    using claims_okD(3) [OF assms(3) e(1)] st by (auto simp: seat_clash_def occupies_def)
  have row: "enrollment_row_ok ?e'" using row_ok_move [OF tr claims_okD(2) [OF assms(3) e(1)]] by simp
  have "enrollment_key.keyed (t_enrollments ?t1)" "e \<in> set (tbl_rows (t_enrollments ?t1))" using keyed(2) e(1) by simp_all
  note up = yields_UpdateEnrollment [OF this Transition_Inr(3) [OF tr] refl row clash, of now rid]
  note s2 = shows_row_take [OF keyed(1) r(1,3), of ?t2 ?e' now, OF refl]
  have "0 < waiting t (sr_ID r)" using assms(7) r(2) length_queue [of t i] by (simp add: view_def)
  then have "0 < sr_WaitlistLength (take_seat now r)" "sr_WaitlistLength (take_seat now r) \<le> sr_WaitlistLimit (take_seat now r)"
    "section_row_ok (take_seat now r)"
    using bal free(2) by (simp_all add: section_row_ok_def take_seat_def)
  from yields_AdjustWaitlist_down [OF s2(2,1,3) this, of now rid] obtain v where
    adj: "yields now rid (AdjustWaitlistLength (sec_ID s) (- 1) now) ?t2 (Inr v)
      (put_section (move_waitlist (- 1) now (take_seat now r)) ?t2)"
    using ids by auto
  let ?t3 = "put_section (move_waitlist (- 1) now (take_seat now r)) ?t2"
  let ?saved = "e1\<lparr>enr_Version := enr_Version e + 1\<rparr>"
  let ?d = "''student '' @ itoa (enr_StudentID ?saved) @ '' promoted from the waitlist of '' @ sec_Code s"
  have au: "yields now rid (RecordObjectID None ActionEnrollmentPromote ''enrollment'' (enr_ID ?saved) ResultSuccess ?d) ?t3
      (Inr ()) (add_audit (logged None ActionEnrollmentPromote ''enrollment'' (enr_ID ?saved) ResultSuccess rid ?d now) ?t3)"
    by (rule yields_Record) simp_all
  have "yields now rid (promote_head s e now) t (Inr True)
      (add_audit (logged None ActionEnrollmentPromote ''enrollment'' (enr_ID ?saved) ResultSuccess rid ?d now) ?t3)"
    unfolding promote_head_def
    by (rule yields_andThen [OF claim], rule yields_andThen [OF yields_lift [OF tr]],
        rule yields_andThen [OF up], rule yields_andThen [OF adj], rule yields_andThen [OF au], rule yields_basic)
  then show ?thesis ..
qed

lemma yields_PromoteWaitlist:
  assumes "ledger t" "ranked t" "claims_ok t" "section_at t i = Some s" "sec_Status s = SectionOpen"
    and "sec_SeatsTaken s < sec_Capacity s" "waitlist_of t i = e # rest" "0 < i"
  shows "\<exists>t'. yields now rid (PromoteWaitlist i) t (Inr True) t'"
proof -
  obtain t' where head: "yields now rid (promote_head s e now) t (Inr True) t'"
    using promoted_head [OF assms(1-7)] by blast
  have "yields now rid (promote_once i now) t (Inr True) t'"
    unfolding promote_once_def FindSectionForUpdate_def
    by (rule yields_andThen [OF yields_FindSectionByID [OF assms(4)]])
      (use assms(5,6) in \<open>simp add: AcceptsEnrollment_def SeatsAvailable_def\<close>,
        rule yields_andThen [OF yields_attempt [OF yields_HeadOfWaitlist [OF assms(7)]]], simp add: head)
  then have "yields now rid (PromoteWaitlist i) t (Inr True) t'"
    unfolding PromoteWaitlist_def using assms(8)
    by (simp, intro yields_andThen [OF yields_basic(5)] yields_InTx_Inr)
  then show ?thesis ..
qed

end
