(* ===== verification/SeatProperties.thy ===== *)
theory SeatProperties
  imports CalmPromotion
begin

text \<open>
  The promises of seat allocation, stated over sequences of service calls: any mix of claims,
  drops, promotions and batch claims, by any actors, in a world where any driver call may fail,
  the context may end at any time and the clock may show anything.
\<close>

section \<open>Sequences of calls\<close>

datatype seat_call =
    CallClaim int principal int int
  | CallDrop principal int string
  | CallPromote int
  | CallBatch int principal int "int list"

fun perform :: "seat_call \<Rightarrow> unit op" where
  "perform (CallClaim k actor st sec) = andThen (attempt (Claim k actor st sec)) (\<lambda>_. ret ())"
| "perform (CallDrop actor i reason) = andThen (attempt (Drop actor i reason)) (\<lambda>_. ret ())"
| "perform (CallPromote i) = andThen (attempt (PromoteWaitlist i)) (\<lambda>_. ret ())"
| "perform (CallBatch k actor st secs) = andThen (attempt (BatchClaim k actor st secs)) (\<lambda>_. ret ())"

fun perform_all :: "seat_call list \<Rightarrow> unit op" where
  "perform_all [] = ret ()"
| "perform_all (c # cs) = andThen (perform c) (\<lambda>_. perform_all cs)"

definition after_calls :: "seat_call list \<Rightarrow> world \<Rightarrow> tables" where
  "after_calls cs w = tb (snd (perform_all cs w))"

lemma evolves_perform [evolves_intro]: "evolves (perform c)"
  by (cases c) (simp_all, (intro evolves_intro)+)

lemma evolves_perform_all [evolves_intro]: "evolves (perform_all cs)"
  by (induction cs) (simp_all, (intro evolves_intro | assumption)+)

lemma run_after_calls: "ids_ok (tb w) \<Longrightarrow> seat_step\<^sup>*\<^sup>* (tb w) (after_calls cs w)"
  using evolves_perform_all [of cs] by (simp add: evolves_def after_calls_def)

lemma ledger_after_calls: "ledger (tb w) \<Longrightarrow> ledger (after_calls cs w)"
  unfolding after_calls_def by (rule ledger_inv.service [OF evolves_perform_all])

lemma ranked_after_calls: "ranked (tb w) \<Longrightarrow> ranked (after_calls cs w)"
  unfolding after_calls_def by (rule ranked_inv.service [OF evolves_perform_all])

lemma plans_after_calls: "plans_ok (tb w) \<Longrightarrow> plans_ok (after_calls cs w)"
  unfolding after_calls_def by (rule plans_inv.service [OF evolves_perform_all])

lemma ranked_campus [simp]: "ranked campus"
  by (simp add: ranked_def ids_ok_def section_key.keyed_def enrollment_key.keyed_def campus_def empty_tables_def
      empty_table_def sample_section_def)

lemma plans_campus [simp]: "plans_ok campus"
  by (simp add: plans_ok_def ids_ok_def section_key.keyed_def enrollment_key.keyed_def term_key.keyed_def
      campus_def empty_tables_def empty_table_def sample_section_def credits_held_def select_where_def sample_term_def)

definition busy_day :: "seat_call list" where
  \<comment> \<open>the seat is taken, a waitlist forms, the seat is dropped, the promotion job runs\<close>
  "busy_day = [CallClaim 3 ana 1 1, CallClaim 3 ben 2 1, CallDrop ana 1 ''moved'', CallPromote 1]"

definition sample_claim :: "int \<Rightarrow> int \<Rightarrow> enrollment_status \<Rightarrow> int \<Rightarrow> enrollment" where
  "sample_claim i st status rank = \<lparr>enr_ID = i, enr_StudentID = st, enr_TermID = 1, enr_SectionID = 1,
     enr_CourseCode = ''CS110'', enr_Credits = 4, enr_Status = status, enr_WaitlistRank = rank,
     enr_RequestedAt = 1, enr_DecidedAt = Some 1, enr_ReleasedAt = None, enr_ReleaseReason = [],
     enr_Version = 1, enr_CreatedAt = 1, enr_UpdatedAt = 1\<rparr>"

definition full_campus :: tables where
  \<comment> \<open>the seat is taken by ana, ben waits\<close>
  "full_campus = campus\<lparr>
     t_sections := \<lparr>tbl_rows = [sample_section\<lparr>sr_SeatsTaken := 1, sr_WaitlistLength := 1\<rparr>], tbl_seq = 1\<rparr>,
     t_enrollments := \<lparr>tbl_rows = [sample_claim 1 1 EnrollmentEnrolled 0, sample_claim 2 2 EnrollmentWaitlisted 1],
       tbl_seq = 2\<rparr>\<rparr>"

definition waiting_campus :: tables where
  \<comment> \<open>the seat is free and both wait for it\<close>
  "waiting_campus = campus\<lparr>
     t_sections := \<lparr>tbl_rows = [sample_section\<lparr>sr_WaitlistLength := 2, sr_WaitlistLimit := 2\<rparr>], tbl_seq = 1\<rparr>,
     t_enrollments := \<lparr>tbl_rows = [sample_claim 1 1 EnrollmentWaitlisted 1, sample_claim 2 2 EnrollmentWaitlisted 2],
       tbl_seq = 2\<rparr>\<rparr>"

definition plan_campus :: tables where
  \<comment> \<open>ana holds the section of the campus and one of another course\<close>
  "plan_campus = campus\<lparr>t_enrollments := \<lparr>tbl_rows = [sample_claim 1 1 EnrollmentEnrolled 0,
     (sample_claim 2 1 EnrollmentEnrolled 0)\<lparr>enr_SectionID := 2, enr_CourseCode := ''MA101''\<rparr>], tbl_seq = 2\<rparr>\<rparr>"

lemmas sample_defs = full_campus_def waiting_campus_def plan_campus_def campus_def empty_tables_def empty_table_def
  sample_section_def sample_claim_def sample_term_def sample_course_def sample_meeting_def

lemma sample_ids [simp]: "ids_ok full_campus" "ids_ok waiting_campus" "ids_ok plan_campus" "ids_ok campus"
  by (simp_all add: ids_ok_def section_key.keyed_def enrollment_key.keyed_def sample_defs)

lemma sample_ledgers [simp]: "ledger full_campus" "ledger waiting_campus"
  by (simp_all add: ledger_def row_balanced_def section_row_ok_def seats_held_def waiting_def count_where_def
      HoldsSeat_def)
    (simp_all add: sample_defs HoldsSeat_def waiting_in_def)

lemma sample_ranked [simp]: "ranked full_campus" "ranked waiting_campus"
  by (simp_all add: ranked_def) (simp_all add: sample_defs)

lemma sample_claims_ok [simp]: "claims_ok campus" "claims_ok full_campus" "claims_ok waiting_campus"
  by (simp_all add: claims_ok_def) (simp_all add: sample_defs enrollment_row_ok_def seat_clash_def)

lemma plan_campus_ok [simp]: "plans_ok plan_campus"
  by (simp add: plans_ok_def)
    (simp add: sample_defs term_key.keyed_def credits_held_def select_where_def held_by_def compatible_def)

text \<open>The section rows keep their identity, capacity and limits.\<close>

lemma section_shape_put:
  assumes "q \<in> set (tbl_rows (t_sections t))" "ids_ok t" "r \<in> set (tbl_rows (t_sections t))"
    and "sr_ID r' = sr_ID r" "sr_Capacity r' = sr_Capacity r" "sr_WaitlistLimit r' = sr_WaitlistLimit r"
    and "t_sections t' = t_sections (put_section r' t)"
  shows "\<exists>q' \<in> set (tbl_rows (t_sections t')). sr_ID q' = sr_ID q \<and> sr_Capacity q' = sr_Capacity q
    \<and> sr_WaitlistLimit q' = sr_WaitlistLimit q"
proof (cases "sr_ID q = sr_ID r")
  case True
  then have "q = r" using section_key.by_id_unique [OF ids_okD(1) [OF assms(2)] assms(1,3)] by simp
  then show ?thesis using assms by (intro bexI [of _ r']) (auto simp: put_section_def image_iff)
next
  case False
  then show ?thesis using assms by (intro bexI [of _ q]) (auto simp: put_section_def image_iff)
qed

lemma capacity_moves [simp]:
  "sr_Capacity (take_seat now r) = sr_Capacity r" "sr_Capacity (return_seat now r) = sr_Capacity r"
  "sr_Capacity (move_waitlist d now r) = sr_Capacity r"
  by (simp_all add: take_seat_def return_seat_def move_waitlist_def)

lemma put_section_over [simp]: "t_sections (put_section r (put_enrollment e t)) = t_sections (put_section r t)"
  by (simp add: put_section_def)

lemma section_shape_step:
  assumes "seat_step t t'" "ids_ok t" "q \<in> set (tbl_rows (t_sections t))"
  shows "\<exists>q' \<in> set (tbl_rows (t_sections t')). sr_ID q' = sr_ID q \<and> sr_Capacity q' = sr_Capacity q
    \<and> sr_WaitlistLimit q' = sr_WaitlistLimit q"
proof -
  note put = section_shape_put [OF assms(3,2)]
  from assms(1) show ?thesis
  proof cases
    case (claim actor req c)
    then show ?thesis
    proof cases
      case (enroll r s trm now)
      then show ?thesis using put [of r "take_seat now r" t'] by simp
    next
      case (wait r s trm now)
      then show ?thesis using put [of r "move_waitlist 1 now r" t'] by simp
    qed
  next
    case (promote i b)
    then show ?thesis
    proof cases
      case (promote r e rest now)
      then show ?thesis using put [of r "move_waitlist (- 1) now (take_seat now r)" t'] by simp
    qed (use assms(3) in auto)
  next
    case (drop actor i reason saved)
    then show ?thesis
    proof cases
      case (release e now e1 r t1 t2)
      then have "t_sections t' = t_sections (put_section (return_seat now r) t)" by (auto split: if_splits)
      then show ?thesis using put [of r "return_seat now r" t'] release by simp
    next
      case (leave_waitlist e now e1 r)
      then show ?thesis using put [of r "move_waitlist (- 1) now r" t'] by simp
    qed (use assms(3) in auto)
  next
    case elsewhere
    then show ?thesis using assms(3) by auto
  qed
qed

lemma section_shape_run:
  assumes "seat_step\<^sup>*\<^sup>* t t'" "ids_ok t" "q \<in> set (tbl_rows (t_sections t))"
  shows "\<exists>q' \<in> set (tbl_rows (t_sections t')). sr_ID q' = sr_ID q \<and> sr_Capacity q' = sr_Capacity q
    \<and> sr_WaitlistLimit q' = sr_WaitlistLimit q"
  using assms
proof (induction rule: rtranclp_induct)
  case (step u v)
  from step.IH [OF step.prems] obtain p where p: "p \<in> set (tbl_rows (t_sections u))" "sr_ID p = sr_ID q"
    "sr_Capacity p = sr_Capacity q" "sr_WaitlistLimit p = sr_WaitlistLimit q" by blast
  show ?case using section_shape_step [OF step.hyps(2) ids_ok_run [OF step.hyps(1) step.prems(1)] p(1)] p(2-4) by simp
qed blast

section \<open>The seat ledger\<close>

text \<open>C1: no section is ever oversold. After any sequence of calls the counters of a section row equal
  the claims stored against it and stay within capacity and waitlist limit.\<close>

theorem seats_never_oversold:
  assumes "ledger (tb w)" "r \<in> set (tbl_rows (t_sections (after_calls cs w)))"
  shows "sr_SeatsTaken r = seats_held (after_calls cs w) (sr_ID r)
    \<and> sr_WaitlistLength r = waiting (after_calls cs w) (sr_ID r)
    \<and> seats_held (after_calls cs w) (sr_ID r) \<le> sr_Capacity r
    \<and> waiting (after_calls cs w) (sr_ID r) \<le> sr_WaitlistLimit r"
  using ledgerD(2) [OF ledger_after_calls [OF assms(1)] assms(2)]
  by (auto simp: row_balanced_def section_row_ok_def)

theorem seats_never_oversold_witness:
  "\<exists>r :: section_row. sr_ID r = 1 \<and> seats_held (after_calls busy_day (at_time 5 campus)) 1 \<le> sr_Capacity r
    \<and> sr_SeatsTaken r = seats_held (after_calls busy_day (at_time 5 campus)) 1 \<and> sr_Capacity r = 1"
proof -
  have w: "ledger (tb (at_time 5 campus))" "ids_ok (tb (at_time 5 campus))" by simp_all
  have "sample_section \<in> set (tbl_rows (t_sections campus))" by (simp add: sample_defs)
  then obtain r where r: "r \<in> set (tbl_rows (t_sections (after_calls busy_day (at_time 5 campus))))"
    "sr_ID r = sr_ID sample_section" "sr_Capacity r = sr_Capacity sample_section"
    using section_shape_run [OF run_after_calls [OF w(2), of busy_day], of sample_section] by auto
  from seats_never_oversold [OF w(1) r(1)] r(2,3) have "sr_ID r = 1 \<and> sr_Capacity r = 1
      \<and> seats_held (after_calls busy_day (at_time 5 campus)) 1 \<le> sr_Capacity r
      \<and> sr_SeatsTaken r = seats_held (after_calls busy_day (at_time 5 campus)) 1"
    by (simp add: sample_section_def)
  then show ?thesis by blast
qed

section \<open>The waitlist\<close>

text \<open>Places on a waitlist are never shared. Two claims waiting for the same section carry different
  positive ranks, after any sequence of calls.\<close>

theorem waitlist_ranks_distinct:
  assumes "ranked (tb w)" "e \<in> set (tbl_rows (t_enrollments (after_calls cs w)))"
    and "e' \<in> set (tbl_rows (t_enrollments (after_calls cs w)))" "waiting_in i e" "waiting_in i e'" "e \<noteq> e'"
  shows "enr_WaitlistRank e \<noteq> enr_WaitlistRank e' \<and> 1 \<le> enr_WaitlistRank e"
  using rankedD(2,3) [OF ranked_after_calls [OF assms(1)]] assms(2-6) by blast

theorem waitlist_ranks_distinct_witness:
  "enr_WaitlistRank (sample_claim 1 1 EnrollmentWaitlisted 1) \<noteq> enr_WaitlistRank (sample_claim 2 2 EnrollmentWaitlisted 2)"
  using waitlist_ranks_distinct [of "at_time 5 waiting_campus" "sample_claim 1 1 EnrollmentWaitlisted 1" "[]"
      "sample_claim 2 2 EnrollmentWaitlisted 2" 1]
  by (simp add: after_calls_def ret_def) (simp add: sample_defs waiting_in_def)

section \<open>Plans\<close>

text \<open>C6: a student's plan stays sound. After any sequence of calls the credits every student holds in a
  term stay within its limit, and any two claims a student holds in the same term are for different
  sections and courses and never meet at the same minute.\<close>

theorem plans_stay_sound:
  assumes "plans_ok (tb w)" "trm \<in> set (tbl_rows (t_terms (after_calls cs w)))"
  shows "(\<forall>st. credits_held (after_calls cs w) st (trm_ID trm) \<le> trm_CreditLimit trm)
    \<and> (\<forall>e \<in> set (tbl_rows (t_enrollments (after_calls cs w))). \<forall>h \<in> set (tbl_rows (t_enrollments (after_calls cs w))).
        \<forall>st. e \<noteq> h \<longrightarrow> held_by st (trm_ID trm) e \<longrightarrow> held_by st (trm_ID trm) h \<longrightarrow> compatible (after_calls cs w) e h)"
  using plans_okD(4,5) [OF plans_after_calls [OF assms(1)]] assms(2) by blast

definition plan_day :: "seat_call list" where
  \<comment> \<open>ben takes the free seat\<close>
  "plan_day = [CallClaim 3 ben 2 1]"

definition other_claim :: enrollment where
  \<comment> \<open>what ana holds of the other course\<close>
  "other_claim = (sample_claim 2 1 EnrollmentEnrolled 0)\<lparr>enr_SectionID := 2, enr_CourseCode := ''MA101''\<rparr>"

lemma plan_day_rows:
  "take 2 (tbl_rows (t_enrollments (after_calls plan_day (at_time 5 plan_campus))))
    = [sample_claim 1 1 EnrollmentEnrolled 0, other_claim]"
  "tbl_rows (t_terms (after_calls plan_day (at_time 5 plan_campus))) = [sample_term]"
  by code_simp+

lemma plan_day_after:
  "sample_term \<in> set (tbl_rows (t_terms (after_calls plan_day (at_time 5 plan_campus))))"
  "sample_claim 1 1 EnrollmentEnrolled 0 \<in> set (tbl_rows (t_enrollments (after_calls plan_day (at_time 5 plan_campus))))"
  "other_claim \<in> set (tbl_rows (t_enrollments (after_calls plan_day (at_time 5 plan_campus))))"
  using plan_day_rows(2) in_set_takeD [of _ 2 "tbl_rows (t_enrollments (after_calls plan_day (at_time 5 plan_campus)))"]
  by (simp_all add: plan_day_rows(1))

theorem plans_stay_sound_witness:
  "credits_held (after_calls plan_day (at_time 5 plan_campus)) 2 1 \<le> 18
    \<and> compatible (after_calls plan_day (at_time 5 plan_campus)) (sample_claim 1 1 EnrollmentEnrolled 0) other_claim"
proof -
  have "plans_ok (tb (at_time 5 plan_campus))" by simp
  note sound = plans_stay_sound [OF this plan_day_after(1)]
  have "sample_claim 1 1 EnrollmentEnrolled 0 \<noteq> other_claim" "held_by 1 (trm_ID sample_term) (sample_claim 1 1 EnrollmentEnrolled 0)"
    "held_by 1 (trm_ID sample_term) other_claim" "trm_ID sample_term = 1" "trm_CreditLimit sample_term = 18"
    by (simp_all add: other_claim_def sample_claim_def held_by_def sample_term_def)
  then show ?thesis using sound plan_day_after(2,3) by auto
qed

section \<open>Single calls\<close>

lemma rows_add_list:
  "tbl_rows (t_enrollments (add_enrollment e t)) = tbl_rows (t_enrollments t) @ [stored e t]"
  by (simp add: add_enrollment_def table_insert_def stored_def)

lemma stored_row: "e\<lparr>enr_ID := tbl_seq (t_enrollments t) + 1, enr_Version := 1\<rparr> = stored e t"
  by (simp add: stored_def)

definition counters_moved :: "int \<Rightarrow> int \<Rightarrow> int \<Rightarrow> tables \<Rightarrow> tables \<Rightarrow> bool" where
  \<comment> \<open>the counters of the stored row of section \<open>i\<close> have moved, and no other section row has changed\<close>
  "counters_moved i seats places t t' \<longleftrightarrow> (\<exists>r \<in> set (tbl_rows (t_sections t)). sr_ID r = i)
     \<and> (\<exists>now. tbl_rows (t_sections t') = map (\<lambda>r. if sr_ID r \<noteq> i then r
          else r\<lparr>sr_SeatsTaken := sr_SeatsTaken r + seats, sr_WaitlistLength := sr_WaitlistLength r + places,
            sr_Version := sr_Version r + \<bar>seats\<bar> + \<bar>places\<bar>, sr_UpdatedAt := now\<rparr>) (tbl_rows (t_sections t)))"

lemma counters_put:
  assumes "ids_ok t" "r \<in> set (tbl_rows (t_sections t))" "t_sections t' = t_sections (put_section r' t)"
    and "r' = r\<lparr>sr_SeatsTaken := sr_SeatsTaken r + seats, sr_WaitlistLength := sr_WaitlistLength r + places,
      sr_Version := sr_Version r + \<bar>seats\<bar> + \<bar>places\<bar>, sr_UpdatedAt := now\<rparr>"
  shows "counters_moved (sr_ID r) seats places t t'"
proof -
  have "q = r" if "q \<in> set (tbl_rows (t_sections t))" "sr_ID q = sr_ID r" for q
    using section_key.by_id_unique [OF ids_okD(1) [OF assms(1)] that(1) assms(2) that(2)] .
  then have "tbl_rows (t_sections t') = map (\<lambda>r. if sr_ID r \<noteq> sr_ID r' then r
          else r\<lparr>sr_SeatsTaken := sr_SeatsTaken r + seats, sr_WaitlistLength := sr_WaitlistLength r + places,
            sr_Version := sr_Version r + \<bar>seats\<bar> + \<bar>places\<bar>, sr_UpdatedAt := now\<rparr>) (tbl_rows (t_sections t))"
    using assms(3,4) by (auto simp: put_section_def table_update_def)
  then show ?thesis using assms(2,4) unfolding counters_moved_def by (intro conjI exI [of _ now]) auto
qed

lemma seat_moves:
  "take_seat now r = r\<lparr>sr_SeatsTaken := sr_SeatsTaken r + 1, sr_WaitlistLength := sr_WaitlistLength r + 0,
     sr_Version := sr_Version r + \<bar>1\<bar> + \<bar>0\<bar>, sr_UpdatedAt := now\<rparr>"
  "return_seat now r = r\<lparr>sr_SeatsTaken := sr_SeatsTaken r + (- 1), sr_WaitlistLength := sr_WaitlistLength r + 0,
     sr_Version := sr_Version r + \<bar>- 1\<bar> + \<bar>0\<bar>, sr_UpdatedAt := now\<rparr>"
  "move_waitlist 1 now r = r\<lparr>sr_SeatsTaken := sr_SeatsTaken r + 0, sr_WaitlistLength := sr_WaitlistLength r + 1,
     sr_Version := sr_Version r + \<bar>0\<bar> + \<bar>1\<bar>, sr_UpdatedAt := now\<rparr>"
  "move_waitlist (- 1) now r = r\<lparr>sr_SeatsTaken := sr_SeatsTaken r + 0, sr_WaitlistLength := sr_WaitlistLength r + (- 1),
     sr_Version := sr_Version r + \<bar>0\<bar> + \<bar>- 1\<bar>, sr_UpdatedAt := now\<rparr>"
  "move_waitlist (- 1) now (take_seat now r) = r\<lparr>sr_SeatsTaken := sr_SeatsTaken r + 1,
     sr_WaitlistLength := sr_WaitlistLength r + (- 1), sr_Version := sr_Version r + \<bar>1\<bar> + \<bar>- 1\<bar>, sr_UpdatedAt := now\<rparr>"
  by (simp_all add: take_seat_def return_seat_def move_waitlist_def)

lemma claim_step_counters:
  assumes "claim_step actor req t c t'" "ids_ok t"
  shows "counters_moved (erq_SectionID req) (if clm_Waitlisted c then 0 else 1) (if clm_Waitlisted c then 1 else 0) t t'"
  using assms(1)
proof cases
  case (enroll r s trm now)
  then show ?thesis using counters_put [OF assms(2) enroll(2) _ seat_moves(1), of t' now] by simp
next
  case (wait r s trm now)
  then show ?thesis using counters_put [OF assms(2) wait(2) _ seat_moves(3), of t' now] by simp
qed

lemma claim_step_effect:
  assumes "claim_step actor req t c t'"
  shows "tbl_rows (t_enrollments t') = tbl_rows (t_enrollments t) @ [clm_Enrollment c]
    \<and> enr_StudentID (clm_Enrollment c) = erq_StudentID req \<and> enr_SectionID (clm_Enrollment c) = erq_SectionID req
    \<and> enr_Status (clm_Enrollment c) = (if clm_Waitlisted c then EnrollmentWaitlisted else EnrollmentEnrolled)
    \<and> seats_held t' (erq_SectionID req) = seats_held t (erq_SectionID req) + (if clm_Waitlisted c then 0 else 1)
    \<and> waiting t' (erq_SectionID req) = waiting t (erq_SectionID req) + (if clm_Waitlisted c then 1 else 0)"
  using assms
proof cases
  case (enroll r s trm now d e i ev)
  then show ?thesis
    using Transition_new_claim [OF enroll(9), simplified]
    by (simp add: rows_add_list stored_row shows_row_def HoldsSeat_def waiting_in_def)
next
  case (wait r s trm now d e0 e i ev)
  then show ?thesis
    using Transition_new_claim [OF wait(9), simplified]
    by (simp add: rows_add_list stored_row shows_row_def HoldsSeat_def waiting_in_def)
qed

text \<open>C3: a claim is all or nothing. A claim that succeeds has stored exactly one enrollment, of the student
  and section asked for, and moved exactly one counter of the stored row of that section by one, the
  seats taken or the length of the waitlist, and no other section row; a claim that fails, for
  whatever reason and after however many replays, has left at most a rejection in the trail.\<close>

theorem claim_all_or_nothing:
  assumes "ids_ok (tb w)" "Claim k actor st sec w = (r, w')"
  defines "student \<equiv> (if st \<le> 0 then prn_UserID actor else st)"
  shows "case r of
      Inl e \<Rightarrow> refused actor ActionEnrollmentClaim sec e (tb w) (tb w')
    | Inr c \<Rightarrow> CanActOnStudent actor student
        \<and> tbl_rows (t_enrollments (tb w')) = tbl_rows (t_enrollments (tb w)) @ [clm_Enrollment c]
        \<and> enr_StudentID (clm_Enrollment c) = student \<and> enr_SectionID (clm_Enrollment c) = sec
        \<and> enr_Status (clm_Enrollment c) = (if clm_Waitlisted c then EnrollmentWaitlisted else EnrollmentEnrolled)
        \<and> seats_held (tb w') sec = seats_held (tb w) sec + (if clm_Waitlisted c then 0 else 1)
        \<and> waiting (tb w') sec = waiting (tb w) sec + (if clm_Waitlisted c then 1 else 0)
        \<and> counters_moved sec (if clm_Waitlisted c then 0 else 1) (if clm_Waitlisted c then 1 else 0) (tb w) (tb w')"
proof (cases r)
  case (Inl e)
  then show ?thesis using Claim_outcome [OF assms(2,1)] by simp
next
  case (Inr c)
  then have step: "claim_step actor \<lparr>erq_StudentID = student, erq_SectionID = sec, erq_Reason = []\<rparr> (tb w) c (tb w')"
    "CanActOnStudent actor student" using Claim_outcome [OF assms(2,1)] by (simp_all add: student_def)
  show ?thesis unfolding Inr using claim_step_effect [OF step(1)] claim_step_counters [OF step(1) assms(1)] step(2) by simp
qed

lemma campus_eligible:
  "section_at campus 1 = Some (the (section_at campus 1))"
  "CheckEnrollmentEligibility (claim_input campus 1 (the (section_at campus 1)) sample_term 5)
     = Inr \<lparr>dec_Waitlist = False, dec_CreditsAfter = 4\<rparr>"
  "first_where (\<lambda>r. trm_ID r = sec_TermID (the (section_at campus 1))) (t_terms campus) = Some sample_term"
  "can_hold campus ana \<lparr>erq_StudentID = 1, erq_SectionID = 1, erq_Reason = []\<rparr> (the (section_at campus 1))"
  "CanActOnStudent ana 1"
  by code_simp+

lemma campus_claim:
  "\<exists>c t'. yields 5 ''req-1'' (Claim 3 ana 1 1) campus (Inr c) t' \<and> \<not> clm_Waitlisted c"
proof -
  let ?req = "\<lparr>erq_StudentID = 1, erq_SectionID = 1, erq_Reason = []\<rparr>"
  have req: "?req = \<lparr>erq_StudentID = (if (1::int) \<le> 0 then prn_UserID ana else 1), erq_SectionID = 1, erq_Reason = []\<rparr>"
    "request_Validate ?req = None" "CanActOnStudent ana (erq_StudentID ?req)"
    using campus_eligible(5) by (simp_all add: request_Validate_def)
  note claim = yields_Claim [OF _ req]
  have "section_at campus (erq_SectionID ?req) = Some (the (section_at campus 1))" using campus_eligible(1) by simp
  from claim_loop_decides [OF ledger_campus ranked_campus this campus_eligible(3,4), of 4 5 "''req-1''" 4]
  show ?thesis using campus_eligible(2) claim [of _ _ 3] by fastforce
qed

theorem claim_all_or_nothing_witness:
  "\<exists>c w'. Claim 3 ana 1 1 (at_time 5 campus) = (Inr c, w') \<and> seats_held (tb w') 1 = 1
    \<and> tbl_rows (t_enrollments (tb w')) = [clm_Enrollment c] \<and> counters_moved 1 1 0 campus (tb w')"
proof -
  obtain c t' where y: "yields 5 ''req-1'' (Claim 3 ana 1 1) campus (Inr c) t'" and c: "\<not> clm_Waitlisted c"
    using campus_claim by blast
  obtain w' where w': "Claim 3 ana 1 1 (at_time 5 campus) = (Inr c, w')"
    by (rule yieldsE [OF y calm_at_time])
  have "ids_ok (tb (at_time 5 campus))" "seats_held campus 1 = 0" "tbl_rows (t_enrollments campus) = []"
    by (simp_all add: seats_held_def count_where_def) (simp_all add: sample_defs)
  then show ?thesis using claim_all_or_nothing [OF _ w'] c w' by simp
qed

definition freed :: "enrollment \<Rightarrow> int" where
  \<comment> \<open>the seats a drop of the claim gives back\<close>
  "freed e = (if HoldsSeat (enr_Status e) then 1 else 0)"

lemma drop_step_effect:
  assumes "drop_step actor i reason t saved t'" "ids_ok t"
  shows "\<exists>e \<in> set (tbl_rows (t_enrollments t)). enr_ID e = i \<and> Active (enr_Status e)
    \<and> CanActOnStudent actor (enr_StudentID e)
    \<and> enr_Status saved = (if HoldsSeat (enr_Status e) then EnrollmentDropped else EnrollmentWithdrawn)
    \<and> seats_held t' (enr_SectionID e) = seats_held t (enr_SectionID e) - freed e
    \<and> waiting t' (enr_SectionID e) = waiting t (enr_SectionID e)
        - (if enr_Status e = EnrollmentWaitlisted then 1 else 0)"
  using assms(1)
proof cases
  case (release e now e1 r t1 t2 ev)
  note st = Transition_Inr(2) [OF release(6)]
  note n = counts_put [OF ids_okD(2) [OF assms(2)] release(2), of "write_enrollment e1 e" "enr_SectionID e", simplified]
  have "seats_held t' j = seats_held t1 j" "waiting t' j = waiting t1 j" for j
    using release(1,13) by (auto split: if_splits)
  then show ?thesis
    using release n st
    by (intro bexI [of _ e]) (simp_all add: Active_def freed_def HoldsSeat_def SeatDelta_def waiting_in_def)
next
  case (leave_waitlist e now e1 r t1 ev)
  note st = Transition_Inr(2) [OF leave_waitlist(6)]
  note n = counts_put [OF ids_okD(2) [OF assms(2)] leave_waitlist(2), of "write_enrollment e1 e" "enr_SectionID e", simplified]
  then show ?thesis
    using leave_waitlist st
    by (intro bexI [of _ e]) (simp_all add: Active_def freed_def HoldsSeat_def SeatDelta_def waiting_in_def)
next
  case (cancel e now e1 t1 ev)
  note st = Transition_Inr(2) [OF cancel(6)]
  note n = counts_put [OF ids_okD(2) [OF assms(2)] cancel(2), of "write_enrollment e1 e" "enr_SectionID e", simplified]
  then show ?thesis
    using cancel st
    by (intro bexI [of _ e]) (simp_all add: Active_def freed_def HoldsSeat_def SeatDelta_def waiting_in_def)
qed

lemma drop_step_counters:
  assumes "drop_step actor i reason t saved t'" "ids_ok t"
  shows "\<exists>e \<in> set (tbl_rows (t_enrollments t)). enr_ID e = i
    \<and> (if enr_Status e = EnrollmentPending then t_sections t' = t_sections t
       else counters_moved (enr_SectionID e) (- freed e) (if enr_Status e = EnrollmentWaitlisted then - 1 else 0) t t')"
  using assms(1)
proof cases
  case (release e now e1 r t1 t2 ev)
  then have "t_sections t' = t_sections (put_section (return_seat now r) t)" by (auto split: if_splits)
  then show ?thesis
    using release counters_put [OF assms(2) release(7) _ seat_moves(2), of t' now]
    by (intro bexI [of _ e]) (simp_all add: freed_def HoldsSeat_def)
next
  case (leave_waitlist e now e1 r t1 ev)
  then show ?thesis
    using counters_put [OF assms(2) leave_waitlist(7) _ seat_moves(4), of t' now]
    by (intro bexI [of _ e]) (simp_all add: freed_def HoldsSeat_def)
next
  case (cancel e now e1 t1 ev)
  then show ?thesis by (intro bexI [of _ e]) simp_all
qed

text \<open>C7: a drop is all or nothing, and it gives back exactly what the claim held: a seat, a place on the
  waitlist or nothing. The stored row of the section loses one from the counter of what was held, no
  other section row changes, and the drop of a pending claim leaves all of them alone. Only an active
  claim can be dropped, by an actor who may act for its student; a drop that fails has left at most a
  rejection in the trail.\<close>

theorem drop_all_or_nothing:
  assumes "ids_ok (tb w)" "Drop actor i reason w = (r, w')"
  shows "case r of
      Inl err \<Rightarrow> refused actor ActionEnrollmentDrop i err (tb w) (tb w')
    | Inr saved \<Rightarrow> (\<exists>e \<in> set (tbl_rows (t_enrollments (tb w))). enr_ID e = i \<and> Active (enr_Status e)
        \<and> CanActOnStudent actor (enr_StudentID e)
        \<and> enr_Status saved = (if HoldsSeat (enr_Status e) then EnrollmentDropped else EnrollmentWithdrawn)
        \<and> seats_held (tb w') (enr_SectionID e) = seats_held (tb w) (enr_SectionID e) - freed e
        \<and> waiting (tb w') (enr_SectionID e) = waiting (tb w) (enr_SectionID e)
            - (if enr_Status e = EnrollmentWaitlisted then 1 else 0)
        \<and> (if enr_Status e = EnrollmentPending then t_sections (tb w') = t_sections (tb w)
           else counters_moved (enr_SectionID e) (- freed e) (if enr_Status e = EnrollmentWaitlisted then - 1 else 0)
             (tb w) (tb w')))"
proof (cases r)
  case (Inl e)
  then show ?thesis using Drop_outcome [OF assms(2,1)] by simp
next
  case (Inr saved)
  then have step: "drop_step actor i reason (tb w) saved (tb w')" using Drop_outcome [OF assms(2,1)] by simp
  obtain e where e: "e \<in> set (tbl_rows (t_enrollments (tb w)))" "enr_ID e = i"
    "if enr_Status e = EnrollmentPending then t_sections (tb w') = t_sections (tb w)
       else counters_moved (enr_SectionID e) (- freed e) (if enr_Status e = EnrollmentWaitlisted then - 1 else 0) (tb w) (tb w')"
    using drop_step_counters [OF step assms(1)] by blast
  have "q = e" if "q \<in> set (tbl_rows (t_enrollments (tb w)))" "enr_ID q = i" for q
    using enrollment_key.by_id_unique [OF ids_okD(2) [OF assms(1)] that(1) e(1)] that(2) e(2) by simp
  then show ?thesis
    unfolding Inr sum.case using drop_step_effect [OF step assms(1)] e(1,3) by (intro bexI [of _ e]) blast+
qed

lemma full_campus_drop:
  "\<exists>saved w'. Drop ana 1 ''moved'' (at_time 5 full_campus) = (Inr saved, w') \<and> enr_Status saved = EnrollmentDropped
    \<and> enr_SectionID saved = 1"
proof -
  let ?x = "Drop ana 1 ''moved'' (at_time 5 full_campus)"
  have "map_sum id (\<lambda>e. (enr_Status e, enr_SectionID e)) (fst ?x) = Inr (EnrollmentDropped, 1)" by code_simp
  then show ?thesis by (cases ?x; cases "fst ?x") auto
qed

lemma full_campus_rows:
  "tbl_rows (t_enrollments full_campus) = [sample_claim 1 1 EnrollmentEnrolled 0, sample_claim 2 2 EnrollmentWaitlisted 1]"
  "seats_held full_campus 1 = 1" "waiting full_campus 1 = 1"
  by (simp_all add: seats_held_def waiting_def count_where_def)
    (simp_all add: sample_defs HoldsSeat_def waiting_in_def)

theorem drop_all_or_nothing_witness:
  "\<exists>saved w'. Drop ana 1 ''moved'' (at_time 5 full_campus) = (Inr saved, w') \<and> seats_held (tb w') 1 = 0
    \<and> enr_Status saved = EnrollmentDropped \<and> counters_moved 1 (- 1) 0 full_campus (tb w')"
proof -
  obtain saved w' where w': "Drop ana 1 ''moved'' (at_time 5 full_campus) = (Inr saved, w')"
    "enr_Status saved = EnrollmentDropped" using full_campus_drop by blast
  have "ids_ok (tb (at_time 5 full_campus))" by simp
  from drop_all_or_nothing [OF this w'(1)] show ?thesis
    using w' full_campus_rows by (auto simp: sample_claim_def freed_def HoldsSeat_def)
qed

lemma drop_step_enqueues:
  assumes "drop_step actor i reason t saved t'" "ledger t" "enr_Status saved = EnrollmentDropped"
    and "0 < waiting t (enr_SectionID saved)"
  shows "\<exists>j. job_Kind j = JobPromoteWaitlist \<and> job_Payload j = waitlist_payload (enr_SectionID saved)
    \<and> tbl_rows (t_jobs t') = tbl_rows (t_jobs t) @ [j]"
  using assms(1)
proof cases
  case (release e now e1 r t1 t2 ev)
  have sec: "enr_SectionID saved = sr_ID r" using release(11,8) Transition_Inr(6) [OF release(6)] by simp
  then have "0 < sr_WaitlistLength r"
    using assms(4) ledgerD(2) [OF assms(2) release(7)] by (simp add: row_balanced_def)
  then obtain j where j: "job_Kind j = JobPromoteWaitlist" "job_Payload j = waitlist_payload (sr_ID r)"
    "t2 = add_job j t1" using release(13) by auto
  have "tbl_rows (t_jobs t') = tbl_rows (t_jobs t) @ [j\<lparr>job_ID := tbl_seq (t_jobs t) + 1\<rparr>]"
    using j(3) release(1,12) by (simp add: put_defs table_insert_def)
  then show ?thesis
    using j(1,2) sec by (intro exI [of _ "j\<lparr>job_ID := tbl_seq (t_jobs t) + 1\<rparr>"]) simp
next
  case (leave_waitlist e now e1 r t1 ev)
  then show ?thesis using Transition_Inr(2) [OF leave_waitlist(6)] assms(3) by simp
next
  case (cancel e now e1 t1 ev)
  then show ?thesis using Transition_Inr(2) [OF cancel(6)] assms(3) by simp
qed

text \<open>C10: a released seat is offered to the waitlist. When a drop frees a seat of a section somebody waits
  for, the same transaction has queued a promotion job for that section.\<close>

theorem drop_queues_promotion:
  assumes "ledger (tb w)" "Drop actor i reason w = (Inr saved, w')" "enr_Status saved = EnrollmentDropped"
    and "0 < waiting (tb w) (enr_SectionID saved)"
  shows "\<exists>j. job_Kind j = JobPromoteWaitlist \<and> job_Payload j = waitlist_payload (enr_SectionID saved)
    \<and> tbl_rows (t_jobs (tb w')) = tbl_rows (t_jobs (tb w)) @ [j]"
  using Drop_outcome [OF assms(2) ledgerD(1) [OF assms(1)]] drop_step_enqueues [OF _ assms(1,3,4)] by simp

theorem drop_queues_promotion_witness:
  "\<exists>saved w' j. Drop ana 1 ''moved'' (at_time 5 full_campus) = (Inr saved, w')
    \<and> tbl_rows (t_jobs (tb w')) = [j] \<and> job_Kind j = JobPromoteWaitlist"
proof -
  obtain saved w' where w': "Drop ana 1 ''moved'' (at_time 5 full_campus) = (Inr saved, w')"
    "enr_Status saved = EnrollmentDropped" "enr_SectionID saved = 1" using full_campus_drop by blast
  have "ledger (tb (at_time 5 full_campus))" "0 < waiting (tb (at_time 5 full_campus)) (enr_SectionID saved)"
    "tbl_rows (t_jobs full_campus) = []"
    using w'(3) full_campus_rows(3) by (simp_all, simp add: sample_defs)
  then show ?thesis using drop_queues_promotion [OF _ w'(1,2)] w'(1) by auto
qed

section \<open>Promotion\<close>

lemma PromoteWaitlist_outcome:
  assumes "PromoteWaitlist i w = (r, w')" "ids_ok (tb w)"
  shows "case r of Inl e \<Rightarrow> tb w' = tb w | Inr b \<Rightarrow> promote_step i (tb w) b (tb w')"
proof (cases "i \<le> 0")
  case True
  then show ?thesis using assms(1) by (auto simp: PromoteWaitlist_def raise_def)
next
  case False
  let ?m = "promote_once i (w_clock w (w_tick w))"
  have tx: "InTx ?m (tick w) = (r, w')"
    using assms(1) False by (simp add: PromoteWaitlist_def andThen_def clock_now_def)
  show ?thesis
  proof (cases r)
    case (Inl e)
    then show ?thesis using InTx_Inl_tb [of ?m "tick w" e w'] tx by simp
  next
    case (Inr b)
    then have "InTx ?m (tick w) = (Inr b, w')" using tx by simp
    from tx.commit [OF this] obtain v1 v2 where v: "tb v1 = tb (tick w)" "?m v1 = (Inr b, v2)" "tb w' = tb v2"
      by blast
    have "promote_step i (tb v1) b (tb v2)"
      using promote_once_step [OF v(2)] v(1) assms(2) by (simp add: ids_okD)
    then show ?thesis using v Inr by simp
  qed
qed

lemma promoted_row:
  assumes "promote_step i t True t'" "ranked t"
  shows "\<exists>e rest e'. waitlist_of t i = e # rest \<and> waitlist_of t' i = rest
    \<and> set (tbl_rows (t_enrollments t')) = insert e' (set (tbl_rows (t_enrollments t)) - {e})
    \<and> enr_ID e' = enr_ID e \<and> enr_StudentID e' = enr_StudentID e \<and> enr_SectionID e' = i
    \<and> enr_Status e' = EnrollmentEnrolled \<and> seats_held t' i = seats_held t i + 1 \<and> waiting t' i = waiting t i - 1
    \<and> counters_moved i 1 (- 1) t t'"
  using assms(1)
proof cases
  case (promote r e rest now e1 ev)
  have r': "ranked t'" using ranked_step [OF seat_step.promote [OF assms(1)] assms(2)] .
  have e: "e \<in> set (tbl_rows (t_enrollments t))" "waiting_in i e"
    using waitlist_of_mem [of e t i] promote(6) by simp_all
  have te: "t_enrollments t' = t_enrollments (put_enrollment (write_enrollment e1 e) t)"
    by (simp add: promote(1))
  note st = Transition_Inr(2) [OF promote(7)]
  note n = counts_put [OF ids_okD(2) [OF rankedD(1) [OF assms(2)]] e(1), of "write_enrollment e1 e" i, simplified]
  note v = view_unwait [OF assms(2) r' te e(1) _ _ e(2), simplified, unfolded st, simplified]
  have rows: "set (tbl_rows (t_enrollments t')) = insert (write_enrollment e1 e) (set (tbl_rows (t_enrollments t)) - {e})"
    using rows_put [OF rankedD(1) [OF assms(2)] e(1), of "write_enrollment e1 e"] te by simp
  have "counters_moved i 1 (- 1) t t'"
    using counters_put [OF rankedD(1) [OF assms(2)] promote(2) _ seat_moves(5), of t' now] promote(1,3) by simp
  moreover have "seats_held t' i = seats_held t i + 1 \<and> waiting t' i = waiting t i - 1"
    using n e(2) st by (simp add: promote(1) waiting_in_def HoldsSeat_def SeatDelta_def)
  ultimately show ?thesis
    using v(1) promote(6) st rows e(2)
    by (intro exI [of _ e] exI [of _ rest] exI [of _ "write_enrollment e1 e"]) (simp add: waiting_in_def)
qed simp

lemma promote_step_effect:
  assumes "promote_step i t True t'" "ranked t"
  shows "\<exists>e rest e'. waitlist_of t i = e # rest \<and> waitlist_of t' i = rest
    \<and> e' \<in> set (tbl_rows (t_enrollments t')) \<and> enr_ID e' = enr_ID e \<and> enr_StudentID e' = enr_StudentID e
    \<and> enr_Status e' = EnrollmentEnrolled \<and> seats_held t' i = seats_held t i + 1 \<and> waiting t' i = waiting t i - 1"
  using promoted_row [OF assms] by (metis insertI1)

text \<open>C8: a promotion seats the head of the waitlist and nobody else, or changes nothing.\<close>

theorem promotion_takes_head:
  assumes "ranked (tb w)" "PromoteWaitlist i w = (r, w')"
  shows "(if r = Inr True
    then \<exists>e rest e'. waitlist_of (tb w) i = e # rest \<and> waitlist_of (tb w') i = rest
      \<and> e' \<in> set (tbl_rows (t_enrollments (tb w'))) \<and> enr_ID e' = enr_ID e \<and> enr_StudentID e' = enr_StudentID e
      \<and> enr_Status e' = EnrollmentEnrolled
      \<and> seats_held (tb w') i = seats_held (tb w) i + 1 \<and> waiting (tb w') i = waiting (tb w) i - 1
    else tb w' = tb w)"
proof (cases "r = Inr True")
  case True
  then show ?thesis
    using PromoteWaitlist_outcome [OF assms(2) rankedD(1) [OF assms(1)]] promote_step_effect [OF _ assms(1)] by simp
next
  case False
  then show ?thesis
    using PromoteWaitlist_outcome [OF assms(2) rankedD(1) [OF assms(1)]]
    by (cases r) (auto elim: promote_step.cases)
qed

lemma waiting_campus_head:
  "waitlist_of waiting_campus 1 = [sample_claim 1 1 EnrollmentWaitlisted 1, sample_claim 2 2 EnrollmentWaitlisted 2]"
  "section_at waiting_campus 1 = Some (the (section_at waiting_campus 1))"
  "sec_Status (the (section_at waiting_campus 1)) = SectionOpen"
  "sec_SeatsTaken (the (section_at waiting_campus 1)) < sec_Capacity (the (section_at waiting_campus 1))"
  by code_simp+

theorem promotion_takes_head_witness:
  "\<exists>w'. PromoteWaitlist 1 (at_time 5 waiting_campus) = (Inr True, w')
    \<and> waitlist_of (tb w') 1 = [sample_claim 2 2 EnrollmentWaitlisted 2]"
proof -
  obtain t' where y: "yields 5 ''req-1'' (PromoteWaitlist 1) waiting_campus (Inr True) t'"
    using yields_PromoteWaitlist [OF sample_ledgers(2) sample_ranked(2) sample_claims_ok(3)
        waiting_campus_head(2,3,4,1)] by auto
  obtain w' where w': "PromoteWaitlist 1 (at_time 5 waiting_campus) = (Inr True, w')"
    by (rule yieldsE [OF y calm_at_time])
  have "ranked (tb (at_time 5 waiting_campus))" by simp
  from promotion_takes_head [OF this w'] show ?thesis using w' waiting_campus_head(1) by auto
qed

section \<open>Runs without interference\<close>



definition calm_world_at :: "instant \<Rightarrow> string \<Rightarrow> tables \<Rightarrow> world" where
  "calm_world_at now rid t = (at_time now t)\<lparr>w_request_id := rid\<rparr>"

lemma calm_world_at [simp]: "calm now rid (calm_world_at now rid t)" "tb (calm_world_at now rid t) = t"
  by (simp_all add: calm_world_at_def calm_def at_time_def)

lemma yields_promotion_step:
  assumes "yields now rid (PromoteWaitlist i) t (Inr True) t'" "ids_ok t"
  shows "promote_step i t True t'"
proof -
  obtain w' where w': "PromoteWaitlist i (calm_world_at now rid t) = (Inr True, w')" "tb w' = t'"
    by (rule yieldsE [OF assms(1) calm_world_at])
  have "ids_ok (tb (calm_world_at now rid t))" using assms(2) by simp
  from PromoteWaitlist_outcome [OF w'(1) this] show ?thesis using w'(2) by simp
qed

text \<open>C9: a freed seat is filled from the waitlist. When no driver call fails, promoting a section that is
  open, has a free seat and a waitlist enrolls the head of the waitlist: that claim, and no other,
  is rewritten, the rest of the waitlist keeps its order, and the stored row of the section counts
  one seat more and one place less.\<close>

theorem promotion_fills_free_seat:
  assumes "ledger t" "ranked t" "claims_ok t" "section_at t i = Some s" "sec_Status s = SectionOpen"
    and "sec_SeatsTaken s < sec_Capacity s" "waitlist_of t i = e # rest" "0 < i"
  shows "\<exists>t' e'. yields now rid (PromoteWaitlist i) t (Inr True) t'
    \<and> set (tbl_rows (t_enrollments t')) = insert e' (set (tbl_rows (t_enrollments t)) - {e})
    \<and> enr_ID e' = enr_ID e \<and> enr_StudentID e' = enr_StudentID e \<and> enr_SectionID e' = i
    \<and> enr_Status e' = EnrollmentEnrolled \<and> waitlist_of t' i = rest
    \<and> seats_held t' i = seats_held t i + 1 \<and> waiting t' i = waiting t i - 1 \<and> counters_moved i 1 (- 1) t t'"
proof -
  obtain t' where y: "yields now rid (PromoteWaitlist i) t (Inr True) t'" using yields_PromoteWaitlist [OF assms] by blast
  have step: "promote_step i t True t'" by (rule yields_promotion_step [OF y rankedD(1) [OF assms(2)]])
  from promoted_row [OF step assms(2)] y assms(7) show ?thesis by auto
qed

theorem promotion_fills_free_seat_witness:
  "\<exists>t' e'. yields 5 ''req-1'' (PromoteWaitlist 1) waiting_campus (Inr True) t'
    \<and> e' \<in> set (tbl_rows (t_enrollments t'))
    \<and> enr_ID e' = 1 \<and> enr_StudentID e' = 1 \<and> enr_Status e' = EnrollmentEnrolled
    \<and> waitlist_of t' 1 = [sample_claim 2 2 EnrollmentWaitlisted 2] \<and> counters_moved 1 1 (- 1) waiting_campus t'"
proof -
  have "enr_ID (sample_claim 1 1 EnrollmentWaitlisted 1) = 1" "enr_StudentID (sample_claim 1 1 EnrollmentWaitlisted 1) = 1"
    by (simp_all add: sample_claim_def)
  then show ?thesis
    using promotion_fills_free_seat [OF sample_ledgers(2) sample_ranked(2) sample_claims_ok(3)
        waiting_campus_head(2,3,4,1), of 5 "''req-1''"] by simp blast
qed

section \<open>A newcomer may overtake the waitlist\<close>

text \<open>the queue orders the waitlist, not newcomers. Between the drop and the promotion job a new claim takes
  the free seat directly; the promotion then finds no seat, and the waiting student stays waiting.\<close>

theorem newcomer_overtakes:
  "map (\<lambda>e. (enr_StudentID e, enr_Status e)) (tbl_rows (t_enrollments
     (after_calls [CallDrop ana 1 ''moved'', CallClaim 3 ana 1 1, CallPromote 1] (at_time 5 full_campus))))
   = [(1, EnrollmentDropped), (2, EnrollmentWaitlisted), (1, EnrollmentEnrolled)]"
  by code_simp

end
