(* ===== verification/SectionQueue.thy ===== *)
theory SectionQueue
  imports SeatProperties
begin

text \<open>
  A section as its users see it. What the calls of a sequence answer is turned into the events of
  the section (who got a seat, who was put on the waitlist, when the queue advanced, who gave up
  what), and the abstract section of \<open>Waitlist\<close>, fed with exactly these events, ends in the state
  the tables stand for.
\<close>

section \<open>What the calls answer\<close>

datatype seat_answer =
    ClaimAnswer "err + claim_result"
  | DropAnswer "err + enrollment"
  | PromoteAnswer int "err + bool"
  | BatchAnswer "err + (batch_item list \<times> err option)"

fun observe :: "seat_call \<Rightarrow> seat_answer op" where
  "observe (CallClaim k actor st sec) = andThen (attempt (Claim k actor st sec)) (\<lambda>r. ret (ClaimAnswer r))"
| "observe (CallDrop actor i reason) = andThen (attempt (Drop actor i reason)) (\<lambda>r. ret (DropAnswer r))"
| "observe (CallPromote i) = andThen (attempt (PromoteWaitlist i)) (\<lambda>r. ret (PromoteAnswer i r))"
| "observe (CallBatch k actor st secs) = andThen (attempt (BatchClaim k actor st secs)) (\<lambda>r. ret (BatchAnswer r))"

fun observe_all :: "seat_call list \<Rightarrow> seat_answer list op" where
  "observe_all [] = ret []"
| "observe_all (c # cs) = andThen (observe c) (\<lambda>a. andThen (observe_all cs) (\<lambda>as. ret (a # as)))"

lemma observe_perform: "observe c w = (r, w') \<Longrightarrow> perform c w = (Inr (), w') \<and> (\<exists>a. r = Inr a)"
  by (cases c) (auto simp: andThen_def attempt_def ret_def split: prod.splits)

lemma observe_all_after:
  "\<exists>answers. observe_all cs w = (Inr answers, snd (perform_all cs w))"
proof (induction cs arbitrary: w)
  case (Cons c cs)
  obtain r w1 where o: "observe c w = (r, w1)" by fastforce
  with observe_perform [OF o] Cons.IH [of w1] show ?case by (auto simp: andThen_def ret_def)
qed (simp add: ret_def)

section \<open>The events an answer tells\<close>

definition item_tells :: "int \<Rightarrow> batch_item \<Rightarrow> section_event list \<Rightarrow> bool" where
  \<comment> \<open>the message of a successful item names the new claim\<close>
  "item_tells i it evs \<longleftrightarrow> (if bi_Succeeded it \<and> bi_SectionID it = i
     then \<exists>x. bi_Message it = ''enrollment '' @ itoa x @ '' created''
       \<and> evs = [if bi_Status it = Some EnrollmentWaitlisted then Queued x else Seated x]
     else evs = [])"

fun tells :: "int \<Rightarrow> seat_answer \<Rightarrow> section_event list \<Rightarrow> bool" where
  \<comment> \<open>a call that failed tells nothing\<close>
  "tells i (ClaimAnswer r) evs \<longleftrightarrow> evs = (case r of Inl _ \<Rightarrow> [] | Inr c \<Rightarrow> claim_events i c)"
| "tells i (DropAnswer r) evs \<longleftrightarrow> evs = (case r of Inl _ \<Rightarrow> [] | Inr saved \<Rightarrow> drop_events i saved)"
| "tells i (PromoteAnswer j r) evs \<longleftrightarrow> evs = (case r of Inl _ \<Rightarrow> [] | Inr b \<Rightarrow> promote_events i j b)"
| "tells i (BatchAnswer r) evs \<longleftrightarrow> (case r of Inl _ \<Rightarrow> evs = []
     | Inr (items, _) \<Rightarrow> \<exists>per. list_all2 (item_tells i) items per \<and> evs = concat per)"

section \<open>Each call refines its events\<close>

definition section_in :: "int \<Rightarrow> int \<Rightarrow> int \<Rightarrow> tables \<Rightarrow> bool" where
  \<comment> \<open>a sound database that holds section \<open>i\<close> with this capacity and waitlist limit\<close>
  "section_in i capacity limit t \<longleftrightarrow> ledger t \<and> ranked t
     \<and> (\<exists>q \<in> set (tbl_rows (t_sections t)). sr_ID q = i \<and> sr_Capacity q = capacity \<and> sr_WaitlistLimit q = limit)"

lemma section_in_run: "seat_step\<^sup>*\<^sup>* t t' \<Longrightarrow> section_in i capacity limit t \<Longrightarrow> section_in i capacity limit t'"
  using section_shape_run [of t t'] ledger_inv.run [of t t'] ranked_inv.run [of t t'] ledgerD(1) [of t]
  unfolding section_in_def by metis

lemma section_in_step: "seat_step t t' \<Longrightarrow> section_in i capacity limit t \<Longrightarrow> section_in i capacity limit t'"
  by (rule section_in_run [OF r_into_rtranclp])

lemma refused_view [simp]: "refused actor action k e t t' \<Longrightarrow> view t' i = view t i"
  by (auto simp: refused_def view_def holders_def waitlist_of_def)

lemma refused_section_in: "refused actor action k e t t' \<Longrightarrow> section_in i capacity limit t \<Longrightarrow> section_in i capacity limit t'"
  by (rule section_in_step [OF seat_step.elsewhere]) (auto simp: refused_def add_audit_def)

lemma Claim_tells:
  assumes "Claim k actor st sec w = (r, w')" "section_in i capacity limit (tb w)"
  shows "react_all capacity limit (case r of Inl _ \<Rightarrow> [] | Inr c \<Rightarrow> claim_events i c) (view (tb w) i) = Some (view (tb w') i)"
    "section_in i capacity limit (tb w')"
proof -
  have ok: "ledger (tb w)" "ranked (tb w)" "ids_ok (tb w)"
    using assms(2) by (auto simp: section_in_def dest: ledgerD)
  note out = Claim_outcome [OF assms(1) ok(3)]
  show "react_all capacity limit (case r of Inl _ \<Rightarrow> [] | Inr c \<Rightarrow> claim_events i c) (view (tb w) i) = Some (view (tb w') i)"
    using out claim_refines [OF _ ok(1,2)] assms(2) by (cases r) (auto simp: section_in_def)
  show "section_in i capacity limit (tb w')"
    using out by (cases r) (auto intro: refused_section_in section_in_step seat_step.claim assms(2))
qed

lemma Drop_tells:
  assumes "Drop actor j reason w = (r, w')" "section_in i capacity limit (tb w)"
  shows "react_all capacity limit (case r of Inl _ \<Rightarrow> [] | Inr saved \<Rightarrow> drop_events i saved) (view (tb w) i) = Some (view (tb w') i)"
    "section_in i capacity limit (tb w')"
proof -
  have ok: "ledger (tb w)" "ranked (tb w)" "ids_ok (tb w)"
    using assms(2) by (auto simp: section_in_def dest: ledgerD)
  note out = Drop_outcome [OF assms(1) ok(3)]
  show "react_all capacity limit (case r of Inl _ \<Rightarrow> [] | Inr saved \<Rightarrow> drop_events i saved) (view (tb w) i) = Some (view (tb w') i)"
    using out drop_refines [OF _ ok(1,2)] assms(2) by (cases r) (auto simp: section_in_def)
  show "section_in i capacity limit (tb w')"
    using out by (cases r) (auto intro: refused_section_in section_in_step seat_step.drop assms(2))
qed

lemma Promote_tells:
  assumes "PromoteWaitlist j w = (r, w')" "section_in i capacity limit (tb w)"
  shows "react_all capacity limit (case r of Inl _ \<Rightarrow> [] | Inr b \<Rightarrow> promote_events i j b) (view (tb w) i) = Some (view (tb w') i)"
    "section_in i capacity limit (tb w')"
proof -
  have ok: "ledger (tb w)" "ranked (tb w)" "ids_ok (tb w)"
    using assms(2) by (auto simp: section_in_def dest: ledgerD)
  note out = PromoteWaitlist_outcome [OF assms(1) ok(3)]
  show "react_all capacity limit (case r of Inl _ \<Rightarrow> [] | Inr b \<Rightarrow> promote_events i j b) (view (tb w) i) = Some (view (tb w') i)"
    using out promote_refines [OF _ ok(1,2)] assms(2) by (cases r) (auto simp: section_in_def)
  show "section_in i capacity limit (tb w')"
    using out by (cases r) (auto intro: section_in_step seat_step.promote simp: assms(2))
qed

lemma claimed_item:
  assumes "Claim k actor st sec w = (Inr c, w')" "ids_ok (tb w)"
  shows "item_tells i \<lparr>bi_SectionID = sec, bi_Status = Some (enr_Status (clm_Enrollment c)), bi_Succeeded = True,
     bi_Code = code, bi_Message = ''enrollment '' @ itoa (enr_ID (clm_Enrollment c)) @ '' created''\<rparr> (claim_events i c)"
proof -
  have "claim_step actor \<lparr>erq_StudentID = (if st \<le> 0 then prn_UserID actor else st), erq_SectionID = sec, erq_Reason = []\<rparr>
      (tb w) c (tb w')" using Claim_outcome [OF assms] by simp
  from claim_step_effect [OF this] have "enr_SectionID (clm_Enrollment c) = sec"
    "enr_Status (clm_Enrollment c) = (if clm_Waitlisted c then EnrollmentWaitlisted else EnrollmentEnrolled)" by simp_all
  then show ?thesis by (simp add: item_tells_def claim_events_def)
qed

lemma batch_loop_tells:
  assumes "batch_loop k actor st secs results w = (r, w')" "section_in i capacity limit (tb w)"
  shows "\<exists>items e per. r = Inr (results @ items, e) \<and> list_all2 (item_tells i) items per
    \<and> react_all capacity limit (concat per) (view (tb w) i) = Some (view (tb w') i)"
  using assms
proof (induction secs arbitrary: results w)
  case Nil
  then show ?case by (auto simp: ret_def)
next
  case (Cons sec secs)
  show ?case
  proof (cases "w_done w (w_tick w)")
    case (Some e)
    then show ?thesis using Cons.prems(1) by (auto simp: andThen_def ctx_Err_def ret_def)
  next
    case None
    obtain q w1 where q: "Claim k actor st sec (tick w) = (q, w1)" by fastforce
    define it where "it = (case q of
           Inl e \<Rightarrow> \<lparr>bi_SectionID = sec, bi_Status = None, bi_Succeeded = False,
             bi_Code = Code (Some e), bi_Message = error_text e\<rparr>
         | Inr claimed \<Rightarrow> \<lparr>bi_SectionID = sec, bi_Status = Some (enr_Status (clm_Enrollment claimed)),
             bi_Succeeded = True, bi_Code = ''ok'',
             bi_Message = ''enrollment '' @ itoa (enr_ID (clm_Enrollment claimed)) @ '' created''\<rparr>)"
    define evs where "evs = (case q of Inl _ \<Rightarrow> [] | Inr c \<Rightarrow> claim_events i c)"
    have rest: "batch_loop k actor st secs (results @ [it]) w1 = (r, w')"
      using Cons.prems(1) None q by (simp add: andThen_def ctx_Err_def attempt_def it_def)
    have sec: "section_in i capacity limit (tb (tick w))" using Cons.prems(2) by simp
    note step = Claim_tells [OF q sec, folded evs_def]
    from Cons.IH [OF rest step(2)] obtain items e per where *: "r = Inr ((results @ [it]) @ items, e)"
      "list_all2 (item_tells i) items per"
      "react_all capacity limit (concat per) (view (tb w1) i) = Some (view (tb w') i)" by blast
    have "item_tells i it evs"
    proof (cases q)
      case (Inr c)
      have "ids_ok (tb (tick w))" using sec by (auto simp: section_in_def dest: ledgerD)
      then show ?thesis using claimed_item [OF q [unfolded Inr]] by (simp add: it_def evs_def Inr)
    qed (simp add: it_def evs_def item_tells_def)
    then show ?thesis
      using * step(1) by (intro exI [of _ "it # items"] exI [of _ e] exI [of _ "evs # per"]) (simp add: react_all_append)
  qed
qed

lemma Batch_tells:
  assumes "BatchClaim k actor st secs w = (r, w')" "section_in i capacity limit (tb w)"
  shows "\<exists>evs. tells i (BatchAnswer r) evs \<and> react_all capacity limit evs (view (tb w) i) = Some (view (tb w') i)"
proof -
  consider "\<exists>e. r = Inr ([], e) \<and> w' = w"
    | "batch_loop k actor (if st \<le> 0 then prn_UserID actor else st) secs [] w = (r, w')"
    using assms(1) by (auto simp: BatchClaim_def Let_def ret_def split: if_splits)
  then show ?thesis
  proof cases
    case 2
    from batch_loop_tells [OF this assms(2)] show ?thesis by fastforce
  qed auto
qed

lemma observe_tells:
  assumes "observe c w = (Inr a, w')" "section_in i capacity limit (tb w)"
  shows "\<exists>evs. tells i a evs \<and> react_all capacity limit evs (view (tb w) i) = Some (view (tb w') i)"
  using assms(1) Claim_tells(1) [OF _ assms(2)] Drop_tells(1) [OF _ assms(2)] Promote_tells(1) [OF _ assms(2)]
    Batch_tells [OF _ assms(2)]
  by (cases c) (fastforce simp: andThen_def attempt_def ret_def split: prod.splits)+

section \<open>The refinement\<close>

lemma observe_all_tells:
  assumes "observe_all cs w = (Inr answers, w')" "section_in i capacity limit (tb w)"
  shows "\<exists>evs. list_all2 (tells i) answers evs
    \<and> react_all capacity limit (concat evs) (view (tb w) i) = Some (view (tb w') i)"
  using assms
proof (induction cs arbitrary: w answers)
  case Nil
  then show ?case by (auto simp: ret_def)
next
  case (Cons c cs)
  from Cons.prems(1) obtain a as w1 where o: "observe c w = (Inr a, w1)" "observe_all cs w1 = (Inr as, w')" "answers = a # as"
    by (auto simp: andThen_def ret_def split: prod.splits sum.splits)
  have "perform c w = (Inr (), w1)" using observe_perform [OF o(1)] by simp
  then have "seat_step\<^sup>*\<^sup>* (tb w) (tb w1)"
    using evolvesD [OF evolves_perform] Cons.prems(2) by (auto simp: section_in_def dest: ledgerD)
  from Cons.IH [OF o(2) section_in_run [OF this Cons.prems(2)]] obtain evs where
    "list_all2 (tells i) as evs" "react_all capacity limit (concat evs) (view (tb w1) i) = Some (view (tb w') i)" by blast
  moreover obtain ev where "tells i a ev" "react_all capacity limit ev (view (tb w) i) = Some (view (tb w1) i)"
    using observe_tells [OF o(1) Cons.prems(2)] by blast
  ultimately show ?case using o(3) by (intro exI [of _ "ev # evs"]) (simp add: react_all_append)
qed

text \<open>C4: seen from outside, a section is a bounded set of seat holders with a first-in first-out queue. The
  calls of any sequence answer, and the abstract section with the capacity and waitlist limit of the
  row, fed with the events these answers tell, in order, accepts every one of them and ends with the
  seat holders and the ordered waitlist the tables show. A claim that joins goes to the end of the
  queue, an advance seats whoever is first in it, and failed calls tell nothing and move nothing.\<close>

theorem section_refines_queue:
  assumes "ledger (tb w)" "ranked (tb w)" "q \<in> set (tbl_rows (t_sections (tb w)))"
  shows "\<exists>answers evs. observe_all cs w = (Inr answers, snd (perform_all cs w))
    \<and> list_all2 (tells (sr_ID q)) answers evs
    \<and> react_all (sr_Capacity q) (sr_WaitlistLimit q) (concat evs) (view (tb w) (sr_ID q))
        = Some (view (after_calls cs w) (sr_ID q))"
proof -
  obtain answers where a: "observe_all cs w = (Inr answers, snd (perform_all cs w))" using observe_all_after by blast
  have "section_in (sr_ID q) (sr_Capacity q) (sr_WaitlistLimit q) (tb w)"
    using assms by (auto simp: section_in_def)
  from observe_all_tells [OF a this] a show ?thesis by (auto simp: after_calls_def)
qed

lemma waiting_campus_view: "view waiting_campus 1 = \<lparr>sv_Holders = {}, sv_Queue = [1, 2]\<rparr>"
  unfolding view_def waiting_campus_head(1)
  by (simp add: holders_def) (simp add: sample_defs HoldsSeat_def)

lemma promote_answer: "fst (observe_all [CallPromote 1] (at_time 5 waiting_campus)) = Inr [PromoteAnswer 1 (Inr True)]"
  by code_simp

theorem section_refines_queue_witness:
  "view (after_calls [CallPromote 1] (at_time 5 waiting_campus)) 1 = \<lparr>sv_Holders = {1}, sv_Queue = [2]\<rparr>"
proof -
  let ?q = "sample_section\<lparr>sr_WaitlistLength := 2, sr_WaitlistLimit := 2\<rparr>"
  have q: "?q \<in> set (tbl_rows (t_sections waiting_campus))" "sr_ID ?q = 1" "sr_Capacity ?q = 1" by (simp_all add: sample_defs)
  from section_refines_queue [of "at_time 5 waiting_campus" ?q "[CallPromote 1]"] obtain answers evs where *:
    "observe_all [CallPromote 1] (at_time 5 waiting_campus)
       = (Inr answers, snd (perform_all [CallPromote 1] (at_time 5 waiting_campus)))"
    "list_all2 (tells 1) answers evs" "react_all 1 (sr_WaitlistLimit ?q) (concat evs) (view waiting_campus 1)
       = Some (view (after_calls [CallPromote 1] (at_time 5 waiting_campus)) 1)"
    using q by auto
  from *(1) have "answers = [PromoteAnswer 1 (Inr True)]" using promote_answer by simp
  with *(2) have "evs = [[Advanced]]" by (auto simp: list_all2_Cons1 promote_events_def)
  with *(3) show ?thesis by (simp add: waiting_campus_view)
qed

end
