(* ===== verification/ClaimRows.thy ===== *)
theory ClaimRows
  imports SeatProperties
begin

text \<open>
  The shape of a stored seat claim: its status says which of its time stamps are set and whether it
  carries a place on a waitlist. Every step of the platform keeps it.
\<close>

section \<open>The shape\<close>

fun stamps_ok :: "enrollment_status \<Rightarrow> bool \<Rightarrow> bool \<Rightarrow> int \<Rightarrow> bool" where
  \<comment> \<open>whether the claim was decided, whether it was released, and its place on the waitlist\<close>
  "stamps_ok EnrollmentPending decided released rank \<longleftrightarrow> \<not> decided \<and> \<not> released \<and> rank = 0"
| "stamps_ok EnrollmentEnrolled decided released rank \<longleftrightarrow> decided \<and> \<not> released \<and> rank = 0"
| "stamps_ok EnrollmentWaitlisted decided released rank \<longleftrightarrow> decided \<and> \<not> released \<and> 0 < rank"
| "stamps_ok EnrollmentDropped decided released rank \<longleftrightarrow> decided \<and> released \<and> rank = 0"
| "stamps_ok EnrollmentWithdrawn decided released rank \<longleftrightarrow> released \<and> rank = 0"
| "stamps_ok EnrollmentCompleted decided released rank \<longleftrightarrow> decided \<and> \<not> released \<and> rank = 0"
| "stamps_ok (EnrollmentOther s) decided released rank \<longleftrightarrow> False"

definition claim_shape :: "enrollment \<Rightarrow> bool" where
  "claim_shape e \<longleftrightarrow> 0 < enr_Credits e
     \<and> stamps_ok (enr_Status e) (enr_DecidedAt e \<noteq> None) (enr_ReleasedAt e \<noteq> None) (enr_WaitlistRank e)
     \<and> (enr_ReleasedAt e = None \<longrightarrow> enr_ReleaseReason e = [])"

definition shapes_ok :: "tables \<Rightarrow> bool" where
  "shapes_ok t \<longleftrightarrow> ranked t \<and> (\<forall>e \<in> set (tbl_rows (t_enrollments t)). claim_shape e)"

lemma shapes_okD:
  assumes "shapes_ok t"
  shows "ranked t" "ids_ok t" "e \<in> set (tbl_rows (t_enrollments t)) \<Longrightarrow> claim_shape e"
  using assms rankedD(1) unfolding shapes_ok_def by blast+

section \<open>Steps\<close>

lemma shape_new_claim:
  assumes "Transition (new_claim st trm s now) target now [] = Inr e" "enrollment_row_ok e"
  shows "target = EnrollmentEnrolled \<Longrightarrow> claim_shape e"
    and "target = EnrollmentWaitlisted \<Longrightarrow> 0 < n \<Longrightarrow> claim_shape (e\<lparr>enr_WaitlistRank := n\<rparr>)"
  using assms
  by (auto simp: Transition_def new_claim_def stamp_transition_def claim_shape_def enrollment_row_ok_def split: if_splits)

lemma shape_move:
  assumes "Transition e target now reason = Inr e1" "claim_shape e"
    and "target \<in> {EnrollmentEnrolled, EnrollmentDropped, EnrollmentWithdrawn}"
  shows "claim_shape (write_enrollment e1 e)"
  using assms
  by (cases "enr_Status e")
    (auto simp: Transition_def stamp_transition_def claim_shape_def write_enrollment_def CanTransitionTo_def split: if_splits)

lemma shape_stored: "claim_shape e \<Longrightarrow> claim_shape (stored e t)"
  by (simp add: claim_shape_def stored_def)

lemma shapes_add:
  assumes "shapes_ok t" "ranked t'" "t_enrollments t' = t_enrollments (add_enrollment e t)" "claim_shape e"
  shows "shapes_ok t'"
  using assms(2,4) shapes_okD(3) [OF assms(1)] shape_stored unfolding shapes_ok_def assms(3) rows_add by blast

lemma shapes_put:
  assumes "shapes_ok t" "ranked t'" "t_enrollments t' = t_enrollments (put_enrollment e' t)"
    and "e \<in> set (tbl_rows (t_enrollments t))" "enr_ID e' = enr_ID e" "claim_shape e'"
  shows "shapes_ok t'"
  using assms(2,6) shapes_okD(3) [OF assms(1)] rows_put [OF shapes_okD(2) [OF assms(1)] assms(4,5)]
  by (auto simp: shapes_ok_def assms(3))

lemma shapes_step: "seat_step t t' \<Longrightarrow> shapes_ok t \<Longrightarrow> shapes_ok t'"
proof (induction rule: seat_step.induct)
  case (claim actor req t c t')
  note ranked = ranked_step [OF seat_step.claim [OF claim.hyps] shapes_okD(1) [OF claim.prems]]
  from claim.hyps show ?case
  proof cases
    case (enroll r s trm now d e i ev)
    then show ?thesis
      by (intro shapes_add [OF claim.prems ranked, of e] shape_new_claim(1) [OF _ _ refl])
        (simp_all add: add_enrollment_def)
  next
    case (wait r s trm now d e0 e i ev)
    have "1 \<le> next_rank t (sr_ID r)" by (rule next_rank_pos [OF shapes_okD(1) [OF claim.prems]])
    moreover have "enrollment_row_ok e0" using wait(10,14) by (simp add: enrollment_row_ok_def Transition_new_claim(7) [OF wait(9)])
    ultimately have "claim_shape e" unfolding wait(10) by (intro shape_new_claim(2) [OF wait(9) _ refl]) simp_all
    then show ?thesis by (intro shapes_add [OF claim.prems ranked, of e]) (simp_all add: wait(1) add_enrollment_def)
  qed
next
  case (promote i t b t')
  note ranked = ranked_step [OF seat_step.promote [OF promote.hyps] shapes_okD(1) [OF promote.prems]]
  from promote.hyps show ?case
  proof cases
    case idle
    then show ?thesis using promote.prems by simp
  next
    case (promote r e rest now e1 ev)
    have e: "e \<in> set (tbl_rows (t_enrollments t))"
      using waitlist_of_mem [of e t i] promote(7) by simp
    show ?thesis
      by (intro shapes_put [OF promote.prems ranked, of "write_enrollment e1 e" e])
        (use shape_move [OF promote(8) shapes_okD(3) [OF promote.prems e]] e in \<open>simp_all add: promote(2)\<close>)
  qed
next
  case (drop actor i reason t saved t')
  note ranked = ranked_step [OF seat_step.drop [OF drop.hyps] shapes_okD(1) [OF drop.prems]]
  note row = shape_move [OF _ shapes_okD(3) [OF drop.prems]]
  from drop.hyps show ?case
  proof cases
    case (release e now e1 r t1 t2 ev)
    have "t_enrollments t2 = t_enrollments t1" using release(13) by (auto split: if_splits)
    then show ?thesis
      by (intro shapes_put [OF drop.prems ranked, of "write_enrollment e1 e" e])
        (use release(2,5) row [OF release(6,2)] in \<open>simp_all add: release(1,12)\<close>)
  next
    case (leave_waitlist e now e1 r t1 ev)
    then show ?thesis
      by (intro shapes_put [OF drop.prems ranked, of "write_enrollment e1 e" e])
        (use row [OF leave_waitlist(6,2)] in simp_all)
  next
    case (cancel e now e1 t1 ev)
    then show ?thesis
      by (intro shapes_put [OF drop.prems ranked, of "write_enrollment e1 e" e])
        (use row [OF cancel(6,2)] in simp_all)
  qed
next
  case (elsewhere t' t)
  then show ?case using ranked_step [OF seat_step.elsewhere] by (simp add: shapes_ok_def)
qed

interpretation shapes_inv: step_invariant shapes_ok
  by unfold_locales (auto dest: shapes_okD(2) shapes_step)

section \<open>Any sequence of calls\<close>

text \<open>C32: stored claims are well formed. After any sequence of claims, drops, promotions and batch claims,
  whatever driver calls fail, the status of each stored claim is one the schema knows, it was decided exactly
  when it left the pending state by a decision, it carries a release time exactly when it is dropped or
  withdrawn and a reason only then, it has a place on the waitlist exactly when it waits, and its credits are
  positive.\<close>

theorem claims_well_formed:
  assumes "ranked (tb w)" "list_all claim_shape (tbl_rows (t_enrollments (tb w)))"
  shows "list_all claim_shape (tbl_rows (t_enrollments (after_calls cs w)))"
  using shapes_inv.service [OF evolves_perform_all, of w cs] assms
  by (simp add: shapes_ok_def list_all_iff after_calls_def)

theorem claims_well_formed_witness:
  "list_all claim_shape (tbl_rows (t_enrollments (after_calls busy_day (at_time 5 campus))))"
proof -
  have "ranked (tb (at_time 5 campus))"
    by (simp add: ranked_def ids_ok_def section_key.keyed_def enrollment_key.keyed_def sample_defs)
  moreover have "list_all claim_shape (tbl_rows (t_enrollments (tb (at_time 5 campus))))"
    by (simp add: sample_defs)
  ultimately show ?thesis by (rule claims_well_formed)
qed

end
