(* ===== verification/AccountStore.thy ===== *)
theory AccountStore
  imports Evolution
begin

text \<open>
  The account repositories: principals (\<open>internal/storage/sqlite/users.go\<close>) and server side
  sessions (\<open>internal/storage/sqlite/sessions.go\<close>).
\<close>

section \<open>Users\<close>

definition insert_user :: "user \<Rightarrow> tables \<Rightarrow> err + (int \<times> tables)" where
  "insert_user u t =
     (if \<not> role_Valid (usr_Role u) then Inl (check_violation ''users'')
      else if exists_where (\<lambda>v. usr_Email v = usr_Email u) (t_users t)
      then Inl (unique_violation ''users.email'')
      else Inr (tbl_seq (t_users t) + 1,
        t\<lparr>t_users := table_insert (\<lambda>i r. r\<lparr>usr_ID := i\<rparr>) u (t_users t)\<rparr>))"

definition CreateUser :: "user \<Rightarrow> user op" where
  "CreateUser u =
     andThen (lift_result (NormalizeEmail (usr_Email u))) (\<lambda>email.
     if \<not> role_Valid (usr_Role u)
     then raise (FieldError ''role'' ''must be student or registrar'')
     else if usr_PasswordHash u = [] then raise (FieldError ''password'' ''must not be empty'')
     else
     andThen (on_error (\<lambda>err. if isUniqueViolation err
         then Wrapped (''user '' @ email @ '' already exists'') (Sentinel ErrConflict)
         else Wrapped ''insert user'' err)
       (exec (insert_user (u\<lparr>usr_Email := email\<rparr>)))) (\<lambda>i.
     andThen (on_error (Wrapped ''read inserted user id'') driver) (\<lambda>_.
     ret (u\<lparr>usr_ID := i, usr_Email := email\<rparr>))))"

definition FindUserByEmail :: "string \<Rightarrow> user op" where
  "FindUserByEmail email =
     andThen (lift_result (NormalizeEmail email)) (\<lambda>normalized.
     on_error (notFound (''user '' @ normalized))
       (query_row (\<lambda>t. first_where (\<lambda>u. usr_Email u = normalized) (t_users t))))"

definition FindUserByID :: "int \<Rightarrow> user op" where
  "FindUserByID i = on_error (notFound (''user '' @ itoa i))
     (query_row (\<lambda>t. first_where (\<lambda>u. usr_ID u = i) (t_users t)))"

section \<open>Sessions\<close>

definition insert_session :: "session \<Rightarrow> tables \<Rightarrow> err + (int \<times> tables)" where
  "insert_session s t =
     (if exists_where (\<lambda>q. ses_TokenDigest q = ses_TokenDigest s) (t_sessions t)
      then Inl (unique_violation ''sessions.token_digest'')
      else if \<not> exists_where (\<lambda>u. usr_ID u = ses_UserID s) (t_users t) then Inl foreign_key_violation
      else Inr (tbl_seq (t_sessions t) + 1,
        t\<lparr>t_sessions := table_insert (\<lambda>i r. r\<lparr>ses_ID := i\<rparr>) s (t_sessions t)\<rparr>))"

definition CreateSession :: "session \<Rightarrow> session op" where
  "CreateSession s =
     (if ses_TokenDigest s = [] then raise (FieldError ''token'' ''digest must not be empty'')
      else if \<not> ses_IssuedAt s < ses_ExpiresAt s
      then raise (FieldError ''session.expires_at'' ''must be after issued_at'')
      else
      andThen (on_error (\<lambda>err. if isUniqueViolation err
          then Wrapped ''session digest collision'' (Sentinel ErrConflict)
          else Wrapped ''insert session'' err)
        (exec (insert_session s))) (\<lambda>i.
      andThen (on_error (Wrapped ''read inserted session id'') driver) (\<lambda>_.
      ret (s\<lparr>ses_ID := i\<rparr>))))"

definition session_by_digest :: "string \<Rightarrow> tables \<Rightarrow> session option" where
  "session_by_digest digest t = first_where (\<lambda>s. ses_TokenDigest s = digest) (t_sessions t)"

definition FindSessionByDigest :: "string \<Rightarrow> session op" where
  "FindSessionByDigest digest =
     (if digest = [] then raise (Wrapped ''session lookup'' (Sentinel ErrUnauthenticated))
      else on_error (notFound ''session'') (query_row (session_by_digest digest)))"

definition open_session :: "int \<Rightarrow> session \<Rightarrow> bool" where
  \<comment> \<open>\<open>id = ? AND revoked_at IS NULL\<close>\<close>
  "open_session i s \<longleftrightarrow> ses_ID s = i \<and> ses_RevokedAt s = None"

definition update_session :: "int \<Rightarrow> (session \<Rightarrow> session) \<Rightarrow> tables \<Rightarrow> err + (int \<times> tables)" where
  "update_session i f t = Inr (count_where (open_session i) (t_sessions t),
     t\<lparr>t_sessions := table_update (open_session i) f (t_sessions t)\<rparr>)"

definition TouchSession :: "int \<Rightarrow> instant \<Rightarrow> unit op" where
  "TouchSession i seenAt =
     andThen (on_error (Wrapped (''touch session '' @ itoa i))
       (exec (update_session i (\<lambda>s. s\<lparr>ses_LastSeenAt := seenAt\<rparr>)))) (\<lambda>affected.
     andThen (on_error (Wrapped (''touch session '' @ itoa i @ '' rows'')) driver) (\<lambda>_.
     if affected = 0 then raise (Wrapped (''session '' @ itoa i) (Sentinel ErrNotFound)) else ret ()))"

definition RevokeSession :: "int \<Rightarrow> instant \<Rightarrow> unit op" where
  "RevokeSession i at =
     andThen (on_error (Wrapped (''revoke session '' @ itoa i))
       (exec (update_session i (\<lambda>s. s\<lparr>ses_RevokedAt := Some at\<rparr>)))) (\<lambda>affected.
     andThen (on_error (Wrapped (''revoke session '' @ itoa i @ '' rows'')) driver) (\<lambda>_.
     if affected = 0
     then raise (Wrapped (''session '' @ itoa i @ '' already revoked or missing'') (Sentinel ErrNotFound))
     else ret ()))"

definition expired_session :: "instant \<Rightarrow> session \<Rightarrow> bool" where
  "expired_session before s \<longleftrightarrow> ses_RevokedAt s = None \<and> time_text_le (ses_ExpiresAt s) before"

definition expiry_order :: "session \<Rightarrow> session \<Rightarrow> bool" where
  "expiry_order a b \<longleftrightarrow> time_text_le (ses_ExpiresAt a) (ses_ExpiresAt b)"

definition sweep_limit :: "int \<Rightarrow> int" where
  "sweep_limit limit = (if limit \<le> 0 then 100 else limit)"

definition sweep_victims :: "instant \<Rightarrow> int \<Rightarrow> tables \<Rightarrow> int list" where
  \<comment> \<open>the subquery that picks the rows\<close>
  "sweep_victims before limit t = map ses_ID (limit_offset limit 0
     (order_by expiry_order (select_where (expired_session before) (t_sessions t))))"

definition RevokeExpiredSessions :: "instant \<Rightarrow> int \<Rightarrow> int op" where
  "RevokeExpiredSessions before limit =
     andThen (on_error (Wrapped ''revoke expired sessions'')
       (exec (\<lambda>t. let victims = sweep_victims before (sweep_limit limit) t in
          Inr (count_where (\<lambda>s. ses_ID s \<in> set victims) (t_sessions t),
            t\<lparr>t_sessions := table_update (\<lambda>s. ses_ID s \<in> set victims)
              (\<lambda>s. s\<lparr>ses_RevokedAt := Some before\<rparr>) (t_sessions t)\<rparr>)))) (\<lambda>affected.
     andThen (on_error (Wrapped ''revoke expired sessions rows'') driver) (\<lambda>_. ret affected))"

definition active_session :: "int \<Rightarrow> instant \<Rightarrow> session \<Rightarrow> bool" where
  "active_session userID now s \<longleftrightarrow>
     ses_UserID s = userID \<and> ses_RevokedAt s = None \<and> time_text_less now (ses_ExpiresAt s)"

definition CountActiveSessions :: "int \<Rightarrow> instant \<Rightarrow> int op" where
  "CountActiveSessions userID now =
     countRows (\<lambda>t. count_where (active_session userID now) (t_sessions t))"

section \<open>What the operations leave alone\<close>

lemma account_reads [reads_intro]:
  "reads (FindUserByEmail e)" "reads (FindUserByID i)" "reads (FindSessionByDigest d)"
  "reads (CountActiveSessions uid now)"
  unfolding FindUserByEmail_def FindUserByID_def FindSessionByDigest_def CountActiveSessions_def
  by (intro reads_intro)+

lemma account_tame [tame_intro]:
  "tame (CreateUser u)" "tame (FindUserByEmail e)" "tame (FindUserByID i)" "tame (CreateSession s)"
  "tame (FindSessionByDigest d)" "tame (TouchSession i at)" "tame (RevokeSession i at)"
  "tame (RevokeExpiredSessions at n)" "tame (CountActiveSessions uid at)"
  unfolding CreateUser_def FindUserByEmail_def FindUserByID_def CreateSession_def FindSessionByDigest_def
    TouchSession_def RevokeSession_def RevokeExpiredSessions_def CountActiveSessions_def
  by (intro tame_intro)+

section \<open>The session table\<close>

definition sessions_ok :: "tables \<Rightarrow> bool" where
  \<comment> \<open>keys and token digests are distinct\<close>
  "sessions_ok t \<longleftrightarrow> session_key.keyed (t_sessions t)
     \<and> distinct (map ses_TokenDigest (tbl_rows (t_sessions t)))"

definition session_after :: "session \<Rightarrow> session \<Rightarrow> bool" where
  \<comment> \<open>what may become of a stored session: it can be seen again or revoked, never reopened\<close>
  "session_after s s' \<longleftrightarrow> ses_ID s' = ses_ID s \<and> ses_UserID s' = ses_UserID s
     \<and> ses_TokenDigest s' = ses_TokenDigest s \<and> ses_IssuedAt s' = ses_IssuedAt s
     \<and> ses_ExpiresAt s' = ses_ExpiresAt s \<and> ses_UserAgent s' = ses_UserAgent s
     \<and> (ses_RevokedAt s \<noteq> None \<longrightarrow> ses_RevokedAt s' = ses_RevokedAt s)"

lemma session_after_refl [simp]: "session_after s s"
  by (simp add: session_after_def)

lemma session_after_trans: "session_after a b \<Longrightarrow> session_after b c \<Longrightarrow> session_after a c"
  by (auto simp: session_after_def)

definition sessions_evolve :: "tables \<Rightarrow> tables \<Rightarrow> bool" where
  "sessions_evolve t t' \<longleftrightarrow> (sessions_ok t \<longrightarrow> sessions_ok t'
     \<and> (\<forall>s \<in> set (tbl_rows (t_sessions t)). \<exists>s' \<in> set (tbl_rows (t_sessions t')). session_after s s'))"

lemma sessions_evolve_refl [simp]: "sessions_evolve t t"
  unfolding sessions_evolve_def using session_after_refl by blast

lemma sessions_evolve_trans: "sessions_evolve t u \<Longrightarrow> sessions_evolve u v \<Longrightarrow> sessions_evolve t v"
  unfolding sessions_evolve_def by (meson session_after_trans)

lemma sessions_evolve_same: "t_sessions t' = t_sessions t \<Longrightarrow> sessions_evolve t t'"
  unfolding sessions_evolve_def sessions_ok_def using session_after_refl by metis

lemma by_digest:
  assumes "sessions_ok t" "s \<in> set (tbl_rows (t_sessions t))"
  shows "session_by_digest (ses_TokenDigest s) t = Some s"
  using assms find_distinct_key [of ses_TokenDigest "tbl_rows (t_sessions t)" s] by (simp add: sessions_ok_def session_by_digest_def first_where_def)

lemma sessions_evolve_update:
  assumes "\<And>s. s \<in> set (tbl_rows (t_sessions t)) \<Longrightarrow> P s \<Longrightarrow> session_after s (f s)"
  shows "sessions_evolve t (t\<lparr>t_sessions := table_update P f (t_sessions t)\<rparr>)"
proof -
  let ?rows = "tbl_rows (t_sessions t)" and ?g = "\<lambda>s. if P s then f s else s"
  let ?t' = "t\<lparr>t_sessions := table_update P f (t_sessions t)\<rparr>"
  have rows: "tbl_rows (t_sessions ?t') = map ?g ?rows" "tbl_seq (t_sessions ?t') = tbl_seq (t_sessions t)"
    by (simp_all add: table_update_def)
  have g: "session_after s (?g s)" if "s \<in> set ?rows" for s
    using assms [OF that] by simp
  then have keys: "map ses_ID (map ?g ?rows) = map ses_ID ?rows"
      "map ses_TokenDigest (map ?g ?rows) = map ses_TokenDigest ?rows"
    by (auto simp: session_after_def)
  have same: "ses_ID (?g s) = ses_ID s" if "s \<in> set ?rows" for s
    using g [OF that] by (simp only: session_after_def)
  have "\<forall>s' \<in> set (map ?g ?rows). 1 \<le> ses_ID s' \<and> ses_ID s' \<le> tbl_seq (t_sessions t)"
    if "\<forall>s \<in> set ?rows. 1 \<le> ses_ID s \<and> ses_ID s \<le> tbl_seq (t_sessions t)"
  proof
    fix s' assume "s' \<in> set (map ?g ?rows)"
    then obtain s where s: "s \<in> set ?rows" "s' = ?g s" by auto
    have "ses_ID s' = ses_ID s" unfolding s(2) by (rule same [OF s(1)])
    then show "1 \<le> ses_ID s' \<and> ses_ID s' \<le> tbl_seq (t_sessions t)"
      using s(1) that by simp
  qed
  then have "sessions_ok t \<Longrightarrow> sessions_ok ?t'"
    unfolding sessions_ok_def session_key.keyed_def rows keys by blast
  moreover have "\<exists>s' \<in> set (map ?g ?rows). session_after s s'" if "s \<in> set ?rows" for s
    using that by (intro bexI [of _ "?g s"], intro g) simp_all
  ultimately show ?thesis
    unfolding sessions_evolve_def rows by blast
qed

lemma sessions_evolve_insert:
  assumes "insert_session s t = Inr (i, t')"
  shows "sessions_evolve t t'"
proof -
  from assms have t': "t' = t\<lparr>t_sessions := table_insert (\<lambda>i r. r\<lparr>ses_ID := i\<rparr>) s (t_sessions t)\<rparr>"
    and fresh: "ses_TokenDigest s \<notin> ses_TokenDigest ` set (tbl_rows (t_sessions t))"
    by (auto simp: insert_session_def exists_where_iff split: if_splits)
  show ?thesis
    unfolding sessions_evolve_def sessions_ok_def t'
    using session_key.keyed_insert [of "t_sessions t" s] fresh
    by (auto simp: table_insert_def intro: session_after_refl)
qed

section \<open>What the operations do\<close>

interpretation sessions: evolution sessions_evolve
  by unfold_locales (simp, rule sessions_evolve_trans)

lemma limit_offset_subset: "set (limit_offset n k xs) \<subseteq> set xs"
  by (auto simp: limit_offset_def Let_def dest: in_set_takeD in_set_dropD)

lemma sweep_victims_expired:
  assumes "session_key.keyed (t_sessions t)" "s \<in> set (tbl_rows (t_sessions t))"
    and "ses_ID s \<in> set (sweep_victims before k t)"
  shows "expired_session before s"
proof -
  obtain q where "q \<in> set (select_where (expired_session before) (t_sessions t))" "ses_ID q = ses_ID s"
    using assms(3) limit_offset_subset unfolding sweep_victims_def by fastforce
  then show ?thesis using session_key.by_id_unique [OF assms(1), of q s] assms(2) by simp
qed

lemma session_ops_keep [keeps_intro]:
  "sessions.keeps (CreateSession s)" "sessions.keeps (TouchSession i at)"
  "sessions.keeps (RevokeSession i at)" "sessions.keeps (RevokeExpiredSessions at n)"
  "sessions.keeps (CreateUser u)"
proof -
  have update: "sessions_evolve t t'"
    if "update_session i f t = Inr (n, t')" "\<And>s. session_after s (f s) \<or> ses_RevokedAt s \<noteq> None" for t n t' i f
  proof -
    from that(1) have "t' = t\<lparr>t_sessions := table_update (open_session i) f (t_sessions t)\<rparr>"
      by (simp add: update_session_def)
    then show ?thesis
      by (simp only:) (rule sessions_evolve_update, use that(2) in \<open>force simp: open_session_def\<close>)
  qed
  show "sessions.keeps (CreateSession s)"
    unfolding CreateSession_def by (intro keeps_intro sessions_evolve_insert)
  show "sessions.keeps (TouchSession i at)"
    unfolding TouchSession_def by (intro keeps_intro, erule update) (simp add: session_after_def)
  show "sessions.keeps (RevokeSession i at)"
    unfolding RevokeSession_def by (intro keeps_intro, erule update) (simp add: session_after_def)
  have "sessions_evolve t (t\<lparr>t_sessions := table_update (\<lambda>s. ses_ID s \<in> set (sweep_victims at k t))
    (\<lambda>s. s\<lparr>ses_RevokedAt := Some at\<rparr>) (t_sessions t)\<rparr>)" for t k
  proof (cases "sessions_ok t")
    case True
    then have "expired_session at s"
      if "s \<in> set (tbl_rows (t_sessions t))" "ses_ID s \<in> set (sweep_victims at k t)" for s
      using sweep_victims_expired [OF _ that] by (simp add: sessions_ok_def)
    then show ?thesis
      by (intro sessions_evolve_update) (auto simp: session_after_def expired_session_def)
  qed (simp add: sessions_evolve_def)
  then show "sessions.keeps (RevokeExpiredSessions at n)"
    unfolding RevokeExpiredSessions_def Let_def by (intro keeps_intro) auto
  show "sessions.keeps (CreateUser u)"
    unfolding CreateUser_def
    by (intro keeps_intro sessions_evolve_same) (auto simp: insert_user_def split: if_splits)
qed

end
