(* ===== verification/Encodings.thy ===== *)
theory Encodings
  imports Prelude
begin

text \<open>
  The text encodings of the standard library the program goes through: decimal integers
  (\<open>strconv\<close>), \<open>strings.Split\<close>, lower-case hexadecimal (\<open>encoding/hex\<close>), unpadded
  base64 (\<open>base64.RawStdEncoding\<close>) and unpadded base32, each with the round trip the
  components rely on. A byte is a \<open>char\<close>.
\<close>

section \<open>Splitting\<close>

fun split_on :: "char \<Rightarrow> string \<Rightarrow> string list" where
  \<comment> \<open>\<open>strings.Split(s, sep)\<close> for a separator of one byte\<close>
  "split_on c [] = [[]]"
| "split_on c (x # xs) = (if x = c then [] # split_on c xs
     else (case split_on c xs of [] \<Rightarrow> [[x]] | p # ps \<Rightarrow> (x # p) # ps))"

lemma split_on_ne [simp]: "split_on c s \<noteq> []"
  by (induction s) (auto split: list.split)

lemma split_on_plain: "c \<notin> set p \<Longrightarrow> split_on c p = [p]"
  by (induction p) auto

lemma split_on_append: "c \<notin> set p \<Longrightarrow> split_on c (p @ c # s) = p # split_on c s"
  by (induction p) auto

lemma split_join:
  assumes "\<forall>p \<in> set ps. c \<notin> set p" "ps \<noteq> []"
  shows "split_on c (string_join [c] ps) = ps"
  using assms by (induction "[c]" ps rule: string_join.induct) (auto simp: split_on_plain split_on_append)

lemma join_split: "string_join [c] (split_on c s) = s"
proof (induction s)
  case (Cons x xs)
  obtain p ps where "split_on c xs = p # ps" by (cases "split_on c xs") auto
  then show ?case using Cons by (cases ps) auto
qed simp

section \<open>Decimal integers\<close>

definition is_digit :: "char \<Rightarrow> bool" where
  "is_digit c \<longleftrightarrow> CHR ''0'' \<le> c \<and> c \<le> CHR ''9''"

definition digit_value :: "char \<Rightarrow> nat" where
  "digit_value c = of_char c - 48"

definition utoi :: "string \<Rightarrow> nat option" where
  "utoi s = (if s = [] \<or> \<not> list_all is_digit s then None
     else Some (foldl (\<lambda>a c. 10 * a + digit_value c) 0 s))"

definition in_int64 :: "int \<Rightarrow> bool" where
  "in_int64 n \<longleftrightarrow> - (2 ^ 63) \<le> n \<and> n < 2 ^ 63"

definition ParseInt :: "string \<Rightarrow> int option" where
  \<comment> \<open>\<open>strconv.ParseInt(s, 10, 64)\<close> and \<open>strconv.Atoi\<close>, an error as \<open>None\<close>\<close>
  "ParseInt s =
     (let (neg, ds) = (case s of [] \<Rightarrow> (False, []) | c # cs \<Rightarrow>
            if c = CHR ''-'' then (True, cs) else if c = CHR ''+'' then (False, cs) else (False, s))
      in case utoi ds of None \<Rightarrow> None
         | Some n \<Rightarrow> let v = (if neg then - int n else int n) in if in_int64 v then Some v else None)"

lemma digit_facts:
  assumes "d < 10"
  shows "is_digit (digit d)" "digit_value (digit d) = d" "digit d \<noteq> CHR ''-''" "digit d \<noteq> CHR ''+''" "digit d \<noteq> CHR ''$''"
proof -
  have "d \<in> {0,1,2,3,4,5,6,7,8,9}" using assms by auto
  then show "is_digit (digit d)" "digit_value (digit d) = d" "digit d \<noteq> CHR ''-''" "digit d \<noteq> CHR ''+''" "digit d \<noteq> CHR ''$''"
    by (auto simp: digit_def is_digit_def digit_value_def less_eq_char_def)
qed

lemma utoa_digits: "c \<in> set (utoa n) \<Longrightarrow> \<exists>d < 10. c = digit d"
proof (induction n rule: utoa.induct)
  case (1 n)
  show ?case
  proof (cases "n < 10")
    case True
    then show ?thesis using 1(2) by (subst (asm) utoa.simps) auto
  next
    case False
    then have "c \<in> set (utoa (n div 10)) \<or> c = digit (n mod 10)" using 1(2) by (subst (asm) utoa.simps) auto
    then show ?thesis using 1(1) False by (auto intro: exI [of _ "n mod 10"])
  qed
qed

lemma utoa_ne: "utoa n \<noteq> []"
  by (subst utoa.simps) simp

lemma utoa_foldl: "foldl (\<lambda>a c. 10 * a + digit_value c) 0 (utoa n) = n"
proof (induction n rule: utoa.induct)
  case (1 n)
  then show ?case by (subst utoa.simps) (simp add: digit_facts)
qed

lemma utoi_utoa [simp]: "utoi (utoa n) = Some n"
proof -
  have "list_all is_digit (utoa n)"
    by (auto simp: list_all_iff dest!: utoa_digits intro: digit_facts)
  then show ?thesis by (simp add: utoi_def utoa_ne utoa_foldl)
qed

lemma utoa_head: "hd (utoa n) \<noteq> CHR ''-'' \<and> hd (utoa n) \<noteq> CHR ''+''"
proof -
  obtain d where "d < 10" "hd (utoa n) = digit d" using utoa_digits [OF hd_in_set [OF utoa_ne]] by blast
  then show ?thesis using digit_facts(3,4) [of d] by simp
qed

lemma ParseInt_itoa: "in_int64 n \<Longrightarrow> ParseInt (itoa n) = Some n"
proof (cases "n < 0")
  case True
  then show "in_int64 n \<Longrightarrow> ParseInt (itoa n) = Some n" by (simp add: ParseInt_def itoa_def)
next
  case False
  obtain c cs where u: "utoa (nat n) = c # cs" using utoa_ne by (cases "utoa (nat n)") auto
  have "c \<noteq> CHR ''-''" "c \<noteq> CHR ''+''" using utoa_head [of "nat n"] u by simp_all
  moreover have "utoi (c # cs) = Some (nat n)" using utoi_utoa [of "nat n"] u by simp
  ultimately show "in_int64 n \<Longrightarrow> ParseInt (itoa n) = Some n"
    using False u by (simp add: ParseInt_def itoa_def)
qed

lemma itoa_plain: "CHR ''$'' \<notin> set (itoa n)"
proof -
  have "CHR ''$'' \<notin> set (utoa m)" for m using utoa_digits digit_facts(5) by fastforce
  then show ?thesis by (simp add: itoa_def)
qed

section \<open>Alphabets\<close>

lemma index_byte_nth:
  assumes "distinct xs" "i < length xs"
  shows "index_byte (xs ! i) xs = Some i"
  using assms
proof (induction xs arbitrary: i)
  case (Cons x xs)
  then show ?case by (cases i) (auto simp: nth_mem)
qed simp

lemma index_byte_bound: "index_byte c xs = Some i \<Longrightarrow> i < length xs \<and> xs ! i = c"
  by (induction xs arbitrary: i) (auto split: if_splits)

definition hex_digits :: string where "hex_digits = ''0123456789abcdef''"

definition hex_encode :: "string \<Rightarrow> string" where
  "hex_encode bs = concat (map (\<lambda>b. [hex_digits ! (of_char b div 16), hex_digits ! (of_char b mod 16)]) bs)"

lemma length_hex_encode: "length (hex_encode bs) = 2 * length bs"
  by (induction bs) (simp_all add: hex_encode_def)

definition base64_alphabet :: string where
  "base64_alphabet = ''ABCDEFGHIJKLMNOPQRSTUVWXYZabcdefghijklmnopqrstuvwxyz0123456789+/''"

definition base32_alphabet :: string where
  "base32_alphabet = ''ABCDEFGHIJKLMNOPQRSTUVWXYZ234567''"

lemma alphabet_facts:
  "length base64_alphabet = 64" "distinct base64_alphabet" "CHR ''$'' \<notin> set base64_alphabet"
  "CHR 0x0A \<notin> set base64_alphabet" "CHR 0x0D \<notin> set base64_alphabet"
  by (code_simp, code_simp, code_simp, code_simp, code_simp)

section \<open>Base64\<close>

fun sextets :: "nat list \<Rightarrow> nat list" where
  "sextets (a # b # c # r) =
     (a div 4) # ((a mod 4) * 16 + b div 16) # ((b mod 16) * 4 + c div 64) # (c mod 64) # sextets r"
| "sextets [a, b] = [a div 4, (a mod 4) * 16 + b div 16, (b mod 16) * 4]"
| "sextets [a] = [a div 4, (a mod 4) * 16]"
| "sextets [] = []"

fun octets :: "nat list \<Rightarrow> nat list" where
  "octets (p # q # r # s # t) = (p * 4 + q div 16) # ((q mod 16) * 16 + r div 4) # ((r mod 4) * 64 + s) # octets t"
| "octets [p, q, r] = [p * 4 + q div 16, (q mod 16) * 16 + r div 4]"
| "octets [p, q] = [p * 4 + q div 16]"
| "octets _ = []"

definition base64_encode :: "string \<Rightarrow> string" where
  \<comment> \<open>\<open>base64.RawStdEncoding.EncodeToString\<close>\<close>
  "base64_encode bs = map (\<lambda>i. base64_alphabet ! i) (sextets (map of_char bs))"

definition line_break :: "char \<Rightarrow> bool" where
  "line_break c \<longleftrightarrow> c = CHR 0x0A \<or> c = CHR 0x0D"

fun bad_index :: "nat \<Rightarrow> string \<Rightarrow> nat option" where
  \<comment> \<open>the first byte outside the alphabet; line breaks are skipped\<close>
  "bad_index i [] = None"
| "bad_index i (c # cs) = (if \<not> line_break c \<and> index_byte c base64_alphabet = None then Some i
     else bad_index (Suc i) cs)"

definition base64_decode :: "string \<Rightarrow> nat + string" where
  \<comment> \<open>\<open>base64.RawStdEncoding.DecodeString\<close>; on the left the position a \<open>CorruptInputError\<close> names\<close>
  "base64_decode s = (case bad_index 0 s of Some i \<Rightarrow> Inl i
     | None \<Rightarrow>
        (let vs = map (\<lambda>c. the (index_byte c base64_alphabet)) (filter (\<lambda>c. \<not> line_break c) s) in
         if length vs mod 4 = 1 then Inl (length s - 1)
         else Inr (map (\<lambda>n. char_of (n mod 256)) (octets vs))))"

lemma halves16:
  assumes "(b::nat) < 256"
  obtains x y where "x < 16" "y < 16" "b = x * 16 + y" "b div 16 = x" "b mod 16 = y"
proof
  show "b div 16 < 16" using assms by (simp add: div_less_iff_less_mult)
qed simp_all

lemma halves64:
  assumes "(c::nat) < 256"
  obtains x y where "x < 4" "y < 64" "c = x * 64 + y" "c div 64 = x" "c mod 64 = y"
proof
  show "c div 64 < 4" using assms by (simp add: div_less_iff_less_mult)
qed simp_all

lemma sextet_values:
  assumes "(a::nat) < 256" "b < 256" "c < 256"
  shows "a div 4 < 64" "(a mod 4) * 16 + b div 16 < 64" "(b mod 16) * 4 + c div 64 < 64" "(b mod 16) * 4 < 64"
    "(a mod 4) * 16 < 64" "c mod 64 < 64"
    "(a div 4) * 4 + ((a mod 4) * 16 + b div 16) div 16 = a" "(a div 4) * 4 + ((a mod 4) * 16) div 16 = a"
    "((a mod 4) * 16 + b div 16) mod 16 * 16 + ((b mod 16) * 4 + c div 64) div 4 = b"
    "((a mod 4) * 16 + b div 16) mod 16 * 16 + ((b mod 16) * 4) div 4 = b"
    "((b mod 16) * 4 + c div 64) mod 4 * 64 + c mod 64 = c"
proof -
  have a4: "a mod 4 < 4" by simp
  obtain x y where b: "x < 16" "y < 16" "b = x * 16 + y" "b div 16 = x" "b mod 16 = y" using assms(2) by (rule halves16)
  obtain u v where c: "u < 4" "v < 64" "c = u * 64 + v" "c div 64 = u" "c mod 64 = v" using assms(3) by (rule halves64)
  show "a div 4 < 64" using assms(1) by (simp add: div_less_iff_less_mult)
  show "(a mod 4) * 16 + b div 16 < 64" "(b mod 16) * 4 + c div 64 < 64" "(b mod 16) * 4 < 64" "(a mod 4) * 16 < 64" "c mod 64 < 64"
    using a4 b c by linarith+
  have "((a mod 4) * 16 + x) div 16 = a mod 4" using b(1) by simp
  then show "(a div 4) * 4 + ((a mod 4) * 16 + b div 16) div 16 = a" using b(4) by simp
  show "(a div 4) * 4 + ((a mod 4) * 16) div 16 = a" by simp
  have x: "((a mod 4) * 16 + x) mod 16 = x" using b(1) by simp
  have "(y * 4 + u) div 4 = y" "(y * 4 + u) mod 4 = u" using c(1) by simp_all
  then show "((a mod 4) * 16 + b div 16) mod 16 * 16 + ((b mod 16) * 4 + c div 64) div 4 = b"
    "((a mod 4) * 16 + b div 16) mod 16 * 16 + ((b mod 16) * 4) div 4 = b"
    "((b mod 16) * 4 + c div 64) mod 4 * 64 + c mod 64 = c"
    unfolding b(4,5) c(4,5) x using b(3) c(3) by simp_all
qed

lemma sextets_bound: "\<forall>b \<in> set bs. b < 256 \<Longrightarrow> \<forall>v \<in> set (sextets bs). v < 64"
proof (induction bs rule: sextets.induct)
  case (1 a b c r)
  then show ?case using sextet_values [of a b c] by simp
next
  case (2 a b)
  then show ?case using sextet_values [of a b 0] by simp
next
  case (3 a)
  then show ?case using sextet_values [of a 0 0] by simp
qed simp

lemma octets_sextets: "\<forall>b \<in> set bs. b < 256 \<Longrightarrow> octets (sextets bs) = bs"
proof (induction bs rule: sextets.induct)
  case (1 a b c r)
  then have "a < 256" "b < 256" "c < 256" "octets (sextets r) = r" by simp_all
  then show ?case using sextet_values(7,9,11) [of a b c] by (simp only: sextets.simps octets.simps)
next
  case (2 a b)
  then have "a < 256" "b < 256" by simp_all
  then show ?case using sextet_values(7,10) [of a b 0] by (simp only: sextets.simps octets.simps)
next
  case (3 a)
  then have "a < 256" by simp
  then have "a div 4 * 4 + a mod 4 * 16 div 16 = a" 
    by (rule sextet_values(8) [of a 0 0]) simp_all
  then show ?case by (simp only: sextets.simps octets.simps)
qed simp

lemma length_sextets: "length (sextets bs) mod 4 \<noteq> 1"
  by (induction bs rule: sextets.induct) simp_all

lemma sextets_eq_Nil: "sextets bs = [] \<longleftrightarrow> bs = []"
  by (induction bs rule: sextets.induct) simp_all

lemma bad_index_None: "(\<forall>c \<in> set s. index_byte c base64_alphabet \<noteq> None) \<Longrightarrow> bad_index i s = None"
  by (induction s arbitrary: i) auto

lemma base64_roundtrip: "base64_decode (base64_encode bs) = Inr bs"
proof -
  let ?ss = "sextets (map of_char bs)"
  have lt: "v < 64" if "v \<in> set ?ss" for v
    using sextets_bound [of "map of_char bs"] that by auto
  have idx: "index_byte (base64_alphabet ! v) base64_alphabet = Some v" if "v \<in> set ?ss" for v
    using index_byte_nth alphabet_facts(1,2) lt [OF that] by simp
  have mem: "base64_alphabet ! v \<in> set base64_alphabet" if "v \<in> set ?ss" for v
    using nth_mem alphabet_facts(1) lt [OF that] by simp
  have "bad_index 0 (base64_encode bs) = None"
    by (rule bad_index_None) (auto simp: base64_encode_def idx)
  moreover have "filter (\<lambda>c. \<not> line_break c) (base64_encode bs) = base64_encode bs"
    by (rule filter_True) (use mem alphabet_facts(4,5) in \<open>fastforce simp: base64_encode_def line_break_def\<close>)
  moreover have "map (\<lambda>c. the (index_byte c base64_alphabet)) (base64_encode bs) = ?ss"
    by (simp add: base64_encode_def comp_def idx map_idI)
  moreover have "map (\<lambda>n. char_of (n mod 256)) (octets ?ss) = bs"
    by (subst octets_sextets) (auto simp: comp_def map_idI)
  ultimately show ?thesis
    using length_sextets [of "map of_char bs"] by (simp add: base64_decode_def Let_def)
qed

lemma base64_plain: "CHR ''$'' \<notin> set (base64_encode bs)"
proof -
  have "\<forall>v \<in> set (sextets (map of_char bs)). v < 64" by (rule sextets_bound) auto
  then show ?thesis using alphabet_facts(1,3) nth_mem by (fastforce simp: base64_encode_def)
qed

section \<open>Base32\<close>

fun base32_bits :: "nat list \<Rightarrow> bool list" where
  "base32_bits [] = []"
| "base32_bits (b # bs) = map (\<lambda>i. odd (b div 2 ^ i)) [7,6,5,4,3,2,1,0] @ base32_bits bs"

definition bits_value :: "bool list \<Rightarrow> nat" where
  "bits_value = foldl (\<lambda>a b. 2 * a + (if b then 1 else 0)) 0"

function quintets :: "bool list \<Rightarrow> nat list" where
  \<comment> \<open>five bits at a time, the last group filled with zeros\<close>
  "quintets bs = (if bs = [] then [] else bits_value (take 5 (bs @ replicate 4 False)) # quintets (drop 5 bs))"
  by auto
termination by (relation "measure length") auto

declare quintets.simps [simp del]

definition base32_encode :: "string \<Rightarrow> string" where
  \<comment> \<open>\<open>base32.StdEncoding.WithPadding(base32.NoPadding).EncodeToString\<close>\<close>
  "base32_encode bs = map (\<lambda>i. base32_alphabet ! i) (quintets (base32_bits (map of_char bs)))"

lemma length_quintets: "length (quintets bs) = (length bs + 4) div 5"
proof (induction bs rule: quintets.induct)
  case (1 bs)
  show ?case
  proof (cases "bs = []")
    case False
    then have "length (quintets bs) = Suc ((length bs - 5 + 4) div 5)" using 1 by (subst quintets.simps) simp
    also have "\<dots> = (length bs + 4) div 5"
    proof (cases "5 \<le> length bs")
      case True
      then obtain k where "length bs = k + 5" by (metis add.commute le_Suc_ex)
      then show ?thesis by simp
    next
      case f: False
      moreover have "length bs \<noteq> 0" using False by simp
      ultimately have "length bs = 1 \<or> length bs = 2 \<or> length bs = 3 \<or> length bs = 4" by linarith
      then show ?thesis by auto
    qed
    finally show ?thesis .
  qed (simp add: quintets.simps)
qed

lemma length_base32_encode: "length (base32_encode bs) = (8 * length bs + 4) div 5"
proof -
  have "length (base32_bits xs) = 8 * length xs" for xs by (induction xs) simp_all
  then show ?thesis by (simp add: base32_encode_def length_quintets)
qed

end
