(* ===== verification/Sha256.thy ===== *)
theory Sha256
  imports Encodings "HOL-Library.Word"
begin

unbundle bit_operations_syntax

text \<open>
  The digests of the standard library that package \<open>security\<close> goes through: SHA-256
  (\<open>crypto/sha256\<close>, FIPS 180-4) on 32-bit words, and HMAC-SHA-256
  (\<open>crypto/hmac\<close>, RFC 2104). Messages and digests are byte strings. Written to be
  executed; the components only rely on the length of a digest.
\<close>

section \<open>Words and bytes\<close>

definition byte_word :: "char \<Rightarrow> 32 word" where
  "byte_word c = word_of_nat (of_char c)"

definition word_bytes :: "32 word \<Rightarrow> string" where
  \<comment> \<open>big-endian\<close>
  "word_bytes x = map (\<lambda>k. char_of (unat (drop_bit k x AND 0xFF))) [24, 16, 8, 0]"

fun words_of :: "string \<Rightarrow> 32 word list" where
  "words_of (a # b # c # d # r) =
     (push_bit 24 (byte_word a) OR push_bit 16 (byte_word b) OR push_bit 8 (byte_word c) OR byte_word d)
       # words_of r"
| "words_of _ = []"

definition byte_xor :: "char \<Rightarrow> char \<Rightarrow> char" where
  "byte_xor a b = char_of ((of_char a :: nat) XOR of_char b)"

definition xor_bytes :: "string \<Rightarrow> string \<Rightarrow> string" where
  "xor_bytes s t = map2 byte_xor s t"

section \<open>SHA-256\<close>

definition sha_initial :: "32 word list" where
  "sha_initial = [0x6a09e667, 0xbb67ae85, 0x3c6ef372, 0xa54ff53a, 0x510e527f, 0x9b05688c, 0x1f83d9ab, 0x5be0cd19]"

definition sha_constants :: "32 word list" where
  "sha_constants = [0x428a2f98, 0x71374491, 0xb5c0fbcf, 0xe9b5dba5, 0x3956c25b, 0x59f111f1, 0x923f82a4, 0xab1c5ed5,
     0xd807aa98, 0x12835b01, 0x243185be, 0x550c7dc3, 0x72be5d74, 0x80deb1fe, 0x9bdc06a7, 0xc19bf174,
     0xe49b69c1, 0xefbe4786, 0x0fc19dc6, 0x240ca1cc, 0x2de92c6f, 0x4a7484aa, 0x5cb0a9dc, 0x76f988da,
     0x983e5152, 0xa831c66d, 0xb00327c8, 0xbf597fc7, 0xc6e00bf3, 0xd5a79147, 0x06ca6351, 0x14292967,
     0x27b70a85, 0x2e1b2138, 0x4d2c6dfc, 0x53380d13, 0x650a7354, 0x766a0abb, 0x81c2c92e, 0x92722c85,
     0xa2bfe8a1, 0xa81a664b, 0xc24b8b70, 0xc76c51a3, 0xd192e819, 0xd6990624, 0xf40e3585, 0x106aa070,
     0x19a4c116, 0x1e376c08, 0x2748774c, 0x34b0bcb5, 0x391c0cb3, 0x4ed8aa4a, 0x5b9cca4f, 0x682e6ff3,
     0x748f82ee, 0x78a5636f, 0x84c87814, 0x8cc70208, 0x90befffa, 0xa4506ceb, 0xbef9a3f7, 0xc67178f2]"

definition small_sigma0 :: "32 word \<Rightarrow> 32 word" where
  "small_sigma0 x = word_rotr 7 x XOR word_rotr 18 x XOR drop_bit 3 x"

definition small_sigma1 :: "32 word \<Rightarrow> 32 word" where
  "small_sigma1 x = word_rotr 17 x XOR word_rotr 19 x XOR drop_bit 10 x"

definition big_sigma0 :: "32 word \<Rightarrow> 32 word" where
  "big_sigma0 x = word_rotr 2 x XOR word_rotr 13 x XOR word_rotr 22 x"

definition big_sigma1 :: "32 word \<Rightarrow> 32 word" where
  "big_sigma1 x = word_rotr 6 x XOR word_rotr 11 x XOR word_rotr 25 x"

primrec sha_expand :: "nat \<Rightarrow> 32 word list \<Rightarrow> 32 word list" where
  \<comment> \<open>the message schedule, latest word first\<close>
  "sha_expand 0 ws = ws"
| "sha_expand (Suc k) ws =
     sha_expand k ((small_sigma1 (ws ! 1) + ws ! 6 + small_sigma0 (ws ! 14) + ws ! 15) # ws)"

fun sha_round :: "32 word \<times> 32 word \<Rightarrow> 32 word list \<Rightarrow> 32 word list" where
  "sha_round (k, w) [a, b, c, d, e, f, g, h] =
     (let t1 = h + big_sigma1 e + ((e AND f) XOR (NOT e AND g)) + k + w;
          t2 = big_sigma0 a + ((a AND b) XOR (a AND c) XOR (b AND c))
      in [t1 + t2, a, b, c, d + t1, e, f, g])"
| "sha_round _ hs = hs"

definition sha_block :: "string \<Rightarrow> 32 word list \<Rightarrow> 32 word list" where
  "sha_block block hs =
     map2 (+) hs (fold sha_round (zip sha_constants (rev (sha_expand 48 (rev (words_of block))))) hs)"

definition sha_padding :: "nat \<Rightarrow> string" where
  "sha_padding n = CHR 0x80 # replicate (nat ((55 - int n) mod 64)) (CHR 0x00)
     @ map (\<lambda>k. char_of (int n * 8 div 2 ^ k mod 256)) [56, 48, 40, 32, 24, 16, 8, 0]"

function sha_blocks :: "string \<Rightarrow> 32 word list \<Rightarrow> 32 word list" where
  "sha_blocks s hs = (if length s < 64 then hs else sha_blocks (drop 64 s) (sha_block (take 64 s) hs))"
  by pat_completeness auto
termination by (relation "measure (\<lambda>(s, hs). length s)") auto

declare sha_blocks.simps [simp del]

definition Sum256 :: "string \<Rightarrow> string" where
  "Sum256 s = concat (map word_bytes (sha_blocks (s @ sha_padding (length s)) sha_initial))"

section \<open>HMAC\<close>

definition hmac_key :: "string \<Rightarrow> string" where
  "hmac_key key = (let k = (if length key > 64 then Sum256 key else key)
     in k @ replicate (64 - length k) (CHR 0x00))"

definition hmac_sha256 :: "string \<Rightarrow> string \<Rightarrow> string" where
  "hmac_sha256 key msg =
     (let k = hmac_key key
      in Sum256 (map (byte_xor (CHR 0x5C)) k @ Sum256 (map (byte_xor (CHR 0x36)) k @ msg)))"

section \<open>Lengths\<close>

lemma length_sha_round: "length hs = 8 \<Longrightarrow> length (sha_round kw hs) = 8"
  by (cases "(kw, hs)" rule: sha_round.cases) (auto simp: Let_def)

lemma length_sha_rounds: "length hs = 8 \<Longrightarrow> length (fold sha_round kws hs) = 8"
  by (induction kws arbitrary: hs) (simp_all add: length_sha_round)

lemma length_sha_blocks: "length hs = 8 \<Longrightarrow> length (sha_blocks s hs) = 8"
proof (induction s hs rule: sha_blocks.induct)
  case (1 s hs)
  then show ?case
    by (subst sha_blocks.simps) (simp add: sha_block_def length_sha_rounds)
qed

lemma length_Sum256 [simp]: "length (Sum256 s) = 32"
proof -
  have "length (sha_blocks (s @ sha_padding (length s)) sha_initial) = 8"
    by (rule length_sha_blocks) (simp add: sha_initial_def)
  moreover have "length (concat (map word_bytes ws)) = 4 * length ws" for ws
    by (induction ws) (simp_all add: word_bytes_def)
  ultimately show ?thesis by (simp add: Sum256_def)
qed

lemma length_hmac [simp]: "length (hmac_sha256 key msg) = 32"
  by (simp add: hmac_sha256_def Let_def)

lemma length_xor_bytes [simp]: "length (xor_bytes s t) = min (length s) (length t)"
  by (simp add: xor_bytes_def)

end
