(* ===== verification/Security.thy ===== *)
theory Security
  imports Sha256 Errors
begin

text \<open>
  Password hashes, digests and random identifiers (\<open>internal/security/credentials.go\<close>,
  \<open>internal/platform/ids/ids.go\<close>). What \<open>crypto/rand\<close> answers is an argument: an error
  or the bytes it filled the buffer with.
\<close>

section \<open>Key derivation\<close>

definition DefaultIterations :: int where "DefaultIterations = 60000"
definition hashPrefix :: string where "hashPrefix = ''pbkdf2_sha256''"
definition saltLength :: nat where "saltLength = 16"
definition keyLength :: nat where "keyLength = 32"

definition block_index :: "nat \<Rightarrow> string" where
  "block_index b = map (\<lambda>k. char_of (int b div 2 ^ k mod 256)) [24, 16, 8, 0]"

primrec pbkdf2_rounds :: "nat \<Rightarrow> string \<Rightarrow> string \<Rightarrow> string \<Rightarrow> string" where
  \<comment> \<open>the loop of a block: \<open>u\<close> the last MAC, \<open>t\<close> what they add up to\<close>
  "pbkdf2_rounds 0 password u t = t"
| "pbkdf2_rounds (Suc k) password u t =
     (let u' = hmac_sha256 password u in pbkdf2_rounds k password u' (xor_bytes t u'))"

definition pbkdf2_block :: "string \<Rightarrow> string \<Rightarrow> int \<Rightarrow> nat \<Rightarrow> string" where
  "pbkdf2_block password salt iterations b =
     (let u = hmac_sha256 password (salt @ block_index b)
      in pbkdf2_rounds (nat (iterations - 1)) password u u)"

definition pbkdf2SHA256 :: "string \<Rightarrow> string \<Rightarrow> int \<Rightarrow> nat \<Rightarrow> string" where
  "pbkdf2SHA256 password salt iterations len =
     (let blocks = (len + 32 - 1) div 32
      in take len (concat (map (pbkdf2_block password salt iterations) [1..<Suc blocks])))"

section \<open>Password hashes\<close>

definition HashPassword :: "string \<Rightarrow> string \<Rightarrow> int \<Rightarrow> err + string" where
  "HashPassword password salt iterations0 =
     (if length password < 8 then Inl (Plain ''password must be at least 8 characters'')
      else if length salt \<noteq> saltLength
      then Inl (Plain (''salt must be '' @ itoa (int saltLength) @ '' bytes, got '' @ itoa (int (length salt))))
      else
       (let iterations = (if iterations0 \<le> 0 then DefaultIterations else iterations0);
            key = pbkdf2SHA256 password salt iterations keyLength
        in Inr (string_join ''$'' [hashPrefix, itoa iterations, base64_encode salt, base64_encode key])))"

definition base64_error :: "nat \<Rightarrow> err" where
  "base64_error i = Plain (''illegal base64 data at input byte '' @ itoa (int i))"

definition ConstantTimeCompare :: "string \<Rightarrow> string \<Rightarrow> int" where
  "ConstantTimeCompare x y = (if x = y then 1 else 0)"

definition VerifyPassword :: "string \<Rightarrow> string \<Rightarrow> err + bool" where
  "VerifyPassword stored candidate =
     (let parts = split_on CHR ''$'' stored in
      if length parts \<noteq> 4 \<or> parts ! 0 \<noteq> hashPrefix then Inl (Plain ''unsupported password hash format'')
      else case ParseInt (parts ! 1) of
        None \<Rightarrow> Inl (Plain ''invalid password hash work factor'')
      | Some iterations \<Rightarrow>
          if iterations \<le> 0 then Inl (Plain ''invalid password hash work factor'')
          else case base64_decode (parts ! 2) of
            Inl i \<Rightarrow> Inl (Wrapped ''invalid password hash salt'' (base64_error i))
          | Inr salt \<Rightarrow>
             (case base64_decode (parts ! 3) of
                Inl i \<Rightarrow> Inl (Wrapped ''invalid password hash digest'' (base64_error i))
              | Inr expected \<Rightarrow>
                  Inr (ConstantTimeCompare expected
                    (pbkdf2SHA256 candidate salt iterations (length expected)) = 1)))"

definition NewSalt :: "err + string \<Rightarrow> err + string" where
  "NewSalt entropy = map_sum (Wrapped ''generate password salt'') id entropy"

definition HashNewPassword :: "err + string \<Rightarrow> string \<Rightarrow> err + string" where
  "HashNewPassword entropy password = (case NewSalt entropy of
     Inl e \<Rightarrow> Inl e | Inr salt \<Rightarrow> HashPassword password salt DefaultIterations)"

section \<open>Digests and identifiers\<close>

definition TokenDigest :: "string \<Rightarrow> string" where
  "TokenDigest token = hex_encode (Sum256 token)"

definition FingerprintPayload :: "string list \<Rightarrow> string" where
  "FingerprintPayload parts = hex_encode (Sum256 (concat (map (\<lambda>p. p @ [CHR 0x00]) parts)))"

definition NewRequestID :: "err + string \<Rightarrow> err + string" where
  "NewRequestID entropy =
     map_sum (Wrapped ''generate request id'') (\<lambda>buf. ''req_'' @ hex_encode buf) entropy"

definition NewSessionToken :: "err + string \<Rightarrow> err + string" where
  "NewSessionToken entropy =
     map_sum (Wrapped ''generate session token'') (\<lambda>buf. ToLower (base32_encode buf)) entropy"

definition NewWorkerID :: "err + string \<Rightarrow> string \<Rightarrow> err + string" where
  "NewWorkerID entropy prefix =
     map_sum (Wrapped ''generate worker id'')
       (\<lambda>buf. (if prefix = [] then ''worker'' else prefix) @ ''-'' @ hex_encode buf) entropy"

section \<open>Facts\<close>

lemma length_pbkdf2_rounds: "length u = 32 \<Longrightarrow> length t = 32 \<Longrightarrow> length (pbkdf2_rounds k p u t) = 32"
  by (induction k arbitrary: u t) (simp_all add: Let_def)

lemma length_pbkdf2_block [simp]: "length (pbkdf2_block p s n b) = 32"
  by (simp add: pbkdf2_block_def length_pbkdf2_rounds Let_def)

lemma length_blocks: "length (concat (map (pbkdf2_block p s n) bs)) = 32 * length bs"
  by (induction bs) simp_all

lemma length_pbkdf2 [simp]: "length (pbkdf2SHA256 p s n len) = len"
proof -
  have "len \<le> 32 * ((len + 31) div 32)" by presburger
  then show ?thesis by (simp add: pbkdf2SHA256_def length_blocks Let_def del: upt_Suc)
qed

lemma length_TokenDigest [simp]: "length (TokenDigest t) = 64"
  by (simp add: TokenDigest_def length_hex_encode)

lemma TokenDigest_ne [simp]: "TokenDigest t \<noteq> []"
  by (metis length_TokenDigest list.size(3) zero_neq_numeral)

definition password_iterations :: "int \<Rightarrow> int" where
  "password_iterations n = (if n \<le> 0 then DefaultIterations else n)"

lemma split_hash:
  "split_on CHR ''$'' (string_join ''$'' [hashPrefix, itoa n, base64_encode salt, base64_encode key])
     = [hashPrefix, itoa n, base64_encode salt, base64_encode key]"
  by (rule split_join) (simp_all add: itoa_plain base64_plain, simp add: hashPrefix_def)

lemma verify_hash:
  assumes "0 < n" "in_int64 n"
  shows "VerifyPassword (string_join ''$'' [hashPrefix, itoa n, base64_encode salt, base64_encode key]) c
    = Inr (pbkdf2SHA256 c salt n (length key) = key)"
  unfolding VerifyPassword_def split_hash Let_def using assms
  by (auto simp: ParseInt_itoa base64_roundtrip ConstantTimeCompare_def)

text \<open>C14: a password hash verifies exactly the candidates that derive the key of the password
  it was made from, whatever the salt, with the default work factor for a count that is not
  positive: in particular the password itself is accepted and the hash always has the format
  \<open>VerifyPassword\<close> parses.\<close>

theorem VerifyPassword_HashPassword:
  assumes "HashPassword password salt iterations = Inr stored" "in_int64 iterations"
  shows "VerifyPassword stored candidate = Inr
      (pbkdf2SHA256 candidate salt (password_iterations iterations) keyLength
        = pbkdf2SHA256 password salt (password_iterations iterations) keyLength)
    \<and> VerifyPassword stored password = Inr True"
proof -
  let ?n = "password_iterations iterations"
  let ?key = "pbkdf2SHA256 password salt ?n keyLength"
  have stored: "stored = string_join ''$'' [hashPrefix, itoa ?n, base64_encode salt, base64_encode ?key]"
    using assms(1) unfolding HashPassword_def password_iterations_def Let_def
    by (auto split: if_splits)
  have n: "0 < ?n" "in_int64 ?n"
    using assms(2) by (auto simp: password_iterations_def DefaultIterations_def in_int64_def)
  show ?thesis
    unfolding stored verify_hash [OF n] by simp
qed

theorem VerifyPassword_HashPassword_witness:
  "\<exists>stored. HashPassword ''registrar-pw'' ''0123456789abcdef'' 0 = Inr stored
     \<and> VerifyPassword stored ''registrar-pw'' = Inr True"
proof -
  obtain stored where h: "HashPassword ''registrar-pw'' ''0123456789abcdef'' 0 = Inr stored"
    by (simp add: HashPassword_def saltLength_def Let_def)
  show ?thesis using h VerifyPassword_HashPassword [OF h, of "''registrar-pw''"]
    by (simp add: in_int64_def)
qed

lemma empty_digest_accepts_all: "VerifyPassword ''pbkdf2_sha256$1$$'' candidate = Inr True"
proof -
  have "split_on CHR ''$'' ''pbkdf2_sha256$1$$'' = [hashPrefix, ''1'', [], []]"
    by (simp add: hashPrefix_def)
  moreover have "ParseInt ''1'' = Some 1" by code_simp
  moreover have "base64_decode [] = Inr []" by code_simp
  ultimately show ?thesis
    by (simp add: VerifyPassword_def ConstantTimeCompare_def pbkdf2SHA256_def)
qed

end
