(* ===== verification/AuthService.thy ===== *)
theory AuthService
  imports AccountStore AuditStore Security
begin

text \<open>
  Authentication (\<open>internal/service/auth.go\<close>): opening a session against a password,
  resolving a bearer token, logout and the sweep of expired sessions. The time to live is the one
  the service was built with; the bytes \<open>crypto/rand\<close> returns for a new token are an argument.
\<close>

section \<open>The use cases\<close>

definition NewAuthService :: "duration \<Rightarrow> err + duration" where
  "NewAuthService sessionTTL = (if sessionTTL < Minute
     then Inl (FieldError ''session_ttl'' ''must be at least one minute'') else Inr sessionTTL)"

record login_result =
  log_Token :: string
  log_ExpiresAt :: instant
  log_Principal :: principal

definition principal_of :: "user \<Rightarrow> int \<Rightarrow> principal" where
  "principal_of u sid = \<lparr>prn_UserID = usr_ID u, prn_SessionID = sid, prn_Email = usr_Email u,
     prn_DisplayName = usr_DisplayName u, prn_Role = usr_Role u\<rparr>"

definition find_login :: "string \<Rightarrow> user op" where
  \<comment> \<open>the lookup of \<open>Login\<close>, an unknown address read as a rejection\<close>
  "find_login normalized =
     andThen (attempt (FindUserByEmail normalized)) (\<lambda>r. case r of
       Inr u \<Rightarrow> ret u
     | Inl err \<Rightarrow> if errors_Is err ErrNotFound
         then raise (Wrapped (''login rejected for '' @ normalized) (Sentinel ErrUnauthenticated))
         else raise err)"

definition new_session :: "user \<Rightarrow> string \<Rightarrow> instant \<Rightarrow> duration \<Rightarrow> string \<Rightarrow> session" where
  "new_session u token now ttl userAgent = \<lparr>ses_ID = 0, ses_UserID = usr_ID u,
     ses_TokenDigest = TokenDigest token, ses_IssuedAt = now, ses_ExpiresAt = now + ttl,
     ses_RevokedAt = None, ses_LastSeenAt = now, ses_UserAgent = userAgent\<rparr>"

definition formatSeconds :: "instant \<Rightarrow> string" where
  \<comment> \<open>\<open>Format(time.RFC3339)\<close> in UTC\<close>
  "formatSeconds t = second_text (t div 1000000000) @ ''Z''"

definition login_tx :: "user \<Rightarrow> session \<Rightarrow> session op" where
  \<comment> \<open>the transaction body of \<open>Login\<close>\<close>
  "login_tx u s =
     andThen (CreateSession s) (\<lambda>created.
     andThen (RecordObjectID (Some (principal_of u (ses_ID created))) ActionLogin ''session''
       (ses_ID created) ResultSuccess
       (''session opened for '' @ usr_Email u @ '' until '' @ formatSeconds (ses_ExpiresAt created))) (\<lambda>_.
     ret created))"

definition Login :: "duration \<Rightarrow> err + string \<Rightarrow> string \<Rightarrow> string \<Rightarrow> string \<Rightarrow> login_result op" where
  "Login sessionTTL entropy email password userAgent =
     andThen (lift_result (NormalizeEmail email)) (\<lambda>normalized.
     if password = [] then raise (FieldError ''password'' ''must not be empty'')
     else
     andThen (find_login normalized) (\<lambda>u.
     if usr_Disabled u
     then raise (Wrapped (''account '' @ normalized @ '' is disabled'') (Sentinel ErrForbidden))
     else
     andThen (on_error (Wrapped (''verify password of '' @ normalized))
       (lift_result (VerifyPassword (usr_PasswordHash u) password))) (\<lambda>matches.
     if \<not> matches
     then raise (Wrapped (''login rejected for '' @ normalized) (Sentinel ErrUnauthenticated))
     else
     andThen (lift_result (NewSessionToken entropy)) (\<lambda>token.
     andThen clock_now (\<lambda>now.
     andThen (InTx (login_tx u (new_session u token now sessionTTL userAgent))) (\<lambda>created.
     ret \<lparr>log_Token = token, log_ExpiresAt = ses_ExpiresAt created,
          log_Principal = principal_of u (ses_ID created)\<rparr>))))))"

definition find_bearer :: "string \<Rightarrow> session op" where
  "find_bearer token =
     andThen (attempt (FindSessionByDigest (TokenDigest token))) (\<lambda>r. case r of
       Inr s \<Rightarrow> ret s
     | Inl err \<Rightarrow> if errors_Is err ErrNotFound
         then raise (Wrapped ''unknown bearer token'' (Sentinel ErrUnauthenticated))
         else raise err)"

definition touch_bearer :: "int \<Rightarrow> instant \<Rightarrow> unit op" where
  "touch_bearer i now =
     andThen (attempt (TouchSession i now)) (\<lambda>r. case r of
       Inr _ \<Rightarrow> ret ()
     | Inl err \<Rightarrow> if \<not> errors_Is err ErrNotFound then raise err
         else raise (Wrapped (''session '' @ itoa i @ '' was revoked'') (Sentinel ErrSessionRevoked)))"

definition Authenticate :: "string \<Rightarrow> principal op" where
  "Authenticate token =
     (if token = [] then raise (Wrapped ''missing bearer token'' (Sentinel ErrUnauthenticated))
      else
      andThen (find_bearer token) (\<lambda>s.
      andThen clock_now (\<lambda>now.
      andThen (on_error (Wrapped (''session '' @ itoa (ses_ID s) @ '' is not usable''))
        (check (ses_Validate s now))) (\<lambda>_.
      andThen (FindUserByID (ses_UserID s)) (\<lambda>u.
      if usr_Disabled u
      then raise (Wrapped (''account '' @ usr_Email u @ '' is disabled'') (Sentinel ErrForbidden))
      else
      andThen (touch_bearer (ses_ID s) now) (\<lambda>_.
      ret (principal_of u (ses_ID s))))))))"

definition logout_tx :: "principal \<Rightarrow> instant \<Rightarrow> unit op" where
  "logout_tx actor now =
     andThen (RevokeSession (prn_SessionID actor) now) (\<lambda>_.
     RecordObjectID (Some actor) ActionLogout ''session'' (prn_SessionID actor) ResultSuccess
       ''session revoked by logout'')"

definition Logout :: "principal \<Rightarrow> unit op" where
  "Logout actor =
     (if prn_SessionID actor \<le> 0
      then raise (Wrapped ''logout without an active session'' (Sentinel ErrUnauthenticated))
      else andThen clock_now (\<lambda>now. InTx (logout_tx actor now)))"

definition ActiveSessionCount :: "principal \<Rightarrow> int op" where
  "ActiveSessionCount actor = andThen clock_now (\<lambda>now. CountActiveSessions (prn_UserID actor) now)"

definition sweep_tx :: "instant \<Rightarrow> int \<Rightarrow> int op" where
  "sweep_tx now limit =
     andThen (RevokeExpiredSessions now limit) (\<lambda>revoked.
     if revoked = 0 then ret revoked
     else andThen (Record \<lparr>ent_Actor = None, ent_Action = ActionSessionSwept, ent_ObjectType = ''session'',
            ent_ObjectID = ''batch'', ent_Result = ResultSuccess,
            ent_Detail = ''revoked '' @ itoa revoked @ '' expired sessions''\<rparr>) (\<lambda>_. ret revoked))"

definition SweepExpiredSessions :: "int \<Rightarrow> int op" where
  "SweepExpiredSessions limit = andThen clock_now (\<lambda>now. InTx (sweep_tx now limit))"

section \<open>What the use cases leave alone\<close>

lemma tame_accounts [tame_intro]:
  "tame (Login ttl entropy email password ua)" "tame (Authenticate token)" "tame (Logout actor)"
  "tame (ActiveSessionCount actor)" "tame (SweepExpiredSessions limit)"
  unfolding Login_def Authenticate_def Logout_def ActiveSessionCount_def SweepExpiredSessions_def find_login_def
    find_bearer_def touch_bearer_def login_tx_def logout_tx_def sweep_tx_def Let_def
  by (intro tame_intro)+

section \<open>Relations along the use cases\<close>

context evolution begin

lemma session_frame:
  assumes "\<And>t c. R t (t\<lparr>t_sessions := c\<rparr>)"
  shows "keeps (CreateSession s)" "keeps (TouchSession i at)" "keeps (RevokeSession i at)"
    "keeps (RevokeExpiredSessions at n)"
  unfolding CreateSession_def TouchSession_def RevokeSession_def RevokeExpiredSessions_def Let_def
  by (intro keeps_intro; auto simp: insert_session_def update_session_def intro!: assms split: if_splits)+

end

locale session_calls = trail_calls +
  \<comment> \<open>a relation that the calls of the session repository move along\<close>
  assumes opens: "keeps (CreateSession s)" and touches: "keeps (TouchSession i at)"
    and revokes: "keeps (RevokeSession i at)" and sweeps: "keeps (RevokeExpiredSessions at n)"
begin

lemma keeps_accounts [keeps_intro]:
  "keeps (Login ttl entropy email password ua)" "keeps (Authenticate token)" "keeps (Logout actor)"
  "keeps (ActiveSessionCount actor)" "keeps (SweepExpiredSessions limit)"
proof -
  have calls: "keeps (CreateSession s)" "keeps (TouchSession i at)" "keeps (RevokeSession i at)"
    "keeps (RevokeExpiredSessions at n)" for s i at n
    by (rule opens touches revokes sweeps)+
  have lookups: "keeps (FindUserByEmail x)" "keeps (FindUserByID i)" "keeps (FindSessionByDigest d)"
    "keeps (CountActiveSessions uid now)" for x i d uid now
    by (intro keeps_reads account_reads)+
  show "keeps (Login ttl entropy email password ua)" "keeps (Authenticate token)" "keeps (Logout actor)"
    "keeps (ActiveSessionCount actor)" "keeps (SweepExpiredSessions limit)"
    unfolding Login_def find_login_def login_tx_def Authenticate_def find_bearer_def touch_bearer_def
      Logout_def logout_tx_def ActiveSessionCount_def SweepExpiredSessions_def sweep_tx_def
    by (intro keeps_intro calls lookups)+
qed

end

interpretation sessions: session_calls sessions_evolve
  by unfold_locales (intro evolution.append_frame [OF sessions.evolution_axioms] sessions_evolve_same session_ops_keep; simp)+

end
