(* ===== verification/AuthProperties.thy ===== *)
theory AuthProperties
  imports AuthService Samples CalmRuns
begin

text \<open>
  What authentication promises: who a token speaks for, that a new session works, that a session
  that logged out is gone for good, and what the sweep revokes.
\<close>

section \<open>What the use cases do\<close>

lemma recovered_Inr:
  "andThen (attempt m) (\<lambda>r. case r of Inr x \<Rightarrow> ret x
     | Inl err \<Rightarrow> if c err then raise (g err) else raise (h err)) w = (Inr x, w') \<longleftrightarrow> m w = (Inr x, w')"
proof (cases "m w")
  case (Pair r w1)
  then show ?thesis by (cases r) (auto simp: andThen_def attempt_def ret_def raise_def)
qed

lemma Authenticate_Inr:
  assumes "Authenticate token w = (Inr p, w')"
  obtains s u n where "s \<in> set (tbl_rows (t_sessions (tb w)))" "ses_TokenDigest s = TokenDigest token"
    "session_by_digest (TokenDigest token) (tb w) = Some s"
    "ses_RevokedAt s = None" "w_clock w n < ses_ExpiresAt s" "u \<in> set (tbl_rows (t_users (tb w)))"
    "usr_ID u = ses_UserID s" "\<not> usr_Disabled u" "p = principal_of u (ses_ID s)"
proof -
  have find: "session_by_digest (TokenDigest token) (tb w) = Some s \<and> tb w1 = tb w \<and> w_clock w1 = w_clock w"
    if "find_bearer token w = (Inr s, w1)" for s w1
    using that unfolding find_bearer_def recovered_Inr by (auto simp: FindSessionByDigest_def op_simps)
  from assms obtain s w1 w2 u where run: "find_bearer token w = (Inr s, w1)"
    and now: "clock_now w1 = (Inr (w_clock w1 (w_tick w1)), w2)"
    and valid: "ses_Validate s (w_clock w1 (w_tick w1)) = None"
    and user: "FindUserByID (ses_UserID s) w2 = (Inr u, snd (FindUserByID (ses_UserID s) w2))"
    and p: "\<not> usr_Disabled u" "p = principal_of u (ses_ID s)"
    unfolding Authenticate_def
    by (auto simp: andThen_Inr on_error_Inr check_Inr clock_now_iff ret_iff raise_iff split: if_splits)
  note f = find [OF run]
  have "tb w2 = tb w" using now f by (simp add: clock_now_iff)
  then have u: "u \<in> set (tbl_rows (t_users (tb w)))" "usr_ID u = ses_UserID s"
    using user by (auto simp: FindUserByID_def op_simps dest!: first_where_Some)
  have s: "s \<in> set (tbl_rows (t_sessions (tb w)))" "ses_TokenDigest s = TokenDigest token"
    using f by (auto simp: session_by_digest_def dest!: first_where_Some)
  have v: "ses_RevokedAt s = None" "w_clock w (w_tick w1) < ses_ExpiresAt s"
    using valid f by (auto simp: ses_Validate_def ses_Revoked_def ses_Expired_def split: if_splits)
  show thesis using that [OF s conjunct1 [OF f] v u p] .
qed

lemma revoked_rejected:
  assumes "sessions_ok (tb w)" "s \<in> set (tbl_rows (t_sessions (tb w)))" "ses_RevokedAt s \<noteq> None"
    and "TokenDigest token = ses_TokenDigest s"
  shows "\<exists>e w'. Authenticate token w = (Inl e, w')"
proof (cases "Authenticate token w")
  case (Pair r w')
  show ?thesis
  proof (cases r)
    case (Inr p)
    with Pair obtain q where "session_by_digest (TokenDigest token) (tb w) = Some q" "ses_RevokedAt q = None"
      by (metis Authenticate_Inr)
    then show ?thesis using by_digest [OF assms(1,2)] assms(3,4) by simp
  qed (use Pair in auto)
qed

lemma RevokeSession_Inr:
  assumes "RevokeSession i at w = (Inr v, w')"
  shows "tb w' = (tb w)\<lparr>t_sessions := table_update (open_session i) (\<lambda>s. s\<lparr>ses_RevokedAt := Some at\<rparr>) (t_sessions (tb w))\<rparr>
    \<and> (\<exists>s \<in> set (tbl_rows (t_sessions (tb w))). open_session i s)"
proof -
  have "count_where (open_session i) (t_sessions (tb w)) \<noteq> 0
      \<and> tb w' = (tb w)\<lparr>t_sessions := table_update (open_session i) (\<lambda>s. s\<lparr>ses_RevokedAt := Some at\<rparr>) (t_sessions (tb w))\<rparr>"
    using assms unfolding RevokeSession_def
    by (auto simp: andThen_Inr on_error_Inr exec_Inr update_session_def driver_Inr ret_iff raise_iff split: if_splits)
  then show ?thesis by (auto simp: count_where_zero)
qed

lemma Logout_revokes:
  assumes "Logout actor w = (Inr v, w')" "sessions_ok (tb w)" "s \<in> set (tbl_rows (t_sessions (tb w)))"
    and "ses_ID s = prn_SessionID actor"
  shows "\<exists>s' \<in> set (tbl_rows (t_sessions (tb w'))). session_after s s' \<and> ses_RevokedAt s' \<noteq> None"
proof -
  from assms(1) obtain now w0 where "clock_now w = (Inr now, w0)" "InTx (logout_tx actor now) w0 = (Inr v, w')"
    unfolding Logout_def by (auto simp: andThen_Inr raise_iff split: if_splits)
  then obtain w1 w2 where same: "tb w1 = tb w" and run: "logout_tx actor now w1 = (Inr v, w2)" "tb w' = tb w2"
    using tx.commit [of "logout_tx actor now" w0] by (auto simp: clock_now_iff)
  from run(1) obtain u w3 where rev: "RevokeSession (prn_SessionID actor) now w1 = (Inr u, w3)"
    and aud: "RecordObjectID (Some actor) ActionLogout ''session'' (prn_SessionID actor) ResultSuccess
       ''session revoked by logout'' w3 = (Inr v, w2)"
    unfolding logout_tx_def andThen_Inr by blast
  let ?f = "\<lambda>s. s\<lparr>ses_RevokedAt := Some now\<rparr>" and ?i = "prn_SessionID actor"
  have t3: "t_sessions (tb w2) = table_update (open_session ?i) ?f (t_sessions (tb w))"
    using RevokeSession_Inr [OF rev] RecordObjectID_Inr [OF aud] same by (auto simp: audit_added_def)
  obtain q where q: "q \<in> set (tbl_rows (t_sessions (tb w)))" "open_session ?i q"
    using RevokeSession_Inr [OF rev] same by auto
  then have "q = s"
    using session_key.by_id_unique [of "t_sessions (tb w)" q s] assms(2-4)
    by (simp add: open_session_def sessions_ok_def)
  then have "?f s \<in> set (tbl_rows (t_sessions (tb w')))" "session_after s (?f s)"
    using q run(2) t3 by (auto simp: session_after_def open_session_def image_iff)
  then show ?thesis by (intro bexI [of _ "?f s"]) simp_all
qed

section \<open>Sequences of calls\<close>

datatype auth_call =
    CallLogin duration "err + string" string string string
  | CallAuthenticate string
  | CallLogout principal
  | CallSessionCount principal
  | CallSweep int

fun perform_auth :: "auth_call \<Rightarrow> unit op" where
  "perform_auth (CallLogin ttl entropy email password ua) =
     andThen (attempt (Login ttl entropy email password ua)) (\<lambda>_. ret ())"
| "perform_auth (CallAuthenticate token) = andThen (attempt (Authenticate token)) (\<lambda>_. ret ())"
| "perform_auth (CallLogout actor) = andThen (attempt (Logout actor)) (\<lambda>_. ret ())"
| "perform_auth (CallSessionCount actor) = andThen (attempt (ActiveSessionCount actor)) (\<lambda>_. ret ())"
| "perform_auth (CallSweep limit) = andThen (attempt (SweepExpiredSessions limit)) (\<lambda>_. ret ())"

fun perform_auths :: "auth_call list \<Rightarrow> unit op" where
  "perform_auths [] = ret ()"
| "perform_auths (c # cs) = andThen (perform_auth c) (\<lambda>_. perform_auths cs)"

lemma perform_auth_keeps [keeps_intro]: "sessions.keeps (perform_auth c)"
  by (cases c) (simp_all, (intro keeps_intro)+)

lemma perform_auths_keeps [keeps_intro]: "sessions.keeps (perform_auths cs)"
  by (induction cs) (simp_all, (intro keeps_intro | assumption)+)

section \<open>Exact outcomes\<close>

definition seen_at :: "int \<Rightarrow> instant \<Rightarrow> tables \<Rightarrow> tables" where
  "seen_at i now t =
     t\<lparr>t_sessions := table_update (open_session i) (\<lambda>s. s\<lparr>ses_LastSeenAt := now\<rparr>) (t_sessions t)\<rparr>"

lemma yields_TouchSession:
  assumes "s \<in> set (tbl_rows (t_sessions t))" "ses_RevokedAt s = None"
  shows "yields now rid (TouchSession (ses_ID s) at) t (Inr ()) (seen_at (ses_ID s) at t)"
proof -
  have "0 < count_where (open_session (ses_ID s)) (t_sessions t)"
    using assms by (auto simp: count_where_pos open_session_def)
  then have pos: "count_where (open_session (ses_ID s)) (t_sessions t) \<noteq> 0" by simp
  have "yields now rid (exec (update_session (ses_ID s) (\<lambda>s. s\<lparr>ses_LastSeenAt := at\<rparr>))) t
      (Inr (count_where (open_session (ses_ID s)) (t_sessions t))) (seen_at (ses_ID s) at t)"
    using yields_exec [of now rid "update_session (ses_ID s) (\<lambda>s. s\<lparr>ses_LastSeenAt := at\<rparr>)" t]
    by (simp add: update_session_def seen_at_def)
  then show ?thesis
    unfolding TouchSession_def
    by (rule yields_andThen [OF yields_on_error_Inr], intro yields_andThen [OF yields_on_error_Inr [OF yields_basic(7)]])
      (simp only: pos if_False yields_basic(1))
qed

lemma yields_Authenticate:
  assumes "token \<noteq> []" "session_by_digest (TokenDigest token) t = Some s" "ses_RevokedAt s = None"
    and "now < ses_ExpiresAt s" "first_where (\<lambda>u. usr_ID u = ses_UserID s) (t_users t) = Some u" "\<not> usr_Disabled u"
  shows "yields now rid (Authenticate token) t (Inr (principal_of u (ses_ID s))) (seen_at (ses_ID s) now t)"
proof -
  have "yields now rid (FindSessionByDigest (TokenDigest token)) t (Inr s) t"
    unfolding FindSessionByDigest_def
    by (simp only: TokenDigest_ne if_False) (rule yields_on_error_Inr, rule yields_query_row_Some, rule assms(2))
  then have find: "yields now rid (find_bearer token) t (Inr s) t"
    unfolding find_bearer_def by (rule yields_andThen [OF yields_attempt]) (simp add: yields_basic)
  have valid: "ses_Validate s now = None"
    using assms(3,4) by (simp add: ses_Validate_def ses_Revoked_def ses_Expired_def)
  have user: "yields now rid (FindUserByID (ses_UserID s)) t (Inr u) t"
    unfolding FindUserByID_def by (rule yields_on_error_Inr, rule yields_query_row_Some, rule assms(5))
  have "s \<in> set (tbl_rows (t_sessions t))"
    using assms(2) by (auto simp: session_by_digest_def dest: first_where_Some)
  then have touch: "yields now rid (touch_bearer (ses_ID s) now) t (Inr ()) (seen_at (ses_ID s) now t)"
    unfolding touch_bearer_def
    by (intro yields_andThen [OF yields_attempt [OF yields_TouchSession]] assms(3)) (simp_all add: yields_basic)
  show ?thesis
    unfolding Authenticate_def if_not_P [OF assms(1)]
    by (rule yields_andThen [OF find], rule yields_andThen [OF yields_basic(5)],
        rule yields_andThen [OF yields_on_error_Inr [OF yields_check_None [OF valid]]],
        rule yields_andThen [OF user], unfold if_not_P [OF assms(6)],
        rule yields_andThen [OF touch], rule yields_basic(1))
qed

definition add_session :: "session \<Rightarrow> tables \<Rightarrow> tables" where
  "add_session s t = t\<lparr>t_sessions := table_insert (\<lambda>i r. r\<lparr>ses_ID := i\<rparr>) s (t_sessions t)\<rparr>"

definition next_session :: "tables \<Rightarrow> int" where
  "next_session t = tbl_seq (t_sessions t) + 1"

lemma yields_Login:
  assumes "NormalizeEmail email = Inr norm" "NormalizeEmail norm = Inr norm" "password \<noteq> []"
    and "first_where (\<lambda>u. usr_Email u = norm) (t_users t) = Some u" "\<not> usr_Disabled u"
    and "VerifyPassword (usr_PasswordHash u) password = Inr True" "NewSessionToken entropy = Inr token"
    and "0 < ttl" "session_by_digest (TokenDigest token) t = None"
  shows "\<exists>t'. yields now rid (Login ttl entropy email password ua) t
      (Inr \<lparr>log_Token = token, log_ExpiresAt = now + ttl, log_Principal = principal_of u (next_session t)\<rparr>) t'
    \<and> t_sessions t' = t_sessions (add_session (new_session u token now ttl ua) t) \<and> t_users t' = t_users t"
proof -
  let ?s = "new_session u token now ttl ua" and ?i = "next_session t"
  let ?d = "''session opened for '' @ usr_Email u @ '' until '' @ formatSeconds (ses_ExpiresAt (?s\<lparr>ses_ID := ?i\<rparr>))"
  let ?t1 = "add_session ?s t"
  let ?t2 = "add_audit (logged (Some (principal_of u ?i)) ActionLogin ''session'' ?i ResultSuccess rid ?d now) ?t1"
  have u: "u \<in> set (tbl_rows (t_users t))" using assms(4) by (auto dest: first_where_Some)
  have "yields now rid (FindUserByEmail norm) t (Inr u) t"
    unfolding FindUserByEmail_def assms(2)
    by (rule yields_andThen [OF yields_basic(3)], rule yields_on_error_Inr, rule yields_query_row_Some, rule assms(4))
  then have find: "yields now rid (find_login norm) t (Inr u) t"
    unfolding find_login_def by (rule yields_andThen [OF yields_attempt]) (simp add: yields_basic)
  have fields: "ses_TokenDigest ?s \<noteq> []" "ses_IssuedAt ?s < ses_ExpiresAt ?s"
    using assms(8) by (simp_all add: new_session_def)
  have "insert_session ?s t = Inr (?i, ?t1)"
    using assms(9) u
    by (auto simp: insert_session_def session_by_digest_def first_where_None exists_where_iff new_session_def
        next_session_def add_session_def)
  then have ins: "yields now rid (exec (insert_session ?s)) t (Inr ?i) ?t1"
    using yields_exec [of now rid "insert_session ?s" t] by simp
  have create: "yields now rid (CreateSession ?s) t (Inr (?s\<lparr>ses_ID := ?i\<rparr>)) ?t1"
    unfolding CreateSession_def if_not_P [OF fields(1)] using fields(2)
    by (simp only: not_True_eq_False if_False)
      (rule yields_andThen [OF yields_on_error_Inr [OF ins]],
       rule yields_andThen [OF yields_on_error_Inr [OF yields_basic(7)]], rule yields_basic(1))
  have "exists_where (\<lambda>v. usr_ID v = usr_ID u) (t_users ?t1)"
    using u by (auto simp: exists_where_iff add_session_def)
  then have rec: "yields now rid (RecordObjectID (Some (principal_of u ?i)) ActionLogin ''session'' ?i ResultSuccess ?d)
      ?t1 (Inr ()) ?t2"
    by (intro yields_Record) (simp_all add: principal_of_def)
  have body: "yields now rid (login_tx u ?s) t (Inr (?s\<lparr>ses_ID := ?i\<rparr>)) ?t2"
    unfolding login_tx_def
    by (rule yields_andThen [OF create], rule yields_andThen [OF _ yields_basic(1)]) (use rec in simp)
  have "yields now rid (Login ttl entropy email password ua) t
      (Inr \<lparr>log_Token = token, log_ExpiresAt = ses_ExpiresAt (?s\<lparr>ses_ID := ?i\<rparr>),
        log_Principal = principal_of u (ses_ID (?s\<lparr>ses_ID := ?i\<rparr>))\<rparr>) ?t2"
    unfolding Login_def assms(1,7)
    by (rule yields_andThen [OF yields_basic(3)], unfold if_not_P [OF assms(3)], rule yields_andThen [OF find],
        unfold if_not_P [OF assms(5)] assms(6), rule yields_andThen [OF yields_on_error_Inr [OF yields_basic(3)]],
        unfold not_True_eq_False if_False, rule yields_andThen [OF yields_basic(3)],
        rule yields_andThen [OF yields_basic(5)], rule yields_andThen [OF yields_InTx_Inr [OF body]], rule yields_basic(1))
  then show ?thesis
    by (intro exI [of _ ?t2]) (simp add: new_session_def add_audit_def add_session_def)
qed

lemma yields_Logout:
  assumes "s \<in> set (tbl_rows (t_sessions t))" "ses_RevokedAt s = None" "ses_ID s = prn_SessionID actor"
    and "0 < prn_SessionID actor" "exists_where (\<lambda>u. usr_ID u = prn_UserID actor) (t_users t)"
  shows "\<exists>t'. yields now rid (Logout actor) t (Inr ()) t'"
proof -
  let ?i = "prn_SessionID actor"
  let ?t1 = "t\<lparr>t_sessions := table_update (open_session ?i) (\<lambda>s. s\<lparr>ses_RevokedAt := Some now\<rparr>) (t_sessions t)\<rparr>"
  have "0 < count_where (open_session ?i) (t_sessions t)"
    using assms(1-3) by (auto simp: count_where_pos open_session_def)
  then have pos: "count_where (open_session ?i) (t_sessions t) \<noteq> 0" by simp
  have "yields now rid (exec (update_session ?i (\<lambda>s. s\<lparr>ses_RevokedAt := Some now\<rparr>))) t
      (Inr (count_where (open_session ?i) (t_sessions t))) ?t1"
    using yields_exec [of now rid "update_session ?i (\<lambda>s. s\<lparr>ses_RevokedAt := Some now\<rparr>)" t]
    by (simp add: update_session_def)
  then have rev: "yields now rid (RevokeSession ?i now) t (Inr ()) ?t1"
    unfolding RevokeSession_def
    by (rule yields_andThen [OF yields_on_error_Inr], intro yields_andThen [OF yields_on_error_Inr [OF yields_basic(7)]])
      (simp only: pos if_False yields_basic(1))
  have rec: "yields now rid (RecordObjectID (Some actor) ActionLogout ''session'' ?i ResultSuccess ''session revoked by logout'')
      ?t1 (Inr ()) (add_audit (logged (Some actor) ActionLogout ''session'' ?i ResultSuccess rid ''session revoked by logout'' now) ?t1)"
    by (rule yields_Record) (use assms(5) in simp_all)
  have body: "yields now rid (logout_tx actor now) t (Inr ()) (add_audit (logged (Some actor) ActionLogout ''session'' ?i
      ResultSuccess rid ''session revoked by logout'' now) ?t1)"
    unfolding logout_tx_def by (rule yields_andThen [OF rev], rule rec)
  have ne: "\<not> ?i \<le> 0" using assms(4) by simp
  show ?thesis
    unfolding Logout_def if_not_P [OF ne]
    by (rule exI, rule yields_andThen [OF yields_basic(5)], rule yields_InTx_Inr [OF body])
qed

lemma Login_Inr:
  assumes "Login ttl entropy email password ua w = (Inr res, w')"
  obtains u token now n e where "u \<in> set (tbl_rows (t_users (tb w)))" "\<not> usr_Disabled u"
    "NormalizeEmail email = Inr (usr_Email u)" "now = w_clock w n"
    "VerifyPassword (usr_PasswordHash u) password = Inr True" "NewSessionToken entropy = Inr token"
    "session_by_digest (TokenDigest token) (tb w) = None" "0 < ttl"
    "audit_added (add_session (new_session u token now ttl ua) (tb w)) (tb w') e"
    "res = \<lparr>log_Token = token, log_ExpiresAt = now + ttl, log_Principal = principal_of u (next_session (tb w))\<rparr>"
proof -
  from assms obtain norm u w1 b token now w2 s where
    norm: "NormalizeEmail email = Inr norm" and find: "find_login norm w = (Inr u, w1)" and guard: "\<not> usr_Disabled u"
    and verify: "VerifyPassword (usr_PasswordHash u) password = Inr b" "b"
    and token: "NewSessionToken entropy = Inr token" and w2: "clock_now w1 = (Inr now, w2)"
    and tx: "InTx (login_tx u (new_session u token now ttl ua)) w2 = (Inr s, w')"
    and res: "res = \<lparr>log_Token = token, log_ExpiresAt = ses_ExpiresAt s, log_Principal = principal_of u (ses_ID s)\<rparr>"
    unfolding Login_def
    by (auto simp: andThen_Inr on_error_Inr lift_result_iff ret_iff raise_iff split: if_splits)
  have f: "u \<in> set (tbl_rows (t_users (tb w))) \<and> tb w1 = tb w \<and> usr_Email u = norm"
    using find NormalizeEmail_idempotent [OF norm] unfolding find_login_def recovered_Inr
    by (auto simp: FindUserByEmail_def op_simps dest!: first_where_Some)
  then have same: "tb w2 = tb w" using w2 by (simp add: clock_now_iff)
  have "tame (find_login norm)" unfolding find_login_def by (intro tame_intro)
  from tame_result [OF this find] have now: "now = w_clock w (w_tick w1)" using w2 by (simp add: clock_now_iff same_env_def)
  let ?s = "new_session u token now ttl ua"
  from tx obtain w3 w4 where b: "tb w3 = tb w" "login_tx u ?s w3 = (Inr s, w4)" "tb w' = tb w4"
    using tx.commit [of "login_tx u ?s" w2] same by auto
  from b(2) obtain w5 v where create: "CreateSession ?s w3 = (Inr s, w5)"
    and rec: "RecordObjectID (Some (principal_of u (ses_ID s))) ActionLogin ''session''
       (ses_ID s) ResultSuccess
       (''session opened for '' @ usr_Email u @ '' until '' @ formatSeconds (ses_ExpiresAt s)) w5 = (Inr v, w4)"
    unfolding login_tx_def andThen_Inr ret_iff by blast
  from create have c: "0 < ttl" "insert_session ?s (tb w) = Inr (ses_ID s, tb w5)" "s = ?s\<lparr>ses_ID := ses_ID s\<rparr>"
    unfolding CreateSession_def using b(1)
    by (auto simp: andThen_Inr on_error_Inr exec_Inr driver_Inr ret_iff raise_iff new_session_def split: if_splits)
  from c(2) have ins: "session_by_digest (TokenDigest token) (tb w) = None" "ses_ID s = next_session (tb w)"
      "tb w5 = add_session ?s (tb w)"
    by (auto simp: insert_session_def session_by_digest_def first_where_None exists_where_iff new_session_def
        next_session_def add_session_def split: if_splits)
  obtain e where "audit_added (tb w5) (tb w4) e" using RecordObjectID_Inr [OF rec] by blast
  then have "audit_added (add_session ?s (tb w)) (tb w') e" using ins(3) b(3) by simp
  moreover have "ses_ExpiresAt s = now + ttl"
    using arg_cong [OF c(3), of ses_ExpiresAt] by (simp add: new_session_def)
  ultimately show thesis
    using that [of u now "w_tick w1" token e] now f guard norm verify token ins(1,2) c(1) res by simp
qed

definition fails_clean :: "'a op \<Rightarrow> bool" where
  \<comment> \<open>a failure leaves the database as it was\<close>
  "fails_clean m \<longleftrightarrow> (\<forall>w e w'. m w = (Inl e, w') \<longrightarrow> tb w' = tb w)"

lemma fails_clean_reads: "reads m \<Longrightarrow> fails_clean m"
  by (auto simp: fails_clean_def dest: reads_result)

lemma fails_clean_then:
  assumes "reads m" "\<And>x. fails_clean (f x)"
  shows "fails_clean (andThen m f)"
  unfolding fails_clean_def
proof (intro allI impI)
  fix w e w'
  assume run: "andThen m f w = (Inl e, w')"
  obtain r w1 where m: "m w = (r, w1)" by fastforce
  then have "tb w1 = tb w" using reads_result [OF assms(1)] by simp
  then show "tb w' = tb w" using run m assms(2) by (cases r) (auto simp: andThen_def fails_clean_def)
qed

lemma fails_clean_tx: "fails_clean (andThen (InTx m) (\<lambda>x. ret (f x)))"
  by (auto simp: fails_clean_def andThen_def ret_def split: prod.splits sum.splits dest: InTx_Inl_tb)

lemma fails_clean_if: "fails_clean f \<Longrightarrow> fails_clean g \<Longrightarrow> fails_clean (if b then f else g)"
  by simp

lemma Login_fails_clean: "fails_clean (Login ttl entropy email password ua)"
proof -
  have find: "reads (find_login norm)" for norm
    unfolding find_login_def by (intro reads_intro)
  show ?thesis
    unfolding Login_def
    by (rule fails_clean_tx | rule fails_clean_if | rule fails_clean_then [OF find] | rule fails_clean_then, intro reads_intro
      | rule fails_clean_reads, intro reads_intro)+
qed

section \<open>A campus with passwords\<close>

definition sample_hash :: string where
  "sample_hash = (case HashPassword ''student-pw'' ''0123456789abcdef'' 1 of Inr h \<Rightarrow> h | Inl _ \<Rightarrow> [])"

definition account_campus :: tables where
  "account_campus = campus\<lparr>t_users := \<lparr>tbl_rows = [(sample_user 1 ''ana@campus'' RoleStudent)\<lparr>usr_PasswordHash := sample_hash\<rparr>],
     tbl_seq = 1\<rparr>\<rparr>"

definition sample_token :: string where
  "sample_token = ToLower (base32_encode (replicate 32 (CHR ''k'')))"

lemma sample_hash_verifies: "VerifyPassword sample_hash ''student-pw'' = Inr True"
  using verify_hash [of 1] by (simp add: sample_hash_def HashPassword_def saltLength_def Let_def in_int64_def
    del: string_join.simps)

lemma sample_token_ne: "sample_token \<noteq> []"
  by code_simp

lemma account_sessions_ok [simp]: "sessions_ok account_campus"
  by (simp add: sessions_ok_def session_key.keyed_def account_campus_def campus_def empty_tables_def empty_table_def)

section \<open>Sessions\<close>

text \<open>C16: a token speaks only for the user whose session carries its digest: a request is authenticated
  when that session is stored, not revoked and not expired at an instant the clock showed, and its user
  exists and is enabled; the principal is that user's.\<close>

theorem Authenticate_sound:
  assumes "Authenticate token w = (Inr p, w')"
  shows "\<exists>s u n. s \<in> set (tbl_rows (t_sessions (tb w))) \<and> ses_TokenDigest s = TokenDigest token
    \<and> ses_RevokedAt s = None \<and> w_clock w n < ses_ExpiresAt s \<and> u \<in> set (tbl_rows (t_users (tb w)))
    \<and> usr_ID u = ses_UserID s \<and> \<not> usr_Disabled u \<and> p = principal_of u (ses_ID s)"
  using Authenticate_Inr [OF assms] by metis

definition session_campus :: tables where
  \<comment> \<open>ana holds one live session\<close>
  "session_campus = add_session (new_session (hd (tbl_rows (t_users account_campus))) sample_token 5 Minute ''web'') account_campus"

definition ana_session :: session where
  "ana_session = (new_session (hd (tbl_rows (t_users account_campus))) sample_token 5 Minute ''web'')\<lparr>ses_ID := 1\<rparr>"

definition ana_here :: principal where
  "ana_here = principal_of (hd (tbl_rows (t_users account_campus))) 1"

lemma session_campus_facts:
  "tbl_rows (t_sessions session_campus) = [ana_session]" "t_users session_campus = t_users account_campus"
  "session_by_digest (TokenDigest sample_token) session_campus = Some ana_session" "ses_RevokedAt ana_session = None"
  "ses_ID ana_session = 1" "ses_ExpiresAt ana_session = 5 + Minute" "sessions_ok session_campus"
  "first_where (\<lambda>u. usr_ID u = ses_UserID ana_session) (t_users session_campus) = Some (hd (tbl_rows (t_users account_campus)))"
  "\<not> usr_Disabled (hd (tbl_rows (t_users account_campus)))"
  by (simp_all add: session_campus_def add_session_def account_campus_def campus_def empty_tables_def empty_table_def
      table_insert_def ana_session_def new_session_def session_by_digest_def first_where_def sessions_ok_def
      session_key.keyed_def sample_user_def)

lemma ana_authenticates:
  "yields 6 ''req-1'' (Authenticate sample_token) session_campus (Inr ana_here) (seen_at 1 6 session_campus)"
  using yields_Authenticate [OF sample_token_ne session_campus_facts(3,4) _ session_campus_facts(8,9), of 6 "''req-1''"]
  by (simp add: session_campus_facts(5,6) Minute_def Second_def ana_here_def)

theorem Authenticate_sound_witness:
  "\<exists>s. s \<in> set (tbl_rows (t_sessions session_campus)) \<and> ses_TokenDigest s = TokenDigest sample_token
    \<and> ses_RevokedAt s = None \<and> (6::int) < ses_ExpiresAt s"
proof -
  obtain w1 where "Authenticate sample_token (at_time 6 session_campus) = (Inr ana_here, w1)"
    by (rule yieldsE [OF ana_authenticates calm_at_time])
  from Authenticate_sound [OF this] show ?thesis by (auto simp: calm_world [OF calm_at_time(1)])
qed

section \<open>A session stays open\<close>

definition holds_session :: "session \<Rightarrow> tables \<Rightarrow> bool" where
  \<comment> \<open>the session is still there, under its key and digest, and nobody has revoked it\<close>
  "holds_session s t \<longleftrightarrow> sessions_ok t
     \<and> (\<exists>q \<in> set (tbl_rows (t_sessions t)). session_after s q \<and> ses_RevokedAt q = None)"

definition leaves_open :: "session \<Rightarrow> tables \<Rightarrow> tables \<Rightarrow> bool" where
  "leaves_open s t t' \<longleftrightarrow> t_users t' = t_users t \<and> (holds_session s t \<longrightarrow> holds_session s t')"

lemma leaves_open_same: "t_sessions t' = t_sessions t \<Longrightarrow> t_users t' = t_users t \<Longrightarrow> leaves_open s t t'"
  by (simp add: leaves_open_def holds_session_def sessions_ok_def)

interpretation opened: evolution "leaves_open s" for s
  by unfold_locales (auto simp: leaves_open_def)

interpretation opened: trail_calls "leaves_open s" for s
  by unfold_locales (rule opened.append_frame, rule leaves_open_same, simp_all)

lemma leaves_open_update:
  assumes "\<And>q. q \<in> set (tbl_rows (t_sessions t)) \<Longrightarrow> P q \<Longrightarrow> session_after q (f q)"
    and "\<And>q. sessions_ok t \<Longrightarrow> q \<in> set (tbl_rows (t_sessions t)) \<Longrightarrow> session_after s q \<Longrightarrow> ses_RevokedAt q = None
      \<Longrightarrow> P q \<Longrightarrow> ses_RevokedAt (f q) = None"
  shows "leaves_open s t (t\<lparr>t_sessions := table_update P f (t_sessions t)\<rparr>)"
proof -
  let ?t' = "t\<lparr>t_sessions := table_update P f (t_sessions t)\<rparr>"
  have "holds_session s ?t'" if held: "holds_session s t"
  proof -
    obtain q where q: "q \<in> set (tbl_rows (t_sessions t))" "session_after s q" "ses_RevokedAt q = None" and ok: "sessions_ok t"
      using held unfolding holds_session_def by blast
    let ?q = "if P q then f q else q"
    have "sessions_ok ?t'" using sessions_evolve_update [OF assms(1)] ok unfolding sessions_evolve_def by blast
    moreover have "?q \<in> set (tbl_rows (t_sessions ?t'))" using q(1) by (auto simp: table_update_def)
    moreover have "session_after s ?q"
      using session_after_trans [OF q(2) assms(1) [OF q(1)]] q(2) by simp
    moreover have "ses_RevokedAt ?q = None" using assms(2) [OF ok q] q(3) by simp
    ultimately show ?thesis unfolding holds_session_def by blast
  qed
  then show ?thesis by (simp add: leaves_open_def)
qed

lemma CreateSession_open [keeps_intro]: "opened.keeps s (CreateSession q)"
proof -
  have "leaves_open s t t'" if ins: "insert_session q t = Inr (i, t')" for t i t'
  proof -
    have ok: "sessions_ok t \<Longrightarrow> sessions_ok t'"
      using sessions_evolve_insert [OF ins] unfolding sessions_evolve_def by blast
    have rows: "set (tbl_rows (t_sessions t)) \<subseteq> set (tbl_rows (t_sessions t'))" "t_users t' = t_users t"
      using ins by (auto simp: insert_session_def table_insert_def split: if_splits)
    show ?thesis using ok rows unfolding leaves_open_def holds_session_def by blast
  qed
  then show ?thesis unfolding CreateSession_def by (intro keeps_intro)
qed

lemma TouchSession_open [keeps_intro]: "opened.keeps s (TouchSession i at)"
  unfolding TouchSession_def update_session_def
  by (intro keeps_intro) (clarsimp, rule leaves_open_update; simp add: session_after_def)

lemma RevokeSession_open:
  assumes "i \<noteq> ses_ID s"
  shows "opened.keeps s (RevokeSession i at)"
  unfolding RevokeSession_def update_session_def
  by (intro keeps_intro) (clarsimp, rule leaves_open_update; use assms in \<open>simp add: session_after_def open_session_def\<close>)

lemma RevokeExpired_open:
  assumes "\<not> time_text_le (ses_ExpiresAt s) before"
  shows "opened.keeps s (RevokeExpiredSessions before n)"
proof -
  have "leaves_open s t (t\<lparr>t_sessions := table_update (\<lambda>q. ses_ID q \<in> set (sweep_victims before k t))
      (\<lambda>q. q\<lparr>ses_RevokedAt := Some before\<rparr>) (t_sessions t)\<rparr>)" for t k
  proof (cases "sessions_ok t")
    case True
    then have "expired_session before q"
      if "q \<in> set (tbl_rows (t_sessions t))" "ses_ID q \<in> set (sweep_victims before k t)" for q
      using sweep_victims_expired [OF _ that] by (simp add: sessions_ok_def)
    then show ?thesis
    proof (intro leaves_open_update)
      fix q assume q: "q \<in> set (tbl_rows (t_sessions t))" "session_after s q" "ses_ID q \<in> set (sweep_victims before k t)"
      then have "time_text_le (ses_ExpiresAt q) before"
        using sweep_victims_expired [of t q before k] True by (simp add: sessions_ok_def expired_session_def)
      then show "ses_RevokedAt (q\<lparr>ses_RevokedAt := Some before\<rparr>) = None"
        using assms q(2) by (simp add: session_after_def)
    qed (simp add: session_after_def expired_session_def)
  qed (simp add: leaves_open_def holds_session_def)
  then show ?thesis unfolding RevokeExpiredSessions_def Let_def by (intro keeps_intro) auto
qed

lemma accounts_open:
  "opened.keeps s (Login ttl entropy email password ua)" "opened.keeps s (Authenticate token)"
  "opened.keeps s (ActiveSessionCount actor)"
  "prn_SessionID actor \<noteq> ses_ID s \<Longrightarrow> opened.keeps s (Logout actor)"
  "\<not> time_text_le (ses_ExpiresAt s) now \<Longrightarrow> opened.keeps s (InTx (sweep_tx now limit))"
proof -
  have lookups: "opened.keeps s (FindUserByEmail x)" "opened.keeps s (FindUserByID i)" "opened.keeps s (FindSessionByDigest d)"
    "opened.keeps s (CountActiveSessions uid now)" for x i d uid now
    by (intro opened.keeps_reads account_reads)+
  show "opened.keeps s (Login ttl entropy email password ua)" "opened.keeps s (Authenticate token)"
    "opened.keeps s (ActiveSessionCount actor)"
    unfolding Login_def find_login_def login_tx_def Authenticate_def find_bearer_def touch_bearer_def ActiveSessionCount_def
    by (intro keeps_intro lookups)+
  show "prn_SessionID actor \<noteq> ses_ID s \<Longrightarrow> opened.keeps s (Logout actor)"
    unfolding Logout_def logout_tx_def by (intro keeps_intro RevokeSession_open)
  show "\<not> time_text_le (ses_ExpiresAt s) now \<Longrightarrow> opened.keeps s (InTx (sweep_tx now limit))"
    unfolding sweep_tx_def by (intro keeps_intro RevokeExpired_open)
qed

lemma tame_perform_auth: "tame (perform_auth c)"
  by (cases c) (simp_all, (intro tame_intro)+)

lemma Sweep_open:
  assumes "SweepExpiredSessions limit w = (r, w')" "\<And>n. \<not> time_text_le (ses_ExpiresAt s) (w_clock w n)"
  shows "leaves_open s (tb w) (tb w')"
proof -
  have "InTx (sweep_tx (w_clock w (w_tick w)) limit) (tick w) = (r, w')"
    using assms(1) by (simp add: SweepExpiredSessions_def andThen_def clock_now_def)
  from opened.keeps_result [OF accounts_open(5) [OF assms(2)] this] show ?thesis by simp
qed

lemma perform_auth_open:
  assumes "perform_auth c w = (r, w')" "\<And>p. c = CallLogout p \<Longrightarrow> prn_SessionID p \<noteq> ses_ID s"
    and "\<And>n. \<not> time_text_le (ses_ExpiresAt s) (w_clock w n)"
  shows "leaves_open s (tb w) (tb w')"
proof (cases c)
  case (CallSweep limit)
  then obtain q where "SweepExpiredSessions limit w = (q, w')"
    using assms(1) by (auto simp: andThen_def attempt_def ret_def split: prod.splits)
  then show ?thesis by (rule Sweep_open [OF _ assms(3)])
next
  case (CallLogout p)
  then have "opened.keeps s (perform_auth c)" using accounts_open(4) [OF assms(2) [OF CallLogout]] by (simp, intro keeps_intro)
  then show ?thesis using opened.keeps_result assms(1) by blast
qed (use assms(1) in \<open>auto simp: andThen_def attempt_def ret_def split: prod.splits
    dest: opened.keeps_result [OF accounts_open(1)] opened.keeps_result [OF accounts_open(2)] opened.keeps_result [OF accounts_open(3)]\<close>)

lemma perform_auths_open:
  assumes "perform_auths cs w = (r, w')" "\<And>p. CallLogout p \<in> set cs \<Longrightarrow> prn_SessionID p \<noteq> ses_ID s"
    and "\<And>n. \<not> time_text_le (ses_ExpiresAt s) (w_clock w n)"
  shows "leaves_open s (tb w) (tb w')"
  using assms
proof (induction cs arbitrary: w)
  case Nil
  then show ?case by (simp add: ret_iff opened.refl)
next
  case (Cons c cs)
  obtain q w1 where q: "perform_auth c w = (q, w1)" by fastforce
  have first: "leaves_open s (tb w) (tb w1)" by (rule perform_auth_open [OF q _ Cons.prems(3)]) (use Cons.prems(2) in simp)
  show ?case
  proof (cases q)
    case (Inr x)
    have "w_clock w1 = w_clock w" using tame_result [OF tame_perform_auth q] by (simp add: same_env_def)
    then have "leaves_open s (tb w1) (tb w')"
      using Cons.IH [of w1] Cons.prems q Inr by (simp add: andThen_def)
    then show ?thesis by (rule opened.trans [OF first])
  qed (use Cons.prems(1) q first in \<open>simp add: andThen_def\<close>)
qed

definition before_expiry :: "world \<Rightarrow> instant \<Rightarrow> bool" where
  \<comment> \<open>the clock stays in the seconds before that of the expiry, which the stored texts order\<close>
  "before_expiry w expires \<longleftrightarrow> storable expires
     \<and> (\<forall>n. storable (w_clock w n) \<and> w_clock w n div Second < expires div Second)"

lemma before_expiry_text: "before_expiry w expires \<Longrightarrow> \<not> time_text_le expires (w_clock w n)"
  using formatTime_less_second [of "w_clock w n" expires]
  by (auto simp: before_expiry_def time_text_le_def Second_def not_le)

text \<open>C23: a login opens exactly one session, and only for the right password. A login that succeeds was for a
  stored, enabled account with the normalised address, whose stored hash verifies the password; it has
  handed out the token that was drawn, stored one unrevoked session of that account under its
  digest, issued at an instant of the clock and expiring after the time to live, written one
  entry in the trail, and changed no other row. A login that fails has changed nothing at all.\<close>

theorem login_needs_password:
  assumes "Login ttl entropy email password ua w = (r, w')"
  shows "case r of Inl _ \<Rightarrow> tb w' = tb w
    | Inr res \<Rightarrow> \<exists>u issued n e. issued = w_clock w n \<and> u \<in> set (tbl_rows (t_users (tb w))) \<and> \<not> usr_Disabled u
        \<and> NormalizeEmail email = Inr (usr_Email u) \<and> VerifyPassword (usr_PasswordHash u) password = Inr True
        \<and> NewSessionToken entropy = Inr (log_Token res) \<and> 0 < ttl
        \<and> session_by_digest (TokenDigest (log_Token res)) (tb w) = None
        \<and> audit_added (add_session (new_session u (log_Token res) issued ttl ua) (tb w)) (tb w') e
        \<and> log_ExpiresAt res = issued + ttl \<and> log_Principal res = principal_of u (next_session (tb w))"
proof (cases r)
  case (Inl e)
  then show ?thesis using Login_fails_clean assms by (auto simp: fails_clean_def)
next
  case (Inr res)
  with assms have run: "Login ttl entropy email password ua w = (Inr res, w')" by simp
  obtain u token now n e where *: "u \<in> set (tbl_rows (t_users (tb w)))" "\<not> usr_Disabled u"
    "NormalizeEmail email = Inr (usr_Email u)" "now = w_clock w n" "VerifyPassword (usr_PasswordHash u) password = Inr True"
    "NewSessionToken entropy = Inr token" "session_by_digest (TokenDigest token) (tb w) = None" "0 < ttl"
    "audit_added (add_session (new_session u token now ttl ua) (tb w)) (tb w') e"
    "res = \<lparr>log_Token = token, log_ExpiresAt = now + ttl, log_Principal = principal_of u (next_session (tb w))\<rparr>"
    by (rule Login_Inr [OF run])
  show ?thesis
    unfolding Inr sum.case
    by (rule exI [of _ u], rule exI [of _ now], rule exI [of _ n], rule exI [of _ e], intro conjI)
      (use * in \<open>simp_all only: login_result.simps not_False_eq_True\<close>)
qed

lemma account_login:
  defines "u \<equiv> hd (tbl_rows (t_users account_campus))"
  shows "NormalizeEmail ''Ana@Campus'' = Inr ''ana@campus''"
    "first_where (\<lambda>u. usr_Email u = ''ana@campus'') (t_users account_campus) = Some u" "\<not> usr_Disabled u"
    "VerifyPassword (usr_PasswordHash u) ''student-pw'' = Inr True"
    "NewSessionToken (Inr (replicate 32 (CHR ''k''))) = Inr sample_token"
    "session_by_digest (TokenDigest sample_token) account_campus = None" "next_session account_campus = 1"
    "user_key.keyed (t_users account_campus)"
proof -
  show "NormalizeEmail ''Ana@Campus'' = Inr ''ana@campus''" by code_simp
  show "first_where (\<lambda>u. usr_Email u = ''ana@campus'') (t_users account_campus) = Some u" "\<not> usr_Disabled u"
      "VerifyPassword (usr_PasswordHash u) ''student-pw'' = Inr True" "user_key.keyed (t_users account_campus)"
    using sample_hash_verifies by (simp_all add: u_def account_campus_def sample_user_def first_where_def user_key.keyed_def)
  show "NewSessionToken (Inr (replicate 32 (CHR ''k''))) = Inr sample_token"
    by (simp add: NewSessionToken_def sample_token_def)
  show "session_by_digest (TokenDigest sample_token) account_campus = None" "next_session account_campus = 1"
    by (simp_all add: session_by_digest_def first_where_def next_session_def account_campus_def campus_def
        empty_tables_def empty_table_def)
qed

theorem login_needs_password_witness:
  "\<exists>res w' issued. Login Minute (Inr (replicate 32 (CHR ''k''))) ''Ana@Campus'' ''student-pw'' ''web'' (at_time 5 account_campus) = (Inr res, w')
    \<and> log_Token res = sample_token \<and> log_ExpiresAt res = issued + Minute
    \<and> map ses_TokenDigest (tbl_rows (t_sessions (tb w'))) = [TokenDigest sample_token]"
proof -
  have arg: "''student-pw'' \<noteq> []" "0 < Minute" by (simp_all add: Minute_def Second_def)
  have rows: "tbl_rows (t_sessions account_campus) = []" by (simp add: account_campus_def campus_def empty_tables_def empty_table_def)
  obtain t' res where y: "yields 5 ''req-1'' (Login Minute (Inr (replicate 32 (CHR ''k''))) ''Ana@Campus'' ''student-pw'' ''web'') account_campus
      (Inr res) t'" "log_Token res = sample_token"
    using yields_Login [OF account_login(1) _ arg(1) account_login(2-5) arg(2) account_login(6)]
      NormalizeEmail_idempotent [OF account_login(1)] by (metis login_result.select_convs(1))
  obtain w' where w': "Login Minute (Inr (replicate 32 (CHR ''k''))) ''Ana@Campus'' ''student-pw'' ''web'' (at_time 5 account_campus) = (Inr res, w')"
    by (rule yieldsE [OF y(1) calm_at_time])
  from login_needs_password [OF w'] obtain u issued e where
    "audit_added (add_session (new_session u (log_Token res) issued Minute ''web'') account_campus) (tb w') e"
    "log_ExpiresAt res = issued + Minute" by auto
  then show ?thesis
    using w' y(2) rows
    by (intro exI [of _ res] exI [of _ w'] exI [of _ issued]) (simp add: audit_added_def add_session_def table_insert_def new_session_def)
qed

text \<open>C17: a login with the right password opens a session that works until it expires. For an enabled
  account whose stored hash verifies the password, and with a fresh token from \<open>crypto/rand\<close>, an
  undisturbed login succeeds and reports the expiry. After any logins, requests (with this token too),
  logouts of other sessions and sweeps that follow, whatever fails in them, while the clock shows seconds
  before that of the expiry, the token still authenticates as the principal the login reported at
  any moment before the expiry at which nothing fails.\<close>

theorem login_then_authenticate:
  assumes "user_key.keyed (t_users (tb w))" "sessions_ok (tb w)" "calm issued rid w"
    and "NormalizeEmail email = Inr norm" "password \<noteq> []"
    and "first_where (\<lambda>u. usr_Email u = norm) (t_users (tb w)) = Some u" "\<not> usr_Disabled u"
    and "VerifyPassword (usr_PasswordHash u) password = Inr True" "NewSessionToken entropy = Inr token" "token \<noteq> []"
    and "0 < ttl" "session_by_digest (TokenDigest token) (tb w) = None"
    and "\<And>p. CallLogout p \<in> set cs \<Longrightarrow> prn_SessionID p \<noteq> next_session (tb w)"
  shows "\<exists>w1. Login ttl entropy email password ua w
      = (Inr \<lparr>log_Token = token, log_ExpiresAt = issued + ttl, log_Principal = principal_of u (next_session (tb w))\<rparr>, w1)
    \<and> (\<forall>w2 r w3 now rid' w4. tb w2 = tb w1 \<longrightarrow> before_expiry w2 (issued + ttl) \<longrightarrow> perform_auths cs w2 = (r, w3)
        \<longrightarrow> tb w4 = tb w3 \<longrightarrow> calm now rid' w4 \<longrightarrow> now < issued + ttl
        \<longrightarrow> (\<exists>w5. Authenticate token w4 = (Inr (principal_of u (next_session (tb w))), w5)))"
proof -
  let ?new = "new_session u token issued ttl ua" and ?i = "next_session (tb w)"
  let ?s = "?new\<lparr>ses_ID := ?i\<rparr>"
  have s: "ses_ID ?s = ?i" "ses_TokenDigest ?s = TokenDigest token" "ses_ExpiresAt ?s = issued + ttl"
    "ses_UserID ?s = usr_ID u" "ses_RevokedAt ?s = None" by (simp_all add: new_session_def)
  obtain t' where y: "yields issued rid (Login ttl entropy email password ua) (tb w)
      (Inr \<lparr>log_Token = token, log_ExpiresAt = issued + ttl, log_Principal = principal_of u ?i\<rparr>) t'"
    and t': "t_sessions t' = t_sessions (add_session ?new (tb w))" "t_users t' = t_users (tb w)"
    using yields_Login [OF assms(4) _ assms(5-9,11,12)] NormalizeEmail_idempotent [OF assms(4)] by blast
  obtain w1 where w1: "Login ttl entropy email password ua w
      = (Inr \<lparr>log_Token = token, log_ExpiresAt = issued + ttl, log_Principal = principal_of u ?i\<rparr>, w1)" "tb w1 = t'"
    by (rule yieldsE [OF y assms(3) refl])
  have "sessions_ok (tb w1)"
    using sessions.keeps_result [OF sessions.keeps_accounts(1) w1(1)] assms(2) unfolding sessions_evolve_def by blast
  moreover have "?s \<in> set (tbl_rows (t_sessions (tb w1)))"
    by (simp add: w1(2) t' add_session_def table_insert_def next_session_def)
  ultimately have held: "holds_session ?s (tb w1)" using s(5) session_after_refl unfolding holds_session_def by blast
  have "\<exists>w5. Authenticate token w4 = (Inr (principal_of u ?i), w5)"
    if "tb w2 = tb w1" "before_expiry w2 (issued + ttl)" "perform_auths cs w2 = (r, w3)" "tb w4 = tb w3"
      "calm now rid' w4" "now < issued + ttl" for w2 r w3 now rid' w4
  proof -
    have "leaves_open ?s (tb w2) (tb w3)"
      by (rule perform_auths_open [OF that(3)]) (use assms(13) before_expiry_text [OF that(2)] s in simp_all)
    then have "holds_session ?s (tb w4)" and users: "t_users (tb w4) = t_users (tb w)"
      using held that(1,4) w1(2) t'(2) by (simp_all add: leaves_open_def)
    then obtain q where q: "q \<in> set (tbl_rows (t_sessions (tb w4)))" "session_after ?s q" "ses_RevokedAt q = None"
      and ok: "sessions_ok (tb w4)" unfolding holds_session_def by blast
    have qs: "ses_ID q = ?i" "ses_TokenDigest q = TokenDigest token" "ses_ExpiresAt q = issued + ttl" "ses_UserID q = usr_ID u"
      using q(2) s unfolding session_after_def by simp_all
    have "u \<in> set (tbl_rows (t_users (tb w)))" using assms(6) by (auto dest: first_where_Some)
    then have user: "first_where (\<lambda>v. usr_ID v = ses_UserID q) (t_users (tb w4)) = Some u"
      using user_key.first_by_id [OF assms(1)] by (simp add: users qs)
    have "session_by_digest (TokenDigest token) (tb w4) = Some q" using by_digest [OF ok q(1)] qs by simp
    from yields_Authenticate [OF assms(10) this q(3) _ user assms(7), of now rid'] qs that(6)
    have "yields now rid' (Authenticate token) (tb w4) (Inr (principal_of u ?i)) (seen_at ?i now (tb w4))" by simp
    from yieldsE [OF this that(5) refl] show ?thesis by blast
  qed
  then show ?thesis using w1(1) by blast
qed

definition busy_evening :: "auth_call list" where
  \<comment> \<open>the token is used, the sweep runs, somebody else logs out\<close>
  "busy_evening = [CallAuthenticate sample_token, CallSweep 10, CallLogout (principal_of (sample_user 2 ''ben@campus'' RoleStudent) 7)]"

theorem login_then_authenticate_witness:
  "\<exists>res w1 w5. Login Minute (Inr (replicate 32 (CHR ''k''))) ''Ana@Campus'' ''student-pw'' ''web'' (at_time 5 account_campus) = (Inr res, w1)
    \<and> Authenticate sample_token (at_time 7 (tb (snd (perform_auths busy_evening (at_time 6 (tb w1)))))) = (Inr ana_here, w5)"
proof -
  let ?u = "hd (tbl_rows (t_users account_campus))"
  have away: "prn_SessionID p \<noteq> next_session account_campus" if "CallLogout p \<in> set busy_evening" for p
    using that unfolding account_login(7) by (auto simp: busy_evening_def principal_of_def)
  have early: "before_expiry (at_time 6 t) (5 + Minute)" for t
    by (simp add: before_expiry_def at_time_def storable_def Minute_def Second_def)
  have arg: "''student-pw'' \<noteq> []" "0 < Minute" "7 < 5 + Minute" by (simp_all add: Minute_def Second_def)
  from login_then_authenticate [where w = "at_time 5 account_campus" and ua = "''web''", unfolded calm_at_time(2),
      OF account_login(8) account_sessions_ok calm_at_time(1) account_login(1) arg(1) account_login(2-5) sample_token_ne
        arg(2) account_login(6) away]
  obtain w1 where w1: "Login Minute (Inr (replicate 32 (CHR ''k''))) ''Ana@Campus'' ''student-pw'' ''web'' (at_time 5 account_campus)
      = (Inr \<lparr>log_Token = sample_token, log_ExpiresAt = 5 + Minute, log_Principal = principal_of ?u 1\<rparr>, w1)"
    and later: "\<And>w2 r w3 now rid' w4. tb w2 = tb w1 \<Longrightarrow> before_expiry w2 (5 + Minute) \<Longrightarrow> perform_auths busy_evening w2 = (r, w3)
        \<Longrightarrow> tb w4 = tb w3 \<Longrightarrow> calm now rid' w4 \<Longrightarrow> now < 5 + Minute \<Longrightarrow> \<exists>w5. Authenticate sample_token w4 = (Inr (principal_of ?u 1), w5)"
    unfolding account_login(7) by blast
  have "\<exists>w5. Authenticate sample_token (at_time 7 (tb (snd (perform_auths busy_evening (at_time 6 (tb w1)))))) = (Inr ana_here, w5)"
    unfolding ana_here_def
    by (rule later [OF _ early prod.collapse [symmetric] _ calm_at_time(1) arg(3)]) simp_all
  then show ?thesis using w1 by blast
qed

text \<open>C15: logging out is final. A token that authenticated, and whose session then logged out, is
  refused after every later sequence of logins, requests, logouts and sweeps, whatever fails
  and whatever the clock shows.\<close>

theorem logged_out_for_good:
  assumes "sessions_ok (tb w)" "Authenticate token w = (Inr p, w1)" "Logout p w1 = (Inr v, w2)"
    and "perform_auths cs w2 = (r, w3)"
  shows "\<exists>e w4. Authenticate token w3 = (Inl e, w4)"
proof -
  obtain s where s: "s \<in> set (tbl_rows (t_sessions (tb w)))" "ses_TokenDigest s = TokenDigest token"
    "prn_SessionID p = ses_ID s"
    using Authenticate_Inr [OF assms(2)] by (metis principal.select_convs(2) principal_of_def)
  have ok1: "sessions_ok (tb w1)" "\<exists>s1 \<in> set (tbl_rows (t_sessions (tb w1))). session_after s s1"
    using sessions.keeps_result [OF sessions.keeps_accounts(2) assms(2)] assms(1) s(1) unfolding sessions_evolve_def by blast+
  then obtain s1 where s1: "s1 \<in> set (tbl_rows (t_sessions (tb w1)))" "session_after s s1" by blast
  then obtain s2 where s2: "s2 \<in> set (tbl_rows (t_sessions (tb w2)))" "session_after s1 s2" "ses_RevokedAt s2 \<noteq> None"
    using Logout_revokes [OF assms(3) ok1(1) s1(1)] s(3) by (auto simp: session_after_def)
  have ok2: "sessions_ok (tb w2)"
    using sessions.keeps_result [OF sessions.keeps_accounts(3) assms(3)] ok1(1) unfolding sessions_evolve_def by blast
  then obtain s3 where s3: "s3 \<in> set (tbl_rows (t_sessions (tb w3)))" "session_after s2 s3" and ok3: "sessions_ok (tb w3)"
    using sessions.keeps_result [OF perform_auths_keeps assms(4)] s2(1) unfolding sessions_evolve_def by blast
  have "ses_RevokedAt s3 \<noteq> None" "TokenDigest token = ses_TokenDigest s3"
    using s(2) s1(2) s2(2,3) s3(2) by (auto simp: session_after_def)
  then show ?thesis by (rule revoked_rejected [OF ok3 s3(1)])
qed

theorem logged_out_for_good_witness:
  "\<exists>w2 e w4. Authenticate sample_token (snd (perform_auths [CallSweep 10, CallAuthenticate sample_token] w2)) = (Inl e, w4)
    \<and> (\<exists>w1. Logout ana_here w1 = (Inr (), w2))"
proof -
  obtain w1 where auth: "Authenticate sample_token (at_time 6 session_campus) = (Inr ana_here, w1)"
    "calm 6 ''req-1'' w1" "tb w1 = seen_at 1 6 session_campus"
    by (rule yieldsE [OF ana_authenticates calm_at_time])
  let ?s = "ana_session\<lparr>ses_LastSeenAt := 6\<rparr>"
  have row: "?s \<in> set (tbl_rows (t_sessions (seen_at 1 6 session_campus)))"
    by (simp add: seen_at_def session_campus_facts table_update_def open_session_def)
  obtain t' where y: "yields 6 ''req-1'' (Logout ana_here) (seen_at 1 6 session_campus) (Inr ()) t'"
    using yields_Logout [OF row, of ana_here 6 "''req-1''"]
    by (auto simp: session_campus_facts ana_here_def principal_of_def seen_at_def exists_where_def account_campus_def)
  obtain w2 where out: "Logout ana_here w1 = (Inr (), w2)"
    using yieldsE [OF y auth(2,3)] by blast
  have "sessions_ok (tb (at_time 6 session_campus))" by (simp add: session_campus_facts)
  from logged_out_for_good [OF this auth(1) out] out show ?thesis by (metis prod.collapse)
qed

section \<open>The sweep\<close>

definition swept :: "instant \<Rightarrow> int list \<Rightarrow> tables \<Rightarrow> tables" where
  "swept now victims t = t\<lparr>t_sessions := table_update (\<lambda>s. ses_ID s \<in> set victims)
     (\<lambda>s. s\<lparr>ses_RevokedAt := Some now\<rparr>) (t_sessions t)\<rparr>"

lemma count_ids:
  assumes "distinct (map get rows)" "distinct ids" "set ids \<subseteq> get ` set rows"
  shows "length (filter (\<lambda>r. get r \<in> set ids) rows) = length ids"
proof -
  have "length (filter (\<lambda>r. get r \<in> set ids) rows) = card (get ` set (filter (\<lambda>r. get r \<in> set ids) rows))"
    by (metis assms(1) distinct_card distinct_map_filter length_map list.set_map)
  also have "get ` set (filter (\<lambda>r. get r \<in> set ids) rows) = set ids"
    using assms(3) by auto
  finally show ?thesis by (simp add: assms(2) distinct_card)
qed

lemma victims_facts:
  assumes "session_key.keyed (t_sessions t)" "0 \<le> k"
  shows "distinct (sweep_victims now k t)" "set (sweep_victims now k t) \<subseteq> ses_ID ` set (tbl_rows (t_sessions t))"
    "int (length (sweep_victims now k t)) = min k (count_where (expired_session now) (t_sessions t))"
proof -
  let ?sel = "order_by expiry_order (select_where (expired_session now) (t_sessions t))"
  have "distinct (map ses_ID ?sel)"
  proof -
    have d: "distinct (map ses_ID (tbl_rows (t_sessions t)))" using assms(1) by (simp add: session_key.keyed_def)
    then have "distinct ?sel" by (simp add: select_where_def distinct_map)
    moreover have "inj_on ses_ID (set ?sel)"
      using d by (auto simp: distinct_map inj_on_def)
    ultimately show ?thesis by (simp add: distinct_map)
  qed
  then show "distinct (sweep_victims now k t)"
    using assms(2) by (simp add: sweep_victims_def limit_offset_def take_map [symmetric])
  show "set (sweep_victims now k t) \<subseteq> ses_ID ` set (tbl_rows (t_sessions t))"
    using limit_offset_subset unfolding sweep_victims_def by fastforce
  show "int (length (sweep_victims now k t)) = min k (count_where (expired_session now) (t_sessions t))"
    using assms(2) by (simp add: sweep_victims_def limit_offset_def count_where_def select_where_def)
qed

lemma yields_exec_applied:
  assumes "f t = Inr (x, t')"
  shows "yields now rid (exec f) t (Inr x) t'"
  using yields_exec [of now rid f t] assms by simp

lemma yields_sweep:
  assumes "session_key.keyed (t_sessions t)" "victims = sweep_victims now (sweep_limit limit) t"
  shows "\<exists>t'. yields now rid (SweepExpiredSessions limit) t (Inr (int (length victims))) t'
    \<and> t_sessions t' = t_sessions (swept now victims t)"
proof -
  let ?n = "count_where (\<lambda>s. ses_ID s \<in> set victims) (t_sessions t)" and ?t1 = "swept now victims t"
  have pos: "0 \<le> sweep_limit limit" by (simp add: sweep_limit_def)
  have d: "distinct (map ses_ID (tbl_rows (t_sessions t)))" using assms(1) by (simp add: session_key.keyed_def)
  have n: "?n = int (length victims)"
    using count_ids [OF d victims_facts(1,2) [OF assms(1) pos]] by (simp add: count_where_def assms(2))
  have rev: "yields now rid (RevokeExpiredSessions now limit) t (Inr ?n) ?t1"
    unfolding RevokeExpiredSessions_def assms(2)
    by (rule yields_andThen [OF yields_on_error_Inr [OF yields_exec_applied]], unfold Let_def swept_def, rule refl,
        rule yields_andThen [OF yields_on_error_Inr [OF yields_basic(7)]], rule yields_basic(1))
  let ?e = "(logged None ActionSessionSwept ''session'' 0 ResultSuccess rid (''revoked '' @ itoa ?n @ '' expired sessions'') now)
    \<lparr>aud_ObjectID := ''batch''\<rparr>"
  have valid: "event_Validate ?e = None"
    using action_text_trimmed [of ActionSessionSwept] by (simp add: event_Validate_def logged_def)
  have ins: "insert_audit ?e ?t1 = Inr (tbl_seq (t_audit ?t1) + 1, add_audit ?e ?t1)"
    by (simp add: insert_audit_def add_audit_def logged_def)
  have ex: "yields now rid (exec (insert_audit ?e)) ?t1 (Inr (tbl_seq (t_audit ?t1) + 1)) (add_audit ?e ?t1)"
    by (rule yields_exec_applied) (rule ins)
  have app: "yields now rid (AppendAuditEvent ?e) ?t1 (Inr (?e\<lparr>aud_ID := tbl_seq (t_audit ?t1) + 1\<rparr>)) (add_audit ?e ?t1)"
    unfolding AppendAuditEvent_def
    by (rule yields_andThen [OF yields_check_None [OF valid]],
        rule yields_andThen [OF yields_on_error_Inr [OF ex]],
        rule yields_andThen [OF yields_on_error_Inr [OF yields_basic(7)]], rule yields_basic(1))
  have base: "\<lparr>aud_ID = 0, aud_ActorUserID = None, aud_ActorRole = [], aud_Action = ActionSessionSwept,
      aud_ObjectType = ''session'', aud_ObjectID = ''batch'', aud_Result = ResultSuccess, aud_RequestID = rid,
      aud_Detail = ''revoked '' @ itoa ?n @ '' expired sessions'', aud_OccurredAt = now\<rparr> = ?e"
    by (simp add: logged_def)
  have rec: "yields now rid (Record \<lparr>ent_Actor = None, ent_Action = ActionSessionSwept, ent_ObjectType = ''session'',
      ent_ObjectID = ''batch'', ent_Result = ResultSuccess,
      ent_Detail = ''revoked '' @ itoa ?n @ '' expired sessions''\<rparr>) ?t1 (Inr ()) (add_audit ?e ?t1)"
    unfolding Record_def
    by (rule yields_andThen [OF yields_basic(4)], rule yields_andThen [OF yields_basic(5)],
        simp only: Let_def audit_entry.simps option.case base,
        rule yields_andThen [OF yields_on_error_Inr [OF yields_check_None [OF valid]]],
        rule yields_andThen [OF yields_on_error_Inr [OF app]], rule yields_basic(1))
  define t2 where "t2 = (if ?n = 0 then ?t1 else add_audit ?e ?t1)"
  have "yields now rid (sweep_tx now limit) t (Inr ?n) t2"
  proof (cases "?n = 0")
    case True
    show ?thesis unfolding sweep_tx_def t2_def if_P [OF True]
      by (rule yields_andThen [OF rev], unfold if_P [OF True], rule yields_basic(1))
  next
    case False
    show ?thesis unfolding sweep_tx_def t2_def if_not_P [OF False]
      by (rule yields_andThen [OF rev], unfold if_not_P [OF False], rule yields_andThen [OF rec], rule yields_basic(1))
  qed
  then have "yields now rid (SweepExpiredSessions limit) t (Inr ?n) t2"
    unfolding SweepExpiredSessions_def
    by (intro yields_andThen [OF yields_basic(5)] yields_InTx_Inr)
  moreover have "t_sessions t2 = t_sessions ?t1" by (simp add: t2_def add_audit_def)
  ultimately show ?thesis unfolding n by blast
qed

text \<open>One sweep revokes as many expired sessions as its batch size admits (100 when none is given) and no
  live one. It reports their number, leaves that many fewer expired sessions behind, and every session that
  is revoked already or whose stored expiry lies after the stored time of the sweep is as it was.\<close>

theorem sweep_revokes_expired:
  assumes "sessions_ok (tb w)" "calm now rid w"
  shows "\<exists>n w'. SweepExpiredSessions limit w = (Inr n, w')
    \<and> n = min (sweep_limit limit) (count_where (expired_session now) (t_sessions (tb w)))
    \<and> count_where (expired_session now) (t_sessions (tb w')) = count_where (expired_session now) (t_sessions (tb w)) - n
    \<and> (\<forall>s \<in> set (tbl_rows (t_sessions (tb w))). expired_session now s \<or> s \<in> set (tbl_rows (t_sessions (tb w'))))"
proof -
  let ?t = "tb w" and ?victims = "sweep_victims now (sweep_limit limit) (tb w)"
  have keyed: "session_key.keyed (t_sessions ?t)" using assms(1) by (simp add: sessions_ok_def)
  have pos: "0 \<le> sweep_limit limit" by (simp add: sweep_limit_def)
  note facts = victims_facts [OF keyed pos, of now]
  obtain t' where y: "yields now rid (SweepExpiredSessions limit) ?t (Inr (int (length ?victims))) t'"
    and t': "t_sessions t' = t_sessions (swept now ?victims ?t)"
    using yields_sweep [OF keyed refl] by blast
  obtain w' where run: "SweepExpiredSessions limit w = (Inr (int (length ?victims)), w')" "tb w' = t'"
    by (rule yieldsE [OF y assms(2) refl])
  let ?rows = "tbl_rows (t_sessions ?t)" and ?g = "\<lambda>s. if ses_ID s \<in> set ?victims then s\<lparr>ses_RevokedAt := Some now\<rparr> else s"
  have rows: "tbl_rows (t_sessions (tb w')) = map ?g ?rows"
    using run(2) t' by (simp add: swept_def table_update_def)
  have vict: "expired_session now s" if "s \<in> set ?rows" "ses_ID s \<in> set ?victims" for s
    using sweep_victims_expired [OF keyed that] .
  have "length (filter (expired_session now) (map ?g xs)) + length (filter (\<lambda>s. ses_ID s \<in> set ?victims) xs)
      = length (filter (expired_session now) xs)" if "set xs \<subseteq> set ?rows" for xs
    using that
  proof (induction xs)
    case (Cons x xs)
    then have "ses_ID x \<in> set ?victims \<longrightarrow> expired_session now x" using vict by simp
    moreover have "\<not> expired_session now (x\<lparr>ses_RevokedAt := Some now\<rparr>)" by (simp add: expired_session_def)
    ultimately show ?case using Cons by (auto simp del: filter_map length_filter_map)
  qed simp
  from this [OF order_refl] have left: "count_where (expired_session now) (t_sessions (tb w'))
      = count_where (expired_session now) (t_sessions ?t) - int (length ?victims)"
    using count_ids [OF _ facts(1,2)] keyed unfolding count_where_def rows
    by (simp add: session_key.keyed_def del: filter_map length_filter_map)
  have same: "\<forall>s \<in> set ?rows. expired_session now s \<or> s \<in> set (tbl_rows (t_sessions (tb w')))"
    unfolding rows using vict by (auto simp: image_iff split: if_splits)
  show ?thesis
    by (rule exI, rule exI, rule conjI [OF run(1)], rule conjI [OF facts(3)], rule conjI [OF left same])
qed

theorem sweep_revokes_expired_witness:
  "\<exists>w'. SweepExpiredSessions 0 (at_time 7 session_campus) = (Inr 0, w')"
proof -
  have ok: "sessions_ok (tb (at_time 7 session_campus))" by (simp add: session_campus_facts)
  have "\<not> time_text_le (5 + Minute) 7"
    using formatTime_less_second [of 7 "5 + Minute"] by (simp add: time_text_le_def storable_def Minute_def Second_def)
  then have "count_where (expired_session 7) (t_sessions session_campus) = 0"
    by (simp add: count_where_zero session_campus_facts expired_session_def)
  then show ?thesis
    using sweep_revokes_expired [OF ok calm_at_time(1), of 0] by (auto simp: sweep_limit_def)
qed

section \<open>What a rejected login reveals\<close>

lemma yields_find_login_None:
  assumes "NormalizeEmail norm = Inr norm" "first_where (\<lambda>u. usr_Email u = norm) (t_users t) = None"
  shows "yields now rid (find_login norm) t
    (Inl (Wrapped (''login rejected for '' @ norm) (Sentinel ErrUnauthenticated))) t"
proof -
  have "yields now rid (FindUserByEmail norm) t (Inl (notFound (''user '' @ norm) SqlNoRows)) t"
    unfolding FindUserByEmail_def assms(1)
    by (rule yields_andThen [OF yields_basic(3)], rule yields_on_error_Inl, rule yields_query_row_None, rule assms(2))
  then show ?thesis
    unfolding find_login_def by (rule yields_andThen [OF yields_attempt]) (simp add: notFound_def yields_basic)
qed

definition rejected_login :: "string \<Rightarrow> err" where
  \<comment> \<open>what the client is told\<close>
  "rejected_login norm = Wrapped (''login rejected for '' @ norm) (Sentinel ErrUnauthenticated)"

text \<open>an unknown address and a wrong password are indistinguishable: both are refused with the same error,
  and neither leaves a trace in the database. (A disabled account answers otherwise before its password is
  looked at, which is why the account is assumed enabled.)\<close>

theorem rejected_logins_alike:
  assumes "NormalizeEmail email = Inr norm" "NormalizeEmail norm = Inr norm" "password \<noteq> []"
    and "first_where (\<lambda>u. usr_Email u = norm) (t_users t) = None"
    and "first_where (\<lambda>u. usr_Email u = norm) (t_users t') = Some u" "\<not> usr_Disabled u"
    and "VerifyPassword (usr_PasswordHash u) password = Inr False"
  shows "yields now rid (Login ttl entropy email password ua) t (Inl (rejected_login norm)) t
    \<and> yields now rid (Login ttl entropy email password ua) t' (Inl (rejected_login norm)) t'"
proof
  show "yields now rid (Login ttl entropy email password ua) t (Inl (rejected_login norm)) t"
    unfolding Login_def assms(1) rejected_login_def
    by (rule yields_andThen [OF yields_basic(3)], unfold if_not_P [OF assms(3)],
        rule yields_andThen_Inl, rule yields_find_login_None [OF assms(2,4)])
  have "yields now rid (FindUserByEmail norm) t' (Inr u) t'"
    unfolding FindUserByEmail_def assms(2)
    by (rule yields_andThen [OF yields_basic(3)], rule yields_on_error_Inr, rule yields_query_row_Some, rule assms(5))
  then have find: "yields now rid (find_login norm) t' (Inr u) t'"
    unfolding find_login_def by (rule yields_andThen [OF yields_attempt]) (simp add: yields_basic)
  show "yields now rid (Login ttl entropy email password ua) t' (Inl (rejected_login norm)) t'"
    unfolding Login_def assms(1) rejected_login_def
    by (rule yields_andThen [OF yields_basic(3)], unfold if_not_P [OF assms(3)], rule yields_andThen [OF find],
        unfold if_not_P [OF assms(6)] assms(7), rule yields_andThen [OF yields_on_error_Inr [OF yields_basic(3)]],
        unfold not_False_eq_True if_True, rule yields_basic(2))
qed

definition mismatched_key :: string where
  \<comment> \<open>a digest of one byte that \<open>wrong-pw\<close> does not derive\<close>
  "mismatched_key = (if pbkdf2SHA256 ''wrong-pw'' [] 1 1 = [CHR 0x00] then [CHR 0x01] else [CHR 0x00])"

definition mismatched_hash :: string where
  "mismatched_hash = string_join ''$'' [hashPrefix, itoa 1, base64_encode [], base64_encode mismatched_key]"

lemma mismatched_hash_rejects: "VerifyPassword mismatched_hash ''wrong-pw'' = Inr False"
proof -
  have "length mismatched_key = 1" "pbkdf2SHA256 ''wrong-pw'' [] 1 1 \<noteq> mismatched_key"
    by (simp_all add: mismatched_key_def)
  then show ?thesis
    unfolding mismatched_hash_def by (subst verify_hash) (simp_all add: in_int64_def)
qed

theorem rejected_logins_alike_witness:
  "\<exists>t'. first_where (\<lambda>u. usr_Email u = ''ana@campus'') (t_users t') \<noteq> None
    \<and> yields 5 ''r'' (Login Minute (Inr []) ''ana@campus'' ''wrong-pw'' []) empty_tables (Inl (rejected_login ''ana@campus'')) empty_tables
    \<and> yields 5 ''r'' (Login Minute (Inr []) ''ana@campus'' ''wrong-pw'' []) t' (Inl (rejected_login ''ana@campus'')) t'"
proof -
  let ?u = "(sample_user 1 ''ana@campus'' RoleStudent)\<lparr>usr_PasswordHash := mismatched_hash\<rparr>"
  let ?t' = "empty_tables\<lparr>t_users := \<lparr>tbl_rows = [?u], tbl_seq = 1\<rparr>\<rparr>"
  have n: "NormalizeEmail ''ana@campus'' = Inr ''ana@campus''" by code_simp
  have u: "first_where (\<lambda>u. usr_Email u = ''ana@campus'') (t_users ?t') = Some ?u" "\<not> usr_Disabled ?u"
      "VerifyPassword (usr_PasswordHash ?u) ''wrong-pw'' = Inr False"
    using mismatched_hash_rejects by (simp_all add: first_where_def sample_user_def)
  have none: "first_where (\<lambda>u. usr_Email u = ''ana@campus'') (t_users empty_tables) = None"
    by (simp add: first_where_def empty_tables_def empty_table_def)
  have "''wrong-pw'' \<noteq> []" by simp
  from rejected_logins_alike [OF n n this none u, of 5 "''r''" Minute "Inr []" "[]"] u(1) show ?thesis
    by (intro exI [of _ ?t'] conjI) simp_all
qed

lemma disabled_account_revealed:
  assumes "NormalizeEmail email = Inr norm" "NormalizeEmail norm = Inr norm" "password \<noteq> []"
    and "first_where (\<lambda>u. usr_Email u = norm) (t_users t) = Some u" "usr_Disabled u"
  shows "yields now rid (Login ttl entropy email password ua) t
    (Inl (Wrapped (''account '' @ norm @ '' is disabled'') (Sentinel ErrForbidden))) t"
proof -
  have "yields now rid (FindUserByEmail norm) t (Inr u) t"
    unfolding FindUserByEmail_def assms(2)
    by (rule yields_andThen [OF yields_basic(3)], rule yields_on_error_Inr, rule yields_query_row_Some, rule assms(4))
  then have find: "yields now rid (find_login norm) t (Inr u) t"
    unfolding find_login_def by (rule yields_andThen [OF yields_attempt]) (simp add: yields_basic)
  show ?thesis
    unfolding Login_def assms(1)
    by (rule yields_andThen [OF yields_basic(3)], unfold if_not_P [OF assms(3)], rule yields_andThen [OF find],
        unfold if_P [OF assms(5)], rule yields_basic(2))
qed

end
