(* ===== verification/Idempotency.thy ===== *)
theory Idempotency
  imports Transactions Security
begin

text \<open>
  Replay protection: the repository of response snapshots
  (\<open>internal/storage/sqlite/idempotency.go\<close>) and the service that runs a mutation under a
  client supplied key (\<open>internal/service/idempotency.go\<close>). The mutation is an operation
  that answers a status and a body.
\<close>

section \<open>The repository\<close>

definition same_scope :: "int \<Rightarrow> string \<Rightarrow> string \<Rightarrow> string \<Rightarrow> idempotency_record \<Rightarrow> bool" where
  \<comment> \<open>the primary key\<close>
  "same_scope actorID meth path key r \<longleftrightarrow> idem_ActorUserID r = actorID \<and> idem_Method r = meth
     \<and> idem_Path r = path \<and> idem_Key r = key"

definition find_record :: "int \<Rightarrow> string \<Rightarrow> string \<Rightarrow> string \<Rightarrow> tables \<Rightarrow> idempotency_record option" where
  "find_record actorID meth path key t = find (same_scope actorID meth path key) (t_idempotency t)"

definition FindIdempotencyRecord :: "int \<Rightarrow> string \<Rightarrow> string \<Rightarrow> string \<Rightarrow> idempotency_record op" where
  "FindIdempotencyRecord actorID meth path key =
     (if key = [] then raise (Wrapped ''idempotency key'' (Sentinel ErrNotFound))
      else on_error (notFound ''idempotency record'') (query_row (find_record actorID meth path key)))"

definition insert_record :: "idempotency_record \<Rightarrow> tables \<Rightarrow> err + (unit \<times> tables)" where
  "insert_record r t =
     (if find_record (idem_ActorUserID r) (idem_Method r) (idem_Path r) (idem_Key r) t \<noteq> None
      then Inl (unique_violation ''idempotency_keys.actor_user_id, idempotency_keys.method, idempotency_keys.path, idempotency_keys.key'')
      else if \<not> exists_where (\<lambda>u. usr_ID u = idem_ActorUserID r) (t_users t) then Inl foreign_key_violation
      else Inr ((), t\<lparr>t_idempotency := t_idempotency t @ [r]\<rparr>))"

definition SaveIdempotencyRecord :: "idempotency_record \<Rightarrow> unit op" where
  "SaveIdempotencyRecord r =
     (if idem_Key r = [] then raise (FieldError ''idempotency_key'' ''must not be empty'')
      else if idem_Method r = [] \<or> idem_Path r = []
      then raise (FieldError ''idempotency_key'' ''method and path scope are required'')
      else on_error (\<lambda>err. if isUniqueViolation err
             then Wrapped ''idempotency key already stored'' (Sentinel ErrConflict)
             else Wrapped ''insert idempotency record'' err)
           (exec (insert_record r)))"

definition stale_record :: "instant \<Rightarrow> idempotency_record \<Rightarrow> bool" where
  "stale_record before r \<longleftrightarrow> time_text_le (idem_ExpiresAt r) before"

definition PurgeIdempotencyRecords :: "instant \<Rightarrow> int op" where
  "PurgeIdempotencyRecords before =
     andThen (on_error (Wrapped ''purge idempotency records'')
       (exec (\<lambda>t. Inr (int (length (filter (stale_record before) (t_idempotency t))),
          t\<lparr>t_idempotency := filter (\<lambda>r. \<not> stale_record before r) (t_idempotency t)\<rparr>)))) (\<lambda>affected.
     andThen (on_error (Wrapped ''purge idempotency rows'') driver) (\<lambda>_. ret affected))"

section \<open>The service\<close>

definition IdempotencyTTL :: duration where "IdempotencyTTL = 24 * Hour"

record outcome =
  out_Status :: int
  out_Body :: string
  out_Replayed :: bool

record scope =
  scp_ActorUserID :: int
  scp_Method :: string
  scp_Path :: string
  scp_Key :: string
  scp_Payload :: string

definition Fingerprint :: "scope \<Rightarrow> string" where
  "Fingerprint s = FingerprintPayload [scp_Method s, scp_Path s, scp_Payload s]"

definition find_scope :: "scope \<Rightarrow> idempotency_record op" where
  "find_scope s = FindIdempotencyRecord (scp_ActorUserID s) (scp_Method s) (scp_Path s) (scp_Key s)"

definition new_record :: "scope \<Rightarrow> int \<Rightarrow> string \<Rightarrow> instant \<Rightarrow> idempotency_record" where
  "new_record s status body now = \<lparr>idem_ActorUserID = scp_ActorUserID s, idem_Method = scp_Method s,
     idem_Path = scp_Path s, idem_Key = scp_Key s, idem_RequestFingerprint = Fingerprint s,
     idem_ResponseStatus = status, idem_ResponseBody = body, idem_CreatedAt = now,
     idem_ExpiresAt = now + IdempotencyTTL\<rparr>"

definition snapshot :: "idempotency_record \<Rightarrow> outcome" where
  "snapshot r = \<lparr>out_Status = idem_ResponseStatus r, out_Body = idem_ResponseBody r, out_Replayed = True\<rparr>"

definition replay_stored :: "scope \<Rightarrow> idempotency_record \<Rightarrow> outcome op" where
  \<comment> \<open>the branch \<open>err == nil\<close> of the lookup\<close>
  "replay_stored s existing =
     (if idem_RequestFingerprint existing \<noteq> Fingerprint s
      then raise (Wrapped (''idempotency key '' @ quoted (scp_Key s) @ '' was used with a different payload'')
        (Sentinel ErrIdempotencyMismatch))
      else andThen clock_now (\<lambda>now.
        if \<not> now < idem_ExpiresAt existing
        then raise (Wrapped (''idempotency key '' @ quoted (scp_Key s) @ '' expired'') (Sentinel ErrConflict))
        else ret (snapshot existing)))"

definition run_and_store :: "scope \<Rightarrow> (int \<times> string) op \<Rightarrow> outcome op" where
  \<comment> \<open>the rest of \<open>Execute\<close>\<close>
  "run_and_store s fn =
     andThen fn (\<lambda>(status, body).
     andThen clock_now (\<lambda>now.
     andThen (attempt (SaveIdempotencyRecord (new_record s status body now))) (\<lambda>saved. case saved of
       Inr _ \<Rightarrow> ret \<lparr>out_Status = status, out_Body = body, out_Replayed = False\<rparr>
     | Inl err \<Rightarrow>
         if errors_Is err ErrConflict
         then andThen (attempt (find_scope s)) (\<lambda>found. case found of
                Inr stored \<Rightarrow> if idem_RequestFingerprint stored = Fingerprint s then ret (snapshot stored)
                  else raise err
              | Inl _ \<Rightarrow> raise err)
         else raise err)))"

definition Execute :: "scope \<Rightarrow> (int \<times> string) op \<Rightarrow> outcome op" where
  "Execute s fn =
     (if scp_Key s = [] then andThen fn (\<lambda>(status, body).
        ret \<lparr>out_Status = status, out_Body = body, out_Replayed = False\<rparr>)
      else if scp_ActorUserID s \<le> 0
      then raise (Wrapped ''idempotent request without an actor'' (Sentinel ErrUnauthenticated))
      else andThen (attempt (find_scope s)) (\<lambda>found. case found of
        Inr existing \<Rightarrow> replay_stored s existing
      | Inl err \<Rightarrow> if errors_Is err ErrNotFound then run_and_store s fn else raise err))"

definition PurgeExpired :: "int op" where
  "PurgeExpired = andThen clock_now PurgeIdempotencyRecords"

section \<open>What the operations do\<close>

lemma idempotency_reads [reads_intro]: "reads (FindIdempotencyRecord a m p k)" "reads (find_scope s)"
  unfolding find_scope_def FindIdempotencyRecord_def by (intro reads_intro)+

lemma idempotency_tame [tame_intro]:
  "tame (FindIdempotencyRecord a m p k)" "tame (find_scope s)" "tame (SaveIdempotencyRecord r)"
  "tame (PurgeIdempotencyRecords before)" "tame PurgeExpired"
proof -
  show f: "tame (FindIdempotencyRecord a m p k)" for a m p k
    unfolding FindIdempotencyRecord_def by (intro tame_intro)
  show "tame (find_scope s)" unfolding find_scope_def by (rule f)
  show "tame (SaveIdempotencyRecord r)" unfolding SaveIdempotencyRecord_def by (intro tame_intro)
  show p: "tame (PurgeIdempotencyRecords before)" for before
    unfolding PurgeIdempotencyRecords_def by (intro tame_intro)
  show "tame PurgeExpired" unfolding PurgeExpired_def by (intro tame_intro p)
qed

abbreviation stored_for :: "scope \<Rightarrow> tables \<Rightarrow> idempotency_record option" where
  "stored_for s t \<equiv> find_record (scp_ActorUserID s) (scp_Method s) (scp_Path s) (scp_Key s) t"

lemma yields_find_scope:
  assumes "scp_Key s \<noteq> []" "stored_for s t = Some r"
  shows "yields now rid (find_scope s) t (Inr r) t"
proof -
  have "yields now rid (query_row (find_record (scp_ActorUserID s) (scp_Method s) (scp_Path s) (scp_Key s))) t (Inr r) t"
    using yields_query_row [of now rid "find_record (scp_ActorUserID s) (scp_Method s) (scp_Path s) (scp_Key s)" t]
      assms(2) by simp
  then show ?thesis
    unfolding find_scope_def FindIdempotencyRecord_def if_not_P [OF assms(1)] by (rule yields_on_error_Inr)
qed

lemma yields_replay:
  assumes "scp_Key s \<noteq> []" "0 < scp_ActorUserID s" "stored_for s t = Some r"
  shows "yields now rid (Execute s fn) t
    (if idem_RequestFingerprint r \<noteq> Fingerprint s
     then Inl (Wrapped (''idempotency key '' @ quoted (scp_Key s) @ '' was used with a different payload'')
       (Sentinel ErrIdempotencyMismatch))
     else if idem_ExpiresAt r \<le> now
     then Inl (Wrapped (''idempotency key '' @ quoted (scp_Key s) @ '' expired'') (Sentinel ErrConflict))
     else Inr (snapshot r)) t"
proof -
  have actor: "\<not> scp_ActorUserID s \<le> 0" using assms(2) by simp
  have "yields now rid (replay_stored s r) t
    (if idem_RequestFingerprint r \<noteq> Fingerprint s
     then Inl (Wrapped (''idempotency key '' @ quoted (scp_Key s) @ '' was used with a different payload'')
       (Sentinel ErrIdempotencyMismatch))
     else if idem_ExpiresAt r \<le> now
     then Inl (Wrapped (''idempotency key '' @ quoted (scp_Key s) @ '' expired'') (Sentinel ErrConflict))
     else Inr (snapshot r)) t"
  proof (cases "idem_RequestFingerprint r \<noteq> Fingerprint s")
    case True
    show ?thesis unfolding replay_stored_def if_P [OF True] by (rule yields_basic(2))
  next
    case False
    have order: "(\<not> now < idem_ExpiresAt r) = (idem_ExpiresAt r \<le> now)" by auto
    show ?thesis unfolding replay_stored_def if_not_P [OF False]
      by (rule yields_andThen [OF yields_basic(5)], unfold order) (simp add: yields_basic split: if_split)
  qed
  then show ?thesis
    unfolding Execute_def if_not_P [OF assms(1)] if_not_P [OF actor]
    by (intro yields_andThen [OF yields_attempt [OF yields_find_scope [OF assms(1,3)]]]) simp
qed

lemma SaveIdempotencyRecord_Inr:
  assumes "SaveIdempotencyRecord r w = (Inr v, w')"
  shows "find_record (idem_ActorUserID r) (idem_Method r) (idem_Path r) (idem_Key r) (tb w) = None"
    and "tb w' = (tb w)\<lparr>t_idempotency := t_idempotency (tb w) @ [r]\<rparr>"
  using assms unfolding SaveIdempotencyRecord_def
  by (auto simp: on_error_Inr exec_Inr insert_record_def raise_iff split: if_splits)

lemma Execute_fresh:
  assumes "Execute s fn w = (Inr answer, w')" "scp_Key s \<noteq> []" "\<not> out_Replayed answer"
  obtains w1 w2 w3 now where "tb w1 = tb w" "w_clock w1 = w_clock w"
    "fn w1 = (Inr (out_Status answer, out_Body answer), w2)" "now = w_clock w2 (w_tick w2)"
    "stored_for s (tb w2) = None"
    "tb w' = (tb w2)\<lparr>t_idempotency := t_idempotency (tb w2) @ [new_record s (out_Status answer) (out_Body answer) now]\<rparr>"
    "stored_for s (tb w) = None"
proof -
  from assms(1,2) obtain r w1 where look: "find_scope s w = (r, w1)" and actor: "\<not> scp_ActorUserID s \<le> 0"
    and rest: "(case r of Inr existing \<Rightarrow> replay_stored s existing
      | Inl err \<Rightarrow> if errors_Is err ErrNotFound then run_and_store s fn else raise err) w1 = (Inr answer, w')"
    unfolding Execute_def by (auto simp: andThen_Inr attempt_Inr raise_iff split: if_splits)
  have w1: "tb w1 = tb w" "same_env w w1"
    using reads_result [OF idempotency_reads(2) look] tame_result [OF idempotency_tame(2) look] .
  have replays: "out_Replayed answer" if "replay_stored s x v = (Inr answer, v')" for x v v'
    using that unfolding replay_stored_def
    by (auto simp: andThen_Inr ret_iff raise_iff snapshot_def split: if_splits)
  obtain e where e: "r = Inl e" "errors_Is e ErrNotFound" "run_and_store s fn w1 = (Inr answer, w')"
    using rest replays assms(3) by (cases r) (auto simp: raise_iff split: if_splits)
  have none: "stored_for s (tb w) = None"
    using lookup_not_found [OF _ e(2)] look assms(2) unfolding e(1) find_scope_def FindIdempotencyRecord_def
    by (auto split: if_splits)
  from e(3) obtain status body w2 where fn: "fn w1 = (Inr (status, body), w2)"
    and save: "andThen clock_now (\<lambda>now.
     andThen (attempt (SaveIdempotencyRecord (new_record s status body now))) (\<lambda>saved. case saved of
       Inr _ \<Rightarrow> ret \<lparr>out_Status = status, out_Body = body, out_Replayed = False\<rparr>
     | Inl err \<Rightarrow>
         if errors_Is err ErrConflict
         then andThen (attempt (find_scope s)) (\<lambda>found. case found of
                Inr stored \<Rightarrow> if idem_RequestFingerprint stored = Fingerprint s then ret (snapshot stored)
                  else raise err
              | Inl _ \<Rightarrow> raise err)
         else raise err)) w2 = (Inr answer, w')"
    unfolding run_and_store_def by (auto simp: andThen_Inr [of fn])
  let ?r = "new_record s status body (w_clock w2 (w_tick w2))"
  from save obtain saved w3 where save: "SaveIdempotencyRecord ?r (tick w2) = (saved, w3)"
    and last: "(case saved of
       Inr _ \<Rightarrow> ret \<lparr>out_Status = status, out_Body = body, out_Replayed = False\<rparr>
     | Inl err \<Rightarrow>
         if errors_Is err ErrConflict
         then andThen (attempt (find_scope s)) (\<lambda>found. case found of
                Inr stored \<Rightarrow> if idem_RequestFingerprint stored = Fingerprint s then ret (snapshot stored)
                  else raise err
              | Inl _ \<Rightarrow> raise err)
         else raise err) w3 = (Inr answer, w')"
    unfolding andThen_Inr clock_now_iff attempt_Inr by blast
  obtain v where v: "saved = Inr v" "answer = \<lparr>out_Status = status, out_Body = body, out_Replayed = False\<rparr>" "w' = w3"
  proof (cases saved)
    case (Inl err)
    obtain found w4 where f: "find_scope s w3 = (found, w4)" by fastforce
    from last have "out_Replayed answer" unfolding Inl
      by (cases found) (auto simp: andThen_def attempt_def f ret_def raise_def snapshot_def split: if_splits)
    then show thesis using assms(3) by simp
  next
    case (Inr v)
    then show thesis using last that by (simp add: ret_iff)
  qed
  note sv = SaveIdempotencyRecord_Inr [OF save [unfolded v(1)]]
  show thesis
    by (rule that [OF w1(1) _ _ refl _ _ none, of w2])
      (use w1(2) fn sv v(2,3) in \<open>simp_all add: same_env_def new_record_def\<close>)
qed

section \<open>First executions\<close>

definition with_record :: "idempotency_record \<Rightarrow> tables \<Rightarrow> tables" where
  "with_record r t = t\<lparr>t_idempotency := t_idempotency t @ [r]\<rparr>"

lemma yields_find_scope_None:
  assumes "scp_Key s \<noteq> []" "stored_for s t = None"
  shows "yields now rid (find_scope s) t (Inl (notFound ''idempotency record'' SqlNoRows)) t"
proof -
  have "yields now rid (query_row (find_record (scp_ActorUserID s) (scp_Method s) (scp_Path s) (scp_Key s))) t (Inl SqlNoRows) t"
    using yields_query_row [of now rid "find_record (scp_ActorUserID s) (scp_Method s) (scp_Path s) (scp_Key s)" t]
      assms(2) by simp
  then show ?thesis
    unfolding find_scope_def FindIdempotencyRecord_def if_not_P [OF assms(1)] by (rule yields_on_error_Inl)
qed

definition complete_scope :: "scope \<Rightarrow> bool" where
  \<comment> \<open>a request the server accepts: it has an actor, a key, a method and a path\<close>
  "complete_scope s \<longleftrightarrow> scp_Key s \<noteq> [] \<and> 0 < scp_ActorUserID s \<and> scp_Method s \<noteq> [] \<and> scp_Path s \<noteq> []"

lemma yields_enter:
  assumes "complete_scope s" "stored_for s t = None" "yields now rid (run_and_store s fn) t r t'"
  shows "yields now rid (Execute s fn) t r t'"
proof -
  have g: "scp_Key s \<noteq> []" "\<not> scp_ActorUserID s \<le> 0" using assms(1) by (auto simp: complete_scope_def)
  show ?thesis
    unfolding Execute_def if_not_P [OF g(1)] if_not_P [OF g(2)]
    by (rule yields_andThen [OF yields_attempt [OF yields_find_scope_None [OF g(1) assms(2)]]])
      (simp add: notFound_def assms(3))
qed

lemma yields_save:
  assumes "complete_scope s" "stored_for s t = None" "exists_where (\<lambda>u. usr_ID u = scp_ActorUserID s) (t_users t)"
  shows "yields now rid (SaveIdempotencyRecord (new_record s st b at)) t (Inr ()) (with_record (new_record s st b at) t)"
proof -
  let ?r = "new_record s st b at"
  have "insert_record ?r t = Inr ((), with_record ?r t)"
    using assms(2,3) by (simp add: insert_record_def new_record_def with_record_def)
  then have "yields now rid (exec (insert_record ?r)) t (Inr ()) (with_record ?r t)"
    using yields_exec [of now rid "insert_record ?r" t] by simp
  moreover have "idem_Key ?r \<noteq> []" "\<not> (idem_Method ?r = [] \<or> idem_Path ?r = [])"
    using assms(1) by (auto simp: complete_scope_def new_record_def)
  ultimately show ?thesis
    unfolding SaveIdempotencyRecord_def by (simp only: if_False) (rule yields_on_error_Inr)
qed

lemma yields_collision:
  assumes "complete_scope s" "stored_for s t \<noteq> None"
  shows "yields now rid (SaveIdempotencyRecord (new_record s st b at)) t
    (Inl (Wrapped ''idempotency key already stored'' (Sentinel ErrConflict))) t"
proof -
  let ?r = "new_record s st b at"
  have "insert_record ?r t = Inl (unique_violation ''idempotency_keys.actor_user_id, idempotency_keys.method, idempotency_keys.path, idempotency_keys.key'')"
    using assms(2) by (simp add: insert_record_def new_record_def)
  then have "yields now rid (exec (insert_record ?r)) t
      (Inl (unique_violation ''idempotency_keys.actor_user_id, idempotency_keys.method, idempotency_keys.path, idempotency_keys.key'')) t"
    using yields_exec [of now rid "insert_record ?r" t] by simp
  then have e: "yields now rid (on_error (\<lambda>err. if isUniqueViolation err
             then Wrapped ''idempotency key already stored'' (Sentinel ErrConflict)
             else Wrapped ''insert idempotency record'' err) (exec (insert_record ?r))) t
      (Inl (Wrapped ''idempotency key already stored'' (Sentinel ErrConflict))) t"
    using yields_on_error_Inl [of now rid "exec (insert_record ?r)" t _ t "\<lambda>err. if isUniqueViolation err
             then Wrapped ''idempotency key already stored'' (Sentinel ErrConflict)
             else Wrapped ''insert idempotency record'' err"] by fastforce
  have "idem_Key ?r \<noteq> []" "\<not> (idem_Method ?r = [] \<or> idem_Path ?r = [])"
    using assms(1) by (auto simp: complete_scope_def new_record_def)
  then show ?thesis
    unfolding SaveIdempotencyRecord_def by (simp only: if_False) (rule e)
qed

lemma yields_first:
  assumes "complete_scope s" "stored_for s t = None" "yields now rid fn t (Inr (st, b)) t1"
    and "stored_for s t1 = None" "exists_where (\<lambda>u. usr_ID u = scp_ActorUserID s) (t_users t1)"
  shows "yields now rid (Execute s fn) t (Inr \<lparr>out_Status = st, out_Body = b, out_Replayed = False\<rparr>)
    (with_record (new_record s st b now) t1)"
  by (rule yields_enter [OF assms(1,2)], unfold run_and_store_def, rule yields_andThen [OF assms(3)],
      unfold prod.case, rule yields_andThen [OF yields_basic(5)],
      rule yields_andThen [OF yields_attempt [OF yields_save [OF assms(1,4,5)]]], unfold sum.case, rule yields_basic(1))

end
