(* ===== verification/ReplayProperties.thy ===== *)
theory ReplayProperties
  imports Idempotency Samples
begin

text \<open>
  What replay protection promises for requests that follow one another, and what it does not for
  requests that overlap.
\<close>

section \<open>Replaying\<close>

text \<open>C26: a mutation that answered under a key is not run again. Until the stored snapshot expires, the same
  request replays it word for word whatever it would do now, without touching the database, and a different
  payload under the same key is refused, also without touching it.\<close>

theorem replay_protects:
  assumes "Execute s fn w = (Inr answer, w1)" "scp_Key s \<noteq> []" "\<not> out_Replayed answer" "0 < scp_ActorUserID s" "tame fn"
    and "calm now rid w2" "t_idempotency (tb w2) = t_idempotency (tb w1) @ later" "\<forall>n. now < w_clock w n + IdempotencyTTL"
    and "scp_ActorUserID s' = scp_ActorUserID s" "scp_Method s' = scp_Method s" "scp_Path s' = scp_Path s" "scp_Key s' = scp_Key s"
  shows "\<exists>w3. tb w3 = tb w2 \<and> Execute s' fn' w2 =
    (if Fingerprint s' = Fingerprint s then Inr (answer\<lparr>out_Replayed := True\<rparr>)
     else Inl (Wrapped (''idempotency key '' @ quoted (scp_Key s) @ '' was used with a different payload'')
       (Sentinel ErrIdempotencyMismatch)), w3)"
proof -
  obtain v1 v2 issued where env: "w_clock v1 = w_clock w" "fn v1 = (Inr (out_Status answer, out_Body answer), v2)"
      "issued = w_clock v2 (w_tick v2)"
    and none: "stored_for s (tb v2) = None"
    and t1: "tb w1 = (tb v2)\<lparr>t_idempotency := t_idempotency (tb v2) @ [new_record s (out_Status answer) (out_Body answer) issued]\<rparr>"
    by (rule Execute_fresh [OF assms(1-3)])
  let ?r = "new_record s (out_Status answer) (out_Body answer) issued"
  have "w_clock v2 = w_clock w" using tame_result [OF assms(5) env(2)] env(1) by (simp add: same_env_def)
  then have live: "\<not> idem_ExpiresAt ?r \<le> now"
    using assms(8) env(3) by (auto simp: new_record_def not_le)
  have "find P (xs @ ?r # later) = Some ?r" if "find P xs = None" "P ?r" for P xs
    using that by (induction xs) (auto split: if_splits)
  then have stored: "stored_for s' (tb w2) = Some ?r"
    using none assms(7,9-12) t1 by (simp add: find_record_def new_record_def same_scope_def)
  have snap: "snapshot ?r = answer\<lparr>out_Replayed := True\<rparr>" "idem_RequestFingerprint ?r = Fingerprint s"
    by (simp_all add: snapshot_def new_record_def)
  have "scp_Key s' \<noteq> []" "0 < scp_ActorUserID s'" using assms(2,4,9,12) by simp_all
  note y = yields_replay [OF this stored, of now rid fn', unfolded snap(2) if_not_P [OF live] snap(1) assms(12)]
  obtain w3 where "Execute s' fn' w2 = (if Fingerprint s \<noteq> Fingerprint s'
     then Inl (Wrapped (''idempotency key '' @ quoted (scp_Key s) @ '' was used with a different payload'')
       (Sentinel ErrIdempotencyMismatch))
     else Inr (answer\<lparr>out_Replayed := True\<rparr>), w3)" "tb w3 = tb w2"
    by (rule yieldsE [OF y assms(6) refl])
  then show ?thesis by (intro exI [of _ w3]) auto
qed

definition sample_scope :: scope where
  "sample_scope = \<lparr>scp_ActorUserID = 1, scp_Method = ''POST'', scp_Path = ''/api/v1/enrollments'', scp_Key = ''k-1'',
     scp_Payload = ''{section_id:1}''\<rparr>"

lemma sample_scope_facts:
  "complete_scope sample_scope" "stored_for sample_scope campus = None"
  "exists_where (\<lambda>u. usr_ID u = scp_ActorUserID sample_scope) (t_users campus)"
  by (simp_all add: complete_scope_def sample_scope_def find_record_def campus_def empty_tables_def exists_where_def
      sample_user_def)

theorem replay_protects_witness:
  "\<exists>w w1 w3. Execute sample_scope (ret (201, ''seat'')) w = (Inr \<lparr>out_Status = 201, out_Body = ''seat'', out_Replayed = False\<rparr>, w1)
    \<and> Execute sample_scope (raise (Plain ''boom'')) w1 = (Inr \<lparr>out_Status = 201, out_Body = ''seat'', out_Replayed = True\<rparr>, w3)"
proof -
  note y = yields_first [OF sample_scope_facts(1,2) yields_basic(1) sample_scope_facts(2,3)]
  obtain w1 where run: "Execute sample_scope (ret (201, ''seat'')) (at_time 5 campus)
      = (Inr \<lparr>out_Status = 201, out_Body = ''seat'', out_Replayed = False\<rparr>, w1)" "calm 5 ''req-1'' w1"
    by (rule yieldsE [OF y calm_at_time])
  have clock: "\<forall>n. (5::int) < w_clock (at_time 5 campus) n + IdempotencyTTL"
    using calm_world(3) [OF calm_at_time(1)] by (simp add: IdempotencyTTL_def Hour_def Minute_def Second_def)
  have s: "scp_Key sample_scope \<noteq> []" "0 < scp_ActorUserID sample_scope" by (simp_all add: sample_scope_def)
  have t: "t_idempotency (tb w1) = t_idempotency (tb w1) @ []" by simp
  from replay_protects [OF run(1) s(1) _ s(2) tame_basic(1) run(2) t clock refl refl refl refl, of "raise (Plain ''boom'')"]
  obtain w3 where "Execute sample_scope (raise (Plain ''boom'')) w1
      = (Inr \<lparr>out_Status = 201, out_Body = ''seat'', out_Replayed = True\<rparr>, w3)" by auto
  then show ?thesis using run(1) by blast
qed

section \<open>Expired keys\<close>

text \<open>a key that expired is never usable again: as long as nothing purges the stored record, and nothing in
  the program does, every request under it is refused, the original one included, and nothing is changed.\<close>

theorem expired_key_refused:
  assumes "complete_scope s" "stored_for s t = Some r" "idem_ExpiresAt r \<le> now"
  shows "\<exists>e. yields now rid (Execute s fn) t (Inl e) t \<and> (errors_Is e ErrConflict \<or> errors_Is e ErrIdempotencyMismatch)"
proof -
  have s: "scp_Key s \<noteq> []" "0 < scp_ActorUserID s" using assms(1) by (simp_all add: complete_scope_def)
  note y = yields_replay [OF s assms(2), of now rid fn]
  show ?thesis
  proof (cases "idem_RequestFingerprint r \<noteq> Fingerprint s")
    case True
    show ?thesis by (rule exI, rule conjI, rule y [unfolded if_P [OF True]]) simp
  next
    case False
    show ?thesis by (rule exI, rule conjI, rule y [unfolded if_not_P [OF False] if_P [OF assms(3)]]) simp
  qed
qed

theorem expired_key_refused_witness:
  "\<exists>e. yields (2 * IdempotencyTTL) ''r'' (Execute sample_scope (ret (201, ''seat'')))
    (with_record (new_record sample_scope 201 ''seat'' 5) campus) (Inl e)
    (with_record (new_record sample_scope 201 ''seat'' 5) campus) \<and> (errors_Is e ErrConflict \<or> errors_Is e ErrIdempotencyMismatch)"
proof -
  have "stored_for sample_scope (with_record (new_record sample_scope 201 ''seat'' 5) campus) = Some (new_record sample_scope 201 ''seat'' 5)"
    using sample_scope_facts(2) by (simp add: find_record_def with_record_def campus_def empty_tables_def new_record_def same_scope_def)
  moreover have "idem_ExpiresAt (new_record sample_scope 201 ''seat'' 5) \<le> 2 * IdempotencyTTL"
    by (simp add: new_record_def IdempotencyTTL_def Hour_def Minute_def Second_def)
  ultimately show ?thesis by (rule expired_key_refused [OF sample_scope_facts(1)])
qed

section \<open>Overlapping requests\<close>

definition overtaken :: "scope \<Rightarrow> (int \<times> string) op \<Rightarrow> (int \<times> string) op" where
  \<comment> \<open>the mutation of a request, after a second request under the same key ran from start to end: the
    first one had looked its key up before\<close>
  "overtaken s fn = andThen (attempt (Execute s fn)) (\<lambda>_. fn)"

text \<open>C27: two overlapping requests under one key both run the mutation. When the second run fails, as a second claim
  of the same seat does, the request that lost is answered with that error and not with the stored
  snapshot; when it succeeds, its effect is kept and the snapshot of the first is replayed over it.\<close>

theorem overlapping_requests_run_twice:
  assumes "complete_scope s" "stored_for s t = None" "yields now rid fn t (Inr (st, b)) t1" "stored_for s t1 = None"
    and "exists_where (\<lambda>u. usr_ID u = scp_ActorUserID s) (t_users t1)"
    and "yields now rid fn (with_record (new_record s st b now) t1) r t2"
    and "t_idempotency t2 = t_idempotency (with_record (new_record s st b now) t1)"
  shows "yields now rid (Execute s (overtaken s fn)) t
    (case r of Inl e \<Rightarrow> Inl e | Inr _ \<Rightarrow> Inr \<lparr>out_Status = st, out_Body = b, out_Replayed = True\<rparr>) t2"
proof -
  let ?rec = "new_record s st b now"
  have second: "yields now rid (overtaken s fn) t r t2"
    unfolding overtaken_def
    by (rule yields_andThen [OF yields_attempt [OF yields_first [OF assms(1-5)]]], rule assms(6))
  show ?thesis
  proof (cases r)
    case (Inl e)
    have "yields now rid (run_and_store s (overtaken s fn)) t (Inl e) t2"
      unfolding run_and_store_def by (rule yields_andThen_Inl) (use second Inl in simp)
    then show ?thesis unfolding Inl sum.case by (rule yields_enter [OF assms(1,2)])
  next
    case (Inr x)
    obtain st2 b2 where x: "x = (st2, b2)" by (cases x)
    have "find P (xs @ [?rec]) = Some ?rec" if "find P xs = None" "P ?rec" for P xs
      using that by (induction xs) (auto split: if_splits)
    then have stored: "stored_for s t2 = Some ?rec"
      using assms(4) unfolding find_record_def assms(7)
      by (simp add: with_record_def new_record_def same_scope_def)
    have key: "scp_Key s \<noteq> []" using assms(1) by (simp add: complete_scope_def)
    have conflict: "errors_Is (Wrapped ''idempotency key already stored'' (Sentinel ErrConflict)) ErrConflict" by simp
    have fp: "idem_RequestFingerprint ?rec = Fingerprint s" "snapshot ?rec = \<lparr>out_Status = st, out_Body = b, out_Replayed = True\<rparr>"
      by (simp_all add: new_record_def snapshot_def)
    have ne: "stored_for s t2 \<noteq> None" using stored by simp
    have "yields now rid (run_and_store s (overtaken s fn)) t (Inr \<lparr>out_Status = st, out_Body = b, out_Replayed = True\<rparr>) t2"
      unfolding run_and_store_def
      by (rule yields_andThen [OF second [unfolded Inr x]], unfold prod.case, rule yields_andThen [OF yields_basic(5)],
          rule yields_andThen [OF yields_attempt [OF yields_collision [OF assms(1) ne]]], unfold sum.case if_P [OF conflict],
          rule yields_andThen [OF yields_attempt [OF yields_find_scope [OF key stored]]],
          unfold sum.case if_P [OF fp(1)] fp(2), rule yields_basic(1))
    then show ?thesis unfolding Inr sum.case by (rule yields_enter [OF assms(1,2)])
  qed
qed

theorem overlapping_requests_run_twice_witness:
  "\<exists>t2. yields 5 ''r'' (Execute sample_scope (overtaken sample_scope (ret (201, ''seat'')))) campus
    (Inr \<lparr>out_Status = 201, out_Body = ''seat'', out_Replayed = True\<rparr>) t2"
  by (rule exI, rule overlapping_requests_run_twice [OF sample_scope_facts(1,2) yields_basic(1) sample_scope_facts(2,3)
      yields_basic(1) refl, unfolded sum.case])

end
