(* ===== verification/Json.thy ===== *)
theory Json
  imports Encodings Errors
begin

text \<open>
  The JSON the program reads and writes through \<open>encoding/json\<close>: values, the reader
  (grammar of RFC 8259, \<open>\u\<close> escapes decoded to UTF-8) and the writer, with and without
  the escaping of HTML characters. Text is taken to be valid UTF-8 (the library replaces invalid
  bytes). Numbers keep their literal. The reader is recursive on fuel; \<open>parse_enough\<close>
  says that the length of the text is enough.
\<close>

datatype json =
    JNull
  | JBool bool
  | JNumber string
  | JString string
  | JArray "json list"
  | JObject "(string \<times> json) list"

section \<open>Reading\<close>

definition json_space :: "char \<Rightarrow> bool" where
  "json_space c \<longleftrightarrow> c = CHR 0x20 \<or> c = CHR 0x09 \<or> c = CHR 0x0A \<or> c = CHR 0x0D"

definition skip_space :: "string \<Rightarrow> string" where
  "skip_space = dropWhile json_space"

definition hex_value :: "char \<Rightarrow> nat option" where
  "hex_value c = (if is_digit c then Some (digit_value c)
     else if CHR ''a'' \<le> c \<and> c \<le> CHR ''f'' then Some (of_char c - 87)
     else if CHR ''A'' \<le> c \<and> c \<le> CHR ''F'' then Some (of_char c - 55) else None)"

definition hex4 :: "char \<Rightarrow> char \<Rightarrow> char \<Rightarrow> char \<Rightarrow> nat option" where
  "hex4 a b c d = (case (hex_value a, hex_value b, hex_value c, hex_value d) of
     (Some w, Some x, Some y, Some z) \<Rightarrow> Some (((w * 16 + x) * 16 + y) * 16 + z) | _ \<Rightarrow> None)"

definition utf8 :: "nat \<Rightarrow> string" where
  "utf8 n = map char_of
     (if n < 0x80 then [n]
      else if n < 0x800 then [0xC0 + n div 64, 0x80 + n mod 64]
      else if n < 0x10000 then [0xE0 + n div 4096, 0x80 + n div 64 mod 64, 0x80 + n mod 64]
      else [0xF0 + n div 262144, 0x80 + n div 4096 mod 64, 0x80 + n div 64 mod 64, 0x80 + n mod 64])"

definition surrogate :: "nat \<Rightarrow> bool" where
  "surrogate u \<longleftrightarrow> 0xD800 \<le> u \<and> u < 0xE000"

fun units_text :: "(char + nat) list \<Rightarrow> string" where
  \<comment> \<open>bytes and \<open>\u\<close> units; a lone surrogate becomes U+FFFD\<close>
  "units_text [] = []"
| "units_text (Inl c # us) = c # units_text us"
| "units_text (Inr u # Inr v # us) =
     (if 0xD800 \<le> u \<and> u < 0xDC00 \<and> 0xDC00 \<le> v \<and> v < 0xE000
      then utf8 (0x10000 + (u - 0xD800) * 1024 + (v - 0xDC00)) @ units_text us
      else utf8 (if surrogate u then 0xFFFD else u) @ units_text (Inr v # us))"
| "units_text (Inr u # us) = utf8 (if surrogate u then 0xFFFD else u) @ units_text us"

definition simple_escape :: "char \<Rightarrow> char option" where
  "simple_escape c = (if c = CHR 0x22 \<or> c = CHR 0x5C \<or> c = CHR 0x2F then Some c
     else if c = CHR ''b'' then Some (CHR 0x08) else if c = CHR ''f'' then Some (CHR 0x0C)
     else if c = CHR ''n'' then Some (CHR 0x0A) else if c = CHR ''r'' then Some (CHR 0x0D)
     else if c = CHR ''t'' then Some (CHR 0x09) else None)"

fun parse_units :: "string \<Rightarrow> ((char + nat) list \<times> string) option" where
  \<comment> \<open>the rest of a string literal, after its opening quote\<close>
  "parse_units [] = None"
| "parse_units (c # cs) =
     (if c = CHR 0x22 then Some ([], cs)
      else if c = CHR 0x5C then
        (case cs of
           [] \<Rightarrow> None
         | e # r \<Rightarrow>
             if e = CHR ''u'' then
               (case r of
                  x1 # x2 # x3 # x4 # r' \<Rightarrow>
                    (case hex4 x1 x2 x3 x4 of None \<Rightarrow> None
                     | Some u \<Rightarrow> map_option (apfst (Cons (Inr u))) (parse_units r'))
                | _ \<Rightarrow> None)
             else (case simple_escape e of None \<Rightarrow> None
                   | Some d \<Rightarrow> map_option (apfst (Cons (Inl d))) (parse_units r)))
      else if (of_char c :: nat) < 32 then None
      else map_option (apfst (Cons (Inl c))) (parse_units cs))"

definition parse_string :: "string \<Rightarrow> (string \<times> string) option" where
  "parse_string s = map_option (apfst units_text) (parse_units s)"

definition split_digits :: "string \<Rightarrow> string \<times> string" where
  "split_digits s = (takeWhile is_digit s, dropWhile is_digit s)"

definition parse_fraction :: "string \<Rightarrow> (string \<times> string) option" where
  "parse_fraction s = (case s of [] \<Rightarrow> Some ([], s)
     | c # r \<Rightarrow> if c \<noteq> CHR ''.'' then Some ([], s)
         else case split_digits r of (ds, r') \<Rightarrow> if ds = [] then None else Some (c # ds, r'))"

definition parse_exponent :: "string \<Rightarrow> (string \<times> string) option" where
  "parse_exponent s = (case s of [] \<Rightarrow> Some ([], s)
     | c # r \<Rightarrow> if c \<noteq> CHR ''e'' \<and> c \<noteq> CHR ''E'' then Some ([], s)
         else (case (case r of g # r' \<Rightarrow> if g = CHR ''+'' \<or> g = CHR ''-'' then ([g], r') else ([], r) | [] \<Rightarrow> ([], r)) of
           (sg, r') \<Rightarrow> (case split_digits r' of (ds, r'') \<Rightarrow> if ds = [] then None else Some (c # sg @ ds, r''))))"

definition parse_number :: "string \<Rightarrow> (string \<times> string) option" where
  "parse_number s =
     (case (case s of c # r \<Rightarrow> if c = CHR ''-'' then ([c], r) else ([], s) | [] \<Rightarrow> ([], s)) of
        (sg, r) \<Rightarrow>
      (case split_digits r of (ds, r1) \<Rightarrow>
        if ds = [] then None
        else (let (int_part, r2) = (if hd ds = CHR ''0'' then ([hd ds], tl ds @ r1) else (ds, r1)) in
          case parse_fraction r2 of None \<Rightarrow> None
          | Some (fr, r3) \<Rightarrow> (case parse_exponent r3 of None \<Rightarrow> None
             | Some (ex, r4) \<Rightarrow> Some (sg @ int_part @ fr @ ex, r4)))))"

definition parse_word :: "string \<Rightarrow> json \<Rightarrow> string \<Rightarrow> (json \<times> string) option" where
  "parse_word lit v s = (if has_prefix lit s then Some (v, drop (length lit) s) else None)"

fun parse_value :: "nat \<Rightarrow> string \<Rightarrow> (json \<times> string) option"
  and parse_elements :: "nat \<Rightarrow> string \<Rightarrow> (json list \<times> string) option"
  and parse_members :: "nat \<Rightarrow> string \<Rightarrow> ((string \<times> json) list \<times> string) option" where
  "parse_value 0 s = None"
| "parse_value (Suc n) s = (case skip_space s of [] \<Rightarrow> None | c # cs \<Rightarrow>
     if c = CHR ''{'' then
       (case skip_space cs of [] \<Rightarrow> None
        | d # r \<Rightarrow> if d = CHR ''}'' then Some (JObject [], r)
            else map_option (apfst JObject) (parse_members n cs))
     else if c = CHR ''['' then
       (case skip_space cs of [] \<Rightarrow> None
        | d # r \<Rightarrow> if d = CHR '']'' then Some (JArray [], r)
            else map_option (apfst JArray) (parse_elements n cs))
     else if c = CHR 0x22 then map_option (apfst JString) (parse_string cs)
     else if c = CHR ''n'' then parse_word ''null'' JNull (c # cs)
     else if c = CHR ''t'' then parse_word ''true'' (JBool True) (c # cs)
     else if c = CHR ''f'' then parse_word ''false'' (JBool False) (c # cs)
     else map_option (apfst JNumber) (parse_number (c # cs)))"
| "parse_elements 0 s = None"
| "parse_elements (Suc n) s = (case parse_value n s of None \<Rightarrow> None
     | Some (v, r) \<Rightarrow> (case skip_space r of [] \<Rightarrow> None
        | c # r' \<Rightarrow> if c = CHR '']'' then Some ([v], r')
            else if c = CHR '','' then map_option (apfst (Cons v)) (parse_elements n r') else None))"
| "parse_members 0 s = None"
| "parse_members (Suc n) s = (case skip_space s of [] \<Rightarrow> None
     | q # cs \<Rightarrow> if q \<noteq> CHR 0x22 then None else
       (case parse_string cs of None \<Rightarrow> None
        | Some (k, r) \<Rightarrow> (case skip_space r of [] \<Rightarrow> None
           | c # r1 \<Rightarrow> if c \<noteq> CHR '':'' then None else
             (case parse_value n r1 of None \<Rightarrow> None
              | Some (v, r2) \<Rightarrow> (case skip_space r2 of [] \<Rightarrow> None
                 | d # r3 \<Rightarrow> if d = CHR ''}'' then Some ([(k, v)], r3)
                     else if d = CHR '','' then map_option (apfst (Cons (k, v))) (parse_members n r3)
                     else None)))))"

definition json_value :: "string \<Rightarrow> (json \<times> string) option" where
  \<comment> \<open>one value from the front of a text, as \<open>Decoder.Decode\<close> reads it\<close>
  "json_value s = parse_value (Suc (2 * length s)) s"

definition json_parse :: "string \<Rightarrow> json option" where
  \<comment> \<open>a text that holds exactly one value, as \<open>Unmarshal\<close> wants it\<close>
  "json_parse s = (case json_value s of None \<Rightarrow> None
     | Some (v, r) \<Rightarrow> if skip_space r = [] then Some v else None)"

section \<open>Writing\<close>

definition hex_digit :: "nat \<Rightarrow> char" where
  "hex_digit n = hex_digits ! (n mod 16)"

definition escape_char :: "bool \<Rightarrow> char \<Rightarrow> string" where
  "escape_char html c =
     (if c = CHR 0x22 \<or> c = CHR 0x5C then [CHR 0x5C, c]
      else if c = CHR 0x08 then [CHR 0x5C, CHR ''b''] else if c = CHR 0x0C then [CHR 0x5C, CHR ''f'']
      else if c = CHR 0x0A then [CHR 0x5C, CHR ''n''] else if c = CHR 0x0D then [CHR 0x5C, CHR ''r'']
      else if c = CHR 0x09 then [CHR 0x5C, CHR ''t'']
      else if (of_char c :: nat) < 32 \<or> (html \<and> (c = CHR ''<'' \<or> c = CHR ''>'' \<or> c = CHR ''&''))
      then CHR 0x5C # ''u00'' @ [hex_digit (of_char c div 16), hex_digit (of_char c)]
      else [c])"

fun escape_text :: "bool \<Rightarrow> string \<Rightarrow> string" where
  \<comment> \<open>the line separators U+2028 and U+2029 are always escaped\<close>
  "escape_text html (a # b # c # r) =
     (if a = CHR 0xE2 \<and> b = CHR 0x80 \<and> (c = CHR 0xA8 \<or> c = CHR 0xA9)
      then CHR 0x5C # ''u202'' @ [if c = CHR 0xA8 then CHR ''8'' else CHR ''9''] @ escape_text html r
      else escape_char html a @ escape_text html (b # c # r))"
| "escape_text html (a # r) = escape_char html a @ escape_text html r"
| "escape_text html [] = []"

definition quote_json :: "bool \<Rightarrow> string \<Rightarrow> string" where
  "quote_json html s = CHR 0x22 # escape_text html s @ [CHR 0x22]"

fun json_text :: "bool \<Rightarrow> json \<Rightarrow> string" where
  "json_text html JNull = ''null''"
| "json_text html (JBool b) = (if b then ''true'' else ''false'')"
| "json_text html (JNumber t) = t"
| "json_text html (JString s) = quote_json html s"
| "json_text html (JArray vs) = ''['' @ string_join '','' (map (json_text html) vs) @ '']''"
| "json_text html (JObject ms) =
     ''{'' @ string_join '','' (map (\<lambda>(k, v). quote_json html k @ '':'' @ json_text html v) ms) @ ''}''"

definition Marshal :: "json \<Rightarrow> string" where
  \<comment> \<open>\<open>json.Marshal\<close>\<close>
  "Marshal v = json_text True v"

definition Encode :: "json \<Rightarrow> string" where
  \<comment> \<open>\<open>Encoder.Encode\<close> with \<open>SetEscapeHTML(false)\<close>: a line break ends the value\<close>
  "Encode v = json_text False v @ [CHR 0x0A]"

section \<open>Reading into structs\<close>

text \<open>\<open>Unmarshal\<close> stores into the fields of a struct one by one. The first type error and, when
  unknown fields are refused, the first unknown field are reported once the value has been read.\<close>

fun fold_bytes :: "string \<Rightarrow> string" where
  \<comment> \<open>the letters that fold to \<open>s\<close> and \<open>k\<close> outside ASCII are U+017F and U+212A\<close>
  "fold_bytes (a # b # c # r) =
     (if a = CHR 0xC5 \<and> b = CHR 0xBF then CHR ''s'' # fold_bytes (c # r)
      else if a = CHR 0xE2 \<and> b = CHR 0x84 \<and> c = CHR 0xAA then CHR ''k'' # fold_bytes r
      else lower_char a # fold_bytes (b # c # r))"
| "fold_bytes [a, b] = (if a = CHR 0xC5 \<and> b = CHR 0xBF then ''s'' else [lower_char a, lower_char b])"
| "fold_bytes [a] = [lower_char a]"
| "fold_bytes [] = []"

definition json_kind :: "json \<Rightarrow> string" where
  "json_kind v = (case v of JNull \<Rightarrow> ''null'' | JBool _ \<Rightarrow> ''bool'' | JNumber _ \<Rightarrow> ''number''
     | JString _ \<Rightarrow> ''string'' | JArray _ \<Rightarrow> ''array'' | JObject _ \<Rightarrow> ''object'')"

definition field_fault :: "string \<Rightarrow> string \<Rightarrow> string \<Rightarrow> string \<Rightarrow> string" where
  "field_fault val struct field_name ty = ''json: cannot unmarshal '' @ val @ '' into Go struct field ''
     @ struct @ ''.'' @ field_name @ '' of type '' @ ty"

type_synonym 'r field_reader = "json \<Rightarrow> 'r \<Rightarrow> string option \<times> 'r"

definition int_of_json :: "json \<Rightarrow> (string, int option) sum" where
  \<comment> \<open>a value read as \<open>int64\<close>: what is wrong with it, nothing for \<open>null\<close>, or the number\<close>
  "int_of_json v = (case v of JNull \<Rightarrow> Inr None
     | JNumber t \<Rightarrow> (case ParseInt t of Some n \<Rightarrow> Inr (Some n) | None \<Rightarrow> Inl (''number '' @ t))
     | _ \<Rightarrow> Inl (json_kind v))"

definition int_field :: "string \<Rightarrow> string \<Rightarrow> (int \<Rightarrow> 'r \<Rightarrow> 'r) \<Rightarrow> string \<times> 'r field_reader" where
  "int_field struct name upd = (name, \<lambda>v r. case int_of_json v of
     Inl val \<Rightarrow> (Some (field_fault val struct name ''int64''), r)
   | Inr None \<Rightarrow> (None, r) | Inr (Some n) \<Rightarrow> (None, upd n r))"

definition string_field :: "string \<Rightarrow> string \<Rightarrow> (string \<Rightarrow> 'r \<Rightarrow> 'r) \<Rightarrow> string \<times> 'r field_reader" where
  "string_field struct name upd = (name, \<lambda>v r. case v of JNull \<Rightarrow> (None, r)
     | JString s \<Rightarrow> (None, upd s r) | _ \<Rightarrow> (Some (field_fault (json_kind v) struct name ''string''), r))"

fun read_ints :: "string \<Rightarrow> string \<Rightarrow> json list \<Rightarrow> string option \<times> int list" where
  "read_ints struct name [] = (None, [])"
| "read_ints struct name (v # vs) = (case read_ints struct name vs of (later, ns) \<Rightarrow>
     (case int_of_json v of
        Inl val \<Rightarrow> (Some (field_fault val struct name ''int64''), 0 # ns)
      | Inr None \<Rightarrow> (later, 0 # ns) | Inr (Some n) \<Rightarrow> (later, n # ns)))"

definition ints_field :: "string \<Rightarrow> string \<Rightarrow> (int list \<Rightarrow> 'r \<Rightarrow> 'r) \<Rightarrow> string \<times> 'r field_reader" where
  "ints_field struct name upd = (name, \<lambda>v r. case v of JNull \<Rightarrow> (None, upd [] r)
     | JArray vs \<Rightarrow> (case read_ints struct name vs of (f, ns) \<Rightarrow> (f, upd ns r))
     | _ \<Rightarrow> (Some (field_fault (json_kind v) struct name ''[]int64''), r))"

definition lookup_field :: "(string \<times> 'r field_reader) list \<Rightarrow> string \<Rightarrow> 'r field_reader option" where
  "lookup_field flds key = (case map_of flds key of Some f \<Rightarrow> Some f
     | None \<Rightarrow> map_option snd (find (\<lambda>(n, f). fold_bytes n = fold_bytes key) flds))"

fun read_members ::
  "bool \<Rightarrow> (string \<times> 'r field_reader) list \<Rightarrow> (string \<times> json) list \<Rightarrow> 'r \<Rightarrow> string option \<times> 'r" where
  "read_members strict flds [] r = (None, r)"
| "read_members strict flds ((k, v) # ms) r =
     (case (case lookup_field flds k of Some f \<Rightarrow> f v r
        | None \<Rightarrow> (if strict then Some (''json: unknown field '' @ quoted k) else None, r)) of
        (fault, r1) \<Rightarrow>
      (case read_members strict flds ms r1 of (later, r2) \<Rightarrow>
        (case fault of None \<Rightarrow> (later, r2) | Some m \<Rightarrow> (Some m, r2))))"

definition read_struct ::
  "bool \<Rightarrow> string \<Rightarrow> (string \<times> 'r field_reader) list \<Rightarrow> json \<Rightarrow> 'r \<Rightarrow> string option \<times> 'r" where
  "read_struct strict ty flds v r = (case v of JNull \<Rightarrow> (None, r)
     | JObject ms \<Rightarrow> read_members strict flds ms r
     | _ \<Rightarrow> (Some (''json: cannot unmarshal '' @ json_kind v @ '' into Go value of type '' @ ty), r))"

section \<open>Enough fuel\<close>

lemma skip_space_length: "length (skip_space s) \<le> length s"
  by (simp add: skip_space_def length_dropWhile_le)

lemma parse_units_length: "parse_units s = Some (us, r) \<Longrightarrow> length r < length s"
proof (induction s arbitrary: us r rule: parse_units.induct)
  case (2 c cs)
  then show ?case by (fastforce split: if_splits list.splits option.splits)
qed simp

lemma parse_string_length: "parse_string s = Some (t, r) \<Longrightarrow> length r < length s"
  by (auto simp: parse_string_def dest: parse_units_length)

lemma split_digits_length: "split_digits s = (ds, r) \<Longrightarrow> length ds + length r = length s"
  by (auto simp: split_digits_def simp flip: length_append)

lemma parse_fraction_length: "parse_fraction s = Some (t, r) \<Longrightarrow> length r \<le> length s"
  by (auto simp: parse_fraction_def split: list.splits if_splits prod.splits dest!: split_digits_length)

lemma parse_exponent_length: "parse_exponent s = Some (t, r) \<Longrightarrow> length r \<le> length s"
  by (auto simp: parse_exponent_def split: list.splits if_splits prod.splits dest!: split_digits_length)

lemma parse_number_length:
  assumes "parse_number s = Some (t, r)"
  shows "length r < length s"
proof -
  obtain sg body where sg: "(case s of c # r \<Rightarrow> if c = CHR ''-'' then ([c], r) else ([], s) | [] \<Rightarrow> ([], s)) = (sg, body)"
    by fastforce
  then have le: "length body \<le> length s" by (auto split: list.splits if_splits)
  obtain ds r1 where ds: "split_digits body = (ds, r1)" by fastforce
  obtain ip r2 where ip: "(if hd ds = CHR ''0'' then ([hd ds], tl ds @ r1) else (ds, r1)) = (ip, r2)" by fastforce
  from assms sg ds ip obtain fr r3 ex where tail: "ds \<noteq> []" "parse_fraction r2 = Some (fr, r3)" "parse_exponent r3 = Some (ex, r)"
    by (auto simp: parse_number_def Let_def split: if_splits option.splits prod.splits)
  have "length r2 < length body"
    using ip split_digits_length [OF ds] tail(1) by (cases ds) (auto split: if_splits)
  then show ?thesis
    using parse_fraction_length [OF tail(2)] parse_exponent_length [OF tail(3)] le by linarith
qed

lemma parse_word_length: "lit \<noteq> [] \<Longrightarrow> parse_word lit v s = Some (u, r) \<Longrightarrow> s \<noteq> [] \<Longrightarrow> length r < length s"
  by (auto simp: parse_word_def split: if_splits)

lemma parse_length:
  "parse_value n s = Some (v, r) \<Longrightarrow> length r < length s"
  "parse_elements n s = Some (vs, r) \<Longrightarrow> length r < length s"
  "parse_members n s = Some (ms, r) \<Longrightarrow> length r < length s"
proof (induction n s and n s and n s arbitrary: v r and vs r and ms r rule: parse_value_parse_elements_parse_members.induct)
  case (2 n s)
  obtain c cs where s: "skip_space s = c # cs" using "2.prems" by (auto split: list.splits)
  have len: "Suc (length cs) \<le> length s" using skip_space_length [of s] s by simp
  have sp: "skip_space cs = d # rest \<Longrightarrow> Suc (length rest) \<le> length cs" for d rest
    using skip_space_length [of cs] by simp
  from "2.prems" s len show ?case
    using "2.IH"(1,2) [OF s] sp parse_string_length [of cs] parse_number_length [of "c # cs"] parse_word_length [of _ _ "c # cs"]
    by (auto split: if_splits list.splits) (fastforce+)?
next
  case (4 n s)
  obtain v1 r1 where v: "parse_value n s = Some (v1, r1)" using "4.prems" by (auto split: option.splits)
  obtain c r2 where c: "skip_space r1 = c # r2" using "4.prems" v by (auto split: list.splits)
  have "length r1 < length s" using "4.IH"(1) v by blast
  moreover have "Suc (length r2) \<le> length r1" using skip_space_length [of r1] c by simp
  ultimately show ?case using "4.prems" v c "4.IH"(2) [OF v refl c] by (fastforce split: if_splits)
next
  case (6 n s)
  obtain q cs where q: "skip_space s = q # cs" "q = CHR 0x22" using "6.prems" by (auto split: list.splits if_splits)
  obtain k r1 where k: "parse_string cs = Some (k, r1)" using "6.prems" q by (auto split: option.splits)
  obtain r2 where c: "skip_space r1 = CHR '':'' # r2" using "6.prems" q k by (auto split: list.splits if_splits)
  obtain v r3 where v: "parse_value n r2 = Some (v, r3)" using "6.prems" q k c by (auto split: option.splits)
  obtain d r4 where d: "skip_space r3 = d # r4" using "6.prems" q k c v by (auto split: list.splits)
  have "Suc (length cs) \<le> length s" "length r1 < length cs" "Suc (length r2) \<le> length r1" "Suc (length r4) \<le> length r3"
    using skip_space_length [of s] skip_space_length [of r1] skip_space_length [of r3] q c d parse_string_length [OF k] by simp_all
  moreover have "length r3 < length r2" using "6.IH"(1) q k c v by auto
  ultimately have short: "length r4 < length s" by linarith
  show ?case
  proof (cases "d = CHR ''}''")
    case True
    then show ?thesis using "6.prems" q k c v d short by simp
  next
    case False
    then obtain ms' where m: "parse_members n r4 = Some (ms', r)" using "6.prems" q k c v d by (auto split: if_splits)
    have "length r < length r4" using "6.IH"(2) q k c v d False m "6.prems" by (auto split: if_splits)
    then show ?thesis using short by linarith
  qed
qed simp_all

lemma parse_fuel:
  "2 * length s < n \<Longrightarrow> 2 * length s < m \<Longrightarrow> parse_value n s = parse_value m s"
  "2 * length s + 1 < n \<Longrightarrow> 2 * length s + 1 < m \<Longrightarrow> parse_elements n s = parse_elements m s"
  "2 * length s < n \<Longrightarrow> 2 * length s < m \<Longrightarrow> parse_members n s = parse_members m s"
proof (induction n s and n s and n s arbitrary: m and m and m rule: parse_value_parse_elements_parse_members.induct)
  case (2 n s)
  obtain m' where m: "m = Suc m'" using "2.prems"(2) by (cases m) auto
  show ?case
  proof (cases "skip_space s")
    case (Cons c cs)
    then have len: "Suc (length cs) \<le> length s" using skip_space_length [of s] by simp
    have "parse_elements n cs = parse_elements m' cs"
      if "c \<noteq> CHR ''{''" "c = CHR ''[''" "skip_space cs = d # r" "d \<noteq> CHR '']''" for d r
      by (rule "2.IH"(2) [OF Cons that]) (use "2.prems" m len that(3) skip_space_length [of cs] in simp_all)
    moreover have "parse_members n cs = parse_members m' cs"
      if "c = CHR ''{''" "skip_space cs = d # r" "d \<noteq> CHR ''}''" for d r
      by (rule "2.IH"(1) [OF Cons that]) (use "2.prems" m len that(2) skip_space_length [of cs] in simp_all)
    ultimately show ?thesis using m Cons by (simp split: list.split)
  qed (use m in simp)
next
  case (4 n s)
  obtain m' where m: "m = Suc m'" using "4.prems"(2) by (cases m) auto
  have v: "parse_value n s = parse_value m' s" by (rule "4.IH"(1)) (use "4.prems" m in simp_all)
  have "parse_elements n r' = parse_elements m' r'"
    if "parse_value n s = Some (u, r)" "skip_space r = c # r'" "c \<noteq> CHR '']''" "c = CHR '',''" for u r c r'
  proof -
    have "length r < length s" using parse_length(1) [OF that(1)] .
    moreover have "Suc (length r') \<le> length r" using skip_space_length [of r] that(2) by simp
    ultimately show ?thesis
      by (intro "4.IH"(2) [OF that(1) refl that(2-4)]) (use "4.prems" m in simp_all)
  qed
  then show ?case using m v by (auto split: option.split list.split)
next
  case (6 n s)
  obtain m' where m: "m = Suc m'" using "6.prems"(2) by (cases m) auto
  have shorter: "length r1 < length s"
    if "skip_space s = q # cs" "parse_string cs = Some (k, r)" "skip_space r = c # r1" for q cs k r c r1
    using skip_space_length [of s] skip_space_length [of r] that parse_string_length [OF that(2)] by simp
  have v: "parse_value n r1 = parse_value m' r1"
    if "skip_space s = q # cs" "\<not> q \<noteq> CHR 0x22" "parse_string cs = Some (k, r)" "skip_space r = c # r1"
      "\<not> c \<noteq> CHR '':''" for q cs k r c r1
    by (rule "6.IH"(1) [OF that(1-3) refl that(4,5)]) (use shorter [OF that(1,3,4)] "6.prems" m in simp_all)
  have "parse_members n r3 = parse_members m' r3"
    if a: "skip_space s = q # cs" "\<not> q \<noteq> CHR 0x22" "parse_string cs = Some (k, r)" "skip_space r = c # r1"
      "\<not> c \<noteq> CHR '':''" "parse_value n r1 = Some (u, r2)" "skip_space r2 = d # r3" "d \<noteq> CHR ''}''" "d = CHR '',''"
    for q cs k r c r1 u r2 d r3
  proof -
    have "Suc (length r3) \<le> length r2" using skip_space_length [of r2] a(7) by simp
    then have "length r3 < length s" using shorter [OF a(1,3,4)] parse_length(1) [OF a(6)] by linarith
    then show ?thesis
      by (intro "6.IH"(2) [OF a(1-3) refl a(4-6) refl a(7-9)]) (use "6.prems" m in simp_all)
  qed
  then show ?case using m v by (auto split: option.split list.split)
qed simp_all

lemma json_value_fuel: "2 * length s < n \<Longrightarrow> parse_value n s = json_value s"
  unfolding json_value_def by (rule parse_fuel(1)) simp_all

end
