(* ===== verification/Worker.thy ===== *)
theory Worker
  imports EnrollmentService AuthService Json Evolution
begin

text \<open>
  The background worker (\<open>internal/worker/worker.go\<close>, \<open>handlers.go\<close>): one round of the
  polling loop, the loop itself on fuel, the recovery of abandoned leases, the handlers of the two job
  kinds and the scheduler of the recurring sweep. A handler is an operation per job. The text a
  syntax error of \<open>encoding/json\<close> carries is the parameter \<open>syntax_msg\<close>.
\<close>

section \<open>The worker\<close>

record worker_config =
  wcf_WorkerID :: string
  wcf_PollInterval :: duration
  wcf_Lease :: duration
  wcf_BackoffBase :: duration
  wcf_BackoffMax :: duration

type_synonym handler = "job \<Rightarrow> unit op"

record worker =
  wrk_cfg :: worker_config
  wrk_handlers :: "job_kind \<rightharpoonup> handler"

definition New_worker :: "worker_config \<Rightarrow> worker" where
  "New_worker c0 =
     (let c1 = (if wcf_PollInterval c0 \<le> 0 then c0\<lparr>wcf_PollInterval := Second\<rparr> else c0);
          c2 = (if wcf_Lease c1 \<le> 0 then c1\<lparr>wcf_Lease := Minute\<rparr> else c1);
          c3 = (if wcf_BackoffBase c2 \<le> 0 then c2\<lparr>wcf_BackoffBase := Second\<rparr> else c2);
          c4 = (if wcf_BackoffMax c3 < wcf_BackoffBase c3 then c3\<lparr>wcf_BackoffMax := wcf_BackoffBase c3\<rparr> else c3);
          c5 = (if wcf_WorkerID c4 = [] then c4\<lparr>wcf_WorkerID := ''worker''\<rparr> else c4)
      in \<lparr>wrk_cfg = c5, wrk_handlers = Map.empty\<rparr>)"

definition Register :: "worker \<Rightarrow> job_kind \<Rightarrow> handler \<Rightarrow> err + worker" where
  "Register wk kind h = (case wrk_handlers wk kind of
     Some _ \<Rightarrow> Inl (Wrapped (''handler for '' @ job_kind_text kind @ '' already registered'') (Sentinel ErrConflict))
   | None \<Rightarrow> Inr (wk\<lparr>wrk_handlers := (wrk_handlers wk)(kind \<mapsto> h)\<rparr>))"

definition Kinds :: "worker \<Rightarrow> job_kind list" where
  "Kinds wk = filter (\<lambda>k. wrk_handlers wk k \<noteq> None) [JobPromoteWaitlist, JobSweepSessions]"

definition RecoverStaleJobs :: "worker \<Rightarrow> int op" where
  "RecoverStaleJobs wk =
     andThen clock_now (\<lambda>now. RequeueStaleJobs (StaleLockCutoff now (wcf_Lease (wrk_cfg wk))) now)"

definition recordPermanentFailure :: "job \<Rightarrow> err \<Rightarrow> unit op" where
  "recordPermanentFailure j cause =
     InTx (Record \<lparr>ent_Actor = None, ent_Action = ActionJobFailed, ent_ObjectType = ''job'',
       ent_ObjectID = itoa (job_ID j), ent_Result = ResultFailure,
       ent_Detail = job_kind_text (job_Kind j) @ '' after '' @ itoa (job_Attempts j) @ '' attempts: ''
         @ error_text cause\<rparr>)"

definition joined_with :: "err \<Rightarrow> err \<Rightarrow> err" where
  \<comment> \<open>\<open>errors.Join(handlerErr, err)\<close>\<close>
  "joined_with handlerErr e = Joined [handlerErr, e]"

definition conclude_job :: "worker \<Rightarrow> job \<Rightarrow> err + unit \<Rightarrow> bool op" where
  \<comment> \<open>what \<open>RunOnce\<close> does with the answer of the handler\<close>
  "conclude_job wk j answer =
     andThen clock_now (\<lambda>completedAt.
     case answer of
       Inr _ \<Rightarrow> andThen (MarkJobSucceeded (job_ID j) completedAt) (\<lambda>_. ret True)
     | Inl handlerErr \<Rightarrow>
         if is_canceled handlerErr \<or> is_deadline handlerErr
         then andThen (on_error (joined_with handlerErr)
                (MarkJobRetry (job_ID j) completedAt (error_text handlerErr) completedAt)) (\<lambda>_. raise handlerErr)
         else if BudgetExhausted j
         then andThen (on_error (joined_with handlerErr)
                (MarkJobPermanentlyFailed (job_ID j) (error_text handlerErr) completedAt)) (\<lambda>_.
              andThen (recordPermanentFailure j handlerErr) (\<lambda>_. ret True))
         else andThen (on_error (joined_with handlerErr)
                (MarkJobRetry (job_ID j)
                  (completedAt + Backoff (job_Attempts j) (wcf_BackoffBase (wrk_cfg wk)) (wcf_BackoffMax (wrk_cfg wk)))
                  (error_text handlerErr) completedAt)) (\<lambda>_. ret True))"

definition run_job :: "worker \<Rightarrow> job \<Rightarrow> bool op" where
  "run_job wk j = (case wrk_handlers wk (job_Kind j) of
     None \<Rightarrow>
       (let failure = ''no handler registered for kind '' @ job_kind_text (job_Kind j) in
        andThen clock_now (\<lambda>at.
        andThen (MarkJobPermanentlyFailed (job_ID j) failure at) (\<lambda>_.
        andThen (recordPermanentFailure j (Plain failure)) (\<lambda>_. ret True))))
   | Some h \<Rightarrow> andThen (attempt (h j)) (conclude_job wk j))"

definition RunOnce :: "worker \<Rightarrow> bool op" where
  "RunOnce wk =
     (if Kinds wk = [] then raise (Plain ''worker has no registered handlers'')
      else andThen ctx_Err (\<lambda>done. case done of
        Some e \<Rightarrow> raise e
      | None \<Rightarrow> andThen clock_now (\<lambda>now.
          andThen (attempt (ClaimNextJob (Kinds wk) (wcf_WorkerID (wrk_cfg wk)) now)) (\<lambda>r. case r of
            Inl err \<Rightarrow> if errors_Is err ErrNotFound then ret False else raise err
          | Inr j \<Rightarrow> run_job wk j))))"

datatype drain_end = QueueIdle | RoundFailed err | RoundStopped err | OutOfFuel

fun drain :: "nat \<Rightarrow> worker \<Rightarrow> drain_end op" where
  \<comment> \<open>the inner loop of \<open>Run\<close>\<close>
  "drain 0 wk = ret OutOfFuel"
| "drain (Suc n) wk = andThen (attempt (RunOnce wk)) (\<lambda>r. case r of
     Inl err \<Rightarrow> if is_canceled err \<or> is_deadline err then ret (RoundStopped err) else ret (RoundFailed err)
   | Inr claimed \<Rightarrow> if claimed then drain n wk else ret QueueIdle)"

fun poll :: "nat \<Rightarrow> nat \<Rightarrow> worker \<Rightarrow> err option option op" where
  \<comment> \<open>the outer loop of \<open>Run\<close>, at most \<open>n\<close> ticks: what it returned, or nothing when it is still polling.
    A context that ended while the ticker fired ends the loop here at once; the program may go through one
    more round, which \<open>RunOnce\<close> ends at its first check.\<close>
  "poll fuel 0 wk = ret None"
| "poll fuel (Suc n) wk = andThen (drain fuel wk) (\<lambda>r. case r of
     OutOfFuel \<Rightarrow> ret None
   | RoundStopped _ \<Rightarrow> andThen ctx_Err (\<lambda>done. ret (Some done))
   | _ \<Rightarrow> andThen ctx_Err (\<lambda>done. case done of Some e \<Rightarrow> ret (Some (Some e)) | None \<Rightarrow> poll fuel n wk))"

definition Run :: "nat \<Rightarrow> nat \<Rightarrow> worker \<Rightarrow> err option option op" where
  "Run fuel n wk = andThen (attempt (RecoverStaleJobs wk)) (\<lambda>r. case r of
     Inl err \<Rightarrow> ret (Some (Some err)) | Inr _ \<Rightarrow> poll fuel n wk)"

section \<open>Handlers\<close>

definition SessionSweepLimit :: int where "SessionSweepLimit = 200"

definition decode_waitlist_payload :: "(string \<Rightarrow> string) \<Rightarrow> string \<Rightarrow> err + int" where
  \<comment> \<open>\<open>json.Unmarshal\<close> into \<open>WaitlistJobPayload\<close>\<close>
  "decode_waitlist_payload syntax_msg payload = (case json_parse payload of
     None \<Rightarrow> Inl (Plain (syntax_msg payload))
   | Some v \<Rightarrow> (case read_struct False ''service.WaitlistJobPayload''
         [int_field ''WaitlistJobPayload'' ''section_id'' (\<lambda>n _. n)] v 0 of
       (Some fault, _) \<Rightarrow> Inl (Plain fault) | (None, n) \<Rightarrow> Inr n))"

definition NewWaitlistPromotionHandler :: "(string \<Rightarrow> string) \<Rightarrow> (int \<Rightarrow> bool op) \<Rightarrow> handler" where
  "NewWaitlistPromotionHandler syntax_msg promoter j =
     andThen (on_error (Wrapped (''decode waitlist job '' @ itoa (job_ID j) @ '' payload''))
       (lift_result (decode_waitlist_payload syntax_msg (job_Payload j)))) (\<lambda>sectionID.
     if sectionID \<le> 0
     then raise (Wrapped (''waitlist job '' @ itoa (job_ID j) @ '' has no section'') (Sentinel ErrValidation))
     else andThen (attempt (promoter sectionID)) (\<lambda>r. case r of
       Inl err \<Rightarrow> if errors_Is err ErrNotFound then ret () else raise err
     | Inr _ \<Rightarrow> ret ()))"

definition NewSessionSweepHandler :: "(int \<Rightarrow> int op) \<Rightarrow> handler" where
  "NewSessionSweepHandler sweeper j =
     andThen (on_error (Wrapped (''sweep expired sessions for job '' @ itoa (job_ID j)))
       (sweeper SessionSweepLimit)) (\<lambda>_. ret ())"

definition app_worker :: "(string \<Rightarrow> string) \<Rightarrow> worker_config \<Rightarrow> worker" where
  \<comment> \<open>the worker the application assembles: both handlers on the services\<close>
  "app_worker syntax_msg cfg = (New_worker cfg)\<lparr>wrk_handlers :=
     [JobPromoteWaitlist \<mapsto> NewWaitlistPromotionHandler syntax_msg PromoteWaitlist,
      JobSweepSessions \<mapsto> NewSessionSweepHandler SweepExpiredSessions]\<rparr>"

section \<open>The recurring sweep\<close>

definition NewMaintenance :: "duration \<Rightarrow> duration" where
  "NewMaintenance interval = (if interval \<le> 0 then 5 * Minute else interval)"

definition EnsureSessionSweep :: "duration \<Rightarrow> instant \<Rightarrow> bool op" where
  "EnsureSessionSweep interval now =
     andThen (CountJobsByState JobQueued) (\<lambda>queued.
     if queued > 0 then ret False
     else InTx (andThen (EnqueueJob \<lparr>job_ID = 0, job_Kind = JobSweepSessions, job_Payload = ''{}'',
            job_State = JobQueued, job_Attempts = 0, job_MaxAttempts = MaxJobAttempts, job_LastError = [],
            job_RunAfter = now + interval, job_LockedAt = None, job_LockedBy = [], job_CreatedAt = now,
            job_UpdatedAt = now\<rparr>) (\<lambda>_. ret True)))"

fun Maintenance_Run :: "nat \<Rightarrow> duration \<Rightarrow> err option option op" where
  \<comment> \<open>at most \<open>n\<close> ticks of the scheduler\<close>
  "Maintenance_Run 0 interval = ret None"
| "Maintenance_Run (Suc n) interval = andThen clock_now (\<lambda>now.
     andThen (attempt (EnsureSessionSweep interval now)) (\<lambda>r. case r of
       Inl err \<Rightarrow> if is_canceled err then andThen ctx_Err (\<lambda>done. ret (Some done)) else ret (Some (Some err))
     | Inr _ \<Rightarrow> andThen ctx_Err (\<lambda>done. case done of
         Some e \<Rightarrow> ret (Some (Some e)) | None \<Rightarrow> Maintenance_Run n interval)))"

end
