(* ===== verification/Frames.thy ===== *)
theory Frames
  imports Worker
begin

text \<open>
  Relations along the seat and job use cases: each locale names the calls of a repository, assumes that they
  move the database along a relation, and carries it through the operations built on them. A relation that
  does not look at a table gets its calls from the frame lemmas.
\<close>

section \<open>Seats\<close>

context evolution begin

lemma counter_frame:
  assumes "\<And>t c. R t (t\<lparr>t_sections := c\<rparr>)"
  shows "keeps (ClaimSeat i v at)" "keeps (ReleaseSeat i v at)" "keeps (AdjustWaitlistLength i d at)"
  unfolding ClaimSeat_def ReleaseSeat_def AdjustWaitlistLength_def
  by (intro keeps_intro keeps_reads [OF catalog_reads(8)] keeps_reads [OF catalog_reads(11)]; auto simp: update_sections_def intro!: assms split: if_splits)+

lemma enrollment_frame:
  assumes "\<And>t c. R t (t\<lparr>t_enrollments := c\<rparr>)"
  shows "keeps (CreateEnrollment e)" "keeps (UpdateEnrollment e v)"
  unfolding CreateEnrollment_def UpdateEnrollment_def
  by (intro keeps_intro keeps_reads [OF enrollment_reads(1)];
      auto simp: insert_enrollment_def update_enrollment_def Let_def intro!: assms split: if_splits)+

end

locale seat_calls = trail_calls +
  \<comment> \<open>a relation that the section counters and the claims move along\<close>
  assumes counters: "keeps (ClaimSeat i v at)" "keeps (ReleaseSeat i v at)" "keeps (AdjustWaitlistLength i d at)"
    and claims: "keeps (CreateEnrollment e)" "keeps (UpdateEnrollment e v)"
begin

lemma keeps_lookups [keeps_intro]:
  "keeps (FindTermByID i)" "keeps (CoursePrerequisites i)" "keeps (FindSectionByID i)" "keeps (FindSectionForUpdate i)"
  "keeps (FindEnrollmentByID i)" "keeps (ActiveEnrollmentsForStudent a b)"
  "keeps (ActiveMeetingsForStudent a b)" "keeps (NextWaitlistRank i)" "keeps (HeadOfWaitlist i)"
  "keeps (read_registration a b)" "keeps (StudentAcademicRecords a)"
  by (intro keeps_reads catalog_reads enrollment_reads service_reads registration_reads)+

lemma keeps_calls [keeps_intro]:
  "keeps (ClaimSeat i v at)" "keeps (ReleaseSeat i v at)" "keeps (AdjustWaitlistLength i d at)"
  "keeps (CreateEnrollment e)" "keeps (UpdateEnrollment e v)"
  by (rule counters claims)+

lemma keeps_promote [keeps_intro]: "keeps (PromoteWaitlist i)"
  unfolding PromoteWaitlist_def promote_once_def promote_head_def by (intro keeps_intro)

lemma keeps_rejection [keeps_intro]: "keeps (recordRejection a b c d e)"
  unfolding recordRejection_def Let_def by (intro keeps_intro)

lemma keeps_claim [keeps_intro]: "keeps (claimOnce actor req)"
  unfolding claimOnce_def join_waitlist_def take_free_seat_def by (intro keeps_intro)

lemma keeps_claim_loop [keeps_intro]: "keeps (claim_loop actor req n k)"
  by (induction k) (simp_all add: Let_def, (intro keeps_intro | assumption)+)

lemma keeps_Claim [keeps_intro]: "keeps (Claim k actor st sec)"
  unfolding Claim_def Let_def by (intro keeps_intro)

lemma keeps_batch_loop [keeps_intro]: "keeps (batch_loop k actor st secs results)"
  by (induction secs arbitrary: results) (simp_all, (intro keeps_intro | assumption)+)

lemma keeps_BatchClaim [keeps_intro]: "keeps (BatchClaim k actor st secs)"
  unfolding BatchClaim_def Let_def by (intro keeps_intro)

lemma keeps_Drop [keeps_intro]:
  assumes "\<And>j. keeps (EnqueueJob j)"
  shows "keeps (Drop actor i reason)"
  unfolding Drop_def drop_once_def release_counters_def enqueueWaitlistPromotion_def Let_def
  by (intro keeps_intro assms)

end

section \<open>Jobs\<close>

context evolution begin

lemma job_frame:
  assumes "\<And>t c. R t (t\<lparr>t_jobs := c\<rparr>)"
  shows "keeps (EnqueueJob j)" "keeps (ClaimNextJob kinds wid now)" "keeps (MarkJobSucceeded i at)"
    "keeps (MarkJobRetry i after lastErr at)" "keeps (MarkJobPermanentlyFailed i lastErr at)"
    "keeps (RequeueStaleJobs before at)"
  unfolding EnqueueJob_def ClaimNextJob_def MarkJobSucceeded_def MarkJobRetry_def MarkJobPermanentlyFailed_def
    finishJob_def RequeueStaleJobs_def Let_def
  by (intro keeps_intro;
      auto simp: insert_job_def claim_next_def Let_def refl intro!: assms split: if_splits option.splits)+

end

context evolution begin

lemma keeps_handlers [keeps_intro]:
  "(\<And>i. keeps (PromoteWaitlist i)) \<Longrightarrow> keeps (NewWaitlistPromotionHandler msg PromoteWaitlist j)"
  "(\<And>limit. keeps (SweepExpiredSessions limit)) \<Longrightarrow> keeps (NewSessionSweepHandler SweepExpiredSessions j)"
  unfolding NewWaitlistPromotionHandler_def NewSessionSweepHandler_def by (intro keeps_intro | assumption)+

lemma keeps_app_handlers:
  assumes "\<And>i. keeps (PromoteWaitlist i)" "\<And>limit. keeps (SweepExpiredSessions limit)"
    and "wrk_handlers (app_worker msg cfg) k = Some h"
  shows "keeps (h j)"
proof -
  have "keeps (NewWaitlistPromotionHandler msg PromoteWaitlist j)" "keeps (NewSessionSweepHandler SweepExpiredSessions j)"
    by (intro keeps_handlers assms(1,2))+
  then show ?thesis using assms(3) by (auto simp: app_worker_def split: if_splits)
qed

end

context trail_calls begin

lemma keeps_failure [keeps_intro]: "keeps (recordPermanentFailure j cause)"
  unfolding recordPermanentFailure_def by (intro keeps_intro)

end

locale queue_calls = trail_calls +
  \<comment> \<open>a relation that the calls of the job repository move along\<close>
  assumes queues: "keeps (EnqueueJob j)" "keeps (ClaimNextJob kinds wid now)" "keeps (MarkJobSucceeded i at)"
    "keeps (MarkJobRetry i after lastErr at)" "keeps (MarkJobPermanentlyFailed i lastErr at)"
    "keeps (RequeueStaleJobs before at)"
begin

lemma keeps_queue [keeps_intro]:
  "keeps (EnqueueJob j)" "keeps (ClaimNextJob kinds wid now)" "keeps (MarkJobSucceeded i at)"
  "keeps (MarkJobRetry i after lastErr at)" "keeps (MarkJobPermanentlyFailed i lastErr at)"
  "keeps (RequeueStaleJobs before at)" "keeps (CountJobsByState s)"
  by (rule queues keeps_reads job_reads)+

lemma keeps_scheduling [keeps_intro]:
  "keeps (enqueueWaitlistPromotion i now)" "keeps (RecoverStaleJobs wk)" "keeps (EnsureSessionSweep interval now)"
  unfolding enqueueWaitlistPromotion_def RecoverStaleJobs_def EnsureSessionSweep_def by (intro keeps_intro)+

lemma keeps_conclude [keeps_intro]: "keeps (conclude_job wk j r)"
  unfolding conclude_job_def by (intro keeps_intro)

lemma keeps_rounds:
  assumes "\<And>k h j. wrk_handlers wk k = Some h \<Longrightarrow> keeps (h j)"
  shows "keeps (RunOnce wk)" "keeps (drain fuel wk)" "keeps (poll fuel n wk)" "keeps (Run fuel n wk)"
proof -
  have "keeps (run_job wk j)" for j
    using assms unfolding run_job_def Let_def
    by (cases "wrk_handlers wk (job_Kind j)") (auto intro!: keeps_intro)
  then show once: "keeps (RunOnce wk)" unfolding RunOnce_def by (intro keeps_intro)
  show drained: "keeps (drain fuel wk)" for fuel
    by (induction fuel) (simp_all, (intro keeps_intro once | assumption)+)
  show polled: "keeps (poll fuel n wk)" for n
  proof (induction n)
    case (Suc n)
    have "keeps (case r of OutOfFuel \<Rightarrow> ret None
       | RoundStopped e \<Rightarrow> andThen ctx_Err (\<lambda>done. ret (Some done))
       | _ \<Rightarrow> andThen ctx_Err (\<lambda>done. case done of Some e \<Rightarrow> ret (Some (Some e)) | None \<Rightarrow> poll fuel n wk))" for r
      by (cases r) (simp_all, (intro keeps_intro Suc)+)
    then show ?case by (simp, intro keeps_andThen drained)
  qed (simp, intro keeps_intro)
  show "keeps (Run fuel n wk)" unfolding Run_def by (intro keeps_intro polled)
qed

lemma keeps_Maintenance [keeps_intro]: "keeps (Maintenance_Run n interval)"
  by (induction n) (simp_all, (intro keeps_intro | assumption)+)

end

end
