(* ===== verification/WorkerRuns.thy ===== *)
theory WorkerRuns
  imports Frames
begin

text \<open>
  What becomes of stored jobs, whatever fails: two relations on the job table (it is as it was; every job
  goes on along its life cycle), carried through the repositories, the services and the worker by one
  locale.
\<close>

section \<open>The relations\<close>

locale job_evolution = evolution +
  \<comment> \<open>a relation that only looks at the jobs\<close>
  assumes same: "t_jobs t' = t_jobs t \<Longrightarrow> R t t'"

sublocale job_evolution \<subseteq> session_calls
  by unfold_locales (intro append_frame session_frame same; simp)+

sublocale job_evolution \<subseteq> seat_calls
  by unfold_locales (intro counter_frame enrollment_frame same; simp)+

definition same_jobs :: "tables \<Rightarrow> tables \<Rightarrow> bool" where
  "same_jobs t t' \<longleftrightarrow> t_jobs t' = t_jobs t"

interpretation unchanged_jobs: job_evolution same_jobs
  by unfold_locales (simp_all add: same_jobs_def)

definition finished :: "job \<Rightarrow> bool" where
  "finished j \<longleftrightarrow> job_State j = JobSucceeded \<or> job_State j = JobPermanentlyFailed"

definition job_after :: "job \<Rightarrow> job \<Rightarrow> bool" where
  \<comment> \<open>what may become of a stored job: its business fields stay, attempts only grow, and a job that succeeded
    or failed for good stays as it is\<close>
  "job_after j j' \<longleftrightarrow> job_ID j' = job_ID j \<and> job_Kind j' = job_Kind j \<and> job_Payload j' = job_Payload j
     \<and> job_MaxAttempts j' = job_MaxAttempts j \<and> job_CreatedAt j' = job_CreatedAt j
     \<and> job_Attempts j \<le> job_Attempts j' \<and> (finished j \<longrightarrow> j' = j)"

lemma job_after_refl [simp]: "job_after j j"
  by (simp add: job_after_def)

lemma job_after_trans: "job_after a b \<Longrightarrow> job_after b c \<Longrightarrow> job_after a c"
  by (auto simp: job_after_def)

definition jobs_evolve :: "tables \<Rightarrow> tables \<Rightarrow> bool" where
  "jobs_evolve t t' \<longleftrightarrow> (job_key.keyed (t_jobs t) \<longrightarrow> job_key.keyed (t_jobs t')
     \<and> (\<forall>j \<in> set (tbl_rows (t_jobs t)). \<exists>j' \<in> set (tbl_rows (t_jobs t')). job_after j j'))"

lemma jobs_evolve_same: "t_jobs t' = t_jobs t \<Longrightarrow> jobs_evolve t t'"
  unfolding jobs_evolve_def using job_after_refl by metis

lemma jobs_evolve_trans: "jobs_evolve t u \<Longrightarrow> jobs_evolve u v \<Longrightarrow> jobs_evolve t v"
  unfolding jobs_evolve_def by (meson job_after_trans)

interpretation jobs: job_evolution jobs_evolve
  by unfold_locales (simp_all add: jobs_evolve_same, rule jobs_evolve_trans)

lemma jobs_evolve_update:
  assumes "\<And>j. j \<in> set (tbl_rows (t_jobs t)) \<Longrightarrow> P j \<Longrightarrow> job_after j (f j)"
  shows "jobs_evolve t (t\<lparr>t_jobs := table_update P f (t_jobs t)\<rparr>)"
proof -
  let ?rows = "tbl_rows (t_jobs t)" and ?g = "\<lambda>j. if P j then f j else j"
  let ?t' = "t\<lparr>t_jobs := table_update P f (t_jobs t)\<rparr>"
  have rows: "tbl_rows (t_jobs ?t') = map ?g ?rows" "tbl_seq (t_jobs ?t') = tbl_seq (t_jobs t)"
    by (simp_all add: table_update_def)
  have g: "job_after j (?g j)" if "j \<in> set ?rows" for j
    using assms [OF that] by simp
  then have same: "job_ID (?g j) = job_ID j" if "j \<in> set ?rows" for j
    using that by (simp only: job_after_def)
  have keys: "map job_ID (map ?g ?rows) = map job_ID ?rows"
    using same by simp
  have "job_key.keyed (t_jobs ?t')" if "job_key.keyed (t_jobs t)"
  proof -
    have "1 \<le> job_ID j' \<and> job_ID j' \<le> tbl_seq (t_jobs t)" if "j' \<in> set (map ?g ?rows)" for j'
    proof -
      have "j' \<in> ?g ` set ?rows" using that by (simp only: set_map)
      then obtain j where j: "j \<in> set ?rows" "j' = ?g j" by (rule imageE)
      have "job_ID j' = job_ID j" unfolding j(2) by (rule same [OF j(1)])
      then show ?thesis using j(1) \<open>job_key.keyed (t_jobs t)\<close> by (simp add: job_key.keyed_def)
    qed
    then show ?thesis using that unfolding job_key.keyed_def rows keys by blast
  qed
  moreover have "\<exists>j' \<in> set (map ?g ?rows). job_after j j'" if "j \<in> set ?rows" for j
    using that by (intro bexI [of _ "?g j"], intro g) simp_all
  ultimately show ?thesis unfolding jobs_evolve_def rows by blast
qed

lemma jobs_evolve_insert:
  assumes "insert_job j t = Inr (i, t')"
  shows "jobs_evolve t t'"
proof -
  from assms have t': "t' = t\<lparr>t_jobs := table_insert (\<lambda>i r. r\<lparr>job_ID := i\<rparr>) (j\<lparr>job_LockedAt := None, job_LockedBy := []\<rparr>) (t_jobs t)\<rparr>"
    by (simp add: insert_job_def split: if_splits)
  have "\<exists>j' \<in> set (tbl_rows (t_jobs t')). job_after q j'" if "q \<in> set (tbl_rows (t_jobs t))" for q
    using that by (intro bexI [of _ q]) (simp_all add: t' table_insert_def)
  then show ?thesis
    unfolding jobs_evolve_def t' using job_key.keyed_insert [of "t_jobs t"] by simp
qed

section \<open>The job repository\<close>

lemma next_ready_facts:
  assumes "next_ready kinds now t = Some j"
  shows "j \<in> set (tbl_rows (t_jobs t))" "job_ready kinds now j"
    "\<forall>q \<in> set (tbl_rows (t_jobs t)). job_ready kinds now q \<longrightarrow> ready_order j q"
proof -
  let ?sel = "select_where (job_ready kinds now) (t_jobs t)"
  obtain rest where o: "order_by ready_order ?sel = j # rest"
    using assms by (auto simp: next_ready_def limit_offset_def split: list.splits)
      (metis list.exhaust take_Suc_Cons take_eq_Nil list.inject)?
  then have "j \<in> set (order_by ready_order ?sel)" by simp
  then show m: "j \<in> set (tbl_rows (t_jobs t))" "job_ready kinds now j" by simp_all
  have "total_preorder (\<lambda>a b. time_text_le (job_RunAfter a) (job_RunAfter b))"
    by (auto simp: total_preorder_def time_text_le_def)
  then have pre: "total_preorder ready_order"
    unfolding ready_order_def by (intro total_preorder_by_keys) simp
  have "sorted_wrt ready_order (j # rest)"
    using sorted_order_by [OF total_preorder_orders [OF pre], of ?sel] o by simp
  moreover have "q = j \<or> q \<in> set rest" if "q \<in> set (tbl_rows (t_jobs t))" "job_ready kinds now q" for q
    using that o set_order_by [of ready_order ?sel] by auto
  ultimately show "\<forall>q \<in> set (tbl_rows (t_jobs t)). job_ready kinds now q \<longrightarrow> ready_order j q"
    using pre by (fastforce simp: total_preorder_def)
qed

lemma job_ops_keep [keeps_intro]:
  "jobs.keeps (EnqueueJob j)" "jobs.keeps (ClaimNextJob kinds wid now)" "jobs.keeps (MarkJobSucceeded i at)"
  "jobs.keeps (MarkJobRetry i after lastErr at)" "jobs.keeps (MarkJobPermanentlyFailed i lastErr at)"
  "jobs.keeps (RequeueStaleJobs before at)"
proof -
  show "jobs.keeps (EnqueueJob j)"
    unfolding EnqueueJob_def Let_def by (intro keeps_intro jobs_evolve_insert)
  have "jobs_evolve t t'" if "claim_next kinds wid now t = Inr (r, t')" for t t' r
  proof (cases "next_ready kinds now t")
    case (Some j)
    have j: "j \<in> set (tbl_rows (t_jobs t))" "job_ready kinds now j"
      using next_ready_facts [OF Some] by simp_all
    have t': "t' = t\<lparr>t_jobs := table_update (\<lambda>r. job_ID r = job_ID j) (lease_job wid now) (t_jobs t)\<rparr>"
      using that Some by (simp add: claim_next_def Let_def)
    show ?thesis
    proof (cases "job_key.keyed (t_jobs t)")
      case True
      have "job_after q (lease_job wid now q)" if "q \<in> set (tbl_rows (t_jobs t))" "job_ID q = job_ID j" for q
        using job_key.by_id_unique [OF True that(1) j(1) that(2)] j(2)
        by (simp add: job_after_def lease_job_def job_ready_def finished_def)
      then show ?thesis unfolding t' by (rule jobs_evolve_update)
    qed (simp add: jobs_evolve_def)
  qed (use that jobs_evolve_same in \<open>simp add: claim_next_def\<close>)
  then show "jobs.keeps (ClaimNextJob kinds wid now)"
    unfolding ClaimNextJob_def by (intro keeps_intro) 
  have fin: "jobs.keeps (finishJob i f)" if "\<And>j. job_State j = JobRunning \<Longrightarrow> job_after j (f j)" for i f
    unfolding finishJob_def
  proof (intro keeps_intro)
    fix t x t' assume "Inr (count_where (finish_pred i) (t_jobs t), t\<lparr>t_jobs := table_update (finish_pred i) f (t_jobs t)\<rparr>)
        = (Inr (x, t') :: err + int \<times> tables)"
    then have "t' = t\<lparr>t_jobs := table_update (finish_pred i) f (t_jobs t)\<rparr>" by simp
    then show "jobs_evolve t t'"
      by (simp only:) (rule jobs_evolve_update, rule that, simp add: finish_pred_def)
  qed
  show "jobs.keeps (MarkJobSucceeded i at)" "jobs.keeps (MarkJobRetry i after lastErr at)"
    "jobs.keeps (MarkJobPermanentlyFailed i lastErr at)"
    unfolding MarkJobSucceeded_def MarkJobRetry_def MarkJobPermanentlyFailed_def
    by (intro fin; simp add: job_after_def release_lease_def finished_def)+
  have "jobs_evolve t (t\<lparr>t_jobs := table_update (stale_pred before) (requeue at) (t_jobs t)\<rparr>)" for t
    by (rule jobs_evolve_update) (simp add: stale_pred_def job_after_def requeue_def finished_def)
  then show "jobs.keeps (RequeueStaleJobs before at)"
    unfolding RequeueStaleJobs_def by (intro keeps_intro) auto
qed

interpretation jobs: queue_calls jobs_evolve
  by unfold_locales (rule job_ops_keep)+

lemma job_services_keep [keeps_intro]: "jobs.keeps (RunOnce (app_worker msg cfg))" "jobs.keeps (Drop actor i reason)"
proof -
  show "jobs.keeps (RunOnce (app_worker msg cfg))"
    by (rule jobs.keeps_rounds, erule jobs.keeps_app_handlers [rotated 2]) (intro keeps_intro)+
  show "jobs.keeps (Drop actor i reason)" by (intro keeps_intro)
qed

end
