(* ===== verification/WorkerProperties.thy ===== *)
theory WorkerProperties
  imports WorkerRuns CalmPromotion SeatProperties
begin

text \<open>
  What the background worker promises: jobs are never lost and finished ones stay as they are, one round settles
  the job it leased, and the inner polling loop ends, because every round uses up an attempt of a queued job.
\<close>

section \<open>Finished jobs\<close>

datatype work_call =
    WorkRound "string \<Rightarrow> string" worker_config
  | WorkRecover worker
  | WorkSchedule duration instant
  | WorkClaim int principal int int
  | WorkDrop principal int string
  | WorkPromote int

fun perform_work :: "work_call \<Rightarrow> unit op" where
  "perform_work (WorkRound msg cfg) = andThen (attempt (RunOnce (app_worker msg cfg))) (\<lambda>_. ret ())"
| "perform_work (WorkRecover wk) = andThen (attempt (RecoverStaleJobs wk)) (\<lambda>_. ret ())"
| "perform_work (WorkSchedule interval now) = andThen (attempt (EnsureSessionSweep interval now)) (\<lambda>_. ret ())"
| "perform_work (WorkClaim k actor st sec) = andThen (attempt (Claim k actor st sec)) (\<lambda>_. ret ())"
| "perform_work (WorkDrop actor i reason) = andThen (attempt (Drop actor i reason)) (\<lambda>_. ret ())"
| "perform_work (WorkPromote i) = andThen (attempt (PromoteWaitlist i)) (\<lambda>_. ret ())"

fun perform_works :: "work_call list \<Rightarrow> unit op" where
  "perform_works [] = ret ()"
| "perform_works (c # cs) = andThen (perform_work c) (\<lambda>_. perform_works cs)"

lemma perform_work_keeps [keeps_intro]: "jobs.keeps (perform_work c)"
  by (cases c) (simp_all, (intro keeps_intro)+)

lemma perform_works_keeps [keeps_intro]: "jobs.keeps (perform_works cs)"
  by (induction cs) (simp_all, (intro keeps_intro | assumption)+)

text \<open>C28: no job is ever lost or rewritten. After any sequence of worker rounds, lease recoveries, scheduled
  sweeps, claims, drops and promotions, whatever driver calls fail, every stored job is still there under its
  key, with its kind, payload and budget, with at least as many attempts; and one that succeeded or failed
  for good has not changed at all.\<close>

theorem jobs_never_lost:
  assumes "job_key.keyed (t_jobs (tb w))" "j \<in> set (tbl_rows (t_jobs (tb w)))"
  shows "\<exists>j' \<in> set (tbl_rows (t_jobs (tb (snd (perform_works cs w))))). job_after j j'"
proof -
  have "jobs_evolve (tb w) (tb (snd (perform_works cs w)))"
    using perform_works_keeps [of cs] unfolding jobs.keeps_def by blast
  then show ?thesis using assms by (simp add: jobs_evolve_def)
qed

definition promotion_job :: job where
  "promotion_job = \<lparr>job_ID = 1, job_Kind = JobPromoteWaitlist, job_Payload = waitlist_payload 1,
     job_State = JobQueued, job_Attempts = 0, job_MaxAttempts = MaxJobAttempts, job_LastError = [],
     job_RunAfter = 5, job_LockedAt = None, job_LockedBy = [], job_CreatedAt = 5, job_UpdatedAt = 5\<rparr>"

definition with_promotion :: "tables \<Rightarrow> tables" where
  "with_promotion t = t\<lparr>t_jobs := \<lparr>tbl_rows = [promotion_job], tbl_seq = 1\<rparr>\<rparr>"

definition sample_worker :: worker_config where
  "sample_worker = \<lparr>wcf_WorkerID = ''worker-1'', wcf_PollInterval = Second, wcf_Lease = Minute,
     wcf_BackoffBase = Second, wcf_BackoffMax = Minute\<rparr>"

lemma with_promotion_facts [simp]:
  "tbl_rows (t_jobs (with_promotion t)) = [promotion_job]" "job_key.keyed (t_jobs (with_promotion t))"
  by (simp_all add: with_promotion_def job_key.keyed_def promotion_job_def)

theorem jobs_never_lost_witness:
  "\<exists>j' \<in> set (tbl_rows (t_jobs (tb (snd (perform_works [WorkPromote 1, WorkRound (\<lambda>_. ''syntax'') sample_worker]
     (at_time 5 (with_promotion campus))))))). job_ID j' = 1 \<and> job_Payload j' = waitlist_payload 1"
proof -
  have w: "job_key.keyed (t_jobs (tb (at_time 5 (with_promotion campus))))"
    "promotion_job \<in> set (tbl_rows (t_jobs (tb (at_time 5 (with_promotion campus)))))" by simp_all
  have "job_ID j' = 1 \<and> job_Payload j' = waitlist_payload 1" if "job_after promotion_job j'" for j'
    using that by (simp add: job_after_def promotion_job_def)
  with jobs_never_lost [OF w] show ?thesis by (meson bexE bexI)
qed

section \<open>The polling loop\<close>

definition obedient :: "worker \<Rightarrow> bool" where
  \<comment> \<open>the handlers leave the queue and the environment alone, as those of the application do\<close>
  "obedient wk \<longleftrightarrow> (\<forall>k h j. wrk_handlers wk k = Some h \<longrightarrow> tame (h j) \<and> unchanged_jobs.keeps (h j))"

lemma obedient_app: "obedient (app_worker msg cfg)"
proof -
  have "tame (NewWaitlistPromotionHandler msg PromoteWaitlist j)" "tame (NewSessionSweepHandler SweepExpiredSessions j)" for j
    unfolding NewWaitlistPromotionHandler_def NewSessionSweepHandler_def by (intro tame_intro)+
  then show ?thesis
    by (auto simp: obedient_def app_worker_def split: if_splits intro: keeps_intro)
qed

definition ready_count :: "worker \<Rightarrow> instant \<Rightarrow> tables \<Rightarrow> int" where
  "ready_count wk now t = count_where (job_ready (Kinds wk) now) (t_jobs t)"

definition attempts_left :: "job \<Rightarrow> int" where
  "attempts_left j = (if job_MaxAttempts j \<le> 0 then MaxJobAttempts else job_MaxAttempts j) - job_Attempts j"

definition rounds_of :: "job \<Rightarrow> int" where
  \<comment> \<open>how often a queued job can still be leased by the loop: once per attempt left, and at least once\<close>
  "rounds_of j = (if job_State j = JobQueued then max 1 (attempts_left j) else 0)"

definition rounds_left :: "tables \<Rightarrow> int" where
  "rounds_left t = sum_list (map rounds_of (tbl_rows (t_jobs t)))"

lemma rounds_left_nonneg: "0 \<le> rounds_left t"
  unfolding rounds_left_def by (rule sum_list_nonneg) (auto simp: rounds_of_def)

lemma sum_list_update_unique:
  assumes "distinct (map k xs)" "q \<in> set xs"
  shows "sum_list (map g (map (\<lambda>r. if k r = k q then f r else r) xs)) = sum_list (map g xs) - g q + (g (f q) :: int)"
  using assms
proof (induction xs)
  case (Cons x xs)
  show ?case
  proof (cases "x = q")
    case True
    then have "map (\<lambda>r. if k r = k q then f r else r) xs = xs"
      using Cons.prems(1) by (intro map_idI) (auto simp: rev_image_eqI)
    then show ?thesis using True by simp
  next
    case False
    then have "k x \<noteq> k q" "q \<in> set xs" using Cons.prems by (auto simp: rev_image_eqI)
    then show ?thesis using Cons by simp
  qed
qed simp

lemma rounds_update:
  assumes "job_key.keyed (t_jobs t)" "q \<in> set (tbl_rows (t_jobs t))" "t_jobs t' = table_update P f (t_jobs t)"
    and "\<And>r. r \<in> set (tbl_rows (t_jobs t)) \<Longrightarrow> P r \<longleftrightarrow> job_ID r = job_ID q"
  shows "rounds_left t' = rounds_left t - rounds_of q + rounds_of (f q)"
proof -
  have "tbl_rows (t_jobs t') = map (\<lambda>r. if job_ID r = job_ID q then f r else r) (tbl_rows (t_jobs t))"
    using assms(3,4) by (simp add: table_update_def)
  then show ?thesis
    unfolding rounds_left_def using sum_list_update_unique [of job_ID "tbl_rows (t_jobs t)" q rounds_of f] assms(1,2)
    by (simp only: job_key.keyed_def)
qed

lemma finishJob_rounds:
  assumes "finishJob (job_ID j) f w = (Inr v, w')" "job_key.keyed (t_jobs (tb w))"
    and "j \<in> set (tbl_rows (t_jobs (tb w)))" "job_State j = JobRunning"
  shows "rounds_left (tb w') = rounds_left (tb w) + rounds_of (f j)"
proof -
  have t': "t_jobs (tb w') = table_update (finish_pred (job_ID j)) f (t_jobs (tb w))"
    using assms(1) unfolding finishJob_def
    by (auto simp: andThen_Inr on_error_Inr exec_Inr driver_Inr ret_iff raise_iff split: if_splits)
  have "finish_pred (job_ID j) r \<longleftrightarrow> job_ID r = job_ID j" if "r \<in> set (tbl_rows (t_jobs (tb w)))" for r
    using job_key.by_id_unique [OF assms(2) that assms(3)] assms(4) by (auto simp: finish_pred_def)
  from rounds_update [OF assms(2,3) t' this] show ?thesis using assms(4) by (simp add: rounds_of_def)
qed

lemma recordPermanentFailure_jobs:
  assumes "recordPermanentFailure j cause w = (r, w')"
  shows "t_jobs (tb w') = t_jobs (tb w)"
  using unchanged_jobs.keeps_result [OF unchanged_jobs.keeps_failure(1) assms] by (simp add: same_jobs_def)

lemma tame_conclude [tame_intro]: "tame (conclude_job wk j answer)" "tame (recordPermanentFailure j cause)"
proof -
  show f: "tame (recordPermanentFailure j cause)" for j cause
    unfolding recordPermanentFailure_def by (intro tame_intro)
  show "tame (conclude_job wk j answer)" unfolding conclude_job_def by (intro tame_intro f)
qed

lemma conclude_job_rounds:
  assumes "conclude_job wk j answer w = (Inr b, w')" "job_key.keyed (t_jobs (tb w))"
    and "j \<in> set (tbl_rows (t_jobs (tb w)))" "job_State j = JobRunning"
  shows "b \<and> rounds_left (tb w') \<le> rounds_left (tb w) + max 0 (attempts_left j)"
proof -
  have fin: "rounds_left (tb w2) = rounds_left (tb w) + rounds_of (f j)"
    if "clock_now w = (Inr at, w1)" "finishJob (job_ID j) f w1 = (Inr v, w2)" for f at w1 v w2
    using finishJob_rounds [OF that(2)] that(1) assms(2-4) by (simp add: clock_now_iff)
  have closed: "rounds_of (release_lease st e at q) = 0" if "st \<noteq> JobQueued" for st e at q
    using that by (simp add: rounds_of_def release_lease_def)
  show ?thesis
  proof (cases answer)
    case (Inr u)
    have eq: "conclude_job wk j (Inr u) = andThen clock_now (\<lambda>at. andThen (MarkJobSucceeded (job_ID j) at) (\<lambda>_. ret True))"
      by (simp add: conclude_job_def)
    from assms(1) obtain at w1 v where "clock_now w = (Inr at, w1)" "MarkJobSucceeded (job_ID j) at w1 = (Inr v, w')" "b"
      unfolding Inr eq andThen_Inr ret_iff by blast
    then show ?thesis using fin [of at w1] closed by (simp add: MarkJobSucceeded_def)
  next
    case (Inl e)
    have not_ctx: "\<not> (is_canceled e \<or> is_deadline e)"
    proof
      assume c: "is_canceled e \<or> is_deadline e"
      have eq: "conclude_job wk j (Inl e) = andThen clock_now (\<lambda>at. andThen (on_error (joined_with e)
          (MarkJobRetry (job_ID j) at (error_text e) at)) (\<lambda>_. raise e))"
        using c by (simp add: conclude_job_def)
      show False using assms(1) unfolding Inl eq andThen_Inr raise_iff by blast
    qed
    show ?thesis
    proof (cases "BudgetExhausted j")
      case True
      have eq: "conclude_job wk j (Inl e) = andThen clock_now (\<lambda>at. andThen (on_error (joined_with e)
          (MarkJobPermanentlyFailed (job_ID j) (error_text e) at)) (\<lambda>_.
          andThen (recordPermanentFailure j e) (\<lambda>_. ret True)))"
        using not_ctx True by (simp add: conclude_job_def)
      from assms(1) obtain at w1 v w2 u where "clock_now w = (Inr at, w1)"
        and "MarkJobPermanentlyFailed (job_ID j) (error_text e) at w1 = (Inr v, w2)"
        and rec: "recordPermanentFailure j e w2 = (Inr u, w')" and b
        unfolding Inl eq andThen_Inr on_error_Inr ret_iff by blast
      moreover have "rounds_left (tb w') = rounds_left (tb w2)"
        by (simp only: rounds_left_def recordPermanentFailure_jobs [OF rec])
      ultimately show ?thesis using fin [of at w1] closed by (simp add: MarkJobPermanentlyFailed_def)
    next
      case False
      let ?after = "\<lambda>at. at + Backoff (job_Attempts j) (wcf_BackoffBase (wrk_cfg wk)) (wcf_BackoffMax (wrk_cfg wk))"
      have eq: "conclude_job wk j (Inl e) = andThen clock_now (\<lambda>at. andThen (on_error (joined_with e)
          (MarkJobRetry (job_ID j) (?after at) (error_text e) at)) (\<lambda>_. ret True))"
        using not_ctx False by (simp add: conclude_job_def)
      from assms(1) obtain at w1 v where "clock_now w = (Inr at, w1)"
        and "MarkJobRetry (job_ID j) (?after at) (error_text e) at w1 = (Inr v, w')" and b
        unfolding Inl eq andThen_Inr on_error_Inr ret_iff by blast
      then show ?thesis
        using fin [of at w1] False by (simp add: MarkJobRetry_def rounds_of_def attempts_left_def release_lease_def BudgetExhausted_def Let_def split: if_splits)
    qed
  qed
qed

lemma run_job_rounds:
  assumes "run_job wk j w = (Inr b, w')" "obedient wk" "job_key.keyed (t_jobs (tb w))"
    and "j \<in> set (tbl_rows (t_jobs (tb w)))" "job_State j = JobRunning"
  shows "b \<and> rounds_left (tb w') \<le> rounds_left (tb w) + max 0 (attempts_left j)"
proof (cases "wrk_handlers wk (job_Kind j)")
  case None
  let ?f = "''no handler registered for kind '' @ job_kind_text (job_Kind j)"
  from assms(1) None obtain at w1 w2 where now: "clock_now w = (Inr at, w1)"
    and mark: "MarkJobPermanentlyFailed (job_ID j) ?f at w1 = (Inr (), w2)"
    and rec: "recordPermanentFailure j (Plain ?f) w2 = (Inr (), w')" and b
    unfolding run_job_def Let_def None option.case andThen_Inr ret_iff by auto
  have w1: "tb w1 = tb w" using now by (simp add: clock_now_iff)
  have "rounds_left (tb w2) = rounds_left (tb w) + rounds_of (release_lease JobPermanentlyFailed ?f at j)"
    using finishJob_rounds [OF mark [unfolded MarkJobPermanentlyFailed_def]] assms(3-5) unfolding w1 by blast
  moreover have "rounds_left (tb w') = rounds_left (tb w2)"
    by (simp only: rounds_left_def recordPermanentFailure_jobs [OF rec])
  ultimately show ?thesis using \<open>b\<close> by (simp add: rounds_of_def release_lease_def)
next
  case (Some h)
  obtain r w1 where h: "h j w = (r, w1)" by fastforce
  have run: "conclude_job wk j r w1 = (Inr b, w')"
    using assms(1) unfolding run_job_def Some option.case andThen_Inr attempt_Inr h by blast
  have "unchanged_jobs.keeps (h j)" using assms(2) Some by (auto simp: obedient_def)
  from unchanged_jobs.keeps_result [OF this h] have same: "t_jobs (tb w1) = t_jobs (tb w)" by (simp add: same_jobs_def)
  then have "rounds_left (tb w1) = rounds_left (tb w)" by (simp add: rounds_left_def)
  then show ?thesis using conclude_job_rounds [OF run] assms(3-5) unfolding same by simp
qed

lemma tame_RunOnce:
  assumes "obedient wk"
  shows "tame (RunOnce wk)"
proof -
  have "tame (run_job wk j)" for j
  proof (cases "wrk_handlers wk (job_Kind j)")
    case (Some h)
    then have "tame (h j)" using assms by (auto simp: obedient_def)
    then show ?thesis unfolding run_job_def Some option.case by (intro tame_intro)
  qed (unfold run_job_def Let_def, simp, intro tame_intro)
  then show ?thesis unfolding RunOnce_def by (intro tame_intro)
qed

lemma leased_row:
  assumes "next_ready kinds now t = Some q"
  shows "lease_job wid now q \<in> set (tbl_rows (table_update (\<lambda>r. job_ID r = job_ID q) (lease_job wid now) (t_jobs t)))"
    "job_ID (lease_job wid now q) = job_ID q"
  using imageI [OF next_ready_facts(1) [OF assms], of "\<lambda>r. if job_ID r = job_ID q then lease_job wid now r else r"]
  by simp (simp add: lease_job_def)

lemma ClaimNextJob_Inr:
  assumes "ClaimNextJob kinds wid now w = (Inr j, w')" "job_key.keyed (t_jobs (tb w))"
  obtains q where "next_ready kinds now (tb w) = Some q" "j = lease_job wid now q"
    "tb w' = (tb w)\<lparr>t_jobs := table_update (\<lambda>r. job_ID r = job_ID q) (lease_job wid now) (t_jobs (tb w))\<rparr>"
proof -
  have k: "length kinds \<noteq> 0"
    using assms(1) by (cases "length kinds = 0") (simp_all add: ClaimNextJob_def raise_def)
  from assms(1) obtain row w1 u w2 where "exec (claim_next kinds wid now) w = (Inr row, w1)" "driver w1 = (Inr u, w2)"
    and "(case row of Some j \<Rightarrow> ret j | None \<Rightarrow> raise SqlNoRows) w2 = (Inr j, w')"
    unfolding ClaimNextJob_def if_not_P [OF k] on_error_Inr andThen_Inr by blast
  then have run: "claim_next kinds wid now (tb w) = Inr (Some j, tb w')"
    by (cases row) (auto simp: exec_Inr driver_Inr ret_def raise_def)
  then obtain q where q: "next_ready kinds now (tb w) = Some q"
    by (auto simp: claim_next_def split: option.splits)
  let ?t1 = "table_update (\<lambda>r. job_ID r = job_ID q) (lease_job wid now) (t_jobs (tb w))"
  have "claim_next kinds wid now (tb w) = Inr (first_where (\<lambda>r. job_ID r = job_ID q) ?t1, (tb w)\<lparr>t_jobs := ?t1\<rparr>)"
    unfolding claim_next_def q option.case Let_def by simp
  then have t': "tb w' = (tb w)\<lparr>t_jobs := ?t1\<rparr>" and j: "first_where (\<lambda>r. job_ID r = job_ID q) ?t1 = Some j"
    unfolding run by (simp_all only: sum.inject prod.inject)
  note leased = leased_row [OF q, of wid]
  have "job_key.keyed ?t1"
    by (rule job_key.keyed_update [OF assms(2)]) (simp add: lease_job_def)
  from job_key.first_by_id [OF this leased(1), unfolded leased(2)] j have "j = lease_job wid now q"
    by (simp only: option.inject)
  then show thesis using that q t' by blast
qed

lemma ClaimNextJob_none:
  assumes "ClaimNextJob kinds wid now w = (Inl e, w')" "kinds \<noteq> []" "errors_Is e ErrNotFound"
  shows "next_ready kinds now (tb w) = None \<and> tb w' = tb w"
proof -
  have found: "\<exists>j t'. claim_next kinds wid now t = Inr (Some j, t')" if q: "next_ready kinds now t = Some q" for t q
  proof -
    let ?t1 = "table_update (\<lambda>r. job_ID r = job_ID q) (lease_job wid now) (t_jobs t)"
    from leased_row [OF q, of wid] have "first_where (\<lambda>r. job_ID r = job_ID q) ?t1 \<noteq> None"
      unfolding first_where_None by blast
    then obtain j where "first_where (\<lambda>r. job_ID r = job_ID q) ?t1 = Some j"
      by (auto simp only: not_None_eq)
    then have "claim_next kinds wid now t = Inr (Some j, t\<lparr>t_jobs := ?t1\<rparr>)"
      unfolding claim_next_def q option.case Let_def by simp
    then show ?thesis by blast
  qed
  let ?m = "andThen (exec (claim_next kinds wid now)) (\<lambda>row. andThen driver (\<lambda>_.
         case row of Some j \<Rightarrow> ret j | None \<Rightarrow> raise SqlNoRows))"
  from assms(1,2) obtain c where c: "?m w = (Inl c, w')" "e = notFound ''claimable job'' c"
    by (auto simp: ClaimNextJob_def on_error_def split: prod.splits sum.splits)
  have nf: "is_no_rows c \<or> errors_Is c ErrNotFound" using assms(3) c(2) by (auto simp: notFound_def split: if_splits)
  show ?thesis
  proof (cases "w_fault w (w_tick w)")
    case (Some f)
    then show ?thesis using c(1) nf by (auto simp: andThen_def exec_def driver_def)
  next
    case no_fault: None
    show ?thesis
    proof (cases "next_ready kinds now (tb w)")
      case None
      then have "claim_next kinds wid now (tb w) = Inr (None, tb w)" by (simp add: claim_next_def)
      then have "tb w' = tb w"
        using c(1) no_fault by (auto simp: andThen_def exec_def driver_def raise_def split: option.splits)
      then show ?thesis using None by simp
    next
      case (Some q)
      obtain j t' where "claim_next kinds wid now (tb w) = Inr (Some j, t')" using found [OF Some] by blast
      then show ?thesis
        using c(1) nf no_fault by (auto simp: andThen_def exec_def driver_def ret_def split: option.splits)
    qed
  qed
qed

lemma RunOnce_rounds:
  assumes "RunOnce wk w = (Inr b, w')" "obedient wk" "job_key.keyed (t_jobs (tb w))"
  shows "if b then rounds_left (tb w') < rounds_left (tb w)
    else tb w' = tb w \<and> (\<exists>k. ready_count wk (w_clock w k) (tb w) = 0)"
proof -
  let ?k = "Kinds wk" and ?wid = "wcf_WorkerID (wrk_cfg wk)" and ?now = "w_clock w (Suc (w_tick w))"
  have kinds: "?k \<noteq> []" using assms(1) by (auto simp: RunOnce_def raise_iff)
  have ctx: "w_done w (w_tick w) = None"
    using assms(1) kinds by (cases "w_done w (w_tick w)") (auto simp: RunOnce_def andThen_def ctx_Err_def raise_def)
  obtain r w1 where claim: "ClaimNextJob ?k ?wid ?now (tick (tick w)) = (r, w1)" by fastforce
  have rest: "(case r of Inl err \<Rightarrow> if errors_Is err ErrNotFound then ret False else raise err
      | Inr j \<Rightarrow> run_job wk j) w1 = (Inr b, w')"
    using assms(1) kinds ctx claim by (auto simp: RunOnce_def andThen_def attempt_def ctx_Err_def clock_now_def tick_def)
  show ?thesis
  proof (cases r)
    case (Inl e)
    then have out: "\<not> b" "w' = w1" "errors_Is e ErrNotFound"
      using rest by (auto simp: ret_iff raise_iff split: if_splits)
    have none: "next_ready ?k ?now (tb w) = None" "tb w1 = tb w"
      using ClaimNextJob_none [OF claim [unfolded Inl] kinds out(3)] by simp_all
    have "select_where (job_ready ?k ?now) (t_jobs (tb w)) = []"
      using none(1) by (auto simp: next_ready_def limit_offset_def split: list.splits)
    then have "ready_count wk ?now (tb w) = 0"
      by (simp add: ready_count_def count_where_def select_where_def)
    then show ?thesis using out none(2) by auto
  next
    case (Inr j)
    have keyed: "job_key.keyed (t_jobs (tb (tick (tick w))))" using assms(3) by simp
    obtain q where next_q: "next_ready ?k ?now (tb (tick (tick w))) = Some q" "j = lease_job ?wid ?now q"
      "tb w1 = (tb (tick (tick w)))\<lparr>t_jobs := table_update (\<lambda>r. job_ID r = job_ID q) (lease_job ?wid ?now) (t_jobs (tb (tick (tick w))))\<rparr>"
      by (rule ClaimNextJob_Inr [OF claim [unfolded Inr] keyed])
    have q: "next_ready ?k ?now (tb w) = Some q" "j = lease_job ?wid ?now q"
      "t_jobs (tb w1) = table_update (\<lambda>r. job_ID r = job_ID q) (lease_job ?wid ?now) (t_jobs (tb w))"
      using next_q by simp_all
    note ready = next_ready_facts(1,2) [OF q(1)]
    have fields: "job_State j = JobRunning" "attempts_left j = attempts_left q - 1"
      by (simp_all add: q(2) lease_job_def attempts_left_def)
    have lease: "rounds_left (tb w1) = rounds_left (tb w) - rounds_of q"
      using rounds_update [OF assms(3) ready(1) q(3)] fields(1) by (simp add: rounds_of_def q(2))
    have mem: "j \<in> set (tbl_rows (t_jobs (tb w1)))" using leased_row(1) [OF q(1), of ?wid] q(2,3) by simp
    have "job_key.keyed (t_jobs (tb w1))"
      unfolding q(3) by (rule job_key.keyed_update [OF assms(3)]) (simp add: lease_job_def)
    moreover have "run_job wk j w1 = (Inr b, w')" using rest Inr by simp
    ultimately have "b \<and> rounds_left (tb w') \<le> rounds_left (tb w1) + max 0 (attempts_left j)"
      using run_job_rounds [OF _ assms(2) _ mem fields(1)] by blast
    then show ?thesis using lease fields ready(2) by (auto simp: rounds_of_def job_ready_def max_def split: if_splits)
  qed
qed

lemma drain_rounds:
  assumes "obedient wk" "job_key.keyed (t_jobs (tb w))" "nat (rounds_left (tb w)) < n" "drain n wk w = (Inr r, w')"
    and "\<And>w w' v. RunOnce wk w = (v, w') \<Longrightarrow> jobs_evolve (tb w) (tb w')"
  shows "r \<noteq> OutOfFuel \<and> (r = QueueIdle \<longrightarrow> (\<exists>k. ready_count wk (w_clock w k) (tb w') = 0))"
  using assms(2-4)
proof (induction n arbitrary: w)
  case (Suc n)
  obtain v w1 where run: "RunOnce wk w = (v, w1)" by fastforce
  have out: "(case v of Inl err \<Rightarrow> if is_canceled err \<or> is_deadline err then ret (RoundStopped err) else ret (RoundFailed err)
     | Inr claimed \<Rightarrow> if claimed then drain n wk else ret QueueIdle) w1 = (Inr r, w')"
    using Suc.prems(3) by (simp add: andThen_def attempt_def run)
  show ?case
  proof (cases v)
    case (Inl e)
    then show ?thesis using out by (auto simp: ret_iff split: if_splits)
  next
    case (Inr b)
    note rounds = RunOnce_rounds [OF run [unfolded Inr] assms(1) Suc.prems(1)]
    have clock: "w_clock w1 = w_clock w" using tame_result [OF tame_RunOnce [OF assms(1)] run] by (simp add: same_env_def)
    show ?thesis
    proof (cases b)
      case True
      have "job_key.keyed (t_jobs (tb w1))"
        using assms(5) [OF run] Suc.prems(1) by (simp add: jobs_evolve_def)
      moreover have "nat (rounds_left (tb w1)) < n"
        using rounds True Suc.prems(2) rounds_left_nonneg [of "tb w1"] by simp
      moreover have "drain n wk w1 = (Inr r, w')" using out Inr True by simp
      ultimately show ?thesis using Suc.IH [of w1] by (simp add: clock)
    next
      case False
      then show ?thesis using out Inr rounds by (auto simp: ret_iff)
    qed
  qed
qed simp

lemma drain_answers: "\<exists>r w'. drain n wk w = (Inr r, w')"
proof (induction n arbitrary: w)
  case (Suc n)
  obtain v w1 where "RunOnce wk w = (v, w1)" by fastforce
  then show ?case using Suc.IH [of w1] by (cases v) (auto simp: andThen_def attempt_def ret_def)
qed (simp add: ret_def)

text \<open>C29: the polling loop of the application's worker ends. Whatever driver calls fail, whatever the clock shows
  and whenever the context ends, the inner loop makes at most one round for every attempt a queued job has
  left (one for a job without any), so fuel above their sum is enough: the loop comes to an end, and when it
  reports an idle queue, no job is ready at an instant the clock showed. The loop is the only user of
  the queue here: a job that requests add while it runs adds its attempts to the sum.\<close>

theorem drain_terminates:
  assumes "job_key.keyed (t_jobs (tb w))" "nat (rounds_left (tb w)) < n"
  shows "\<exists>r w'. drain n (app_worker msg cfg) w = (Inr r, w') \<and> r \<noteq> OutOfFuel
    \<and> (r = QueueIdle \<longrightarrow> (\<exists>k. ready_count (app_worker msg cfg) (w_clock w k) (tb w') = 0))"
proof -
  obtain r w' where run: "drain n (app_worker msg cfg) w = (Inr r, w')" using drain_answers by blast
  have "jobs_evolve (tb w) (tb w')" if "RunOnce (app_worker msg cfg) w = (v, w')" for w w' v
    using jobs.keeps_result [OF job_services_keep(1) that] .
  note drain_rounds [OF obedient_app assms run this]
  then show ?thesis by (intro exI [of _ r] exI [of _ w'] conjI run) simp_all
qed

lemma app_Kinds [simp]: "Kinds (app_worker msg cfg) = [JobPromoteWaitlist, JobSweepSessions]"
  by (simp add: Kinds_def app_worker_def)

definition hourly_world :: "tables \<Rightarrow> world" where
  \<comment> \<open>an hour passes between two readings of the clock, and every third driver call fails\<close>
  "hourly_world t = (at_time 5 t)\<lparr>w_clock := (\<lambda>n. 5 + int n * 3600 * Second),
     w_fault := (\<lambda>n. if n mod 3 = 2 then Some (DriverFailure ''disk I/O error'') else None)\<rparr>"

theorem drain_terminates_witness:
  "\<exists>r w'. drain 6 (app_worker (\<lambda>_. ''syntax'') sample_worker) (hourly_world (with_promotion campus)) = (Inr r, w')
    \<and> r \<noteq> OutOfFuel"
proof -
  have t: "tb (hourly_world (with_promotion campus)) = with_promotion campus" by (simp add: hourly_world_def)
  have "nat (rounds_left (tb (hourly_world (with_promotion campus)))) < 6"
    unfolding t by (simp add: rounds_left_def rounds_of_def attempts_left_def promotion_job_def MaxJobAttempts_def)
  moreover have "job_key.keyed (t_jobs (tb (hourly_world (with_promotion campus))))" unfolding t by simp
  ultimately show ?thesis using drain_terminates [of "hourly_world (with_promotion campus)" 6] by blast
qed

end
