(* ===== verification/JsonText.thy ===== *)
theory JsonText
  imports Json
begin

text \<open>
  What the writer of JSON puts on the wire the reader takes back: every value whose numbers are written by
  \<open>strconv.Itoa\<close> and friends is read back from its text, in both modes of the escaping.
\<close>

section \<open>String literals\<close>

lemma hex_value_digit: "hex_value (hex_digit n) = Some (n mod 16)"
proof -
  have "list_all (\<lambda>k. hex_value (hex_digits ! k) = Some k) [0..<16]" by code_simp
  then show ?thesis by (simp add: list_all_iff hex_digit_def)
qed

definition item_text :: "char + nat \<Rightarrow> char \<Rightarrow> bool" where
  \<comment> \<open>the unit stands for the character, whatever follows\<close>
  "item_text u c \<longleftrightarrow> (\<forall>us. units_text (u # us) = c # units_text us)"

lemma item_texts: "item_text (Inl c) c" "of_char c < (128 :: nat) \<Longrightarrow> item_text (Inr (of_char c)) c"
proof -
  show "item_text (Inl c) c" by (simp add: item_text_def)
  assume small: "of_char c < (128 :: nat)"
  have "units_text (Inr (of_char c) # us) = c # units_text us" for us
    using small by (cases us rule: units_text.cases) (simp_all add: surrogate_def utf8_def)
  then show "item_text (Inr (of_char c)) c" by (simp add: item_text_def)
qed

lemma parse_escape_char:
  "\<exists>u. item_text u c \<and> parse_units (escape_char html c @ r) = map_option (apfst (Cons u)) (parse_units r)"
proof -
  have hex: "hex4 (CHR ''0'') (CHR ''0'') (hex_digit (of_char c div 16)) (hex_digit (of_char c)) = Some (of_char c)"
    if "of_char c < (128 :: nat)"
    using that by (simp add: hex4_def hex_value_digit) (simp add: hex_value_def is_digit_def digit_value_def)
  show ?thesis
  proof (cases "c \<in> {CHR 0x22, CHR 0x5C, CHR 0x08, CHR 0x0C, CHR 0x0A, CHR 0x0D, CHR 0x09}")
    case True
    then show ?thesis
      by (intro exI [of _ "Inl c"]) (auto simp: item_texts escape_char_def simple_escape_def)
  next
    case plain: False
    show ?thesis
    proof (cases "(of_char c :: nat) < 32 \<or> (html \<and> (c = CHR ''<'' \<or> c = CHR ''>'' \<or> c = CHR ''&''))")
      case True
      then have "of_char c < (128 :: nat)" by auto
      moreover have "escape_char html c = CHR 0x5C # ''u00'' @ [hex_digit (of_char c div 16), hex_digit (of_char c)]"
        using plain True by (auto simp: escape_char_def)
      ultimately show ?thesis
        by (intro exI [of _ "Inr (of_char c)"]) (simp add: item_texts hex)
    next
      case False
      then have "escape_char html c = [c]" using plain by (auto simp: escape_char_def)
      then show ?thesis using plain False
        by (intro exI [of _ "Inl c"]) (simp add: item_texts)
    qed
  qed
qed

lemma literal_step:
  assumes "parse_units t = Some (us, rest)" "units_text us = s"
  shows "\<exists>us. parse_units (escape_char html a @ t) = Some (us, rest) \<and> units_text us = a # s"
proof -
  obtain u where "item_text u a" "parse_units (escape_char html a @ t) = map_option (apfst (Cons u)) (parse_units t)"
    using parse_escape_char by blast
  then show ?thesis using assms by (intro exI [of _ "u # us"]) (simp add: item_text_def)
qed

lemma last_char:
  "\<exists>us. parse_units (escape_char html a @ CHR 0x22 # rest) = Some (us, rest) \<and> units_text us = [a]"
  using literal_step [of "CHR 0x22 # rest" "[]" rest "[]" html a] by simp

lemma parse_escape_text:
  "\<exists>us. parse_units (escape_text html s @ CHR 0x22 # rest) = Some (us, rest) \<and> units_text us = s"
proof (induction html s rule: escape_text.induct)
  case (1 html a b c r)
  show ?case
  proof (cases "a = CHR 0xE2 \<and> b = CHR 0x80 \<and> (c = CHR 0xA8 \<or> c = CHR 0xA9)")
    case True
    then obtain us where us: "parse_units (escape_text html r @ CHR 0x22 # rest) = Some (us, rest)" "units_text us = r"
      using "1.IH"(1) by blast
    define n :: nat where "n = (if c = CHR 0xA8 then 0x2028 else 0x2029)"
    have "units_text (Inr n # us) = utf8 n @ units_text us"
      by (cases us rule: units_text.cases) (simp_all add: n_def surrogate_def)
    moreover have "utf8 0x2028 = [CHR 0xE2, CHR 0x80, CHR 0xA8]" "utf8 0x2029 = [CHR 0xE2, CHR 0x80, CHR 0xA9]"
      by (simp_all add: utf8_def char_of_eq_iff)
    then have "utf8 n = [a, b, c]" using True by (auto simp: n_def)
    moreover have "hex4 (CHR ''2'') (CHR ''0'') (CHR ''2'') (if c = CHR 0xA8 then CHR ''8'' else CHR ''9'') = Some n"
      by (simp add: n_def hex4_def hex_value_def is_digit_def digit_value_def less_eq_char_def)
    ultimately show ?thesis
      using True us by (intro exI [of _ "Inr n # us"]) simp
  next
    case False
    obtain us where us: "parse_units (escape_text html (b # c # r) @ CHR 0x22 # rest) = Some (us, rest)"
      "units_text us = b # c # r"
      using "1.IH"(2) [OF False] by blast
    have split: "escape_text html (a # b # c # r) = escape_char html a @ escape_text html (b # c # r)"
      by (simp only: escape_text.simps(1) if_not_P [OF False])
    show ?thesis unfolding split append_assoc by (rule literal_step [OF us])
  qed
qed (use literal_step last_char in \<open>fastforce+\<close>)

lemma parse_quoted: "parse_string (escape_text html s @ CHR 0x22 # rest) = Some (s, rest)"
  using parse_escape_text [of html s rest] by (auto simp: parse_string_def)

section \<open>Numbers\<close>

definition ends_number :: "string \<Rightarrow> bool" where
  \<comment> \<open>what may follow a value in a text\<close>
  "ends_number rest \<longleftrightarrow> (case rest of [] \<Rightarrow> True
     | c # _ \<Rightarrow> c = CHR '','' \<or> c = CHR '']'' \<or> c = CHR ''}'' \<or> c = CHR 0x0A)"

lemma utoa_all_digits: "list_all is_digit (utoa n)"
  by (auto simp: list_all_iff dest!: utoa_digits intro: digit_facts)

lemma utoa_leading: "0 < n \<Longrightarrow> hd (utoa n) \<noteq> CHR ''0''"
proof (induction n rule: utoa.induct)
  case (1 n)
  show ?case
  proof (cases "n < 10")
    case True
    then have "n \<in> {1,2,3,4,5,6,7,8,9}" using 1(2) by auto
    then show ?thesis by (subst utoa.simps) (auto simp: digit_def)
  next
    case False
    then show ?thesis using 1(1) by (subst utoa.simps) (simp add: utoa_ne)
  qed
qed

lemma number_tail:
  assumes "ends_number rest"
  shows "takeWhile is_digit rest = []" "dropWhile is_digit rest = rest"
    "parse_fraction rest = Some ([], rest)" "parse_exponent rest = Some ([], rest)"
  using assms
  by (auto simp: ends_number_def is_digit_def less_eq_char_def parse_fraction_def parse_exponent_def split: list.splits)

lemma parse_number_itoa:
  assumes "ends_number rest"
  shows "parse_number (itoa n @ rest) = Some (itoa n, rest)"
proof -
  define sg where "sg = (if n < 0 then ''-'' else [])"
  define m where "m = nat (if n < 0 then - n else n)"
  have whole: "itoa n = sg @ utoa m" by (simp add: itoa_def sg_def m_def)
  obtain h hs where u: "utoa m = h # hs" using utoa_ne by (cases "utoa m") auto
  have h: "h \<noteq> CHR ''-''" using utoa_head [of m] u by simp
  have digits: "split_digits (utoa m @ rest) = (utoa m, rest)"
    using utoa_all_digits [of m] number_tail(1,2) [OF assms]
    by (simp add: split_digits_def list_all_iff takeWhile_append dropWhile_append)
  have sign: "(case itoa n @ rest of c # r \<Rightarrow> if c = CHR ''-'' then ([c], r) else ([], itoa n @ rest)
      | [] \<Rightarrow> ([], itoa n @ rest)) = (sg, utoa m @ rest)"
    using u h by (auto simp: whole sg_def)
  have zero: "hs = []" if "h = CHR ''0''"
  proof (cases "m = 0")
    case True
    then show ?thesis using u by (subst (asm) utoa.simps) simp
  qed (use utoa_leading [of m] u that in simp)
  show ?thesis
    unfolding parse_number_def sign prod.case digits if_not_P [OF utoa_ne]
    using u zero by (cases "h = CHR ''0''") (simp_all add: number_tail [OF assms] whole)
qed

section \<open>Values\<close>

fun json_ok :: "json \<Rightarrow> bool" where
  \<comment> \<open>the numbers are decimal integers\<close>
  "json_ok (JNumber t) \<longleftrightarrow> (\<exists>n. t = itoa n)"
| "json_ok (JArray vs) \<longleftrightarrow> list_all json_ok vs"
| "json_ok (JObject ms) \<longleftrightarrow> list_all (\<lambda>m. json_ok (snd m)) ms"
| "json_ok _ \<longleftrightarrow> True"

definition reads_back :: "bool \<Rightarrow> json \<Rightarrow> bool" where
  \<comment> \<open>with enough fuel the reader takes the value off the front of a text\<close>
  "reads_back html v \<longleftrightarrow> (\<forall>rest. ends_number rest \<longrightarrow>
     (\<exists>k. \<forall>n \<ge> k. parse_value n (json_text html v @ rest) = Some (v, rest)))"

definition opens_value :: "string \<Rightarrow> bool" where
  "opens_value s \<longleftrightarrow> (case s of [] \<Rightarrow> False
     | c # _ \<Rightarrow> \<not> json_space c \<and> c \<noteq> CHR '']'' \<and> c \<noteq> CHR ''}'')"

lemma itoa_head:
  obtains c cs where "itoa n = c # cs" "is_digit c \<or> c = CHR ''-''"
proof (cases "n < 0")
  case True
  then show ?thesis using that by (simp add: itoa_def)
next
  case False
  obtain h hs where "utoa (nat n) = h # hs" using utoa_ne by (cases "utoa (nat n)") auto
  moreover from this have "is_digit h" using utoa_all_digits [of "nat n"] by simp
  ultimately show ?thesis using that False by (simp add: itoa_def)
qed

lemma json_text_opens: "json_ok v \<Longrightarrow> opens_value (json_text html v @ rest)"
proof (cases v)
  case (JNumber t)
  assume "json_ok v"
  then obtain n where "t = itoa n" using JNumber by auto
  then show ?thesis
    using JNumber by (rule_tac itoa_head [of n]) (auto simp: opens_value_def json_space_def is_digit_def less_eq_char_def)
qed (auto simp: opens_value_def json_space_def quote_json_def)

lemma opens_skip: "opens_value s \<Longrightarrow> skip_space s = s \<and> (\<exists>c r. s = c # r \<and> c \<noteq> CHR '']'' \<and> c \<noteq> CHR ''}'')"
  by (auto simp: opens_value_def skip_space_def split: list.splits)

lemma skip_punct [simp]:
  "skip_space (CHR '','' # r) = CHR '','' # r" "skip_space (CHR '']'' # r) = CHR '']'' # r"
  "skip_space (CHR ''}'' # r) = CHR ''}'' # r" "skip_space (CHR '':'' # r) = CHR '':'' # r"
  "skip_space (CHR ''{'' # r) = CHR ''{'' # r" "skip_space (CHR ''['' # r) = CHR ''['' # r"
  "skip_space (CHR 0x22 # r) = CHR 0x22 # r"
  by (simp_all add: skip_space_def json_space_def)

lemma ends_punct [simp]:
  "ends_number []" "ends_number (CHR '','' # r)" "ends_number (CHR '']'' # r)" "ends_number (CHR ''}'' # r)"
  "ends_number (CHR 0x0A # r)"
  by (simp_all add: ends_number_def)

lemma reads_backE:
  assumes "reads_back html v" "ends_number rest"
  obtains k where "\<And>n. k \<le> n \<Longrightarrow> parse_value n (json_text html v @ rest) = Some (v, rest)"
  using assms unfolding reads_back_def by blast

lemma enough_fuel:
  assumes "\<And>n. k \<le> n \<Longrightarrow> P (Suc n)"
  shows "\<exists>k. \<forall>n \<ge> k. P n"
  by (metis assms Suc_le_D Suc_le_mono)

lemma parse_element:
  assumes "parse_value n (json_text html v @ rest) = Some (v, rest)"
  shows "parse_elements (Suc n) (json_text html v @ rest) = (case skip_space rest of [] \<Rightarrow> None
     | c # r \<Rightarrow> if c = CHR '']'' then Some ([v], r)
         else if c = CHR '','' then map_option (apfst (Cons v)) (parse_elements n r) else None)"
  by (simp only: parse_elements.simps(2) assms option.case prod.case)

lemma elements_back:
  assumes "vs \<noteq> []" "\<forall>v \<in> set vs. reads_back html v"
  shows "\<exists>k. \<forall>n \<ge> k. parse_elements n (string_join '','' (map (json_text html) vs) @ CHR '']'' # rest) = Some (vs, rest)"
  using assms
proof (induction vs rule: list_nonempty_induct)
  case (single v)
  then obtain k where k: "\<And>n. k \<le> n \<Longrightarrow> parse_value n (json_text html v @ CHR '']'' # rest) = Some (v, CHR '']'' # rest)"
    using reads_backE [of html v "CHR '']'' # rest"] by auto
  show ?case
    by (rule enough_fuel [of k]) (simp add: parse_element [OF k] del: parse_elements.simps)
next
  case (cons v vs)
  let ?more = "string_join '','' (map (json_text html) vs) @ CHR '']'' # rest"
  obtain k where k: "\<And>n. k \<le> n \<Longrightarrow> parse_value n (json_text html v @ CHR '','' # ?more) = Some (v, CHR '','' # ?more)"
    using reads_backE [of html v "CHR '','' # ?more"] cons.prems by auto
  obtain k' where k': "\<And>n. k' \<le> n \<Longrightarrow> parse_elements n ?more = Some (vs, rest)"
    using cons by auto
  have joined: "string_join '','' (map (json_text html) (v # vs)) @ CHR '']'' # rest = json_text html v @ CHR '','' # ?more"
    using cons.hyps by (cases vs) simp_all
  show ?case
  proof (rule enough_fuel)
    fix n assume "max k k' \<le> n"
    then show "parse_elements (Suc n) (string_join '','' (map (json_text html) (v # vs)) @ CHR '']'' # rest) = Some (v # vs, rest)"
      unfolding joined by (subst parse_element [OF k]) (simp_all add: k' del: parse_elements.simps)
  qed
qed

abbreviation member_text :: "bool \<Rightarrow> string \<times> json \<Rightarrow> string" where
  "member_text html m \<equiv> quote_json html (fst m) @ CHR '':'' # json_text html (snd m)"

lemma parse_member:
  assumes "parse_value n (json_text html (snd m) @ rest) = Some (snd m, rest)"
  shows "parse_members (Suc n) (member_text html m @ rest) = (case skip_space rest of [] \<Rightarrow> None
     | d # r \<Rightarrow> if d = CHR ''}'' then Some ([m], r)
         else if d = CHR '','' then map_option (apfst (Cons m)) (parse_members n r) else None)"
proof -
  have literal: "parse_string (escape_text html (fst m) @ CHR 0x22 # t) = Some (fst m, t)" for t
    by (rule parse_quoted)
  show ?thesis
    by (simp only: quote_json_def append_Cons append_assoc append_Nil parse_members.simps(2) skip_punct list.case
        literal assms option.case prod.case simp_thms if_False if_True prod.collapse)
qed

lemma members_back:
  assumes "ms \<noteq> []" "\<forall>m \<in> set ms. reads_back html (snd m)"
  shows "\<exists>k. \<forall>n \<ge> k. parse_members n (string_join '','' (map (member_text html) ms) @ CHR ''}'' # rest) = Some (ms, rest)"
  using assms
proof (induction ms rule: list_nonempty_induct)
  case (single m)
  then obtain k where k: "\<And>n. k \<le> n \<Longrightarrow> parse_value n (json_text html (snd m) @ CHR ''}'' # rest) = Some (snd m, CHR ''}'' # rest)"
    using reads_backE [of html "snd m" "CHR ''}'' # rest"] by auto
  show ?case
    by (rule enough_fuel [of k], simp only: list.map string_join.simps parse_member [OF k]) simp
next
  case (cons m ms)
  let ?more = "string_join '','' (map (member_text html) ms) @ CHR ''}'' # rest"
  obtain k where k: "\<And>n. k \<le> n \<Longrightarrow> parse_value n (json_text html (snd m) @ CHR '','' # ?more) = Some (snd m, CHR '','' # ?more)"
    using reads_backE [of html "snd m" "CHR '','' # ?more"] cons.prems by auto
  obtain k' where k': "\<And>n. k' \<le> n \<Longrightarrow> parse_members n ?more = Some (ms, rest)"
    using cons by auto
  have joined: "string_join '','' (map (member_text html) (m # ms)) @ CHR ''}'' # rest = member_text html m @ CHR '','' # ?more"
    using cons.hyps by (cases ms) simp_all
  show ?case
  proof (rule enough_fuel)
    fix n assume n: "max k k' \<le> n"
    then have more: "parse_members n ?more = Some (ms, rest)" by (intro k') simp
    have "parse_members (Suc n) (member_text html m @ CHR '','' # ?more) = map_option (apfst (Cons m)) (parse_members n ?more)"
      using n by (subst parse_member [OF k]) (simp_all del: parse_members.simps)
    then show "parse_members (Suc n) (string_join '','' (map (member_text html) (m # ms)) @ CHR ''}'' # rest) = Some (m # ms, rest)"
      unfolding joined more by simp
  qed
qed

lemma reads_backI:
  assumes "\<And>rest. ends_number rest \<Longrightarrow> \<exists>k. \<forall>n \<ge> k. parse_value (Suc n) (json_text html v @ rest) = Some (v, rest)"
  shows "reads_back html v"
  unfolding reads_back_def
proof (intro allI impI)
  fix rest assume "ends_number rest"
  then obtain k where "\<forall>n \<ge> k. parse_value (Suc n) (json_text html v @ rest) = Some (v, rest)" using assms by blast
  then show "\<exists>k. \<forall>n \<ge> k. parse_value n (json_text html v @ rest) = Some (v, rest)"
    by (intro enough_fuel [of k "\<lambda>n. parse_value n (json_text html v @ rest) = Some (v, rest)"]) blast
qed

lemma json_reads_back: "json_ok v \<Longrightarrow> reads_back html v"
proof (induction v)
  case (JNumber t)
  then obtain n where t: "t = itoa n" by auto
  obtain c cs where c: "itoa n = c # cs" "is_digit c \<or> c = CHR ''-''" by (rule itoa_head)
  have "skip_space (c # r) = c # r" "c \<noteq> CHR ''{''" "c \<noteq> CHR ''[''" "c \<noteq> CHR 0x22" "c \<noteq> CHR ''n''" "c \<noteq> CHR ''t''" "c \<noteq> CHR ''f''" for r
    using c(2) by (auto simp: skip_space_def json_space_def is_digit_def less_eq_char_def)
  then have "parse_value (Suc k) (itoa n @ rest) = map_option (apfst JNumber) (parse_number (itoa n @ rest))" for k rest
    by (simp only: c(1) append_Cons parse_value.simps(2) list.case if_False)
  then show ?case by (intro reads_backI) (simp add: t parse_number_itoa)
next
  case (JString s)
  show ?case by (intro reads_backI) (simp add: quote_json_def parse_quoted)
next
  case (JArray vs)
  then have elems: "\<forall>v \<in> set vs. reads_back html v" "list_all json_ok vs" by (simp_all add: list_all_iff)
  show ?case
  proof (cases vs)
    case (Cons v vs')
    let ?text = "\<lambda>rest. string_join '','' (map (json_text html) vs) @ CHR '']'' # rest"
    have "opens_value (?text rest)" for rest
      using elems(2) json_text_opens [of v] Cons by (cases vs') simp_all
    then have "parse_value (Suc n) (json_text html (JArray vs) @ rest) = map_option (apfst JArray) (parse_elements n (?text rest))" for n rest
      using opens_skip [of "?text rest"] by auto
    moreover have "\<exists>k. \<forall>n \<ge> k. parse_elements n (?text rest) = Some (vs, rest)" for rest
      using elements_back [OF _ elems(1)] Cons by simp
    ultimately show ?thesis by (intro reads_backI) simp
  qed (intro reads_backI, simp)
next
  case (JObject ms)
  then have elems: "\<forall>m \<in> set ms. reads_back html (snd m)"
    by (force simp: list_all_iff)
  have whole: "json_text html (JObject ms) @ rest = CHR ''{'' # string_join '','' (map (member_text html) ms) @ CHR ''}'' # rest" for rest
  proof -
    have "(\<lambda>(k, v). quote_json html k @ '':'' @ json_text html v) = member_text html" by (simp add: fun_eq_iff)
    then show ?thesis by simp
  qed
  show ?case
  proof (cases ms)
    case (Cons m ms')
    let ?text = "\<lambda>rest. string_join '','' (map (member_text html) ms) @ CHR ''}'' # rest"
    have "opens_value (?text rest)" for rest
      using Cons by (cases ms') (simp_all add: quote_json_def opens_value_def json_space_def)
    then have "parse_value (Suc n) (json_text html (JObject ms) @ rest) = map_option (apfst JObject) (parse_members n (?text rest))" for n rest
      using opens_skip [of "?text rest"] unfolding whole by auto
    moreover have "\<exists>k. \<forall>n \<ge> k. parse_members n (?text rest) = Some (ms, rest)" for rest
      using members_back [OF _ elems] Cons by simp
    ultimately show ?thesis by (intro reads_backI) simp
  qed (intro reads_backI, simp)
qed (intro reads_backI, simp add: parse_word_def skip_space_def json_space_def)+

lemma json_value_text:
  assumes "json_ok v" "ends_number rest"
  shows "json_value (json_text html v @ rest) = Some (v, rest)"
proof -
  obtain k where "\<And>n. k \<le> n \<Longrightarrow> parse_value n (json_text html v @ rest) = Some (v, rest)"
    using reads_backE [OF json_reads_back [OF assms(1)] assms(2)] by blast
  then have "parse_value (max k (Suc (2 * length (json_text html v @ rest)))) (json_text html v @ rest) = Some (v, rest)"
    by simp
  then show ?thesis using json_value_fuel [of "json_text html v @ rest"] by (metis less_max_iff_disj lessI)
qed

theorem written_read_back:
  assumes "json_ok v"
  shows "json_parse (Marshal v) = Some v" "json_parse (Encode v) = Some v"
  using json_value_text [OF assms, of "[]"] json_value_text [OF assms, of "[CHR 0x0A]"]
  by (simp_all add: json_parse_def Marshal_def Encode_def skip_space_def json_space_def)

lemma itoa_ok [simp]: "json_ok (JNumber (itoa n))"
  by auto

end
