(* ===== verification/Handover.thy ===== *)
theory Handover
  imports WorkerProperties JsonText
begin

text \<open>
  The way of a freed seat: the payload the enrollment service writes into a promotion job is the one the
  worker reads back, and the round that leases the job seats the head of the waitlist.
\<close>

section \<open>The payload of a promotion job\<close>

lemma payload_text: "waitlist_payload i = Marshal (JObject [(''section_id'', JNumber (itoa i))])"
  by (simp add: waitlist_payload_def quoted_def Marshal_def quote_json_def escape_char_def)

lemma parse_payload: "json_parse (waitlist_payload i) = Some (JObject [(''section_id'', JNumber (itoa i))])"
  unfolding payload_text by (rule written_read_back) auto

lemma payload_decodes:
  assumes "0 < i" "i < 2 ^ 63"
  shows "decode_waitlist_payload syntax_msg (waitlist_payload i) = Inr i"
proof -
  have "ParseInt (itoa i) = Some i" using assms by (intro ParseInt_itoa) (simp add: in_int64_def)
  then show ?thesis
    unfolding decode_waitlist_payload_def parse_payload
    by (simp add: read_struct_def int_field_def lookup_field_def int_of_json_def)
qed

section \<open>The round that leases the job\<close>

lemma jobs_apart [simp]:
  "ledger (t\<lparr>t_jobs := q\<rparr>) = ledger t" "ranked (t\<lparr>t_jobs := q\<rparr>) = ranked t"
  "claims_ok (t\<lparr>t_jobs := q\<rparr>) = claims_ok t" "section_at (t\<lparr>t_jobs := q\<rparr>) i = section_at t i"
  "waitlist_of (t\<lparr>t_jobs := q\<rparr>) i = waitlist_of t i" "seats_held (t\<lparr>t_jobs := q\<rparr>) i = seats_held t i"
  by (simp_all add: ledger_def ranked_def claims_ok_def ids_ok_def row_balanced_def seats_held_def waiting_def
      section_at_def section_join_def  waitlist_of_def meetings_in_def)

lemma yields_ClaimNextJob:
  assumes "next_ready kinds now t = Some q" "job_key.keyed (t_jobs t)" "kinds \<noteq> []"
  shows "yields now rid (ClaimNextJob kinds wid now) t (Inr (lease_job wid now q))
    (t\<lparr>t_jobs := table_update (\<lambda>r. job_ID r = job_ID q) (lease_job wid now) (t_jobs t)\<rparr>)"
proof -
  let ?t1 = "table_update (\<lambda>r. job_ID r = job_ID q) (lease_job wid now) (t_jobs t)"
  note leased = leased_row [OF assms(1), of wid]
  have "job_key.keyed ?t1"
    by (rule job_key.keyed_update [OF assms(2)]) (simp add: lease_job_def)
  from job_key.first_by_id [OF this leased(1), unfolded leased(2)]
  have "claim_next kinds wid now t = Inr (Some (lease_job wid now q), t\<lparr>t_jobs := ?t1\<rparr>)"
    unfolding claim_next_def assms(1) option.case Let_def by simp
  note ex = yields_exec_Inr [where f = "claim_next kinds wid now", OF this]
  have nk: "\<not> length kinds = 0" using assms(3) by simp
  show ?thesis
    unfolding ClaimNextJob_def if_not_P [OF nk]
    by (rule yields_on_error_Inr, rule yields_andThen [OF ex], rule yields_andThen [OF yields_basic(7)], unfold option.case,
        rule yields_basic(1))
qed

lemma yields_MarkJobSucceeded:
  assumes "q \<in> set (tbl_rows (t_jobs t))" "finish_pred i q"
  shows "yields now rid (MarkJobSucceeded i at) t (Inr ())
    (t\<lparr>t_jobs := table_update (finish_pred i) (release_lease JobSucceeded [] at) (t_jobs t)\<rparr>)"
proof -
  have n: "\<not> count_where (finish_pred i) (t_jobs t) = 0" using assms by (auto simp: count_where_zero)
  show ?thesis
    unfolding MarkJobSucceeded_def finishJob_def
    by (rule yields_andThen [OF yields_on_error_Inr [OF yields_exec_Inr [OF refl]]],
        rule yields_andThen [OF yields_on_error_Inr [OF yields_basic(7)]], unfold if_not_P [OF n], rule yields_basic(1))
qed

lemma yields_promotion_handler:
  assumes "yields now rid (PromoteWaitlist i) t (Inr b) t'" "job_Payload j = waitlist_payload i" "0 < i" "i < 2 ^ 63"
  shows "yields now rid (NewWaitlistPromotionHandler msg PromoteWaitlist j) t (Inr ()) t'"
proof -
  have i: "\<not> i \<le> 0" using assms(3) by simp
  show ?thesis
    unfolding NewWaitlistPromotionHandler_def assms(2) payload_decodes [OF assms(3,4)]
    by (rule yields_andThen [OF yields_on_error_Inr [OF yields_lift [OF refl]]], unfold if_not_P [OF i],
        rule yields_andThen [OF yields_attempt [OF assms(1)]], unfold sum.case, rule yields_basic(1))
qed

lemma yields_promotion_effect:
  assumes "yields now rid (PromoteWaitlist i) t (Inr True) t'" "ranked t"
  shows "promote_step i t True t'" "t_jobs t' = t_jobs t"
proof -
  show "promote_step i t True t'" by (rule yields_promotion_step [OF assms(1) rankedD(1) [OF assms(2)]])
  obtain w' where w': "PromoteWaitlist i (calm_world_at now rid t) = (Inr True, w')" "tb w' = t'"
    by (rule yieldsE [OF assms(1) calm_world_at])
  show "t_jobs t' = t_jobs t"
    using unchanged_jobs.keeps_result [OF unchanged_jobs.keeps_promote w'(1)] w'(2) by (simp add: same_jobs_def)
qed

lemma round_hands_over:
  assumes "yields now rid (PromoteWaitlist i) (t\<lparr>t_jobs := leased\<rparr>) (Inr True) t'" "t_jobs t' = leased"
    and "next_ready [JobPromoteWaitlist, JobSweepSessions] now t = Some j" "job_key.keyed (t_jobs t)"
    and "leased = table_update (\<lambda>r. job_ID r = job_ID j) (lease_job (wcf_WorkerID (wrk_cfg (app_worker msg cfg))) now) (t_jobs t)"
    and "job_Kind j = JobPromoteWaitlist" "job_Payload j = waitlist_payload i" "0 < i" "i < 2 ^ 63"
  shows "yields now rid (RunOnce (app_worker msg cfg)) t (Inr True)
    (t'\<lparr>t_jobs := table_update (finish_pred (job_ID j)) (release_lease JobSucceeded [] now) leased\<rparr>)"
proof -
  let ?wid = "wcf_WorkerID (wrk_cfg (app_worker msg cfg))"
  let ?jl = "lease_job ?wid now j"
  have claim: "yields now rid (ClaimNextJob (Kinds (app_worker msg cfg)) ?wid now) t (Inr ?jl) (t\<lparr>t_jobs := leased\<rparr>)"
    unfolding app_Kinds assms(5) by (rule yields_ClaimNextJob [OF assms(3,4)]) simp
  have jl: "job_Kind ?jl = JobPromoteWaitlist" "job_Payload ?jl = waitlist_payload i" "job_ID ?jl = job_ID j"
    "job_State ?jl = JobRunning" using assms(6,7) by (simp_all add: lease_job_def)
  have "?jl \<in> set (tbl_rows (t_jobs t'))"
    unfolding assms(2,5) using leased_row(1) [OF assms(3), of ?wid] .
  moreover have "finish_pred (job_ID ?jl) ?jl" using jl by (simp add: finish_pred_def)
  ultimately have mark: "yields now rid (MarkJobSucceeded (job_ID ?jl) now) t' (Inr ())
      (t'\<lparr>t_jobs := table_update (finish_pred (job_ID j)) (release_lease JobSucceeded [] now) leased\<rparr>)"
    using yields_MarkJobSucceeded [of ?jl t' "job_ID ?jl" now rid now] assms(2) jl(3) by simp
  have h: "wrk_handlers (app_worker msg cfg) (job_Kind ?jl) = Some (NewWaitlistPromotionHandler msg PromoteWaitlist)"
    unfolding jl(1) by (simp add: app_worker_def)
  have run: "yields now rid (run_job (app_worker msg cfg) ?jl) (t\<lparr>t_jobs := leased\<rparr>) (Inr True)
      (t'\<lparr>t_jobs := table_update (finish_pred (job_ID j)) (release_lease JobSucceeded [] now) leased\<rparr>)"
    unfolding run_job_def h option.case conclude_job_def
    by (rule yields_andThen [OF yields_attempt [OF yields_promotion_handler [OF assms(1) jl(2) assms(8,9)]]],
        rule yields_andThen [OF yields_basic(5)], unfold sum.case, rule yields_andThen [OF mark], rule yields_basic(1))
  have ne: "\<not> Kinds (app_worker msg cfg) = []" by simp
  show ?thesis
    unfolding RunOnce_def if_not_P [OF ne]
    by (rule yields_andThen [OF yields_basic(6)], unfold option.case, rule yields_andThen [OF yields_basic(5)],
        rule yields_andThen [OF yields_attempt [OF claim]], unfold sum.case, rule run)
qed

text \<open>C30: a freed seat reaches the waitlist. When nothing fails, the round of the application's worker that
  leases the promotion job of an open section with a free seat and a waitlist seats the student at the head
  of that waitlist, moves the others up in order and closes the job as succeeded.\<close>

theorem freed_seat_reaches_waitlist:
  assumes "ledger t" "ranked t" "claims_ok t" "section_at t i = Some s" "sec_Status s = SectionOpen"
    and "sec_SeatsTaken s < sec_Capacity s" "waitlist_of t i = e # rest" "0 < i" "i < 2 ^ 63"
    and "next_ready [JobPromoteWaitlist, JobSweepSessions] now t = Some j" "job_key.keyed (t_jobs t)"
    and "job_Kind j = JobPromoteWaitlist" "job_Payload j = waitlist_payload i"
  shows "\<exists>t' e' j'. yields now rid (RunOnce (app_worker msg cfg)) t (Inr True) t' \<and> waitlist_of t' i = rest
    \<and> e' \<in> set (tbl_rows (t_enrollments t')) \<and> enr_ID e' = enr_ID e \<and> enr_StudentID e' = enr_StudentID e
    \<and> enr_Status e' = EnrollmentEnrolled \<and> seats_held t' i = seats_held t i + 1
    \<and> j' \<in> set (tbl_rows (t_jobs t')) \<and> job_ID j' = job_ID j \<and> job_State j' = JobSucceeded"
proof -
  define leased where "leased = table_update (\<lambda>r. job_ID r = job_ID j)
    (lease_job (wcf_WorkerID (wrk_cfg (app_worker msg cfg))) now) (t_jobs t)"
  let ?t1 = "t\<lparr>t_jobs := leased\<rparr>"
  have "ledger ?t1" "ranked ?t1" "claims_ok ?t1" "section_at ?t1 i = Some s" "waitlist_of ?t1 i = e # rest"
    using assms(1-4,7) by simp_all
  then obtain t2 where promote: "yields now rid (PromoteWaitlist i) ?t1 (Inr True) t2"
    using yields_PromoteWaitlist [of ?t1 i s e rest now rid] assms(5,6,8) by blast
  have "ranked ?t1" using assms(2) by simp
  note effect = yields_promotion_effect [OF promote this]
  have jobs: "t_jobs t2 = leased" using effect(2) by simp
  note round = round_hands_over [OF promote jobs assms(10,11) leased_def assms(12,13,8,9)]
  obtain e' where e': "waitlist_of t2 i = rest" "e' \<in> set (tbl_rows (t_enrollments t2))" "enr_ID e' = enr_ID e"
    "enr_StudentID e' = enr_StudentID e" "enr_Status e' = EnrollmentEnrolled" "seats_held t2 i = seats_held t i + 1"
    using promote_step_effect [OF effect(1)] assms(2,7) by auto
  define jl where "jl = lease_job (wcf_WorkerID (wrk_cfg (app_worker msg cfg))) now j"
  have jl: "jl \<in> set (tbl_rows leased)" "finish_pred (job_ID j) jl" "job_ID jl = job_ID j"
    using leased_row(1) [OF assms(10)] by (simp_all add: leased_def jl_def lease_job_def finish_pred_def)
  have closed: "release_lease JobSucceeded [] now jl
      \<in> set (tbl_rows (table_update (finish_pred (job_ID j)) (release_lease JobSucceeded [] now) leased))"
    using jl(1,2) by (force simp: table_update_def)
  show ?thesis
    by (intro exI [of _ "release_lease JobSucceeded [] now jl"] exI [of _ e'] exI conjI, rule round)
      (use e' closed jl(3) in \<open>simp_all add: release_lease_def\<close>)
qed

theorem freed_seat_reaches_waitlist_witness:
  "\<exists>t' e'. yields 5 ''req-1'' (RunOnce (app_worker (\<lambda>_. ''syntax'') sample_worker)) (with_promotion waiting_campus) (Inr True) t'
    \<and> e' \<in> set (tbl_rows (t_enrollments t')) \<and> enr_StudentID e' = 1 \<and> enr_Status e' = EnrollmentEnrolled"
proof -
  have j: "next_ready [JobPromoteWaitlist, JobSweepSessions] 5 (with_promotion waiting_campus) = Some promotion_job"
    by (simp add: next_ready_def select_where_def limit_offset_def job_ready_def promotion_job_def time_text_le_def order_by_def)
  have t: "ledger (with_promotion waiting_campus)" "ranked (with_promotion waiting_campus)"
    "claims_ok (with_promotion waiting_campus)"
    "section_at (with_promotion waiting_campus) 1 = Some (the (section_at waiting_campus 1))"
    "waitlist_of (with_promotion waiting_campus) 1
      = [sample_claim 1 1 EnrollmentWaitlisted 1, sample_claim 2 2 EnrollmentWaitlisted 2]"
    unfolding with_promotion_def jobs_apart using waiting_campus_head(1,2) by simp_all
  have p: "job_Kind promotion_job = JobPromoteWaitlist" "job_Payload promotion_job = waitlist_payload 1"
    by (simp_all add: promotion_job_def)
  have one: "(0::int) < 1" "(1::int) < 2 ^ 63" by simp_all
  from freed_seat_reaches_waitlist [OF t(1-4) waiting_campus_head(3,4) t(5) one j with_promotion_facts(2) p,
      of "''req-1''" "\<lambda>_. ''syntax''" sample_worker]
  obtain t' e' where "yields 5 ''req-1'' (RunOnce (app_worker (\<lambda>_. ''syntax'') sample_worker)) (with_promotion waiting_campus) (Inr True) t'"
    "e' \<in> set (tbl_rows (t_enrollments t'))" "enr_StudentID e' = enr_StudentID (sample_claim 1 1 EnrollmentWaitlisted 1)"
    "enr_Status e' = EnrollmentEnrolled" by blast
  then show ?thesis by (intro exI conjI) (simp_all add: sample_claim_def)
qed

end
