(* ===== verification/PaperworkService.thy ===== *)
theory PaperworkService
  imports EnrollmentService
begin

text \<open>
  The orientation paperwork use cases (\<open>internal/service/registration.go\<close>): handing in and
  resubmitting the record, the registrar's decision, and the two reads. A closure passed to
  \<open>InTx\<close> is the operation named after its use case.
\<close>

record submit_input =
  sub_StudentID :: int
  sub_TermID :: int
  sub_ProgramCode :: string
  sub_AdvisorEmail :: string
  sub_DormPreference :: string

definition find_or_draft :: "int \<Rightarrow> int \<Rightarrow> instant \<Rightarrow> registration op" where
  \<comment> \<open>the \<open>switch\<close> of \<open>Submit\<close>: a missing record is a fresh draft\<close>
  "find_or_draft studentID termID now =
     andThen (attempt (FindRegistration studentID termID)) (\<lambda>r. case r of
       Inr found \<Rightarrow> ret found
     | Inl err \<Rightarrow> if errors_Is err ErrNotFound
         then ret ((draft_registration studentID termID)\<lparr>reg_CreatedAt := now, reg_UpdatedAt := now\<rparr>)
         else raise err)"

definition submit_tx :: "principal \<Rightarrow> submit_input \<Rightarrow> academic_term \<Rightarrow> instant \<Rightarrow> registration op" where
  "submit_tx actor inp trm now =
     andThen (find_or_draft (sub_StudentID inp) (sub_TermID inp) now) (\<lambda>r0.
     andThen (lift_result (reg_Submit (r0\<lparr>reg_ProgramCode := sub_ProgramCode inp,
       reg_AdvisorEmail := sub_AdvisorEmail inp, reg_DormPreference := sub_DormPreference inp\<rparr>) now)) (\<lambda>r.
     andThen (UpsertRegistration r) (\<lambda>saved.
     andThen (RecordObjectID (Some actor) ActionRegistrationSubmit ''registration'' (reg_ID saved) ResultSuccess
       (''student '' @ itoa (sub_StudentID inp) @ '' submitted program '' @ sub_ProgramCode inp
         @ '' for term '' @ trm_Code trm)) (\<lambda>_.
     ret saved))))"

definition Submit :: "principal \<Rightarrow> submit_input \<Rightarrow> registration op" where
  "Submit actor inp0 =
     (let inp = (if sub_StudentID inp0 \<le> 0 then inp0\<lparr>sub_StudentID := prn_UserID actor\<rparr> else inp0) in
      if \<not> CanActOnStudent actor (sub_StudentID inp)
      then raise (Wrapped (''submit registration for student '' @ itoa (sub_StudentID inp)) (Sentinel ErrForbidden))
      else
      andThen (FindTermByID (sub_TermID inp)) (\<lambda>trm.
      andThen clock_now (\<lambda>now.
      if trm_Archived trm
      then raise (Wrapped (''term '' @ trm_Code trm @ '' is archived'') (Sentinel ErrEnrollmentWindowClosed))
      else InTx (submit_tx actor inp trm now))))"

record decide_input =
  dcd_RegistrationID :: int
  dcd_Status :: registration_status
  dcd_Note :: string

definition decide_tx :: "principal \<Rightarrow> decide_input \<Rightarrow> instant \<Rightarrow> registration op" where
  "decide_tx actor inp now =
     andThen (FindRegistrationByID (dcd_RegistrationID inp)) (\<lambda>r0.
     andThen (lift_result (reg_Decide r0 (dcd_Status inp) (prn_UserID actor) (dcd_Note inp) now)) (\<lambda>r.
     andThen (UpsertRegistration r) (\<lambda>saved.
     andThen (RecordObjectID (Some actor) ActionRegistrationDecide ''registration'' (reg_ID saved) ResultSuccess
       (''registration moved to '' @ registration_status_text (reg_Status saved))) (\<lambda>_.
     ret saved))))"

definition Decide :: "principal \<Rightarrow> decide_input \<Rightarrow> registration op" where
  "Decide actor inp =
     andThen (on_error (Wrapped (''decide registration '' @ itoa (dcd_RegistrationID inp)))
       (check (requireRole actor RoleRegistrar))) (\<lambda>_.
     andThen clock_now (\<lambda>now.
     andThen (attempt (InTx (decide_tx actor inp now))) (\<lambda>r. case r of
       Inr result \<Rightarrow> ret result
     | Inl err \<Rightarrow>
         andThen (recordRejection actor ActionRegistrationDecide ''registration'' (dcd_RegistrationID inp) err)
           (\<lambda>_. raise err))))"

definition Get_registration :: "principal \<Rightarrow> int \<Rightarrow> int \<Rightarrow> registration op" where
  "Get_registration actor studentID0 termID =
     (let studentID = (if studentID0 \<le> 0 then prn_UserID actor else studentID0) in
      if \<not> CanActOnStudent actor studentID
      then raise (Wrapped (''read registration of student '' @ itoa studentID) (Sentinel ErrForbidden))
      else FindRegistration studentID termID)"

definition List_registrations ::
  "principal \<Rightarrow> int \<Rightarrow> registration_status option \<Rightarrow> page \<Rightarrow> registration page_result op" where
  "List_registrations actor termID status pg =
     andThen (on_error (Wrapped ''list registrations'') (check (requireRole actor RoleRegistrar))) (\<lambda>_.
     store_ListRegistrations termID status pg)"

section \<open>What the operations do\<close>

lemma paperwork_reads [reads_intro]:
  "reads (find_or_draft a b now)" "reads (Get_registration actor a b)" "reads (List_registrations actor i st pg)"
  unfolding find_or_draft_def Get_registration_def List_registrations_def Let_def by (intro reads_intro)+

lemma paperwork_tame [tame_intro]:
  "tame (find_or_draft a b now)" "tame (Get_registration actor a b)" "tame (List_registrations actor i st pg)"
  "tame (Submit actor inp)" "tame (Decide actor dinp)"
  unfolding find_or_draft_def Get_registration_def List_registrations_def Submit_def Decide_def submit_tx_def
    decide_tx_def Let_def by (intro tame_intro)+

end
