(* ===== verification/PaperworkProperties.thy ===== *)
theory PaperworkProperties
  imports PaperworkService Evolution Samples
begin

text \<open>
  What the paperwork use cases promise for the stored records: a student has one record per term, a
  verified record is never touched again, and only a registrar's decision verifies one.
\<close>

section \<open>The relation\<close>

definition papers_ok :: "tables \<Rightarrow> bool" where
  \<comment> \<open>keys are distinct, and a student has one record per term\<close>
  "papers_ok t \<longleftrightarrow> registration_key.keyed (t_registrations t)
     \<and> distinct (map (\<lambda>r. (reg_StudentID r, reg_TermID r)) (tbl_rows (t_registrations t)))"

definition papers_evolve :: "(registration \<Rightarrow> bool) \<Rightarrow> tables \<Rightarrow> tables \<Rightarrow> bool" where
  \<comment> \<open>verified records stay as they are, and those that are new satisfy \<open>Q\<close>\<close>
  "papers_evolve Q t t' \<longleftrightarrow> (papers_ok t \<longrightarrow> papers_ok t'
     \<and> (\<forall>r \<in> set (tbl_rows (t_registrations t)). Verified r \<longrightarrow> r \<in> set (tbl_rows (t_registrations t')))
     \<and> (\<forall>r \<in> set (tbl_rows (t_registrations t')). Verified r \<longrightarrow> r \<in> set (tbl_rows (t_registrations t)) \<or> Q r))"

lemma papers_evolve_same: "t_registrations t' = t_registrations t \<Longrightarrow> papers_evolve Q t t'"
  by (simp add: papers_evolve_def papers_ok_def)

lemma papers_evolve_mono: "papers_evolve Q t t' \<Longrightarrow> (\<And>r. Q r \<Longrightarrow> P r) \<Longrightarrow> papers_evolve P t t'"
  unfolding papers_evolve_def by blast

interpretation papers: evolution "papers_evolve Q" for Q
proof
  show "papers_evolve Q t t" for t by (rule papers_evolve_same) simp
  show "papers_evolve Q t v" if "papers_evolve Q t u" "papers_evolve Q u v" for t u v
    using that unfolding papers_evolve_def by blast
qed

section \<open>Writes\<close>

lemma papers_insert:
  assumes "UpsertRegistration r w = (Inr saved, w')" "reg_ID r = 0" "\<not> Verified r"
  shows "papers_evolve Q (tb w) (tb w')"
proof -
  note ins = UpsertRegistration_insert [OF assms(1,2)]
  let ?T = "t_registrations (tb w)" and ?r = "r\<lparr>reg_ID := tbl_seq (t_registrations (tb w)) + 1, reg_Version := 1\<rparr>"
  have rows: "tbl_rows (t_registrations (tb w')) = tbl_rows ?T @ [?r]"
    by (simp add: ins(3) table_insert_def)
  have fresh: "(reg_StudentID r, reg_TermID r) \<notin> (\<lambda>r. (reg_StudentID r, reg_TermID r)) ` set (tbl_rows ?T)"
    using ins(2) by (auto simp: find_registration_def first_where_None)
  have "papers_ok (tb w')" if "papers_ok (tb w)"
    using that fresh rows registration_key.keyed_insert [of ?T "r\<lparr>reg_Version := 1\<rparr>"] ins(3)
    by (simp add: papers_ok_def)
  moreover have "\<not> Verified ?r" using assms(3) by (simp add: Verified_def)
  ultimately show ?thesis unfolding papers_evolve_def rows by auto
qed

lemma papers_update:
  assumes "UpsertRegistration r w = (Inr saved, w')" "q \<in> set (tbl_rows (t_registrations (tb w)))"
    and "reg_ID r = reg_ID q" "\<not> Verified q" "Verified r \<Longrightarrow> Q (write_registration r q)"
  shows "papers_evolve Q (tb w) (tb w')"
proof -
  let ?T = "t_registrations (tb w)"
  let ?g = "\<lambda>x. if registration_pred r x then write_registration r x else x"
  have step: "papers_ok (tb w') \<and> (\<forall>x \<in> set (tbl_rows ?T). Verified x \<longrightarrow> x \<in> set (tbl_rows (t_registrations (tb w'))))
    \<and> (\<forall>x \<in> set (tbl_rows (t_registrations (tb w'))). Verified x \<longrightarrow> x \<in> set (tbl_rows ?T) \<or> Q x)"
    if ok: "papers_ok (tb w)"
  proof -
    have keyed: "registration_key.keyed ?T" using ok by (simp add: papers_ok_def)
    then have "reg_ID r \<noteq> 0" using assms(2,3) by (auto simp: registration_key.keyed_def)
    then have t': "t_registrations (tb w') = table_update (registration_pred r) (write_registration r) ?T"
      using UpsertRegistration_update(3) [OF assms(1)] by simp
    then have rows: "tbl_rows (t_registrations (tb w')) = map ?g (tbl_rows ?T)"
      by (simp add: table_update_def)
    have only: "x = q" if "x \<in> set (tbl_rows ?T)" "registration_pred r x" for x
      using registration_key.by_id_unique [OF keyed that(1) assms(2)] that(2) assms(3)
      by (simp add: registration_pred_def)
    have keep: "map (\<lambda>x. (reg_StudentID x, reg_TermID x)) (map ?g (tbl_rows ?T))
        = map (\<lambda>x. (reg_StudentID x, reg_TermID x)) (tbl_rows ?T)"
      by (simp add: write_registration_def)
    have "registration_key.keyed (t_registrations (tb w'))"
      unfolding t' by (rule registration_key.keyed_update [OF keyed]) (simp add: write_registration_def)
    then have "papers_ok (tb w')" using ok keep unfolding papers_ok_def rows by (simp only:)
    moreover have "x \<in> set (map ?g (tbl_rows ?T))" if "x \<in> set (tbl_rows ?T)" "Verified x" for x
    proof -
      have "\<not> registration_pred r x" using only [OF that(1)] that(2) assms(4) by blast
      then show ?thesis using that(1) by (auto simp: image_iff intro: bexI [of _ x])
    qed
    moreover have "x \<in> set (tbl_rows ?T) \<or> Q x" if xm: "x \<in> set (map ?g (tbl_rows ?T))" and xv: "Verified x" for x
    proof -
      obtain y where "x = ?g y" "y \<in> set (tbl_rows ?T)"
        using xm unfolding set_map by (rule imageE)
      then have y: "y \<in> set (tbl_rows ?T)" "x = ?g y" by blast+
      show ?thesis
      proof (cases "registration_pred r y")
        case True
        then have x: "x = write_registration r q" using only [OF y(1)] y(2) by simp
        then have "Verified r" using xv by (simp add: Verified_def write_registration_def)
        then show ?thesis using assms(5) x by simp
      qed (use y in simp)
    qed
    ultimately show ?thesis unfolding rows by blast
  qed
  then show ?thesis unfolding papers_evolve_def by blast
qed

lemma papers_record:
  assumes "RecordObjectID actor action oty i res d w = (Inr u, w')"
  shows "papers_evolve Q (tb w) (tb w')"
  using RecordObjectID_Inr [OF assms] by (auto simp: audit_added_def intro: papers_evolve_same)

section \<open>The use cases\<close>

lemma InTx_papers:
  assumes "InTx m w = (r, w')" "\<And>w x w'. m w = (Inr x, w') \<Longrightarrow> papers_evolve Q (tb w) (tb w')"
  shows "papers_evolve Q (tb w) (tb w')"
proof (cases r)
  case (Inl e)
  then show ?thesis using InTx_Inl_tb assms(1) papers.refl by metis
next
  case (Inr x)
  then obtain w2 where "m (tick w) = (Inr x, w2)" "w' = tick w2" using assms(1) InTx_Inr by metis
  then show ?thesis using assms(2) by fastforce
qed

lemma not_verified_before: "reg_CanTransitionTo (reg_Status r) s \<Longrightarrow> \<not> Verified r"
  by (auto simp: Verified_def reg_CanTransitionTo_def)

lemma find_or_draft_Inr:
  assumes "find_or_draft a b now w = (Inr r, w')"
  shows "tb w' = tb w" "r \<in> set (tbl_rows (t_registrations (tb w))) \<or> reg_ID r = 0 \<and> reg_Status r = RegistrationDraft"
proof -
  show "tb w' = tb w" by (rule reads_result [OF paperwork_reads(1) assms])
  obtain f w1 where f: "FindRegistration a b w = (f, w1)" by fastforce
  then have rest: "(case f of Inr found \<Rightarrow> ret found | Inl err \<Rightarrow> if errors_Is err ErrNotFound
      then ret ((draft_registration a b)\<lparr>reg_CreatedAt := now, reg_UpdatedAt := now\<rparr>) else raise err) w1 = (Inr r, w')"
    using assms by (simp add: find_or_draft_def andThen_def attempt_def)
  show "r \<in> set (tbl_rows (t_registrations (tb w))) \<or> reg_ID r = 0 \<and> reg_Status r = RegistrationDraft"
  proof (cases f)
    case (Inl e)
    then show ?thesis using rest by (auto simp: ret_iff raise_iff draft_registration_def split: if_splits)
  next
    case (Inr x)
    then have "find_registration a b (tb w) = Some x"
      using f by (auto simp: FindRegistration_def on_error_Inr query_row_Inr)
    then have "x \<in> set (tbl_rows (t_registrations (tb w)))"
      unfolding find_registration_def by (blast dest: first_where_Some)
    then show ?thesis using rest Inr by (simp add: ret_iff)
  qed
qed

lemma submit_tx_papers:
  assumes "submit_tx actor inp trm now w = (Inr x, w')"
  shows "papers_evolve Q (tb w) (tb w')"
proof -
  obtain r0 w1 r saved w3 u where
    found: "find_or_draft (sub_StudentID inp) (sub_TermID inp) now w = (Inr r0, w1)"
    and sub: "reg_Submit (r0\<lparr>reg_ProgramCode := sub_ProgramCode inp, reg_AdvisorEmail := sub_AdvisorEmail inp,
        reg_DormPreference := sub_DormPreference inp\<rparr>) now = Inr r"
    and up: "UpsertRegistration r w1 = (Inr saved, w3)"
    and au: "RecordObjectID (Some actor) ActionRegistrationSubmit ''registration'' (reg_ID saved) ResultSuccess
       (''student '' @ itoa (sub_StudentID inp) @ '' submitted program '' @ sub_ProgramCode inp
         @ '' for term '' @ trm_Code trm) w3 = (Inr u, w')"
    using assms unfolding submit_tx_def andThen_Inr lift_result_iff ret_iff by blast
  note first = find_or_draft_Inr [OF found]
  have status: "reg_Status r = RegistrationSubmitted" "reg_CanTransitionTo (reg_Status r0) RegistrationSubmitted"
    using reg_Submit_Inr [OF sub] by simp_all
  have ids: "reg_ID r = reg_ID r0" using sub by (auto simp: reg_Submit_def split: if_splits option.splits)
  have nv: "\<not> Verified r" using status(1) by (simp add: Verified_def)
  have "papers_evolve Q (tb w1) (tb w3)" using first(2)
  proof
    assume "r0 \<in> set (tbl_rows (t_registrations (tb w)))"
    then show ?thesis using papers_update [OF up _ ids not_verified_before [OF status(2)]] nv first(1) by simp
  next
    assume "reg_ID r0 = 0 \<and> reg_Status r0 = RegistrationDraft"
    then show ?thesis using papers_insert [OF up _ nv] ids by simp
  qed
  then show ?thesis using papers_record [OF au] first(1) papers.trans by metis
qed

lemma decide_tx_papers:
  assumes "decide_tx actor inp now w = (Inr x, w')"
  shows "papers_evolve (\<lambda>r. dcd_Status inp = RegistrationVerified \<and> reg_ID r = dcd_RegistrationID inp
    \<and> reg_DecidedByUserID r = Some (prn_UserID actor) \<and> reg_DecidedAt r = Some now) (tb w) (tb w')"
    (is "papers_evolve ?Q _ _")
proof -
  obtain r0 w1 r saved w3 u where
    found: "FindRegistrationByID (dcd_RegistrationID inp) w = (Inr r0, w1)"
    and dec: "reg_Decide r0 (dcd_Status inp) (prn_UserID actor) (dcd_Note inp) now = Inr r"
    and up: "UpsertRegistration r w1 = (Inr saved, w3)"
    and au: "RecordObjectID (Some actor) ActionRegistrationDecide ''registration'' (reg_ID saved) ResultSuccess
       (''registration moved to '' @ registration_status_text (reg_Status saved)) w3 = (Inr u, w')"
    using assms unfolding decide_tx_def andThen_Inr lift_result_iff ret_iff by blast
  have "first_where (\<lambda>r. reg_ID r = dcd_RegistrationID inp) (t_registrations (tb w)) = Some r0"
    using found by (auto simp: FindRegistrationByID_def on_error_Inr query_row_Inr)
  from first_where_Some [OF this]
  have r0: "r0 \<in> set (tbl_rows (t_registrations (tb w)))" "reg_ID r0 = dcd_RegistrationID inp" by simp_all
  have same: "tb w1 = tb w" by (rule reads_result [OF registration_reads(3) found])
  note status = reg_Decide_Inr [OF dec]
  have r: "reg_ID r = reg_ID r0" "reg_DecidedByUserID r = Some (prn_UserID actor)" "reg_DecidedAt r = Some now"
    using dec by (auto simp: reg_Decide_def split: if_splits)
  have mem: "r0 \<in> set (tbl_rows (t_registrations (tb w1)))" using r0(1) same by simp
  have nv: "\<not> Verified r0" using status not_verified_before by blast
  have new: "?Q (write_registration r r0)" if "Verified r"
    using that status r r0(2) by (simp add: write_registration_def Verified_def)
  have "papers_evolve ?Q (tb w1) (tb w3)" by (rule papers_update [OF up mem r(1) nv]) (rule new)
  from papers.trans [OF this papers_record [OF au]] show ?thesis unfolding same .
qed


lemma Submit_papers:
  assumes "Submit actor inp w = (r, w')"
  shows "papers_evolve Q (tb w) (tb w')"
proof -
  have tx: "papers.keeps Q (InTx (submit_tx actor inp trm now))" for inp trm now
    by (rule papers.keepsI) (erule InTx_papers, rule submit_tx_papers)
  have find: "papers.keeps Q (FindTermByID i)" for i by (rule papers.keeps_reads [OF catalog_reads(1)])
  have "papers.keeps Q (Submit actor inp)"
    unfolding Submit_def Let_def by (intro papers.keeps_if papers.keeps_andThen papers.keeps_basic find tx)
  from papers.keeps_result [OF this assms] show ?thesis .
qed

lemma recordRejection_papers: "papers.keeps Q (recordRejection actor action oty i cause)"
proof -
  have "papers.keeps Q (InTx (RecordObjectID actor action oty i res d))" for actor action oty i res d
    by (rule papers.keepsI) (erule InTx_papers, erule papers_record)
  then show ?thesis
    unfolding recordRejection_def Let_def
    by (intro papers.keeps_if papers.keeps_andThen papers.keeps_attempt papers.keeps_basic)
qed

lemma Decide_papers:
  assumes "Decide actor inp w = (r, w')"
  shows "papers_evolve (\<lambda>r. prn_Role actor = RoleRegistrar \<and> dcd_Status inp = RegistrationVerified
    \<and> reg_ID r = dcd_RegistrationID inp \<and> reg_DecidedByUserID r = Some (prn_UserID actor)) (tb w) (tb w')"
    (is "papers_evolve ?Q _ _")
proof (cases "prn_Role actor = RoleRegistrar")
  case True
  have tx: "papers.keeps ?Q (InTx (decide_tx actor inp now))" for now
    by (rule papers.keepsI, erule InTx_papers, rule papers_evolve_mono, erule decide_tx_papers) (use True in simp)
  have "papers.keeps ?Q (Decide actor inp)"
    unfolding Decide_def
    by (intro papers.keeps_andThen papers.keeps_sum papers.keeps_attempt papers.keeps_on_error papers.keeps_basic
        recordRejection_papers tx)
  from papers.keeps_result [OF this assms] show ?thesis .
next
  case False
  then have "tb w' = tb w"
    using assms by (auto simp: Decide_def requireRole_def andThen_def on_error_def check_def raise_def)
  then show ?thesis by (simp add: papers.refl)
qed

section \<open>Any sequence of calls\<close>

datatype paperwork_call = CallSubmit principal submit_input | CallDecide principal decide_input

fun perform_paper :: "paperwork_call \<Rightarrow> unit op" where
  "perform_paper (CallSubmit actor inp) = andThen (attempt (Submit actor inp)) (\<lambda>_. ret ())"
| "perform_paper (CallDecide actor inp) = andThen (attempt (Decide actor inp)) (\<lambda>_. ret ())"

fun perform_papers :: "paperwork_call list \<Rightarrow> unit op" where
  "perform_papers [] = ret ()"
| "perform_papers (c # cs) = andThen (perform_paper c) (\<lambda>_. perform_papers cs)"

definition verified_by :: "paperwork_call list \<Rightarrow> registration \<Rightarrow> bool" where
  \<comment> \<open>one of the calls is a registrar's decision for this very record, who is named in it\<close>
  "verified_by cs r \<longleftrightarrow> list_ex (\<lambda>c. case c of CallSubmit actor inp \<Rightarrow> False
     | CallDecide actor inp \<Rightarrow> prn_Role actor = RoleRegistrar \<and> dcd_Status inp = RegistrationVerified
         \<and> reg_ID r = dcd_RegistrationID inp \<and> reg_DecidedByUserID r = Some (prn_UserID actor)) cs"

lemma perform_papers_evolve: "papers.keeps (verified_by cs) (perform_papers cs)"
proof (induction cs)
  case Nil
  then show ?case by (simp, intro keeps_intro)
next
  case (Cons c cs)
  have one: "papers.keeps (verified_by (c # cs)) (perform_paper c)"
  proof (cases c)
    case (CallSubmit actor inp)
    have "papers.keeps (verified_by (c # cs)) (Submit actor inp)"
      by (rule papers.keepsI) (rule Submit_papers)
    then show ?thesis using CallSubmit by (simp, intro keeps_intro)
  next
    case (CallDecide actor inp)
    have "papers.keeps (verified_by (c # cs)) (Decide actor inp)"
      by (rule papers.keepsI, rule papers_evolve_mono, erule Decide_papers) (simp add: verified_by_def CallDecide)
    then show ?thesis using CallDecide by (simp, intro keeps_intro)
  qed
  have "papers.keeps (verified_by (c # cs)) (perform_papers cs)"
    by (rule papers.keepsI, rule papers_evolve_mono, rule papers.keeps_result [OF Cons])
      (simp_all add: verified_by_def)
  then show ?case using one by (simp, intro keeps_intro)
qed

text \<open>C31: only a registrar verifies paperwork, and for good. After any sequence of submissions and decisions by
  anybody, whatever driver calls fail, every record that was verified is stored unchanged, and a record that
  is verified now and was not before was decided by a registrar, who is named in it, in one of these calls.\<close>

theorem verified_only_by_registrar:
  assumes "papers_ok (tb w)" "t' = tb (snd (perform_papers cs w))"
  shows "papers_ok t'
    \<and> (\<forall>r \<in> set (tbl_rows (t_registrations (tb w))). Verified r \<longrightarrow> r \<in> set (tbl_rows (t_registrations t')))
    \<and> (\<forall>r \<in> set (tbl_rows (t_registrations t')). Verified r \<longrightarrow>
         r \<in> set (tbl_rows (t_registrations (tb w))) \<or> verified_by cs r)"
  using perform_papers_evolve [of cs] assms unfolding papers.keeps_def papers_evolve_def by blast

definition late_paper :: submit_input where
  "late_paper = \<lparr>sub_StudentID = 0, sub_TermID = 1, sub_ProgramCode = ''CS'', sub_AdvisorEmail = ''a@campus.example'',
     sub_DormPreference = ''undecided''\<rparr>"

theorem verified_only_by_registrar_witness:
  "verified_registration 1 \<in> set (tbl_rows (t_registrations (tb (snd (perform_papers
     [CallSubmit ana late_paper, CallDecide registrar \<lparr>dcd_RegistrationID = 1, dcd_Status = RegistrationRejected,
        dcd_Note = ''no''\<rparr>] (at_time 5 campus))))))"
proof -
  have "papers_ok (tb (at_time 5 campus))" "verified_registration 1 \<in> set (tbl_rows (t_registrations campus))"
    "Verified (verified_registration 1)"
    by (simp_all add: papers_ok_def registration_key.keyed_def campus_def verified_registration_def
        sample_registration_def Verified_def)
  with verified_only_by_registrar [OF _ refl, of "at_time 5 campus"] show ?thesis by (simp del: perform_papers.simps)
qed

end
