(* ===== verification/TimeParse.thy ===== *)
theory TimeParse
  imports TimeText Encodings Errors
begin

text \<open>
  Reading timestamps (\<open>parseTime\<close> of \<open>internal/storage/sqlite/db.go\<close> and the \<open>since\<close>
  parameter of the audit list). Package \<open>time\<close> reads RFC 3339 with a strict reader,
  \<open>parse_rfc3339\<close>, and falls back on its general layout reader, which accepts a few other spellings;
  the latter is the parameter \<open>general_parse\<close>. What the store writes never gets there: every stored
  timestamp is read back exactly, which is why the model keeps instants in its tables.
\<close>

section \<open>The strict reader\<close>

definition slice :: "nat \<Rightarrow> nat \<Rightarrow> string \<Rightarrow> string" where
  "slice from n s = take n (drop from s)"

definition digits_value :: "string \<Rightarrow> nat" where
  "digits_value ds = foldl (\<lambda>a c. 10 * a + digit_value c) 0 ds"

definition parse_uint :: "string \<Rightarrow> int \<Rightarrow> int \<Rightarrow> int option" where
  "parse_uint s lo hi = (if list_all is_digit s \<and> lo \<le> int (digits_value s) \<and> int (digits_value s) \<le> hi
     then Some (int (digits_value s)) else None)"

definition days_before_month :: "bool \<Rightarrow> int \<Rightarrow> int" where
  "days_before_month leap m = [0, 31, 59, 90, 120, 151, 181, 212, 243, 273, 304, 334] ! nat (m - 1)
     + (if leap \<and> 2 < m then 1 else 0)"

definition days_in :: "bool \<Rightarrow> int \<Rightarrow> int" where
  "days_in leap m = (if m = 2 then (if leap then 29 else 28) else if m \<in> {4, 6, 9, 11} then 30 else 31)"

definition civil_second :: "int \<Rightarrow> int \<Rightarrow> int \<Rightarrow> int \<Rightarrow> int \<Rightarrow> int \<Rightarrow> int" where
  \<comment> \<open>\<open>time.Date\<close> in UTC, in seconds since the epoch\<close>
  "civil_second y mo d h mi sec =
     (days_before_year y + days_before_month (leap_year y) mo + d - 1 - epoch_day) * 86400
       + h * 3600 + mi * 60 + sec"

definition parse_clock :: "string \<Rightarrow> int option" where
  \<comment> \<open>the nineteen bytes of date and time\<close>
  "parse_clock s =
     (case parse_uint (slice 0 4 s) 0 9999 of None \<Rightarrow> None | Some y \<Rightarrow>
     case parse_uint (slice 5 2 s) 1 12 of None \<Rightarrow> None | Some mo \<Rightarrow>
     case parse_uint (slice 8 2 s) 1 (days_in (leap_year y) mo) of None \<Rightarrow> None | Some d \<Rightarrow>
     case parse_uint (slice 11 2 s) 0 23 of None \<Rightarrow> None | Some h \<Rightarrow>
     case parse_uint (slice 14 2 s) 0 59 of None \<Rightarrow> None | Some mi \<Rightarrow>
     case parse_uint (slice 17 2 s) 0 59 of None \<Rightarrow> None | Some sec \<Rightarrow>
     if s ! 4 = CHR ''-'' \<and> s ! 7 = CHR ''-'' \<and> s ! 10 = CHR ''T'' \<and> s ! 13 = CHR '':'' \<and> s ! 16 = CHR '':''
     then Some (civil_second y mo d h mi sec) else None)"

definition nanos_value :: "string \<Rightarrow> int" where
  \<comment> \<open>at most nine digits count\<close>
  "nanos_value ds = int (digits_value (take 9 ds) * 10 ^ (9 - length (take 9 ds)))"

definition parse_nanos :: "string \<Rightarrow> int \<times> string" where
  "parse_nanos s = (case s of c # d # r \<Rightarrow> if c = CHR ''.'' \<and> is_digit d
       then (nanos_value (takeWhile is_digit (d # r)), dropWhile is_digit (d # r)) else (0, s)
     | _ \<Rightarrow> (0, s))"

definition parse_zone :: "string \<Rightarrow> int option" where
  "parse_zone r = (if r = ''Z'' then Some 0 else if length r \<noteq> 6 then None
     else case parse_uint (slice 1 2 r) 0 23 of None \<Rightarrow> None | Some hr \<Rightarrow>
     case parse_uint (slice 4 2 r) 0 59 of None \<Rightarrow> None | Some mm \<Rightarrow>
     if (r ! 0 = CHR ''-'' \<or> r ! 0 = CHR ''+'') \<and> r ! 3 = CHR '':''
     then Some (if r ! 0 = CHR ''-'' then - ((hr * 60 + mm) * 60) else (hr * 60 + mm) * 60) else None)"

definition parse_rfc3339 :: "string \<Rightarrow> instant option" where
  "parse_rfc3339 s = (if length s < 19 then None
     else case parse_clock s of None \<Rightarrow> None
     | Some sec \<Rightarrow> (case parse_nanos (drop 19 s) of (ns, r) \<Rightarrow>
        map_option (\<lambda>zone. (sec - zone) * 1000000000 + ns) (parse_zone r)))"

definition parse_layout :: "(string \<Rightarrow> err + instant) \<Rightarrow> string \<Rightarrow> err + instant" where
  \<comment> \<open>\<open>time.Parse\<close> with the layouts \<open>RFC3339\<close> and \<open>RFC3339Nano\<close>\<close>
  "parse_layout general_parse s = (case parse_rfc3339 s of Some t \<Rightarrow> Inr t | None \<Rightarrow> general_parse s)"

definition parseTime :: "(string \<Rightarrow> err + instant) \<Rightarrow> string \<Rightarrow> err + instant" where
  "parseTime general_parse raw =
     map_sum (Wrapped (''parse stored timestamp '' @ quoted raw)) id (parse_layout general_parse raw)"

definition formatNullableTime :: "instant option \<Rightarrow> string option" where
  "formatNullableTime t = map_option formatTime t"

definition parseNullableTime :: "(string \<Rightarrow> err + instant) \<Rightarrow> string option \<Rightarrow> err + instant option" where
  "parseNullableTime general_parse raw = (case raw of None \<Rightarrow> Inr None
     | Some s \<Rightarrow> if s = [] then Inr None else map_sum id Some (parseTime general_parse s))"

section \<open>Digits\<close>

lemma digit_read: "digit_value (digit n) = n mod 10" "is_digit (digit n)"
  using digit_facts(1,2) [of "n mod 10"] by simp_all

lemma digits_value_pad: "digits_value (ds @ replicate k CHR ''0'') = digits_value ds * 10 ^ k"
proof -
  have "foldl (\<lambda>a c. 10 * a + digit_value c) n (replicate k CHR ''0'') = n * 10 ^ k" for n
    by (induction k arbitrary: n) (simp_all add: digit_value_def)
  then show ?thesis by (simp add: digits_value_def)
qed

lemma digits_value_positional:
  "foldl (\<lambda>a c. 10 * a + digit_value c) a (map (\<lambda>k. digit (n div 10 ^ k)) (rev [0..<K])) = a * 10 ^ K + n mod 10 ^ K"
proof (induction K arbitrary: a)
  case (Suc K)
  have "n mod 10 ^ Suc K = 10 ^ K * (n div 10 ^ K mod 10) + n mod 10 ^ K"
    by (simp only: power_Suc2 mod_mult2_eq)
  then show ?case using Suc by (simp add: digit_read algebra_simps)
qed simp

lemma read_two_digits:
  assumes "0 \<le> n" "n < 100" "lo \<le> n" "n \<le> hi"
  shows "parse_uint (two_digits n) lo hi = Some n"
proof -
  have "digits_value (two_digits n) = nat n"
    using assms(1,2) by (simp add: digits_value_def two_digits_def digit_read)
  then show ?thesis using assms by (simp add: parse_uint_def two_digits_def digit_read)
qed

lemma read_four_digits:
  assumes "0 \<le> n" "n < 10000"
  shows "parse_uint (four_digits n) 0 9999 = Some n"
proof -
  have f: "four_digits n = [digit (nat n div 1000), digit (nat n div 100), digit (nat n div 10), digit (nat n)]"
    using assms by (auto simp: four_digits_def Let_def)
  have "digits_value (four_digits n) = nat n"
  proof -
    have "rev [0..<4] = [3, 2, 1, 0 :: nat]" by code_simp
    then show ?thesis using digits_value_positional [of 0 "nat n" 4] assms unfolding f by (simp add: digits_value_def)
  qed
  then show ?thesis using assms f by (simp add: parse_uint_def digit_read)
qed

lemma month_day_inverse:
  assumes "0 \<le> d" "d < (if leap then 366 else 365)" "month_day leap d = (m, k)"
  shows "days_before_month leap m + k - 1 = d \<and> 1 \<le> m \<and> m \<le> 12 \<and> 1 \<le> k \<and> k \<le> days_in leap m"
  using assms unfolding month_day_def Let_def
  by (cases leap) (auto simp: days_before_month_def days_in_def split: if_split_asm)

section \<open>Reading what was written\<close>

lemma nano_digits_value: "0 \<le> ns \<Longrightarrow> ns < 1000000000 \<Longrightarrow> digits_value (nano_digits ns) = nat ns"
  using digits_value_positional [of 0 "nat ns" 9] by (simp add: digits_value_def nano_digits_def)

lemma nano_digits_digits: "c \<in> set (nano_digits ns) \<Longrightarrow> is_digit c"
  by (auto simp: nano_digits_def digit_read)

lemma read_fraction:
  assumes "0 \<le> ns" "ns < 1000000000"
  shows "parse_nanos (fraction_text ns @ ''Z'') = (ns, ''Z'')"
proof (cases "ns = 0")
  case True
  then show ?thesis by (simp add: fraction_text_def parse_nanos_def)
next
  case False
  let ?t = "trim_zeros (nano_digits ns)"
  obtain k where k: "nano_digits ns = ?t @ replicate k CHR ''0''" using trim_zeros_pad by blast
  have len: "length ?t + k = 9" using arg_cong [OF k, of length] by (simp add: nano_digits_def)
  have "digits_value ?t * 10 ^ k = nat ns"
    using nano_digits_value [OF assms] k digits_value_pad [of ?t k] by simp
  then have val: "nanos_value ?t = ns"
    using len assms by (simp add: nanos_value_def) (metis add_diff_cancel_left' int_nat_eq of_nat_mult of_nat_numeral of_nat_power)
  have dig: "is_digit c" if "c \<in> set ?t" for c
    using that by (intro nano_digits_digits) (auto simp: trim_zeros_def dest: set_dropWhileD)
  have "?t \<noteq> []"
  proof
    assume "?t = []"
    then have "nanos_value ?t = 0" by (simp add: nanos_value_def digits_value_def)
    then show False using val False by simp
  qed
  then obtain d r where t: "?t = d # r" by (cases ?t) auto
  have z: "takeWhile is_digit (?t @ ''Z'') = ?t" "dropWhile is_digit (?t @ ''Z'') = ''Z''"
    using dig by (simp_all add: takeWhile_append2 dropWhile_append2 is_digit_def less_eq_char_def)
  show ?thesis
    using z val dig [of d] False t by (simp add: fraction_text_def parse_nanos_def)
qed

lemma read_clock:
  assumes "0 \<le> n" "n < 3652425" "0 \<le> sec" "sec < 86400"
  shows "parse_clock (date_text n @ ''T'' @ clock_text sec @ rest) = Some ((n - epoch_day) * 86400 + sec)"
proof -
  define y where "y = year_of_day n"
  obtain mo d where md: "month_day (leap_year y) (n - days_before_year y) = (mo, d)" by fastforce
  have y: "0 \<le> y" "y < 10000" using year_of_day_range [OF assms(1,2)] by (simp_all add: y_def)
  have range: "days_before_month (leap_year y) mo + d - 1 = n - days_before_year y" "1 \<le> mo" "mo \<le> 12" "1 \<le> d"
    "d \<le> days_in (leap_year y) mo"
    using month_day_inverse [OF day_in_year [of n, folded y_def] md] by simp_all
  have d31: "d < 100" using range(5) by (simp add: days_in_def split: if_splits)
  let ?h = "sec div 3600" and ?mi = "sec div 60 mod 60" and ?s = "sec mod 60"
  have h: "0 \<le> ?h" "?h \<le> 23" using assms(3,4) by (simp_all add: pos_imp_zdiv_nonneg_iff)
  have "sec div 60 div 60 = ?h" by (simp flip: zdiv_zmult2_eq)
  then have "sec = ?h * 3600 + ?mi * 60 + ?s"
    using div_mult_mod_eq [of sec 60] div_mult_mod_eq [of "sec div 60" 60] by linarith
  then have sum: "civil_second y mo d ?h ?mi ?s = (n - epoch_day) * 86400 + sec"
    using range(1) by (simp add: civil_second_def algebra_simps)
  obtain a1 a2 a3 a4 where Y: "four_digits y = [a1, a2, a3, a4]"
  proof -
    have "nat y < 10000" using y by simp
    then show thesis using y that by (simp add: four_digits_def Let_def)
  qed
  obtain b1 b2 c1 c2 e1 e2 f1 f2 g1 g2 where two: "two_digits mo = [b1, b2]" "two_digits d = [c1, c2]"
    "two_digits ?h = [e1, e2]" "two_digits ?mi = [f1, f2]" "two_digits ?s = [g1, g2]"
    by (simp add: two_digits_def)
  have form: "date_text n @ ''T'' @ clock_text sec @ rest = [a1, a2, a3, a4, CHR ''-'', b1, b2, CHR ''-'', c1, c2,
      CHR ''T'', e1, e2, CHR '':'', f1, f2, CHR '':'', g1, g2] @ rest"
    using md Y two by (simp add: date_text_def clock_text_def Let_def y_def)
  have "parse_uint [a1, a2, a3, a4] 0 9999 = Some y" "parse_uint [b1, b2] 1 12 = Some mo"
    "parse_uint [c1, c2] 1 (days_in (leap_year y) mo) = Some d" "parse_uint [e1, e2] 0 23 = Some ?h"
    "parse_uint [f1, f2] 0 59 = Some ?mi" "parse_uint [g1, g2] 0 59 = Some ?s"
    using read_four_digits [OF y] Y two range d31 h
      read_two_digits [of mo 1 12] read_two_digits [of d 1 "days_in (leap_year y) mo"] read_two_digits [of ?h 0 23]
      read_two_digits [of ?mi 0 59] read_two_digits [of ?s 0 59] by simp_all
  then show ?thesis unfolding form parse_clock_def slice_def by (simp add: sum)
qed

lemma parse_formatTime:
  assumes "storable t"
  shows "parse_rfc3339 (formatTime t) = Some t"
proof -
  let ?q = "t div 1000000000" and ?ns = "t mod 1000000000"
  let ?n = "?q div 86400 + epoch_day" and ?sec = "?q mod 86400"
  note s = storable_second [OF assms]
  have n: "0 \<le> ?n" "?n < 3652425" using s by (simp_all add: epoch_day_def)
  have form: "formatTime t = date_text ?n @ ''T'' @ clock_text ?sec @ fraction_text ?ns @ ''Z''"
    by (simp add: formatTime_def second_text_def)
  have len: "length (date_text ?n @ ''T'' @ clock_text ?sec) = 19"
    using length_date_text [OF n] by (simp add: clock_text_def two_digits_def)
  then have "drop 19 (formatTime t) = fraction_text ?ns @ ''Z''" "\<not> length (formatTime t) < 19"
    unfolding form by (simp_all add: append_assoc [symmetric] del: append_assoc)
  moreover have "parse_clock (formatTime t) = Some ((?n - epoch_day) * 86400 + ?sec)"
    unfolding form by (rule read_clock [OF n]) simp_all
  moreover have "(?n - epoch_day) * 86400 + ?sec = ?q" by simp
  ultimately show ?thesis
    unfolding parse_rfc3339_def using read_fraction [of ?ns] by (simp add: parse_zone_def)
qed

text \<open>Stored timestamps survive. Every instant of the years 0 to 9999 is read back from its stored text
  exactly as it was, to the nanosecond, without ever reaching the general reader of the time package; and a
  column that may be empty is read back as it was too.\<close>

theorem parseTime_formatTime:
  assumes "storable t"
  shows "parseTime general_parse (formatTime t) = Inr t
    \<and> parseNullableTime general_parse (formatNullableTime (Some t)) = Inr (Some t)
    \<and> parseNullableTime general_parse (formatNullableTime None) = Inr None"
proof -
  have "formatTime t \<noteq> []" by (simp add: formatTime_def)
  then show ?thesis
    by (simp add: parseTime_def parse_layout_def parse_formatTime [OF assms] parseNullableTime_def formatNullableTime_def)
qed

theorem parseTime_formatTime_witness:
  "parseTime (\<lambda>s. Inl (Plain s)) (formatTime 1767225600123000000) = Inr 1767225600123000000"
  using parseTime_formatTime [of 1767225600123000000 "\<lambda>s. Inl (Plain s)"] by (simp add: storable_def)

end
