(* ===== verification/Http.thy ===== *)
theory Http
  imports TimeParse Json Query AuditTrail Store
begin

text \<open>
  Requests and responses (\<open>internal/httpapi/params.go\<close>, the bearer token of \<open>api.go\<close>, the
  rendering of \<open>internal/httpx/respond.go\<close>). A request holds what \<open>net/http\<close> hands to a handler:
  the decoded query in order, the headers, the path values of the matched pattern and the body. The text of
  the error with which the JSON decoder refuses a body is the parameter \<open>read_msg\<close>. Timestamps are
  rendered for the years 0 to 9999, outside of which \<open>encoding/json\<close> reports an error.
\<close>

section \<open>Requests\<close>

record http_request =
  hr_Method :: string
  hr_Path :: string
  hr_PathValue :: "string \<Rightarrow> string"
  hr_Query :: "(string \<times> string) list"
  hr_Header :: "string \<Rightarrow> string"
  hr_Body :: string

definition query_get :: "http_request \<Rightarrow> string \<Rightarrow> string" where
  \<comment> \<open>\<open>r.URL.Query().Get(name)\<close>\<close>
  "query_get r name = (case map_of (hr_Query r) name of Some v \<Rightarrow> v | None \<Rightarrow> [])"

definition query_all :: "http_request \<Rightarrow> string \<Rightarrow> string list" where
  "query_all r name = map snd (filter (\<lambda>(k, v). k = name) (hr_Query r))"

definition maxBodyBytes :: nat where "maxBodyBytes = 64 * 1024"

definition needs_lookahead :: "json \<Rightarrow> bool" where
  \<comment> \<open>values whose end the decoder only sees with the next byte\<close>
  "needs_lookahead v = (case v of JObject _ \<Rightarrow> False | JArray _ \<Rightarrow> False | _ \<Rightarrow> True)"

definition decodeJSON ::
  "(string \<Rightarrow> string) \<Rightarrow> string \<Rightarrow> (string \<times> 'r field_reader) list \<Rightarrow> 'r \<Rightarrow> http_request \<Rightarrow> err + 'r" where
  "decodeJSON read_msg ty flds zero r =
     (let seen = take maxBodyBytes (hr_Body r); whole = (length (hr_Body r) \<le> maxBodyBytes) in
      if whole \<and> skip_space seen = []
      then Inl (FieldError ''body'' ''must contain a JSON object'')
      else case json_value seen of
        None \<Rightarrow> Inl (FieldError ''body'' (read_msg (hr_Body r)))
      | Some (v, rest) \<Rightarrow>
          if \<not> whole \<and> rest = [] \<and> needs_lookahead v
          then Inl (FieldError ''body'' (read_msg (hr_Body r)))
          else (case read_struct True ty flds v zero of
            (Some fault, x) \<Rightarrow> Inl (FieldError ''body'' fault)
          | (None, x) \<Rightarrow>
              if \<not> whole \<or> skip_space rest \<noteq> []
              then Inl (FieldError ''body'' ''must contain exactly one JSON object'')
              else Inr x))"

definition rawBody :: "http_request \<Rightarrow> err + string" where
  "rawBody r = (if length (hr_Body r) \<le> maxBodyBytes then Inr (hr_Body r)
     else Inl (FieldError ''body'' ''could not be read''))"

definition positive_int :: "string \<Rightarrow> string \<Rightarrow> err + int" where
  \<comment> \<open>\<open>strconv.ParseInt\<close> or \<open>Atoi\<close> and the check behind it\<close>
  "positive_int name raw = (case ParseInt raw of
     None \<Rightarrow> Inl (FieldError name ''must be a positive integer'')
   | Some v \<Rightarrow> if v \<le> 0 then Inl (FieldError name ''must be a positive integer'') else Inr v)"

definition pathInt64 :: "http_request \<Rightarrow> string \<Rightarrow> err + int" where
  "pathInt64 r name = positive_int name (TrimSpace (hr_PathValue r name))"

definition queryInt64 :: "http_request \<Rightarrow> string \<Rightarrow> err + int" where
  "queryInt64 r name = (let raw = TrimSpace (query_get r name) in
     if raw = [] then Inr 0 else positive_int name raw)"

definition pageFromQuery :: "http_request \<Rightarrow> err + page" where
  "pageFromQuery r =
     (let p0 = \<lparr>pg_Number = 0, pg_Size = 0, pg_SortBy = TrimSpace (query_get r ''sort_by''),
            pg_Order = TrimSpace (query_get r ''order'')\<rparr>;
          raw = TrimSpace (query_get r ''page'');
          rawSize = TrimSpace (query_get r ''page_size'')
      in case (if raw = [] then Inr 0 else positive_int ''page'' raw) of
           Inl e \<Rightarrow> Inl e
         | Inr n \<Rightarrow> (case (if rawSize = [] then Inr 0 else positive_int ''page_size'' rawSize) of
             Inl e \<Rightarrow> Inl e
           | Inr sz \<Rightarrow> Inr (p0\<lparr>pg_Number := n, pg_Size := sz\<rparr>)))"

definition parse_bool :: "string \<Rightarrow> bool option" where
  \<comment> \<open>\<open>strconv.ParseBool\<close>\<close>
  "parse_bool s = (if s \<in> {''1'', ''t'', ''T'', ''TRUE'', ''true'', ''True''} then Some True
     else if s \<in> {''0'', ''f'', ''F'', ''FALSE'', ''false'', ''False''} then Some False else None)"

definition boolFromQuery :: "http_request \<Rightarrow> string \<Rightarrow> err + bool" where
  "boolFromQuery r name = (let raw = TrimSpace (query_get r name) in
     if raw = [] then Inr False
     else case parse_bool raw of Some b \<Rightarrow> Inr b | None \<Rightarrow> Inl (FieldError name ''must be true or false''))"

definition bearerToken :: "http_request \<Rightarrow> err + string" where
  "bearerToken r =
     (let header = TrimSpace (hr_Header r ''Authorization'') in
      if header = [] then Inl (Sentinel ErrUnauthenticated)
      else let scheme = takeWhile (\<lambda>c. c \<noteq> CHR '' '') header; rest = dropWhile (\<lambda>c. c \<noteq> CHR '' '') header in
        if rest = [] \<or> ToLower scheme \<noteq> ''bearer'' then Inl (Sentinel ErrUnauthenticated)
        else let token = TrimSpace (tl rest) in
          if token = [] then Inl (Sentinel ErrUnauthenticated) else Inr token)"

section \<open>Responses\<close>

record http_response =
  rsp_Status :: int
  rsp_Headers :: "(string \<times> string) list"
  rsp_Body :: string

definition json_headers :: "(string \<times> string) list" where
  "json_headers = [(''Content-Type'', ''application/json; charset=utf-8''), (''X-Content-Type-Options'', ''nosniff'')]"

definition WriteJSON :: "int \<Rightarrow> json option \<Rightarrow> http_response" where
  "WriteJSON status payload = \<lparr>rsp_Status = status, rsp_Headers = json_headers,
     rsp_Body = (case payload of None \<Rightarrow> [] | Some v \<Rightarrow> Encode v)\<rparr>"

definition WriteRawJSON :: "(string \<times> string) list \<Rightarrow> int \<Rightarrow> string \<Rightarrow> http_response" where
  "WriteRawJSON earlier status body = \<lparr>rsp_Status = status, rsp_Headers = earlier @ json_headers, rsp_Body = body\<rparr>"

definition error_json :: "error_body \<Rightarrow> json" where
  "error_json b = JObject [(''error'', JObject [(''code'', JString (eb_Code b)), (''message'', JString (eb_Message b)),
     (''request_id'', JString (eb_RequestID b))])]"

definition error_response :: "string \<Rightarrow> err \<Rightarrow> http_response" where
  "error_response rid e = (case WriteError rid e of (status, b) \<Rightarrow> WriteJSON status (Some (error_json b)))"

definition WriteCodedError :: "string \<Rightarrow> string \<Rightarrow> string \<Rightarrow> http_response" where
  "WriteCodedError rid code message = WriteJSON (StatusForCode code)
     (Some (error_json \<lparr>eb_Code = code, eb_Message = message, eb_RequestID = rid\<rparr>))"

definition answer :: "'a op \<Rightarrow> ('a \<Rightarrow> http_response) \<Rightarrow> http_response op" where
  \<comment> \<open>the shape of a handler: each error of its steps goes to \<open>WriteError\<close> and ends it\<close>
  "answer m view = andThen (attempt m) (\<lambda>r. case r of
     Inl e \<Rightarrow> andThen get_request_id (\<lambda>rid. ret (error_response rid e))
   | Inr x \<Rightarrow> ret (view x))"

definition json_int :: "int \<Rightarrow> json" where "json_int n = JNumber (itoa n)"

definition json_time :: "instant \<Rightarrow> json" where "json_time t = JString (formatTime t)"

definition json_time_opt :: "instant option \<Rightarrow> json" where
  "json_time_opt t = (case t of None \<Rightarrow> JNull | Some s \<Rightarrow> json_time s)"

section \<open>Facts\<close>

lemma error_response_status:
  "400 \<le> rsp_Status (error_response rid e) \<and> rsp_Status (error_response rid e) < 600"
  using StatusForCode_range [OF classify_codes [of e]]
  by (simp add: error_response_def WriteJSON_def WriteError_def Let_def)

lemma error_response_classify: "rsp_Status (error_response rid e) = StatusForCode (classify e)"
  by (simp add: error_response_def WriteJSON_def WriteError_def Let_def)

lemma bearerToken_ne: "bearerToken r = Inr token \<Longrightarrow> token \<noteq> []"
  by (auto simp: bearerToken_def Let_def split: if_splits)

end
