(* ===== verification/Presenters.thy ===== *)
theory Presenters
  imports Http EnrollmentService
begin

text \<open>
  The views of \<open>internal/httpapi/presenters.go\<close> and of the handlers, records with
  the fields of the structs, and the JSON objects \<open>encoding/json\<close> makes of them, named by the tags.
\<close>

record meetingView =
  mvw_Weekday :: string
  mvw_StartMinute :: int
  mvw_EndMinute :: int
  mvw_Room :: string
  mvw_Label :: string

definition meetingView_json :: "meetingView \<Rightarrow> json" where
  "meetingView_json v = JObject [(''weekday'', JString (mvw_Weekday v)), (''start_minute'', json_int (mvw_StartMinute v)),
     (''end_minute'', json_int (mvw_EndMinute v)), (''room'', JString (mvw_Room v)),
     (''label'', JString (mvw_Label v))]"

definition toMeetingViews :: "meeting list \<Rightarrow> meetingView list" where
  "toMeetingViews meetings = map (\<lambda>m. \<lparr>mvw_Weekday = weekday_String (mtg_Weekday m), mvw_StartMinute = mtg_StartMinute m,
     mvw_EndMinute = mtg_EndMinute m, mvw_Room = mtg_Room m, mvw_Label = meeting_Label m\<rparr>) meetings"

record sectionView =
  svw_ID :: int
  svw_TermID :: int
  svw_Code :: string
  svw_CourseCode :: string
  svw_Credits :: int
  svw_Status :: string
  svw_Capacity :: int
  svw_SeatsTaken :: int
  svw_SeatsAvailable :: int
  svw_WaitlistLimit :: int
  svw_WaitlistLength :: int
  svw_Instructor :: string
  svw_Version :: int
  svw_Meetings :: "meetingView list"

definition sectionView_json :: "sectionView \<Rightarrow> json" where
  "sectionView_json v = JObject [(''id'', json_int (svw_ID v)), (''term_id'', json_int (svw_TermID v)),
     (''code'', JString (svw_Code v)), (''course_code'', JString (svw_CourseCode v)),
     (''credits'', json_int (svw_Credits v)), (''status'', JString (svw_Status v)),
     (''capacity'', json_int (svw_Capacity v)), (''seats_taken'', json_int (svw_SeatsTaken v)),
     (''seats_available'', json_int (svw_SeatsAvailable v)),
     (''waitlist_limit'', json_int (svw_WaitlistLimit v)),
     (''waitlist_length'', json_int (svw_WaitlistLength v)),
     (''instructor'', JString (svw_Instructor v)), (''version'', json_int (svw_Version v)),
     (''meetings'', JArray (map meetingView_json (svw_Meetings v)))]"

definition toSectionView :: "course_section \<Rightarrow> sectionView" where
  "toSectionView s = \<lparr>svw_ID = sec_ID s, svw_TermID = sec_TermID s, svw_Code = sec_Code s,
     svw_CourseCode = sec_CourseCode s, svw_Credits = sec_CourseCredits s,
     svw_Status = section_status_text (sec_Status s), svw_Capacity = sec_Capacity s,
     svw_SeatsTaken = sec_SeatsTaken s, svw_SeatsAvailable = SeatsAvailable s,
     svw_WaitlistLimit = sec_WaitlistLimit s, svw_WaitlistLength = sec_WaitlistLength s,
     svw_Instructor = sec_Instructor s, svw_Version = sec_Version s,
     svw_Meetings = toMeetingViews (sec_Meetings s)\<rparr>"

record termView =
  tvw_ID :: int
  tvw_Code :: string
  tvw_Name :: string
  tvw_EnrollmentOpensAt :: instant
  tvw_EnrollmentClosesAt :: instant
  tvw_AddDropClosesAt :: instant
  tvw_CreditLimit :: int
  tvw_Archived :: bool

definition termView_json :: "termView \<Rightarrow> json" where
  "termView_json v = JObject [(''id'', json_int (tvw_ID v)), (''code'', JString (tvw_Code v)), (''name'', JString (tvw_Name v)),
     (''enrollment_opens_at'', json_time (tvw_EnrollmentOpensAt v)),
     (''enrollment_closes_at'', json_time (tvw_EnrollmentClosesAt v)),
     (''add_drop_closes_at'', json_time (tvw_AddDropClosesAt v)),
     (''credit_limit'', json_int (tvw_CreditLimit v)), (''archived'', JBool (tvw_Archived v))]"

definition toTermView :: "academic_term \<Rightarrow> termView" where
  "toTermView t = \<lparr>tvw_ID = trm_ID t, tvw_Code = trm_Code t, tvw_Name = trm_Name t,
     tvw_EnrollmentOpensAt = trm_EnrollmentOpensAt t, tvw_EnrollmentClosesAt = trm_EnrollmentClosesAt t,
     tvw_AddDropClosesAt = trm_AddDropClosesAt t, tvw_CreditLimit = trm_CreditLimit t,
     tvw_Archived = trm_Archived t\<rparr>"

record registrationView =
  rvw_ID :: int
  rvw_StudentID :: int
  rvw_TermID :: int
  rvw_Status :: string
  rvw_ProgramCode :: string
  rvw_AdvisorEmail :: string
  rvw_DormPreference :: string
  rvw_SubmittedAt :: "instant option"
  rvw_DecidedAt :: "instant option"
  rvw_DecisionNote :: string
  rvw_Version :: int

definition registrationView_json :: "registrationView \<Rightarrow> json" where
  "registrationView_json v = JObject [(''id'', json_int (rvw_ID v)), (''student_id'', json_int (rvw_StudentID v)),
     (''term_id'', json_int (rvw_TermID v)), (''status'', JString (rvw_Status v)),
     (''program_code'', JString (rvw_ProgramCode v)), (''advisor_email'', JString (rvw_AdvisorEmail v)),
     (''dorm_preference'', JString (rvw_DormPreference v)),
     (''submitted_at'', json_time_opt (rvw_SubmittedAt v)),
     (''decided_at'', json_time_opt (rvw_DecidedAt v)),
     (''decision_note'', JString (rvw_DecisionNote v)), (''version'', json_int (rvw_Version v))]"

definition toRegistrationView :: "registration \<Rightarrow> registrationView" where
  "toRegistrationView r = \<lparr>rvw_ID = reg_ID r, rvw_StudentID = reg_StudentID r, rvw_TermID = reg_TermID r,
     rvw_Status = registration_status_text (reg_Status r), rvw_ProgramCode = reg_ProgramCode r,
     rvw_AdvisorEmail = reg_AdvisorEmail r, rvw_DormPreference = reg_DormPreference r,
     rvw_SubmittedAt = reg_SubmittedAt r, rvw_DecidedAt = reg_DecidedAt r,
     rvw_DecisionNote = reg_DecisionNote r, rvw_Version = reg_Version r\<rparr>"

record enrollmentView =
  evw_ID :: int
  evw_StudentID :: int
  evw_TermID :: int
  evw_SectionID :: int
  evw_CourseCode :: string
  evw_Credits :: int
  evw_Status :: string
  evw_WaitlistRank :: int
  evw_RequestedAt :: instant
  evw_DecidedAt :: "instant option"
  evw_ReleasedAt :: "instant option"
  evw_ReleaseReason :: string
  evw_Version :: int

definition enrollmentView_json :: "enrollmentView \<Rightarrow> json" where
  "enrollmentView_json v = JObject [(''id'', json_int (evw_ID v)), (''student_id'', json_int (evw_StudentID v)),
     (''term_id'', json_int (evw_TermID v)), (''section_id'', json_int (evw_SectionID v)),
     (''course_code'', JString (evw_CourseCode v)), (''credits'', json_int (evw_Credits v)),
     (''status'', JString (evw_Status v)), (''waitlist_rank'', json_int (evw_WaitlistRank v)),
     (''requested_at'', json_time (evw_RequestedAt v)),
     (''decided_at'', json_time_opt (evw_DecidedAt v)),
     (''released_at'', json_time_opt (evw_ReleasedAt v)),
     (''release_reason'', JString (evw_ReleaseReason v)), (''version'', json_int (evw_Version v))]"

definition toEnrollmentView :: "enrollment \<Rightarrow> enrollmentView" where
  "toEnrollmentView e = \<lparr>evw_ID = enr_ID e, evw_StudentID = enr_StudentID e, evw_TermID = enr_TermID e,
     evw_SectionID = enr_SectionID e, evw_CourseCode = enr_CourseCode e, evw_Credits = enr_Credits e,
     evw_Status = enrollment_status_text (enr_Status e), evw_WaitlistRank = enr_WaitlistRank e,
     evw_RequestedAt = enr_RequestedAt e, evw_DecidedAt = enr_DecidedAt e,
     evw_ReleasedAt = enr_ReleasedAt e, evw_ReleaseReason = enr_ReleaseReason e,
     evw_Version = enr_Version e\<rparr>"

record auditEventView =
  avw_ID :: int
  avw_ActorUserID :: "int option"
  avw_ActorRole :: string
  avw_Action :: string
  avw_ObjectType :: string
  avw_ObjectID :: string
  avw_Result :: string
  avw_RequestID :: string
  avw_Detail :: string
  avw_OccurredAt :: instant

definition auditEventView_json :: "auditEventView \<Rightarrow> json" where
  "auditEventView_json v = JObject [(''id'', json_int (avw_ID v)),
     (''actor_user_id'', case avw_ActorUserID v of None \<Rightarrow> JNull | Some u \<Rightarrow> json_int u),
     (''actor_role'', JString (avw_ActorRole v)), (''action'', JString (avw_Action v)),
     (''object_type'', JString (avw_ObjectType v)), (''object_id'', JString (avw_ObjectID v)),
     (''result'', JString (avw_Result v)), (''request_id'', JString (avw_RequestID v)),
     (''detail'', JString (avw_Detail v)), (''occurred_at'', json_time (avw_OccurredAt v))]"

definition toAuditEventView :: "audit_event \<Rightarrow> auditEventView" where
  "toAuditEventView e = \<lparr>avw_ID = aud_ID e, avw_ActorUserID = aud_ActorUserID e, avw_ActorRole = aud_ActorRole e,
     avw_Action = audit_action_text (aud_Action e), avw_ObjectType = aud_ObjectType e,
     avw_ObjectID = aud_ObjectID e, avw_Result = audit_result_text (aud_Result e),
     avw_RequestID = aud_RequestID e, avw_Detail = aud_Detail e, avw_OccurredAt = aud_OccurredAt e\<rparr>"

record pageMeta =
  pmt_Total :: int
  pmt_Page :: int
  pmt_PageSize :: int
  pmt_TotalPages :: int

definition pageMeta_json :: "pageMeta \<Rightarrow> json" where
  "pageMeta_json v = JObject [(''total'', json_int (pmt_Total v)), (''page'', json_int (pmt_Page v)),
     (''page_size'', json_int (pmt_PageSize v)), (''total_pages'', json_int (pmt_TotalPages v))]"

definition newMeta :: "'a page_result \<Rightarrow> pageMeta" where
  "newMeta res = \<lparr>pmt_Total = pr_Total res, pmt_Page = pr_Page res, pmt_PageSize = pr_PageSize res,
     pmt_TotalPages = pr_TotalPages res\<rparr>"

definition listEnvelope :: "json list \<Rightarrow> pageMeta \<Rightarrow> json" where
  "listEnvelope items meta = JObject [(''items'', JArray items), (''meta'', pageMeta_json meta)]"

definition list_response :: "('a \<Rightarrow> json) \<Rightarrow> 'a page_result \<Rightarrow> http_response" where
  "list_response view res = WriteJSON 200 (Some (listEnvelope (map view (pr_Items res)) (newMeta res)))"

definition claim_body :: "claim_result \<Rightarrow> string" where
  \<comment> \<open>\<open>json.Marshal(claimResponse{...})\<close>\<close>
  "claim_body c = Marshal (JObject [(''enrollment'', enrollmentView_json (toEnrollmentView (clm_Enrollment c))),
     (''section'', sectionView_json (toSectionView (clm_Section c))), (''waitlisted'', JBool (clm_Waitlisted c))])"

definition batch_item_view :: "batch_item \<Rightarrow> json" where
  "batch_item_view i = JObject [(''section_id'', json_int (bi_SectionID i)), (''succeeded'', JBool (bi_Succeeded i)),
     (''status'', JString (case bi_Status i of None \<Rightarrow> [] | Some s \<Rightarrow> enrollment_status_text s)),
     (''code'', JString (bi_Code i)), (''message'', JString (bi_Message i))]"

definition batch_response :: "batch_item list \<Rightarrow> http_response" where
  "batch_response results =
     (let succeeded = int (length (filter bi_Succeeded results));
          failed = int (length (filter (\<lambda>i. \<not> bi_Succeeded i) results));
          status = (if failed > 0 \<and> succeeded > 0 then 207 else 200)
      in WriteJSON status (Some (JObject [(''items'', JArray (map batch_item_view results)),
           (''succeeded'', json_int succeeded), (''failed'', json_int failed)])))"

end
