(* ===== verification/CatalogService.thy ===== *)
theory CatalogService
  imports EnrollmentService
begin

text \<open>
  The read side (\<open>internal/service/catalog.go\<close>): terms, sections, rosters and the audit
  trail, with the role checks in front of the store.
\<close>

definition List_terms :: "principal \<Rightarrow> academic_term list op" where
  "List_terms actor = store_ListTerms (IsRegistrarRole actor)"

definition CurrentTerm :: "academic_term op" where
  "CurrentTerm =
     andThen (store_ListTerms False) (\<lambda>terms.
     if length terms = 0 then raise (Wrapped ''no active term'' (Sentinel ErrNotFound))
     else andThen clock_now (\<lambda>now.
       case find (\<lambda>trm. EnrollmentOpen trm now) terms of
         Some trm \<Rightarrow> ret trm
       | None \<Rightarrow> ret (hd terms)))"

definition List_sections :: "section_filter \<Rightarrow> course_section page_result op" where
  "List_sections f = store_ListSections f"

definition Get_section :: "int \<Rightarrow> course_section op" where
  "Get_section sectionID =
     (if sectionID \<le> 0 then raise (FieldError ''section_id'' ''must be a positive identifier'')
      else andThen (FindSectionByID sectionID) (\<lambda>s.
        ret (s\<lparr>sec_Meetings := SortMeetings (CloneMeetings s)\<rparr>)))"

definition SectionRoster :: "principal \<Rightarrow> int \<Rightarrow> page \<Rightarrow> enrollment page_result op" where
  "SectionRoster actor sectionID pg =
     andThen (on_error (Wrapped (''roster of section '' @ itoa sectionID))
       (check (requireRole actor RoleRegistrar))) (\<lambda>_.
     andThen (FindSectionByID sectionID) (\<lambda>_.
     store_SectionRoster sectionID pg))"

definition List_audit_events :: "principal \<Rightarrow> audit_filter \<Rightarrow> audit_event page_result op" where
  "List_audit_events actor f =
     andThen (on_error (Wrapped ''audit trail'') (check (requireRole actor RoleRegistrar))) (\<lambda>_.
     store_ListAuditEvents f)"

lemma catalog_service_reads [reads_intro]:
  "reads (List_terms actor)" "reads CurrentTerm" "reads (List_sections f)" "reads (Get_section i)"
  "reads (SectionRoster actor i pg)" "reads (List_audit_events actor af)"
  unfolding List_terms_def CurrentTerm_def List_sections_def Get_section_def SectionRoster_def List_audit_events_def
  by (intro reads_intro)+

lemma catalog_service_tame [tame_intro]:
  "tame (List_terms actor)" "tame CurrentTerm" "tame (List_sections f)" "tame (Get_section i)"
  "tame (SectionRoster actor i pg)" "tame (List_audit_events actor af)"
  unfolding List_terms_def CurrentTerm_def List_sections_def Get_section_def SectionRoster_def List_audit_events_def
  by (intro tame_intro)+

end
