(* ===== verification/Migrations.thy ===== *)
theory Migrations
  imports Transactions Security
begin

text \<open>
  The versioned schema (\<open>internal/migrations/migrations.go\<close>,
  \<open>internal/storage/sqlite/migrate.go\<close>): reading the embedded files, applying the missing ones, each in
  a transaction that records its checksum, and the schema version. Arguments stand for what the code finds
  outside: \<open>files\<close>, the embedded directory in the order of its names; \<open>verdict\<close>, SQLite's
  answer to a script on a schema built by the scripts before it; \<open>order\<close>, the order in which Go walks
  the map of applied versions. A panic is an error of its own.
\<close>

section \<open>The embedded files\<close>

record embedded_file =
  emb_Name :: string
  emb_IsDir :: bool
  emb_Raw :: string

record migration =
  mig_Version :: int
  mig_Name :: string
  mig_Script :: string
  mig_Checksum :: string

definition sql_suffix :: string where "sql_suffix = ''.sql''"

definition has_suffix :: "string \<Rightarrow> string \<Rightarrow> bool" where
  "has_suffix suf s \<longleftrightarrow> has_prefix (rev suf) (rev s)"

definition trim_suffix :: "string \<Rightarrow> string \<Rightarrow> string" where
  "trim_suffix suf s = (if has_suffix suf s then take (length s - length suf) s else s)"

definition parseName :: "string \<Rightarrow> err + int \<times> string" where
  "parseName filename =
     (let base = trim_suffix sql_suffix filename;
          version_part = takeWhile (\<lambda>c. c \<noteq> CHR ''_'') base; rest = dropWhile (\<lambda>c. c \<noteq> CHR ''_'') base
      in if rest = []
         then Inl (Plain (''migration '' @ quoted filename @ '' must be named <version>_<name>.sql''))
         else case ParseInt version_part of
           None \<Rightarrow> Inl (Plain (''migration '' @ quoted filename @ '' has a non positive version prefix''))
         | Some version \<Rightarrow>
             if version \<le> 0
             then Inl (Plain (''migration '' @ quoted filename @ '' has a non positive version prefix''))
             else if TrimSpace (tl rest) = []
             then Inl (Plain (''migration '' @ quoted filename @ '' is missing a name''))
             else Inr (version, tl rest))"

fun read_files :: "embedded_file list \<Rightarrow> (int \<times> string) list \<Rightarrow> err + migration list" where
  \<comment> \<open>the loop over the directory; \<open>seen\<close> maps the versions found to their files\<close>
  "read_files [] seen = Inr []"
| "read_files (f # fs) seen =
     (if emb_IsDir f \<or> \<not> has_suffix sql_suffix (emb_Name f) then read_files fs seen
      else case parseName (emb_Name f) of Inl e \<Rightarrow> Inl e
      | Inr (version, name) \<Rightarrow>
          (case map_of seen version of
             Some previous \<Rightarrow> Inl (Plain (''duplicate migration version '' @ itoa version @ '' in '' @ previous
               @ '' and '' @ emb_Name f))
           | None \<Rightarrow> map_sum id (Cons \<lparr>mig_Version = version, mig_Name = name, mig_Script = emb_Raw f,
               mig_Checksum = hex_encode (Sum256 (emb_Raw f))\<rparr>) (read_files fs ((version, emb_Name f) # seen))))"

fun contiguous :: "migration list \<Rightarrow> int \<Rightarrow> err option" where
  "contiguous [] i = None"
| "contiguous (m # ms) i =
     (if mig_Version m \<noteq> i
      then Some (Plain (''migration versions must be contiguous from 1, found '' @ itoa (mig_Version m)
        @ '' at position '' @ itoa i))
      else contiguous ms (i + 1))"

definition All_migrations :: "embedded_file list \<Rightarrow> err + migration list" where
  "All_migrations files = (case read_files files [] of Inl e \<Rightarrow> Inl e
     | Inr ms \<Rightarrow> if length ms = 0 then Inl (Plain ''no migrations were embedded'')
         else let sorted = sort_key mig_Version ms in
           case contiguous sorted 1 of Some e \<Rightarrow> Inl e | None \<Rightarrow> Inr sorted)"

definition LatestVersion :: "embedded_file list \<Rightarrow> err + int" where
  "LatestVersion files = map_sum id (\<lambda>ms. mig_Version (ms ! (length ms - 1))) (All_migrations files)"

section \<open>Applying them\<close>

definition create_schema_migrations :: "tables \<Rightarrow> err + (unit \<times> tables)" where
  \<comment> \<open>\<open>CREATE TABLE IF NOT EXISTS\<close>\<close>
  "create_schema_migrations t = Inr ((), case t_migrations t of None \<Rightarrow> t\<lparr>t_migrations := Some []\<rparr> | Some _ \<Rightarrow> t)"

definition applied_in :: "tables \<Rightarrow> (int \<times> string) list" where
  "applied_in t = (case t_migrations t of None \<Rightarrow> [] | Some rows \<Rightarrow>
     map (\<lambda>r. (mgr_Version r, mgr_Checksum r)) (order_by (asc mgr_Version) rows))"

definition loadAppliedMigrations :: "(int \<times> string) list op" where
  "loadAppliedMigrations = query_rows ''read schema_migrations'' ''iterate schema_migrations'' applied_in"

fun check_drift :: "migration list \<Rightarrow> (int \<times> string) list \<Rightarrow> err option" where
  \<comment> \<open>the loop over the applied versions\<close>
  "check_drift ms [] = None"
| "check_drift ms ((version, checksum) # rest) =
     (if version > int (length ms)
      then Some (Wrapped (''database has migration '' @ itoa version @ '' but the repository only ships ''
        @ itoa (int (length ms))) (Sentinel ErrMigrationDrift))
      else if version \<le> 0 then Some (Plain ''panic: runtime error: index out of range'')
      else let embedded = ms ! nat (version - 1) in
        if mig_Checksum embedded \<noteq> checksum
        then Some (Wrapped (''migration '' @ itoa version @ '' ('' @ mig_Name embedded @ '') was applied with checksum ''
          @ checksum @ '' but the repository ships '' @ mig_Checksum embedded) (Sentinel ErrMigrationDrift))
        else check_drift ms rest)"

definition run_script :: "(string list \<Rightarrow> string \<Rightarrow> err option) \<Rightarrow> string \<Rightarrow> tables \<Rightarrow> err + (unit \<times> tables)" where
  "run_script verdict script t = (case verdict (t_scripts t) script of Some e \<Rightarrow> Inl e
     | None \<Rightarrow> Inr ((), t\<lparr>t_scripts := t_scripts t @ [script]\<rparr>))"

definition insert_migration :: "migration_row \<Rightarrow> tables \<Rightarrow> err + (unit \<times> tables)" where
  "insert_migration r t = (case t_migrations t of
     None \<Rightarrow> Inl (Plain ''no such table: schema_migrations'')
   | Some rows \<Rightarrow> if list_ex (\<lambda>q. mgr_Version q = mgr_Version r) rows
       then Inl (unique_violation ''schema_migrations.version'')
       else Inr ((), t\<lparr>t_migrations := Some (rows @ [r])\<rparr>))"

definition apply_tx :: "(string list \<Rightarrow> string \<Rightarrow> err option) \<Rightarrow> migration \<Rightarrow> unit op" where
  "apply_tx verdict m =
     andThen (on_error (Wrapped (''apply migration '' @ itoa (mig_Version m) @ '' ('' @ mig_Name m @ '')''))
       (exec (run_script verdict (mig_Script m)))) (\<lambda>_.
     andThen clock_now (\<lambda>now.
     on_error (Wrapped (''record migration '' @ itoa (mig_Version m)))
       (exec (insert_migration \<lparr>mgr_Version = mig_Version m, mgr_Name = mig_Name m, mgr_Checksum = mig_Checksum m,
          mgr_AppliedAt = now\<rparr>))))"

definition applyMigration :: "(string list \<Rightarrow> string \<Rightarrow> err option) \<Rightarrow> migration \<Rightarrow> unit op" where
  "applyMigration verdict m = run_tx (Wrapped (''begin migration '' @ itoa (mig_Version m)))
     (Wrapped (''commit migration '' @ itoa (mig_Version m))) (apply_tx verdict m)"

fun apply_pending :: "(string list \<Rightarrow> string \<Rightarrow> err option) \<Rightarrow> migration list \<Rightarrow> (int \<times> string) list \<Rightarrow> int list op" where
  \<comment> \<open>the loop over the embedded migrations, with the versions it applies\<close>
  "apply_pending verdict [] applied = ret []"
| "apply_pending verdict (m # ms) applied =
     (if map_of applied (mig_Version m) \<noteq> None then apply_pending verdict ms applied
      else andThen (applyMigration verdict m) (\<lambda>_.
        andThen (apply_pending verdict ms applied) (\<lambda>versions. ret (mig_Version m # versions))))"

record migration_outcome =
  mo_Applied :: "int list"
  mo_AlreadyCurrent :: bool
  mo_Version :: int

definition Migrate ::
  "embedded_file list \<Rightarrow> (string list \<Rightarrow> string \<Rightarrow> err option) \<Rightarrow> ((int \<times> string) list \<Rightarrow> (int \<times> string) list)
    \<Rightarrow> migration_outcome op" where
  "Migrate files verdict order =
     andThen (lift_result (All_migrations files)) (\<lambda>ms.
     andThen (on_error (Wrapped ''create schema_migrations'') (exec create_schema_migrations)) (\<lambda>_.
     andThen loadAppliedMigrations (\<lambda>applied.
     andThen (check (check_drift ms (order applied))) (\<lambda>_.
     andThen (apply_pending verdict ms applied) (\<lambda>versions.
     ret \<lparr>mo_Applied = versions, mo_AlreadyCurrent = (length versions = 0), mo_Version = int (length ms)\<rparr>)))))"

definition highest_version :: "migration_row list \<Rightarrow> int option" where
  \<comment> \<open>\<open>SELECT MAX(version)\<close>, NULL without rows\<close>
  "highest_version rows = (case map mgr_Version rows of [] \<Rightarrow> None | v # vs \<Rightarrow> Some (foldr max vs v))"

definition SchemaVersion :: "int op" where
  "SchemaVersion =
     andThen (attempt (andThen (query t_migrations) (\<lambda>table. case table of
         None \<Rightarrow> raise (Plain ''no such table: schema_migrations'')
       | Some rows \<Rightarrow> ret (highest_version rows)))) (\<lambda>r. case r of
       Inl err \<Rightarrow> if is_no_rows err then ret 0 else raise (Wrapped ''read schema version'' err)
     | Inr None \<Rightarrow> ret 0
     | Inr (Some v) \<Rightarrow> ret v)"

end
