(* ===== verification/HttpApi.thy ===== *)
theory HttpApi
  imports Presenters PaperworkService CatalogService AuthService Idempotency Migrations
begin

text \<open>
  The HTTP interface (\<open>internal/httpapi\<close>, the request identifier of \<open>internal/middleware\<close>):
  one operation per handler, the bearer authentication in front of them, the routes, and the readiness
  probes. A handler takes the request and the verified principal. What the process supplies from outside is
  \<open>server\<close>: its settings, the random bytes of a login, the texts of package \<open>encoding/json\<close> and the
  general time reader.
\<close>

record server =
  srv_SessionTTL :: duration
  srv_MaxRetries :: int
  srv_ExpectedSchema :: int
  srv_Entropy :: "err + string"
  srv_ReadMsg :: "string \<Rightarrow> string"
  srv_ParseTime :: "string \<Rightarrow> err + instant"

type_synonym handler_op = "server \<Rightarrow> http_request \<Rightarrow> principal \<Rightarrow> http_response op"

section \<open>Sessions\<close>

definition handleLogin :: "server \<Rightarrow> http_request \<Rightarrow> http_response op" where
  "handleLogin srv r = answer
     (andThen (lift_result (decodeJSON (srv_ReadMsg srv) ''httpapi.loginRequest''
        [string_field ''loginRequest'' ''email'' (\<lambda>s (e, p). (s, p)),
         string_field ''loginRequest'' ''password'' (\<lambda>s (e, p). (e, s))] ([], []) r)) (\<lambda>(email, password).
      Login (srv_SessionTTL srv) (srv_Entropy srv) email password (hr_Header r ''User-Agent'')))
     (\<lambda>res. WriteJSON 201 (Some (JObject [(''token'', JString (log_Token res)),
        (''expires_at'', json_time (log_ExpiresAt res)), (''user_id'', json_int (prn_UserID (log_Principal res))),
        (''display_name'', JString (prn_DisplayName (log_Principal res))),
        (''role'', JString (role_text (prn_Role (log_Principal res))))])))"

definition handleLogout :: handler_op where
  "handleLogout srv r actor = answer (Logout actor) (\<lambda>_. WriteJSON 204 None)"

definition handleProfile :: handler_op where
  "handleProfile srv r actor = answer (ActiveSessionCount actor)
     (\<lambda>sessions. WriteJSON 200 (Some (JObject [(''user_id'', json_int (prn_UserID actor)),
        (''email'', JString (prn_Email actor)), (''display_name'', JString (prn_DisplayName actor)),
        (''role'', JString (role_text (prn_Role actor))), (''active_sessions'', json_int sessions)])))"

section \<open>Catalogue\<close>

definition handleListTerms :: handler_op where
  "handleListTerms srv r actor = answer (List_terms actor)
     (\<lambda>terms. WriteJSON 200 (Some (listEnvelope (map (\<lambda>t. termView_json (toTermView t)) terms)
        (newMeta \<lparr>pr_Items = terms, pr_Total = int (length terms), pr_Page = 1,
           pr_PageSize = int (length terms), pr_TotalPages = 1\<rparr>))))"

definition sectionStatusFromQuery :: "http_request \<Rightarrow> err + section_status option" where
  "sectionStatusFromQuery r = (let raw = ToLower (TrimSpace (query_get r ''section_status'')) in
     if raw = [] then Inr None
     else case find (\<lambda>s. section_status_text s = raw) [SectionDraft, SectionOpen, SectionClosed, SectionCancelled] of
       Some s \<Rightarrow> Inr (Some s)
     | None \<Rightarrow> Inl (FieldError ''section_status'' ''is not a section status''))"

definition handleListSections :: handler_op where
  "handleListSections srv r actor = answer
     (andThen (lift_result (pageFromQuery r)) (\<lambda>pg.
      andThen (lift_result (queryInt64 r ''term_id'')) (\<lambda>termID.
      andThen (lift_result (sectionStatusFromQuery r)) (\<lambda>status.
      andThen (lift_result (boolFromQuery r ''only_open'')) (\<lambda>onlyOpen.
      List_sections \<lparr>sf_TermID = termID, sf_CourseCode = TrimSpace (query_get r ''course_code''),
        sf_Department = TrimSpace (query_get r ''department''), sf_Status = status,
        sf_Instructor = TrimSpace (query_get r ''instructor''), sf_OnlyOpen = onlyOpen, sf_Page = pg\<rparr>)))))
     (list_response (\<lambda>x. sectionView_json (toSectionView x)))"

definition handleGetSection :: handler_op where
  "handleGetSection srv r actor = answer
     (andThen (lift_result (pathInt64 r ''sectionID'')) Get_section)
     (\<lambda>s. WriteJSON 200 (Some (sectionView_json (toSectionView s))))"

definition handleSectionRoster :: handler_op where
  "handleSectionRoster srv r actor = answer
     (andThen (lift_result (pathInt64 r ''sectionID'')) (\<lambda>sectionID.
      andThen (lift_result (pageFromQuery r)) (\<lambda>pg.
      SectionRoster actor sectionID pg)))
     (list_response (\<lambda>x. enrollmentView_json (toEnrollmentView x)))"

definition sinceFromQuery :: "server \<Rightarrow> http_request \<Rightarrow> err + instant option" where
  "sinceFromQuery srv r = (let raw = TrimSpace (query_get r ''since'') in
     if raw = [] then Inr None
     else case parse_layout (srv_ParseTime srv) raw of
       Inl e \<Rightarrow> Inl (FieldError ''since'' ''must be an RFC3339 timestamp'')
     | Inr since \<Rightarrow> Inr (Some since))"

definition handleListAuditEvents :: handler_op where
  "handleListAuditEvents srv r actor = answer
     (andThen (lift_result (pageFromQuery r)) (\<lambda>pg.
      andThen (lift_result (sinceFromQuery srv r)) (\<lambda>since.
      andThen (lift_result (queryInt64 r ''actor_user_id'')) (\<lambda>actorID.
      List_audit_events actor \<lparr>af_ActorUserID = (if actorID > 0 then Some actorID else None),
        af_Action = TrimSpace (query_get r ''action''), af_ObjectType = TrimSpace (query_get r ''object_type''),
        af_ObjectID = TrimSpace (query_get r ''object_id''), af_Since = since, af_Page = pg\<rparr>))))
     (list_response (\<lambda>x. auditEventView_json (toAuditEventView x)))"

section \<open>Paperwork\<close>

definition handleSubmitRegistration :: handler_op where
  "handleSubmitRegistration srv r actor = answer
     (andThen (lift_result (decodeJSON (srv_ReadMsg srv) ''httpapi.submitRegistrationRequest''
        [int_field ''submitRegistrationRequest'' ''student_id'' (\<lambda>n s. s\<lparr>sub_StudentID := n\<rparr>),
         int_field ''submitRegistrationRequest'' ''term_id'' (\<lambda>n s. s\<lparr>sub_TermID := n\<rparr>),
         string_field ''submitRegistrationRequest'' ''program_code'' (\<lambda>t s. s\<lparr>sub_ProgramCode := t\<rparr>),
         string_field ''submitRegistrationRequest'' ''advisor_email'' (\<lambda>t s. s\<lparr>sub_AdvisorEmail := t\<rparr>),
         string_field ''submitRegistrationRequest'' ''dorm_preference'' (\<lambda>t s. s\<lparr>sub_DormPreference := t\<rparr>)]
        \<lparr>sub_StudentID = 0, sub_TermID = 0, sub_ProgramCode = [], sub_AdvisorEmail = [], sub_DormPreference = []\<rparr> r))
      (\<lambda>inp. if sub_TermID inp \<le> 0 then raise (FieldError ''term_id'' ''must be a positive identifier'')
        else Submit actor inp))
     (\<lambda>reg. WriteJSON 201 (Some (registrationView_json (toRegistrationView reg))))"

definition registration_status_of_text :: "string \<Rightarrow> registration_status" where
  "registration_status_of_text t =
     (case find (\<lambda>s. registration_status_text s = t)
        [RegistrationDraft, RegistrationSubmitted, RegistrationVerified, RegistrationRejected] of
        Some s \<Rightarrow> s | None \<Rightarrow> RegistrationOther t)"

definition handleDecideRegistration :: handler_op where
  "handleDecideRegistration srv r actor = answer
     (andThen (lift_result (pathInt64 r ''registrationID'')) (\<lambda>registrationID.
      andThen (lift_result (decodeJSON (srv_ReadMsg srv) ''httpapi.decisionRequest''
        [string_field ''decisionRequest'' ''status'' (\<lambda>t (s, n). (t, n)),
         string_field ''decisionRequest'' ''note'' (\<lambda>t (s, n). (s, t))] ([], []) r)) (\<lambda>(status, note).
      Decide actor \<lparr>dcd_RegistrationID = registrationID, dcd_Status = registration_status_of_text status,
        dcd_Note = note\<rparr>)))
     (\<lambda>reg. WriteJSON 200 (Some (registrationView_json (toRegistrationView reg))))"

definition handleMyRegistration :: handler_op where
  "handleMyRegistration srv r actor = answer
     (andThen (lift_result (queryInt64 r ''term_id'')) (\<lambda>termID0.
      andThen (if termID0 = 0 then andThen CurrentTerm (\<lambda>trm. ret (trm_ID trm)) else ret termID0) (\<lambda>termID.
      Get_registration actor (prn_UserID actor) termID)))
     (\<lambda>reg. WriteJSON 200 (Some (registrationView_json (toRegistrationView reg))))"

definition registrationStatusFromQuery :: "http_request \<Rightarrow> err + registration_status option" where
  "registrationStatusFromQuery r = (let raw = ToLower (TrimSpace (query_get r ''status'')) in
     if raw = [] then Inr None
     else case find (\<lambda>s. registration_status_text s = raw)
         [RegistrationDraft, RegistrationSubmitted, RegistrationVerified, RegistrationRejected] of
       Some s \<Rightarrow> Inr (Some s)
     | None \<Rightarrow> Inl (FieldError ''status'' ''is not a registration status''))"

definition handleListRegistrations :: handler_op where
  "handleListRegistrations srv r actor = answer
     (andThen (lift_result (pageFromQuery r)) (\<lambda>pg.
      andThen (lift_result (queryInt64 r ''term_id'')) (\<lambda>termID.
      andThen (lift_result (registrationStatusFromQuery r)) (\<lambda>status.
      List_registrations actor termID status pg))))
     (list_response (\<lambda>x. registrationView_json (toRegistrationView x)))"

section \<open>Enrollments\<close>

definition claim_scope :: "http_request \<Rightarrow> principal \<Rightarrow> string \<Rightarrow> scope" where
  \<comment> \<open>the literal \<open>service.Scope{...}\<close> of the claim handler\<close>
  "claim_scope r actor raw = \<lparr>scp_ActorUserID = prn_UserID actor, scp_Method = hr_Method r, scp_Path = hr_Path r,
     scp_Key = TrimSpace (hr_Header r ''Idempotency-Key''), scp_Payload = raw\<rparr>"

definition claim_call :: "server \<Rightarrow> principal \<Rightarrow> int \<Rightarrow> int \<Rightarrow> (int \<times> string) op" where
  \<comment> \<open>the closure the claim handler hands to \<open>Execute\<close>\<close>
  "claim_call srv actor studentID sectionID =
     andThen (Claim (srv_MaxRetries srv) actor studentID sectionID) (\<lambda>res. ret (201, claim_body res))"

definition decode_claim :: "server \<Rightarrow> http_request \<Rightarrow> err + int \<times> int" where
  "decode_claim srv r = decodeJSON (srv_ReadMsg srv) ''httpapi.claimRequest''
     [int_field ''claimRequest'' ''student_id'' (\<lambda>n (st, sec). (n, sec)),
      int_field ''claimRequest'' ''section_id'' (\<lambda>n (st, sec). (st, n))] (0, 0) r"

definition handleClaimEnrollment :: handler_op where
  "handleClaimEnrollment srv r actor = answer
     (andThen (lift_result (rawBody r)) (\<lambda>raw.
      andThen (lift_result (decode_claim srv (r\<lparr>hr_Body := raw\<rparr>))) (\<lambda>(studentID, sectionID).
      if sectionID \<le> 0 then raise (FieldError ''section_id'' ''must be a positive identifier'')
      else Execute (claim_scope r actor raw) (claim_call srv actor studentID sectionID))))
     (\<lambda>res. WriteRawJSON (if out_Replayed res then [(''Idempotent-Replay'', ''true'')] else [])
        (out_Status res) (out_Body res))"

definition handleBatchClaim :: handler_op where
  "handleBatchClaim srv r actor = answer
     (andThen (lift_result (decodeJSON (srv_ReadMsg srv) ''httpapi.batchClaimRequest''
        [int_field ''batchClaimRequest'' ''student_id'' (\<lambda>n (st, secs). (n, secs)),
         ints_field ''batchClaimRequest'' ''section_ids'' (\<lambda>ns (st, secs). (st, ns))] (0, []) r)) (\<lambda>(studentID, sectionIDs).
      andThen (BatchClaim (srv_MaxRetries srv) actor studentID sectionIDs) (\<lambda>(results, failure). case failure of
        Some e \<Rightarrow> raise e
      | None \<Rightarrow> ret results)))
     batch_response"

definition knownStatuses :: "enrollment_status list" where
  \<comment> \<open>the statuses \<open>knownEnrollmentStatus\<close> accepts\<close>
  "knownStatuses = [EnrollmentPending, EnrollmentEnrolled, EnrollmentWaitlisted, EnrollmentDropped,
     EnrollmentWithdrawn, EnrollmentCompleted]"

fun read_statuses :: "string list \<Rightarrow> err + enrollment_status list" where
  \<comment> \<open>the loops over the parts of the status filter\<close>
  "read_statuses [] = Inr []"
| "read_statuses (part # parts) =
     (let trimmed = ToLower (TrimSpace part) in
      if trimmed = [] then read_statuses parts
      else case find (\<lambda>s. enrollment_status_text s = trimmed) knownStatuses of
        None \<Rightarrow> Inl (FieldError ''status'' (quoted trimmed @ '' is not an enrollment status''))
      | Some s \<Rightarrow> map_sum id (Cons s) (read_statuses parts))"

definition enrollmentStatusesFromQuery :: "http_request \<Rightarrow> err + enrollment_status list" where
  "enrollmentStatusesFromQuery r = read_statuses (concat (map (split_on CHR '','') (query_all r ''status'')))"

definition handleListEnrollments :: handler_op where
  "handleListEnrollments srv r actor = answer
     (andThen (lift_result (pageFromQuery r)) (\<lambda>pg.
      andThen (lift_result (queryInt64 r ''student_id'')) (\<lambda>studentID.
      andThen (lift_result (queryInt64 r ''term_id'')) (\<lambda>termID.
      andThen (lift_result (queryInt64 r ''section_id'')) (\<lambda>sectionID.
      andThen (lift_result (enrollmentStatusesFromQuery r)) (\<lambda>statuses.
      List_enrollments actor \<lparr>ef_StudentID = studentID, ef_TermID = termID, ef_SectionID = sectionID,
        ef_Statuses = statuses, ef_Page = pg\<rparr>))))))
     (list_response (\<lambda>x. enrollmentView_json (toEnrollmentView x)))"

definition handleGetEnrollment :: handler_op where
  "handleGetEnrollment srv r actor = answer
     (andThen (lift_result (pathInt64 r ''enrollmentID'')) (Get_enrollment actor))
     (\<lambda>e. WriteJSON 200 (Some (enrollmentView_json (toEnrollmentView e))))"

definition handleDropEnrollment :: handler_op where
  "handleDropEnrollment srv r actor = answer
     (andThen (lift_result (pathInt64 r ''enrollmentID'')) (\<lambda>enrollmentID.
      Drop actor enrollmentID (TrimSpace (query_get r ''reason''))))
     (\<lambda>e. WriteJSON 200 (Some (enrollmentView_json (toEnrollmentView e))))"

section \<open>Probes\<close>

definition handleLiveness :: "http_response op" where
  "handleLiveness = ret (WriteJSON 200 (Some (JObject [(''status'', JString ''alive'')])))"

definition readiness_json :: "string \<Rightarrow> int \<Rightarrow> int \<Rightarrow> json" where
  "readiness_json status version expected = JObject [(''status'', JString status),
     (''schema_version'', json_int version), (''expected_schema_version'', json_int expected)]"

definition handleReadiness :: "server \<Rightarrow> http_response op" where
  "handleReadiness srv =
     andThen get_request_id (\<lambda>rid.
     andThen (attempt Ping) (\<lambda>ping. case ping of
       Inl _ \<Rightarrow> ret (WriteCodedError rid ''migration_drift'' ''The database is not reachable.'')
     | Inr _ \<Rightarrow> andThen (attempt SchemaVersion) (\<lambda>ver. case ver of
         Inl _ \<Rightarrow> ret (WriteCodedError rid ''migration_drift'' ''The schema version could not be read.'')
       | Inr version \<Rightarrow>
           if version \<noteq> srv_ExpectedSchema srv
           then ret (WriteJSON 503 (Some (readiness_json ''schema_mismatch'' version (srv_ExpectedSchema srv))))
           else ret (WriteJSON 200 (Some (readiness_json ''ready'' version (srv_ExpectedSchema srv)))))))"

section \<open>Routing\<close>

definition authenticated :: "handler_op \<Rightarrow> server \<Rightarrow> http_request \<Rightarrow> http_response op" where
  "authenticated next_handler srv r =
     andThen get_request_id (\<lambda>rid.
     case bearerToken r of
       Inl e \<Rightarrow> ret (error_response rid e)
     | Inr token \<Rightarrow> andThen (attempt (Authenticate token)) (\<lambda>p. case p of
         Inl e \<Rightarrow> ret (error_response rid e)
       | Inr actor \<Rightarrow> next_handler srv r actor))"

datatype route =
    Open_route "server \<Rightarrow> http_request \<Rightarrow> http_response op"
  | Guarded handler_op

datatype path_seg = Lit string | Wild string

fun match_path :: "path_seg list \<Rightarrow> string list \<Rightarrow> (string \<times> string) list option" where
  \<comment> \<open>\<open>net/http\<close>: a wildcard binds exactly one segment, never an empty one\<close>
  "match_path [] [] = Some []"
| "match_path (Lit l # ps) (s # ss) = (if l = s then match_path ps ss else None)"
| "match_path (Wild n # ps) (s # ss) = (if s = [] then None else map_option (Cons (n, s)) (match_path ps ss))"
| "match_path _ _ = None"

definition api_v1 :: "path_seg list \<Rightarrow> path_seg list" where
  "api_v1 ps = Lit ''api'' # Lit ''v1'' # ps"

definition Routes :: "(string \<times> path_seg list \<times> route) list" where
  \<comment> \<open>no two patterns of one method match the same path, so the order does not matter\<close>
  "Routes =
    [(''GET'', [Lit ''healthz''], Open_route (\<lambda>_ _. handleLiveness)),
     (''GET'', [Lit ''readyz''], Open_route (\<lambda>srv _. handleReadiness srv)),
     (''POST'', api_v1 [Lit ''auth'', Lit ''login''], Open_route handleLogin),
     (''POST'', api_v1 [Lit ''auth'', Lit ''logout''], Guarded handleLogout),
     (''GET'', api_v1 [Lit ''auth'', Lit ''me''], Guarded handleProfile),
     (''GET'', api_v1 [Lit ''terms''], Guarded handleListTerms),
     (''GET'', api_v1 [Lit ''sections''], Guarded handleListSections),
     (''GET'', api_v1 [Lit ''sections'', Wild ''sectionID''], Guarded handleGetSection),
     (''GET'', api_v1 [Lit ''sections'', Wild ''sectionID'', Lit ''roster''], Guarded handleSectionRoster),
     (''POST'', api_v1 [Lit ''registrations''], Guarded handleSubmitRegistration),
     (''GET'', api_v1 [Lit ''registrations''], Guarded handleListRegistrations),
     (''GET'', api_v1 [Lit ''registrations'', Lit ''mine''], Guarded handleMyRegistration),
     (''POST'', api_v1 [Lit ''registrations'', Wild ''registrationID'', Lit ''decision''],
        Guarded handleDecideRegistration),
     (''POST'', api_v1 [Lit ''enrollments''], Guarded handleClaimEnrollment),
     (''POST'', api_v1 [Lit ''enrollments'', Lit ''batch''], Guarded handleBatchClaim),
     (''GET'', api_v1 [Lit ''enrollments''], Guarded handleListEnrollments),
     (''GET'', api_v1 [Lit ''enrollments'', Wild ''enrollmentID''], Guarded handleGetEnrollment),
     (''DELETE'', api_v1 [Lit ''enrollments'', Wild ''enrollmentID''], Guarded handleDropEnrollment),
     (''GET'', api_v1 [Lit ''audit-events''], Guarded handleListAuditEvents)]"

fun find_route :: "(string \<times> path_seg list \<times> route) list \<Rightarrow> string \<Rightarrow> string list \<Rightarrow> (route \<times> (string \<times> string) list) option" where
  "find_route [] m ss = None"
| "find_route ((m', ps, rt) # others) m ss =
     (if m' = m then case match_path ps ss of Some vals \<Rightarrow> Some (rt, vals) | None \<Rightarrow> find_route others m ss
      else find_route others m ss)"

definition run_route :: "route \<Rightarrow> server \<Rightarrow> http_request \<Rightarrow> http_response op" where
  "run_route rt = (case rt of Open_route h \<Rightarrow> h | Guarded h \<Rightarrow> authenticated h)"

definition dispatch :: "server \<Rightarrow> string list \<Rightarrow> http_request \<Rightarrow> http_response op option" where
  \<comment> \<open>the handler of a request whose path has these unescaped segments; \<open>None\<close> is answered by
    \<open>net/http\<close>. A HEAD request runs the handler of GET.\<close>
  "dispatch srv segments r =
     (case find_route Routes (if hr_Method r = ''HEAD'' then ''GET'' else hr_Method r) segments of
        None \<Rightarrow> None
      | Some (rt, vals) \<Rightarrow>
          Some (run_route rt srv
            (r\<lparr>hr_PathValue := (\<lambda>n. case map_of vals n of Some v \<Rightarrow> v | None \<Rightarrow> [])\<rparr>)))"

section \<open>The request identifier\<close>

definition validRequestID :: "string \<Rightarrow> bool" where
  "validRequestID v \<longleftrightarrow> \<not> (length v < 4 \<or> length v > 64)
     \<and> list_all (\<lambda>c. (CHR ''a'' \<le> c \<and> c \<le> CHR ''z'') \<or> (CHR ''A'' \<le> c \<and> c \<le> CHR ''Z'') \<or> is_digit c
         \<or> c = CHR ''-'' \<or> c = CHR ''_'') v"

definition with_id :: "string \<Rightarrow> http_response op \<Rightarrow> http_response op" where
  \<comment> \<open>the identifier goes into the context and is echoed\<close>
  "with_id rid h = (\<lambda>w. case h (w\<lparr>w_request_id := rid\<rparr>) of
     (r, w') \<Rightarrow> (map_sum id (\<lambda>rsp. rsp\<lparr>rsp_Headers := (''X-Request-Id'', rid) # rsp_Headers rsp\<rparr>) r, w'))"

definition RequestID :: "err + string \<Rightarrow> http_request \<Rightarrow> http_response op \<Rightarrow> http_response op" where
  "RequestID entropy r h =
     (let given = hr_Header r ''X-Request-Id'' in
      if validRequestID given then with_id given h
      else case NewRequestID entropy of
        Inl _ \<Rightarrow> ret (WriteCodedError [] ''internal_error'' ''Could not allocate a request identifier.'')
      | Inr generated \<Rightarrow> with_id generated h)"

end
