(* ===== verification/HttpProperties.thy ===== *)
theory HttpProperties
  imports HttpApi AuthProperties SeatProperties
begin

text \<open>
  What the HTTP interface promises: every request that has a route is answered, nothing but an error is
  answered without a live session, the registrar's endpoints are closed to everybody else, a repeated claim
  is replayed byte for byte, and students only see their own records.
\<close>

section \<open>Answers\<close>

lemma answer_run:
  "answer m shown w = (case m w of (Inl e, w') \<Rightarrow> (Inr (error_response (w_request_id w') e), w')
     | (Inr x, w') \<Rightarrow> (Inr (shown x), w'))"
  by (auto simp: answer_def andThen_def attempt_def get_request_id_def ret_def split: prod.split sum.split)

definition responds :: "http_response op \<Rightarrow> bool" where
  "responds h \<longleftrightarrow> (\<forall>w. \<exists>rsp w'. h w = (Inr rsp, w'))"

lemma responds_answer: "responds (answer m shown)"
  by (auto simp: responds_def answer_run split: prod.split sum.split)

lemma responds_handlers:
  "responds (handleLogin srv r)" "responds (handleLogout srv r actor)" "responds (handleProfile srv r actor)"
  "responds (handleListTerms srv r actor)" "responds (handleListSections srv r actor)"
  "responds (handleGetSection srv r actor)" "responds (handleSectionRoster srv r actor)"
  "responds (handleSubmitRegistration srv r actor)" "responds (handleListRegistrations srv r actor)"
  "responds (handleMyRegistration srv r actor)" "responds (handleDecideRegistration srv r actor)"
  "responds (handleClaimEnrollment srv r actor)" "responds (handleBatchClaim srv r actor)"
  "responds (handleListEnrollments srv r actor)" "responds (handleGetEnrollment srv r actor)"
  "responds (handleDropEnrollment srv r actor)" "responds (handleListAuditEvents srv r actor)"
  unfolding handleLogin_def handleLogout_def handleProfile_def handleListTerms_def handleListSections_def
    handleGetSection_def handleSectionRoster_def handleSubmitRegistration_def handleListRegistrations_def
    handleMyRegistration_def handleDecideRegistration_def handleClaimEnrollment_def handleBatchClaim_def
    handleListEnrollments_def handleGetEnrollment_def handleDropEnrollment_def handleListAuditEvents_def
  by (rule responds_answer)+

lemma responds_probes: "responds handleLiveness" "responds (handleReadiness srv)"
  by (auto simp: responds_def handleLiveness_def handleReadiness_def andThen_def attempt_def get_request_id_def
      ret_def split: prod.split sum.split)

lemma authenticated_run:
  "authenticated h srv r w = (case bearerToken r of
       Inl e \<Rightarrow> (Inr (error_response (w_request_id w) e), w)
     | Inr token \<Rightarrow> (case Authenticate token w of
         (Inl e, w') \<Rightarrow> (Inr (error_response (w_request_id w) e), w')
       | (Inr actor, w') \<Rightarrow> h srv r actor w'))"
  by (auto simp: authenticated_def andThen_def attempt_def get_request_id_def ret_def split: prod.split sum.split)

lemma responds_authenticated: "(\<And>actor. responds (h srv r actor)) \<Longrightarrow> responds (authenticated h srv r)"
  by (auto simp: responds_def authenticated_run split: prod.split sum.split)

section \<open>Routes\<close>

lemma match_path_Lit [simp]:
  "match_path (Lit l # ps) ss = Some v \<longleftrightarrow> (\<exists>rest. ss = l # rest \<and> match_path ps rest = Some v)"
  by (cases ss) auto

lemma match_path_Wild [simp]:
  "match_path (Wild n # ps) ss = Some v \<longleftrightarrow> (\<exists>s rest vals. ss = s # rest \<and> s \<noteq> [] \<and> match_path ps rest = Some vals
     \<and> v = (n, s) # vals)"
  by (cases ss) auto

lemma match_path_Nil [simp]: "match_path [] ss = Some v \<longleftrightarrow> ss = [] \<and> v = []"
  by (cases ss) auto

lemma find_route_Some:
  "find_route rs m ss = Some (rt, vals) \<Longrightarrow> \<exists>ps. (m, ps, rt) \<in> set rs \<and> match_path ps ss = Some vals"
  by (induction rs m ss rule: find_route.induct) (auto split: if_splits option.splits)

definition open_path :: "string list \<Rightarrow> bool" where
  \<comment> \<open>the paths served without a session\<close>
  "open_path ss \<longleftrightarrow> ss = [''healthz''] \<or> ss = [''readyz''] \<or> ss = [''api'', ''v1'', ''auth'', ''login'']"

lemma route_guarded:
  assumes "find_route Routes m ss = Some (rt, vals)" "\<not> open_path ss"
  shows "\<exists>h. rt = Guarded h"
proof -
  obtain ps where "(m, ps, rt) \<in> set Routes" "match_path ps ss = Some vals"
    using find_route_Some [OF assms(1)] by blast
  then show ?thesis using assms(2) by (auto simp: Routes_def api_v1_def open_path_def)
qed

lemma route_responds:
  assumes "find_route Routes m ss = Some (rt, vals)"
  shows "responds (run_route rt srv r)"
proof -
  obtain ps where "(m, ps, rt) \<in> set Routes" using find_route_Some [OF assms] by blast
  then show ?thesis
    by (auto simp: Routes_def run_route_def intro: responds_handlers responds_probes intro!: responds_authenticated)
qed

lemma dispatch_Some:
  assumes "dispatch srv ss r = Some h"
  obtains rt vals r' where "find_route Routes (if hr_Method r = ''HEAD'' then ''GET'' else hr_Method r) ss = Some (rt, vals)"
    "h = run_route rt srv r'" "bearerToken r' = bearerToken r"
  using assms by (auto simp: dispatch_def bearerToken_def split: option.splits prod.splits)

section \<open>Sessions behind the requests\<close>

definition speaks_for :: "http_request \<Rightarrow> tables \<Rightarrow> instant \<Rightarrow> session \<Rightarrow> user \<Rightarrow> bool" where
  \<comment> \<open>the request carries the token of this stored session, which is neither revoked nor expired at that
    time and belongs to this enabled account\<close>
  "speaks_for r t now s u \<longleftrightarrow> map_sum (\<lambda>_. ()) TokenDigest (bearerToken r) = Inr (ses_TokenDigest s)
     \<and> s \<in> set (tbl_rows (t_sessions t)) \<and> ses_RevokedAt s = None \<and> now < ses_ExpiresAt s
     \<and> u \<in> set (tbl_rows (t_users t)) \<and> usr_ID u = ses_UserID s \<and> \<not> usr_Disabled u"

definition sessions_only :: "tables \<Rightarrow> tables \<Rightarrow> bool" where
  "sessions_only t t' \<longleftrightarrow> (\<exists>rows. t' = t\<lparr>t_sessions := rows\<rparr>)"

interpretation sessions_only: evolution sessions_only
proof
  show "sessions_only t t" for t
    unfolding sessions_only_def by (rule exI [of _ "t_sessions t"]) simp
  show "sessions_only t v" if "sessions_only t u" "sessions_only u v" for t u v
    using that by (auto simp: sessions_only_def)
qed

lemma Authenticate_sessions_only: "sessions_only.keeps (Authenticate token)"
proof -
  have touch: "sessions_only.keeps (TouchSession i at)" for i at
    unfolding TouchSession_def
    by (intro sessions_only.keeps_andThen sessions_only.keeps_on_error sessions_only.keeps_exec
        sessions_only.keeps_basic sessions_only.keeps_if) (auto simp: update_session_def sessions_only_def)
  show ?thesis
    unfolding Authenticate_def find_bearer_def touch_bearer_def
    by (intro sessions_only.keeps_andThen sessions_only.keeps_on_error sessions_only.keeps_basic
        sessions_only.keeps_if sessions_only.keeps_attempt sessions_only.keeps_sum touch
        sessions_only.keeps_reads [OF account_reads(1)] sessions_only.keeps_reads [OF account_reads(2)]
        sessions_only.keeps_reads [OF account_reads(3)])
qed

lemma find_bearer_session:
  assumes "find_bearer token w = (Inr s, w')"
  shows "s \<in> set (tbl_rows (t_sessions (tb w)))" "ses_TokenDigest s = TokenDigest token"
  using assms unfolding find_bearer_def recovered_Inr
  by (auto simp: FindSessionByDigest_def op_simps session_by_digest_def dest!: first_where_Some)

lemma Authenticate_cases:
  assumes "Authenticate token w = (r, w')" "bearerToken req = Inr token"
  shows "tb w' = tb w \<and> (\<exists>e. r = Inl e) \<or> (\<exists>s u n. speaks_for req (tb w) (w_clock w n) s u
    \<and> (r = Inr (principal_of u (ses_ID s)) \<or> (\<exists>e. r = Inl e)))"
proof -
  have reads: "reads (find_bearer token)"
    unfolding find_bearer_def by (intro reads_intro)
  have tame: "tame (find_bearer token)"
    unfolding find_bearer_def by (intro tame_intro)
  obtain f w1 where f: "find_bearer token w = (f, w1)" by fastforce
  have w1: "tb w1 = tb w" "w_clock w1 = w_clock w"
    using reads_result [OF reads f] tame_result [OF tame f] by (simp_all add: same_env_def)
  have tok: "token \<noteq> []" by (rule bearerToken_ne [OF assms(2)])
  show ?thesis
  proof (cases f)
    case (Inl e)
    then show ?thesis using assms(1) tok f w1(1) by (auto simp: Authenticate_def andThen_def)
  next
    case (Inr s)
    let ?now = "w_clock w (w_tick w1)"
    note s = find_bearer_session [OF f [unfolded Inr]]
    obtain g w2 where g: "FindUserByID (ses_UserID s) (tick w1) = (g, w2)" by fastforce
    have w2: "tb w2 = tb w" using reads_result [OF account_reads(2) g] w1 by simp
    have rest: "(r, w') = (case ses_Validate s ?now of
        Some e \<Rightarrow> (Inl (Wrapped (''session '' @ itoa (ses_ID s) @ '' is not usable'') e), tick w1)
      | None \<Rightarrow> (case g of Inl e \<Rightarrow> (Inl e, w2)
        | Inr u \<Rightarrow> if usr_Disabled u
            then (Inl (Wrapped (''account '' @ usr_Email u @ '' is disabled'') (Sentinel ErrForbidden)), w2)
            else andThen (touch_bearer (ses_ID s) ?now) (\<lambda>_. ret (principal_of u (ses_ID s))) w2))"
      using assms(1) tok f w1(2) g unfolding Authenticate_def Inr
      by (auto simp: andThen_def [of "find_bearer token"] andThen_def [of clock_now] clock_now_def
          andThen_def [of "on_error _ _"] on_error_def check_def andThen_def [of "FindUserByID _"] raise_def
          split: option.splits sum.splits if_splits prod.splits)
    show ?thesis
    proof (cases "ses_Validate s ?now")
      case None
      have live: "ses_RevokedAt s = None" "?now < ses_ExpiresAt s"
        using None by (auto simp: ses_Validate_def ses_Revoked_def ses_Expired_def split: if_splits)
      show ?thesis
      proof (cases g)
        case (Inl e)
        then show ?thesis using rest None w2 by simp
      next
        case (Inr u)
        show ?thesis
        proof (cases "usr_Disabled u")
          case True
          then show ?thesis using rest None Inr w2 by simp
        next
          case False
          have u: "u \<in> set (tbl_rows (t_users (tb w)))" "usr_ID u = ses_UserID s"
            using g Inr w1(1) by (auto simp: FindUserByID_def op_simps dest!: first_where_Some)
          have "andThen (touch_bearer (ses_ID s) ?now) (\<lambda>_. ret (principal_of u (ses_ID s))) w2 = (r, w')"
            using rest None Inr False by simp
          then have "r = Inr (principal_of u (ses_ID s)) \<or> (\<exists>e. r = Inl e)"
            by (auto simp: andThen_def ret_def split: prod.splits sum.splits)
          moreover have "speaks_for req (tb w) ?now s u"
            using s live u False assms(2) by (simp add: speaks_for_def)
          ultimately show ?thesis by blast
        qed
      qed
    qed (use rest w1 in simp)
  qed
qed

section \<open>The registrar's endpoints\<close>

definition registrar_routes :: "(string \<times> path_seg list) list" where
  "registrar_routes =
    [(''GET'', api_v1 [Lit ''registrations'']),
     (''POST'', api_v1 [Lit ''registrations'', Wild ''registrationID'', Lit ''decision'']),
     (''GET'', api_v1 [Lit ''sections'', Wild ''sectionID'', Lit ''roster'']),
     (''GET'', api_v1 [Lit ''audit-events''])]"

definition registrar_only :: "string \<Rightarrow> string list \<Rightarrow> bool" where
  "registrar_only m ss \<longleftrightarrow> list_ex (\<lambda>(m', ps). m' = m \<and> match_path ps ss \<noteq> None) registrar_routes"

definition fails :: "'a op \<Rightarrow> bool" where
  \<comment> \<open>ends in an error and changes nothing\<close>
  "fails m \<longleftrightarrow> (\<forall>w. \<exists>e w'. m w = (Inl e, w') \<and> tb w' = tb w)"

lemma fails_first: "fails m \<Longrightarrow> fails (andThen m f)"
  by (auto simp: fails_def andThen_def split: prod.splits sum.splits) (metis Inl_Inr_False prod.inject sum.inject(1))+

lemma fails_later:
  assumes "reads m" "\<And>x. fails (f x)"
  shows "fails (andThen m f)"
  unfolding fails_def
proof
  fix w
  obtain s w1 where m: "m w = (s, w1)" by fastforce
  then have "tb w1 = tb w" using assms(1) by (metis reads_result)
  then show "\<exists>e w'. andThen m f w = (Inl e, w') \<and> tb w' = tb w"
  proof (cases s)
    case (Inr x)
    obtain e w2 where "f x w1 = (Inl e, w2)" "tb w2 = tb w1" using assms(2) unfolding fails_def by blast
    then show ?thesis using m Inr \<open>tb w1 = tb w\<close> by (auto simp: andThen_def)
  qed (use m \<open>tb w1 = tb w\<close> in \<open>auto simp: andThen_def\<close>)
qed

lemma fails_role: "prn_Role actor \<noteq> role \<Longrightarrow> fails (on_error g (check (requireRole actor role)))"
  by (auto simp: fails_def on_error_def check_def requireRole_def)

lemma fails_answer:
  assumes "fails m"
  shows "\<exists>rsp w'. answer m shown w = (Inr rsp, w') \<and> 400 \<le> rsp_Status rsp \<and> tb w' = tb w"
proof -
  obtain e w' where "m w = (Inl e, w')" "tb w' = tb w" using assms unfolding fails_def by blast
  then show ?thesis using error_response_status by (auto simp: answer_run)
qed

lemma registrar_handlers_refuse:
  assumes "prn_Role actor \<noteq> RoleRegistrar"
    and "h \<in> {handleListRegistrations, handleDecideRegistration, handleSectionRoster, handleListAuditEvents}"
  shows "\<exists>rsp w'. h srv r actor w = (Inr rsp, w') \<and> 400 \<le> rsp_Status rsp \<and> tb w' = tb w"
proof -
  note role = fails_first [OF fails_role [OF assms(1)]]
  have ops: "fails (List_registrations actor i st pg)" "fails (Decide actor inp)" "fails (SectionRoster actor i pg)"
    "fails (List_audit_events actor f)" for i st pg inp f
    unfolding List_registrations_def Decide_def SectionRoster_def List_audit_events_def by (rule role)+
  have which: "h = handleListRegistrations \<or> h = handleDecideRegistration \<or> h = handleSectionRoster
    \<or> h = handleListAuditEvents" using assms(2) by simp
  have two: "fails (case p of (a, b) \<Rightarrow> Decide actor (k a b))" for p :: "string \<times> string" and k
    by (cases p) (simp add: ops)
  show ?thesis
    using which
    by (elim disjE; simp only: handleListRegistrations_def handleDecideRegistration_def handleSectionRoster_def
        handleListAuditEvents_def; intro fails_answer fails_later reads_basic(3) ops two)
qed

lemma registrar_route:
  assumes "registrar_only m ss" "find_route Routes m ss = Some (rt, vals)"
  shows "\<exists>h \<in> {handleListRegistrations, handleDecideRegistration, handleSectionRoster, handleListAuditEvents}. rt = Guarded h"
proof -
  obtain ps where ps: "(m, ps, rt) \<in> set Routes" "match_path ps ss = Some vals"
    using find_route_Some [OF assms(2)] by blast
  obtain qs vs where qs: "(m, qs) \<in> set registrar_routes" "match_path qs ss = Some vs"
    using assms(1) by (auto simp: registrar_only_def list_ex_iff)
  from qs(1) consider "m = ''GET''" "qs = api_v1 [Lit ''registrations'']"
    | "m = ''POST''" "qs = api_v1 [Lit ''registrations'', Wild ''registrationID'', Lit ''decision'']"
    | "m = ''GET''" "qs = api_v1 [Lit ''sections'', Wild ''sectionID'', Lit ''roster'']"
    | "m = ''GET''" "qs = api_v1 [Lit ''audit-events'']"
    unfolding registrar_routes_def by auto
  then show ?thesis
    by cases (use ps qs(2) in \<open>auto simp: Routes_def api_v1_def\<close>)
qed

section \<open>Closed without a session\<close>

text \<open>C33: nothing is served without a session. Every request that has a route is answered, whatever fails on
  the way; on any path but the login and the probes, either it carries the token of a stored session,
  neither revoked nor expired, of an enabled account, or the answer is an error status and the database is
  unchanged.\<close>

theorem requests_need_a_session:
  assumes "dispatch srv ss r = Some h" "\<not> open_path ss" "h w = (res, w')"
  shows "\<exists>rsp. res = Inr rsp \<and> ((\<exists>s u n. speaks_for r (tb w) (w_clock w n) s u)
    \<or> 400 \<le> rsp_Status rsp \<and> rsp_Status rsp < 600 \<and> tb w' = tb w)"
proof -
  obtain rt vals r' where route: "find_route Routes (if hr_Method r = ''HEAD'' then ''GET'' else hr_Method r) ss = Some (rt, vals)"
    and h: "h = run_route rt srv r'" and bearer: "bearerToken r' = bearerToken r"
    by (rule dispatch_Some [OF assms(1)])
  obtain g where g: "rt = Guarded g" using route_guarded [OF route assms(2)] by blast
  have run: "authenticated g srv r' w = (res, w')" using assms(3) by (simp add: h g run_route_def)
  obtain rsp where rsp: "res = Inr rsp"
    using route_responds [OF route, of srv r'] assms(3) unfolding h responds_def by (metis prod.inject)
  show ?thesis
  proof (cases "bearerToken r")
    case (Inl e)
    then show ?thesis using run bearer rsp error_response_status by (auto simp: authenticated_run)
  next
    case (Inr token)
    obtain a w1 where a: "Authenticate token w = (a, w1)" by fastforce
    show ?thesis using Authenticate_cases [OF a Inr]
    proof (elim disjE conjE exE)
      fix e assume "tb w1 = tb w" "a = Inl e"
      then show ?thesis using run bearer rsp Inr a error_response_status by (auto simp: authenticated_run)
    qed (use rsp in blast)+
  qed
qed

text \<open>C36: the registrar's endpoints are closed to everybody else. A request to the registration list, a
  decision, a roster or the audit trail either carries the token of a live session of a registrar, or is
  answered with an error status and changes nothing but the session rows.\<close>

theorem registrar_endpoints_closed:
  assumes "dispatch srv ss r = Some h" "registrar_only (if hr_Method r = ''HEAD'' then ''GET'' else hr_Method r) ss"
    and "h w = (res, w')"
  shows "\<exists>rsp. res = Inr rsp \<and> ((\<exists>s u n. speaks_for r (tb w) (w_clock w n) s u \<and> usr_Role u = RoleRegistrar)
    \<or> 400 \<le> rsp_Status rsp \<and> sessions_only (tb w) (tb w'))"
proof -
  obtain rt vals r' where route: "find_route Routes (if hr_Method r = ''HEAD'' then ''GET'' else hr_Method r) ss = Some (rt, vals)"
    and h: "h = run_route rt srv r'" and bearer: "bearerToken r' = bearerToken r"
    by (rule dispatch_Some [OF assms(1)])
  obtain g where g: "rt = Guarded g"
    "g \<in> {handleListRegistrations, handleDecideRegistration, handleSectionRoster, handleListAuditEvents}"
    using registrar_route [OF assms(2) route] by blast
  have run: "authenticated g srv r' w = (res, w')" using assms(3) by (simp add: h g run_route_def)
  show ?thesis
  proof (cases "bearerToken r")
    case (Inl e)
    then show ?thesis using run bearer error_response_status by (auto simp: authenticated_run sessions_only.refl)
  next
    case (Inr token)
    obtain a w1 where a: "Authenticate token w = (a, w1)" by fastforce
    have same: "sessions_only (tb w) (tb w1)"
      using sessions_only.keeps_result [OF Authenticate_sessions_only a] .
    show ?thesis
    proof (cases a)
      case (Inl e)
      then show ?thesis using run bearer Inr a same error_response_status by (auto simp: authenticated_run)
    next
      case actor: (Inr actor)
      have rest: "g srv r' actor w1 = (res, w')" using run bearer Inr a actor by (simp add: authenticated_run)
      obtain s u n where su: "speaks_for r (tb w) (w_clock w n) s u" "actor = principal_of u (ses_ID s)"
        using Authenticate_cases [OF a Inr] actor by auto
      show ?thesis
      proof (cases "prn_Role actor = RoleRegistrar")
        case True
        obtain rsp where "res = Inr rsp"
          using route_responds [OF route, of srv r'] assms(3) unfolding h responds_def by (metis prod.inject)
        then show ?thesis using su True by (auto simp: principal_of_def)
      next
        case False
        from registrar_handlers_refuse [OF this g(2), of srv r' w1] rest same show ?thesis by auto
      qed
    qed
  qed
qed

section \<open>Claims sent twice\<close>

definition claim_steps :: "server \<Rightarrow> http_request \<Rightarrow> principal \<Rightarrow> outcome op" where
  \<comment> \<open>what the claim handler runs\<close>
  "claim_steps srv r actor = andThen (lift_result (rawBody r)) (\<lambda>raw.
      andThen (lift_result (decode_claim srv (r\<lparr>hr_Body := raw\<rparr>))) (\<lambda>(studentID, sectionID).
      if sectionID \<le> 0 then raise (FieldError ''section_id'' ''must be a positive identifier'')
      else Execute (claim_scope r actor raw) (claim_call srv actor studentID sectionID)))"

definition claim_answer :: "outcome \<Rightarrow> http_response" where
  "claim_answer res = WriteRawJSON (if out_Replayed res then [(''Idempotent-Replay'', ''true'')] else [])
     (out_Status res) (out_Body res)"

lemma handleClaimEnrollment_steps: "handleClaimEnrollment srv r actor = answer (claim_steps srv r actor) claim_answer"
  unfolding handleClaimEnrollment_def claim_steps_def claim_answer_def by (rule refl)

lemma claim_steps_Inr:
  assumes "claim_steps srv r actor w = (Inr res, w')"
  obtains raw st sec where "rawBody r = Inr raw" "decode_claim srv (r\<lparr>hr_Body := raw\<rparr>) = Inr (st, sec)" "\<not> sec \<le> 0"
    "Execute (claim_scope r actor raw) (claim_call srv actor st sec) w = (Inr res, w')"
  using assms unfolding claim_steps_def by (auto simp: andThen_Inr lift_result_iff raise_iff split: if_splits)

lemma claim_call_tame: "tame (claim_call srv actor st sec)"
  unfolding claim_call_def by (intro tame_intro)

lemma fresh_stays_stored:
  \<comment> \<open>the snapshot of a first execution answers later requests of the same scope, until it expires\<close>
  assumes "Execute s fn w = (Inr res, w1)" "scp_Key s \<noteq> []" "\<not> out_Replayed res" "tame fn"
    and "t_idempotency t = t_idempotency (tb w1) @ later" "\<forall>n. now < w_clock w n + IdempotencyTTL"
  obtains r where "stored_for s t = Some r" "\<not> idem_ExpiresAt r \<le> now" "idem_RequestFingerprint r = Fingerprint s"
    "snapshot r = res\<lparr>out_Replayed := True\<rparr>"
proof -
  obtain v1 v2 issued where env: "w_clock v1 = w_clock w" "fn v1 = (Inr (out_Status res, out_Body res), v2)"
      "issued = w_clock v2 (w_tick v2)"
    and none: "stored_for s (tb v2) = None"
    and t1: "tb w1 = (tb v2)\<lparr>t_idempotency := t_idempotency (tb v2) @ [new_record s (out_Status res) (out_Body res) issued]\<rparr>"
    by (rule Execute_fresh [OF assms(1-3)])
  let ?r = "new_record s (out_Status res) (out_Body res) issued"
  have "w_clock v2 = w_clock w" using tame_result [OF assms(4) env(2)] env(1) by (simp add: same_env_def)
  then have live: "\<not> idem_ExpiresAt ?r \<le> now" using assms(6) env(3) by (auto simp: new_record_def not_le)
  have "find P (xs @ ?r # later) = Some ?r" if "find P xs = None" "P ?r" for P xs
    using that by (induction xs) (auto split: if_splits)
  then have "stored_for s t = Some ?r"
    using none assms(5) t1 by (simp add: find_record_def new_record_def same_scope_def)
  then show thesis by (rule that) (use live in \<open>simp_all add: new_record_def snapshot_def\<close>)
qed

text \<open>C37: a claim sent twice is one claim. When a claim with an idempotency key was answered with success, the
  same request of the same account, sent again before the key expires, is answered with the same status and,
  byte for byte, the same body, marked as a replay, and changes nothing.\<close>

theorem repeated_claim_replayed:
  assumes "handleClaimEnrollment srv r actor w = (Inr rsp, w1)" "rsp_Status rsp < 400" "rsp_Headers rsp = json_headers"
    and "TrimSpace (hr_Header r ''Idempotency-Key'') \<noteq> []" "0 < prn_UserID actor" "prn_UserID actor' = prn_UserID actor"
    and "calm now rid w2" "t_idempotency (tb w2) = t_idempotency (tb w1) @ later" "\<forall>n. now < w_clock w n + IdempotencyTTL"
  shows "\<exists>w3. tb w3 = tb w2 \<and> handleClaimEnrollment srv r actor' w2
    = (Inr (rsp\<lparr>rsp_Headers := (''Idempotent-Replay'', ''true'') # json_headers\<rparr>), w3)"
proof -
  obtain res where res: "claim_steps srv r actor w = (Inr res, w1)" "rsp = claim_answer res"
    using assms(1,2) error_response_status unfolding handleClaimEnrollment_steps answer_run
    by (auto split: prod.splits sum.splits) (metis linorder_not_le)
  have fresh: "\<not> out_Replayed res" using res(2) assms(3) by (auto simp: claim_answer_def WriteRawJSON_def)
  obtain raw st sec where body: "rawBody r = Inr raw" "decode_claim srv (r\<lparr>hr_Body := raw\<rparr>) = Inr (st, sec)" "\<not> sec \<le> 0"
    and run: "Execute (claim_scope r actor raw) (claim_call srv actor st sec) w = (Inr res, w1)"
    by (rule claim_steps_Inr [OF res(1)])
  have scope: "claim_scope r actor' raw = claim_scope r actor raw" using assms(6) by (simp add: claim_scope_def)
  have key: "scp_Key (claim_scope r actor raw) \<noteq> []" "0 < scp_ActorUserID (claim_scope r actor raw)"
    using assms(4,5) by (simp_all add: claim_scope_def)
  obtain rec where rec: "stored_for (claim_scope r actor raw) (tb w2) = Some rec" "\<not> idem_ExpiresAt rec \<le> now"
      "\<not> idem_RequestFingerprint rec \<noteq> Fingerprint (claim_scope r actor raw)" "snapshot rec = res\<lparr>out_Replayed := True\<rparr>"
    by (rule fresh_stays_stored [OF run key(1) fresh claim_call_tame assms(8,9)]) blast
  note again = yields_replay [OF key rec(1), of now rid "claim_call srv actor' st sec",
      unfolded if_not_P [OF rec(3)] if_not_P [OF rec(2)] rec(4)]
  have "yields now rid (claim_steps srv r actor') (tb w2) (Inr (res\<lparr>out_Replayed := True\<rparr>)) (tb w2)"
    unfolding claim_steps_def body(1)
    by (rule yields_andThen [OF yields_basic(3)], unfold body(2), rule yields_andThen [OF yields_basic(3)],
        unfold prod.case if_not_P [OF body(3)] scope, rule again)
  then obtain w3 where "claim_steps srv r actor' w2 = (Inr (res\<lparr>out_Replayed := True\<rparr>), w3)" "tb w3 = tb w2"
    by (rule yieldsE [OF _ assms(7) refl])
  then show ?thesis
    unfolding handleClaimEnrollment_steps answer_run res(2)
    by (intro exI [of _ w3]) (simp add: claim_answer_def WriteRawJSON_def)
qed

section \<open>Students and their own records\<close>

lemma page_rows_subset: "set (page_rows p xs) \<subseteq> set xs"
  unfolding page_rows_def by (rule limit_offset_subset)

lemma ListEnrollments_matches:
  assumes "ListEnrollments f w = (Inr res, w')" "e \<in> set (pr_Items res)"
  shows "enrollment_matches f e" "e \<in> set (tbl_rows (t_enrollments (tb w)))"
proof -
  obtain p where "pr_Items res = page_rows p (enrollments_ordered p (enrollment_matches f) (tb w))"
    using assms(1) unfolding ListEnrollments_def queryEnrollments_def
    by (auto simp: op_simps NewPageResult_def Let_def)
  then show "enrollment_matches f e" "e \<in> set (tbl_rows (t_enrollments (tb w)))"
    using assms(2) page_rows_subset by (fastforce simp: enrollments_ordered_def)+
qed

text \<open>C39: students only see their own records. For an account that is not a registrar, every claim that a
  list or a lookup returns, and every registration it reads, is its own, whatever filter it asks for.\<close>

theorem students_see_their_own:
  assumes "\<not> IsRegistrarRole actor" "0 < prn_UserID actor"
  shows "(\<forall>f w res w'. List_enrollments actor f w = (Inr res, w') \<longrightarrow>
        list_all (\<lambda>e. enr_StudentID e = prn_UserID actor) (pr_Items res))
    \<and> (\<forall>i w e w'. Get_enrollment actor i w = (Inr e, w') \<longrightarrow> enr_StudentID e = prn_UserID actor)
    \<and> (\<forall>st trm w q w'. Get_registration actor st trm w = (Inr q, w') \<longrightarrow> reg_StudentID q = prn_UserID actor)"
proof (intro conjI allI impI)
  show "list_all (\<lambda>e. enr_StudentID e = prn_UserID actor) (pr_Items res)"
    if "List_enrollments actor f w = (Inr res, w')" for f w res w'
    using that ListEnrollments_matches(1) [of "f\<lparr>ef_StudentID := prn_UserID actor\<rparr>"] assms
    by (auto simp: List_enrollments_def list_all_iff enrollment_matches_def)
  show "enr_StudentID e = prn_UserID actor" if "Get_enrollment actor i w = (Inr e, w')" for i w e w'
    using that assms(1)
    by (auto simp: Get_enrollment_def op_simps CanActOnStudent_def IsRegistrarRole_def split: if_splits)
  show "reg_StudentID q = prn_UserID actor" if "Get_registration actor st trm w = (Inr q, w')" for st trm w q w'
    using that assms(1)
    by (auto simp: Get_registration_def op_simps CanActOnStudent_def IsRegistrarRole_def FindRegistration_def
        find_registration_def Let_def dest!: first_where_Some split: if_splits)
qed

definition any_filter :: enrollment_filter where
  "any_filter = \<lparr>ef_StudentID = 2, ef_TermID = 0, ef_SectionID = 0, ef_Statuses = [],
     ef_Page = \<lparr>pg_Number = 0, pg_Size = 0, pg_SortBy = [], pg_Order = []\<rparr>\<rparr>"

theorem students_see_their_own_witness:
  "\<exists>res w'. List_enrollments ana any_filter (at_time 5 waiting_campus) = (Inr res, w')
    \<and> list_all (\<lambda>e. enr_StudentID e = 1) (pr_Items res) \<and> length (pr_Items res) = 1"
proof -
  have "isl (fst (List_enrollments ana any_filter (at_time 5 waiting_campus))) = False
    \<and> length (pr_Items (projr (fst (List_enrollments ana any_filter (at_time 5 waiting_campus))))) = 1"
    by code_simp
  then obtain res w' where run: "List_enrollments ana any_filter (at_time 5 waiting_campus) = (Inr res, w')"
      "length (pr_Items res) = 1"
    by (cases "List_enrollments ana any_filter (at_time 5 waiting_campus)"; cases "fst (List_enrollments ana any_filter (at_time 5 waiting_campus))") auto
  have ana: "\<not> IsRegistrarRole ana" "0 < prn_UserID ana" "prn_UserID ana = 1"
    by (simp_all add: ana_def sample_principal_def IsRegistrarRole_def)
  show ?thesis using students_see_their_own [OF ana(1,2)] run ana(3) by auto
qed

section \<open>A server and its requests\<close>

definition sample_server :: server where
  "sample_server = \<lparr>srv_SessionTTL = Minute, srv_MaxRetries = 3, srv_ExpectedSchema = 4, srv_Entropy = Inl (Plain ''EOF''),
     srv_ReadMsg = (\<lambda>_. ''unexpected EOF''), srv_ParseTime = (\<lambda>_. Inl (Plain ''cannot parse''))\<rparr>"

definition sample_request :: "string \<Rightarrow> string \<Rightarrow> (string \<Rightarrow> string) \<Rightarrow> string \<Rightarrow> http_request" where
  "sample_request m path header body = \<lparr>hr_Method = m, hr_Path = path, hr_PathValue = (\<lambda>_. []), hr_Query = [],
     hr_Header = header, hr_Body = body\<rparr>"

definition terms_request :: http_request where
  "terms_request = sample_request ''GET'' ''/api/v1/terms'' (\<lambda>_. []) []"

theorem requests_need_a_session_witness:
  "\<exists>h rsp w'. dispatch sample_server [''api'', ''v1'', ''terms''] terms_request = Some h
    \<and> h (at_time 5 campus) = (Inr rsp, w') \<and> 400 \<le> rsp_Status rsp \<and> tb w' = campus"
proof -
  have "\<exists>h. dispatch sample_server [''api'', ''v1'', ''terms''] terms_request = Some h"
    by (simp add: dispatch_def terms_request_def sample_request_def Routes_def api_v1_def)
  then obtain h where h: "dispatch sample_server [''api'', ''v1'', ''terms''] terms_request = Some h" by blast
  obtain res w' where run: "h (at_time 5 campus) = (res, w')" by fastforce
  have "bearerToken terms_request = Inl (Sentinel ErrUnauthenticated)"
    by (simp add: terms_request_def sample_request_def) code_simp
  then have none: "\<not> speaks_for terms_request t now s u" for t now s u by (simp add: speaks_for_def)
  from requests_need_a_session [OF h _ run] none h run show ?thesis by (auto simp: open_path_def)
qed

definition bearer_header :: "string \<Rightarrow> string \<Rightarrow> string" where
  "bearer_header token name = (if name = ''Authorization'' then ''Bearer '' @ token else [])"

definition list_request :: http_request where
  "list_request = sample_request ''GET'' ''/api/v1/registrations'' (bearer_header sample_token) []"

theorem registrar_endpoints_closed_witness:
  "\<exists>h rsp w'. dispatch sample_server [''api'', ''v1'', ''registrations''] list_request = Some h
    \<and> h (at_time 6 session_campus) = (Inr rsp, w') \<and> 400 \<le> rsp_Status rsp"
proof -
  have "\<exists>h. dispatch sample_server [''api'', ''v1'', ''registrations''] list_request = Some h"
    by (simp add: dispatch_def list_request_def sample_request_def Routes_def api_v1_def)
  then obtain h where h: "dispatch sample_server [''api'', ''v1'', ''registrations''] list_request = Some h" by blast
  obtain res w' where run: "h (at_time 6 session_campus) = (res, w')" by fastforce
  have only: "registrar_only (if hr_Method list_request = ''HEAD'' then ''GET'' else hr_Method list_request)
      [''api'', ''v1'', ''registrations'']"
    by (simp add: registrar_only_def registrar_routes_def api_v1_def list_request_def sample_request_def)
  have "usr_Role u \<noteq> RoleRegistrar" if "speaks_for list_request session_campus now s u" for now s u
    using that by (auto simp: speaks_for_def session_campus_facts(1,2))
      (auto simp: ana_session_def new_session_def account_campus_def campus_def sample_user_def empty_tables_def)
  with registrar_endpoints_closed [OF h only run] h run show ?thesis by auto
qed

definition quote_text :: "string \<Rightarrow> string" where
  "quote_text t = CHR 0x22 # t @ [CHR 0x22]"

definition key_header :: "string \<Rightarrow> string" where
  "key_header name = (if name = ''Idempotency-Key'' then ''k-1'' else [])"

definition claim_request :: http_request where
  "claim_request = sample_request ''POST'' ''/api/v1/enrollments'' key_header
     (''{'' @ quote_text ''student_id'' @ '':1,'' @ quote_text ''section_id'' @ '':1}'')"

lemma claim_request_raw:
  "rawBody claim_request = Inr (hr_Body claim_request)"
  "TrimSpace (hr_Header claim_request ''Idempotency-Key'') = ''k-1''"
  by code_simp+

lemma claim_request_json:
  "json_value (hr_Body claim_request) = Some (JObject [(''student_id'', JNumber ''1''), (''section_id'', JNumber ''1'')], [])"
  by code_simp

lemma claim_request_decode:
  "decode_claim sample_server (claim_request\<lparr>hr_Body := hr_Body claim_request\<rparr>) = Inr (1, 1)"
proof -
  have body: "take maxBodyBytes (hr_Body claim_request) = hr_Body claim_request"
    "length (hr_Body claim_request) \<le> maxBodyBytes" "skip_space (hr_Body claim_request) \<noteq> []" "skip_space [] = []"
    by (simp_all add: claim_request_def sample_request_def quote_text_def maxBodyBytes_def skip_space_def json_space_def)
  have "read_struct True ''httpapi.claimRequest''
     [int_field ''claimRequest'' ''student_id'' (\<lambda>n (st, sec). (n, sec)),
      int_field ''claimRequest'' ''section_id'' (\<lambda>n (st, sec). (st, n))]
     (JObject [(''student_id'', JNumber ''1''), (''section_id'', JNumber ''1'')]) (0, 0) = (None, (1, 1))"
    by code_simp
  then show ?thesis
    by (simp add: decode_claim_def decodeJSON_def body claim_request_json Let_def)
qed

lemma campus_claim_frame:
  "t_idempotency (tb (snd (Claim 3 ana 1 1 (at_time 5 campus)))) = []"
  "map usr_ID (tbl_rows (t_users (tb (snd (Claim 3 ana 1 1 (at_time 5 campus)))))) = [1, 2, 3]"
  by code_simp+

lemma claim_request_runs:
  "\<exists>b t'. yields 5 ''req-1'' (claim_steps sample_server claim_request ana) campus
    (Inr \<lparr>out_Status = 201, out_Body = b, out_Replayed = False\<rparr>) t'"
proof -
  let ?s = "claim_scope claim_request ana (hr_Body claim_request)"
  obtain c t1 where y: "yields 5 ''req-1'' (Claim 3 ana 1 1) campus (Inr c) t1" using campus_claim by blast
  obtain w1 where w1: "Claim 3 ana 1 1 (at_time 5 campus) = (Inr c, w1)" "tb w1 = t1"
    by (rule yieldsE [OF y calm_at_time])
  have frame: "t_idempotency t1 = []" "map usr_ID (tbl_rows (t_users t1)) = [1, 2, 3]"
    using campus_claim_frame w1 by simp_all
  have s: "complete_scope ?s" "stored_for ?s campus = None" "stored_for ?s t1 = None"
    using claim_request_raw(2) frame(1)
    by (simp_all add: complete_scope_def claim_scope_def claim_request_def sample_request_def ana_def sample_principal_def
        find_record_def campus_def empty_tables_def)
  have "1 \<in> set (map usr_ID (tbl_rows (t_users t1)))" using frame(2) by simp
  then have user: "exists_where (\<lambda>u. usr_ID u = scp_ActorUserID ?s) (t_users t1)"
    by (auto simp: exists_where_iff claim_scope_def ana_def sample_principal_def)
  have fn: "yields 5 ''req-1'' (claim_call sample_server ana 1 1) campus (Inr (201, claim_body c)) t1"
    unfolding claim_call_def by (rule yields_andThen [OF _ yields_basic(1)]) (use y in \<open>simp add: sample_server_def\<close>)
  have "yields 5 ''req-1'' (claim_steps sample_server claim_request ana) campus
      (Inr \<lparr>out_Status = 201, out_Body = claim_body c, out_Replayed = False\<rparr>)
      (with_record (new_record ?s 201 (claim_body c) 5) t1)"
    unfolding claim_steps_def claim_request_raw(1)
    by (rule yields_andThen [OF yields_basic(3)], unfold claim_request_decode, rule yields_andThen [OF yields_basic(3)],
        unfold prod.case, simp, rule yields_first [OF s(1,2) fn s(3) user])
  then show ?thesis by blast
qed

theorem repeated_claim_replayed_witness:
  "\<exists>w w1 w3 rsp. handleClaimEnrollment sample_server claim_request ana w = (Inr rsp, w1) \<and> rsp_Status rsp = 201
    \<and> handleClaimEnrollment sample_server claim_request ana w1
      = (Inr (rsp\<lparr>rsp_Headers := (''Idempotent-Replay'', ''true'') # json_headers\<rparr>), w3) \<and> tb w3 = tb w1"
proof -
  obtain b t' where y: "yields 5 ''req-1'' (claim_steps sample_server claim_request ana) campus
      (Inr \<lparr>out_Status = 201, out_Body = b, out_Replayed = False\<rparr>) t'" using claim_request_runs by blast
  let ?rsp = "claim_answer \<lparr>out_Status = 201, out_Body = b, out_Replayed = False\<rparr>"
  obtain w1 where w1: "claim_steps sample_server claim_request ana (at_time 5 campus)
      = (Inr \<lparr>out_Status = 201, out_Body = b, out_Replayed = False\<rparr>, w1)" "calm 5 ''req-1'' w1"
    by (rule yieldsE [OF y calm_at_time])
  have run: "handleClaimEnrollment sample_server claim_request ana (at_time 5 campus) = (Inr ?rsp, w1)"
    by (simp add: handleClaimEnrollment_steps answer_run w1(1))
  have rsp: "rsp_Status ?rsp = 201" "rsp_Headers ?rsp = json_headers"
    by (simp_all add: claim_answer_def WriteRawJSON_def)
  have clock: "\<forall>n. (5::int) < w_clock (at_time 5 campus) n + IdempotencyTTL"
    using calm_world(3) [OF calm_at_time(1)] by (simp add: IdempotencyTTL_def Hour_def Minute_def Second_def)
  have key: "TrimSpace (hr_Header claim_request ''Idempotency-Key'') \<noteq> []" "0 < prn_UserID ana"
    using claim_request_raw(2) by (simp_all add: ana_def sample_principal_def)
  have none: "t_idempotency (tb w1) = t_idempotency (tb w1) @ []" by simp
  have "rsp_Status ?rsp < 400" using rsp(1) by simp
  from repeated_claim_replayed [OF run this rsp(2) key refl w1(2) none clock] run rsp(1) show ?thesis by blast
qed

end
