(* ===== verification/Config.thy ===== *)
theory Config
  imports Encodings Errors TimeText Job
begin

text \<open>
  The runtime settings (\<open>internal/config/config.go\<close>) with the durations of the standard library, and the
  database name the pool is opened with (\<open>normalizeDSN\<close> of \<open>internal/storage/sqlite/db.go\<close>).
  The environment is an argument, \<open>lookup\<close>. Durations are parsed the way \<open>time.ParseDuration\<close>
  does: in unsigned 64-bit integers that wrap, with the fraction of a number rounded in double precision.
\<close>

section \<open>Double precision\<close>

definition nearest_even :: "nat \<Rightarrow> nat \<Rightarrow> nat" where
  \<comment> \<open>the quotient, rounded to the nearest integer, a tie to the even one\<close>
  "nearest_even p q = (let d = p div q; r = p mod q in
     if 2 * r < q \<or> (2 * r = q \<and> even d) then d else d + 1)"

definition round_float :: "nat \<times> nat \<Rightarrow> nat \<times> nat" where
  \<comment> \<open>a positive fraction rounded to 53 significant bits\<close>
  "round_float x = (case x of (p, q) \<Rightarrow>
     let shift = \<lambda>e (a, b). if (e::int) < 0 then (a * 2 ^ nat (- e), b) else (a, b * 2 ^ nat e);
         e0 = int (bit_length p) - int (bit_length q) - 53;
         e = (case shift e0 (p, q) of (a, b) \<Rightarrow> if 2 ^ 53 * b \<le> a then e0 + 1 else e0)
     in case shift e (p, q) of (a, b) \<Rightarrow>
          if e < 0 then (nearest_even a b, 2 ^ nat (- e)) else (nearest_even a b * 2 ^ nat e, 1))"

definition scaled_fraction :: "nat \<Rightarrow> nat \<Rightarrow> nat \<Rightarrow> nat" where
  \<comment> \<open>\<open>uint64(float64(f) * (float64(unit) / scale))\<close> for \<open>scale = 10 ^ k\<close>\<close>
  "scaled_fraction f k unit =
     (let (s, t) = round_float (10 ^ k, 1);
          (a, b) = round_float (f, 1);
          (c, d) = round_float (unit * t, s);
          (n, m) = round_float (a * c, b * d)
      in n div m)"

section \<open>Durations as text\<close>

definition escape_byte :: "char \<Rightarrow> string" where
  "escape_byte c =
     (if (of_char c :: nat) < 32 \<or> 128 \<le> (of_char c :: nat)
      then CHR 0x5C # CHR ''x'' # [hex_digits ! (of_char c div 16), hex_digits ! (of_char c mod 16)]
      else if c = CHR 0x22 \<or> c = CHR 0x5C then [CHR 0x5C, c] else [c])"

definition time_quote :: "string \<Rightarrow> string" where
  \<comment> \<open>the quoting of package \<open>time\<close>\<close>
  "time_quote s = CHR 0x22 # concat (map escape_byte s) @ [CHR 0x22]"

fun leadingInt :: "nat \<Rightarrow> string \<Rightarrow> (nat \<times> string) option" where
  "leadingInt x [] = Some (x, [])"
| "leadingInt x (c # s) =
     (if \<not> is_digit c then Some (x, c # s)
      else if x > 2 ^ 63 div 10 then None
      else let y = x * 10 + digit_value c in if y > 2 ^ 63 then None else leadingInt y s)"

fun leadingFraction :: "bool \<Rightarrow> nat \<Rightarrow> nat \<Rightarrow> string \<Rightarrow> nat \<times> nat \<times> string" where
  \<comment> \<open>with the flag of the overflow and the exponent of the scale\<close>
  "leadingFraction overflow x k [] = (x, k, [])"
| "leadingFraction overflow x k (c # s) =
     (if \<not> is_digit c then (x, k, c # s)
      else if overflow then leadingFraction overflow x k s
      else if x > (2 ^ 63 - 1) div 10 then leadingFraction True x k s
      else let y = x * 10 + digit_value c in
        if y > 2 ^ 63 then leadingFraction True x k s else leadingFraction overflow y (k + 1) s)"

definition micro_sign :: string where "micro_sign = [CHR 0xC2, CHR 0xB5, CHR ''s'']"

definition unitMap :: "(string \<times> nat) list" where
  "unitMap = [(''ns'', 1), (''us'', 1000), (micro_sign, 1000), ([CHR 0xCE, CHR 0xBC, CHR ''s''], 1000),
     (''ms'', 1000000), (''s'', 1000000000), (''m'', 60 * 1000000000), (''h'', 3600 * 1000000000)]"

definition invalid_duration :: "string \<Rightarrow> err" where
  "invalid_duration orig = Plain (''time: invalid duration '' @ time_quote orig)"

definition fraction_part :: "string \<Rightarrow> nat \<times> nat \<times> bool \<times> string" where
  "fraction_part s = (case s of [] \<Rightarrow> (0, 0, False, s)
     | c # s' \<Rightarrow> if c \<noteq> CHR ''.'' then (0, 0, False, s)
         else case leadingFraction False 0 0 s' of (f, k, r) \<Rightarrow> (f, k, length r \<noteq> length s', r))"

definition duration_item :: "string \<Rightarrow> string \<Rightarrow> err + nat \<times> string" where
  \<comment> \<open>one number with its unit, and the rest of the text\<close>
  "duration_item orig s =
     (if \<not> (hd s = CHR ''.'' \<or> is_digit (hd s)) then Inl (invalid_duration orig)
      else case leadingInt 0 s of None \<Rightarrow> Inl (invalid_duration orig)
      | Some (v, s1) \<Rightarrow> (case fraction_part s1 of (f, k, post, s2) \<Rightarrow>
          if length s1 = length s \<and> \<not> post then Inl (invalid_duration orig)
          else let u = takeWhile (\<lambda>c. c \<noteq> CHR ''.'' \<and> \<not> is_digit c) s2; s3 = drop (length u) s2 in
            if u = [] then Inl (Plain (''time: missing unit in duration '' @ time_quote orig))
            else case map_of unitMap u of
              None \<Rightarrow> Inl (Plain (''time: unknown unit '' @ time_quote u @ '' in duration '' @ time_quote orig))
            | Some unit \<Rightarrow>
                if v > 2 ^ 63 div unit then Inl (invalid_duration orig)
                else let v2 = v * unit; v3 = (if f > 0 then (v2 + scaled_fraction f k unit) mod 2 ^ 64 else v2) in
                  if f > 0 \<and> v3 > 2 ^ 63 then Inl (invalid_duration orig) else Inr (v3, s3)))"

lemma leadingInt_length: "leadingInt x s = Some (v, r) \<Longrightarrow> length r \<le> length s"
  by (induction x s rule: leadingInt.induct) (auto simp: Let_def split: if_splits)

lemma leadingFraction_length: "leadingFraction ov x k s = (f, l, r) \<Longrightarrow> length r \<le> length s"
  by (induction ov x k s rule: leadingFraction.induct) (auto simp: Let_def split: if_splits)

lemma duration_item_shrinks:
  assumes "duration_item orig s = Inr (v, r)"
  shows "length r < length s"
proof -
  obtain x s1 where s1: "leadingInt 0 s = Some (x, s1)"
    using assms by (auto simp: duration_item_def split: if_splits option.splits)
  obtain f k post s2 where s2: "fraction_part s1 = (f, k, post, s2)" by (metis prod_cases4)
  have "length s2 \<le> length s1"
    using s2 leadingFraction_length by (fastforce simp: fraction_part_def split: list.splits if_splits prod.splits)
  moreover have "length s1 \<le> length s" by (rule leadingInt_length [OF s1])
  moreover let ?u = "takeWhile (\<lambda>c. c \<noteq> CHR ''.'' \<and> \<not> is_digit c) s2"
  have "?u \<noteq> []" "r = drop (length ?u) s2"
    using assms s1 s2 by (auto simp: duration_item_def Let_def split: if_splits option.splits)
  moreover from this have "0 < length ?u" "0 < length s2" by auto
  moreover have "length r = length s2 - length ?u" using calculation(4) by simp
  ultimately show ?thesis by linarith
qed

function duration_items :: "string \<Rightarrow> nat \<Rightarrow> string \<Rightarrow> err + nat" where
  "duration_items orig d s =
     (if s = [] then Inr d
      else case duration_item orig s of Inl e \<Rightarrow> Inl e
      | Inr (v, r) \<Rightarrow>
          let d' = (d + v) mod 2 ^ 64 in if d' > 2 ^ 63 then Inl (invalid_duration orig) else duration_items orig d' r)"
  by pat_completeness auto
termination by (relation "measure (\<lambda>(_, _, s). length s)") (auto dest: duration_item_shrinks)

declare duration_items.simps [simp del]

definition ParseDuration :: "string \<Rightarrow> err + duration" where
  "ParseDuration orig =
     (let signed = orig \<noteq> [] \<and> (hd orig = CHR ''-'' \<or> hd orig = CHR ''+'');
          neg = (signed \<and> hd orig = CHR ''-''); s = (if signed then tl orig else orig) in
      if s = ''0'' then Inr 0
      else if s = [] then Inl (invalid_duration orig)
      else case duration_items orig 0 s of Inl e \<Rightarrow> Inl e
      | Inr d \<Rightarrow> if neg then Inr (- int d)
          else if d > 2 ^ 63 - 1 then Inl (invalid_duration orig) else Inr (int d))"

definition fraction_digits :: "nat \<Rightarrow> nat \<Rightarrow> string" where
  \<comment> \<open>\<open>fmtFrac\<close>: the last \<open>prec\<close> digits of \<open>v\<close> without trailing zeros, behind a point\<close>
  "fraction_digits v prec = (case trim_zeros (map (\<lambda>k. digit (v div 10 ^ k)) (rev [0..<prec])) of
     [] \<Rightarrow> [] | ds \<Rightarrow> CHR ''.'' # ds)"

definition duration_String :: "duration \<Rightarrow> string" where
  "duration_String d = (let u = nat \<bar>d\<bar>; s = u div 1000000000 in
     (if d < 0 then ''-'' else []) @
     (if u = 0 then ''0s''
      else if u < 1000 then utoa u @ ''ns''
      else if u < 1000000 then utoa (u div 1000) @ fraction_digits u 3 @ micro_sign
      else if u < 1000000000 then utoa (u div 1000000) @ fraction_digits u 6 @ ''ms''
      else (if 3600 \<le> s then utoa (s div 3600) @ ''h'' else []) @
           (if 60 \<le> s then utoa (s div 60 mod 60) @ ''m'' else []) @
           utoa (s mod 60) @ fraction_digits u 9 @ ''s''))"

section \<open>Configuration\<close>

record config =
  cfg_HTTPAddr :: string
  cfg_DatabaseDSN :: string
  cfg_LogLevel :: string
  cfg_SessionTTL :: duration
  cfg_ShutdownGrace :: duration
  cfg_RequestTimeout :: duration
  cfg_WorkerPollInterval :: duration
  cfg_WorkerLease :: duration
  cfg_WorkerBackoffBase :: duration
  cfg_WorkerBackoffMax :: duration
  cfg_WorkerEnabled :: bool
  cfg_SeedDemoData :: bool
  cfg_BusinessLocation :: string
  cfg_MaxEnrollmentRetries :: int

type_synonym environment = "string \<Rightarrow> string option"

definition Millisecond :: duration where "Millisecond = 1000000"

definition stringVal :: "environment \<Rightarrow> string \<Rightarrow> string \<Rightarrow> string" where
  "stringVal lookup key fallback = (case lookup key of None \<Rightarrow> fallback
     | Some raw \<Rightarrow> if TrimSpace raw \<noteq> [] then TrimSpace raw else fallback)"

definition durationVal :: "environment \<Rightarrow> string \<Rightarrow> duration \<Rightarrow> err + duration" where
  "durationVal lookup key fallback = (case lookup key of None \<Rightarrow> Inr fallback
     | Some raw \<Rightarrow>
         if TrimSpace raw = [] then Inr fallback
         else case ParseDuration (TrimSpace raw) of
           Inl e \<Rightarrow> Inl (Wrapped (key @ '' must be a Go duration such as 30s'') e)
         | Inr parsed \<Rightarrow> if parsed \<le> 0 then Inl (Plain (key @ '' must be positive'')) else Inr parsed)"

definition ParseBool :: "string \<Rightarrow> bool option" where
  "ParseBool s =
     (if s \<in> set [''1'', ''t'', ''T'', ''true'', ''TRUE'', ''True''] then Some True
      else if s \<in> set [''0'', ''f'', ''F'', ''false'', ''FALSE'', ''False''] then Some False
      else None)"

definition boolVal :: "environment \<Rightarrow> string \<Rightarrow> bool \<Rightarrow> err + bool" where
  "boolVal lookup key fallback = (case lookup key of None \<Rightarrow> Inr fallback
     | Some raw \<Rightarrow>
         if TrimSpace raw = [] then Inr fallback
         else case ParseBool (TrimSpace raw) of
           None \<Rightarrow> Inl (Wrapped (key @ '' must be a boolean'')
             (Plain (''strconv.ParseBool: parsing '' @ quoted (TrimSpace raw) @ '': invalid syntax'')))
         | Some b \<Rightarrow> Inr b)"

definition cfg_Validate :: "config \<Rightarrow> err option" where
  "cfg_Validate c =
     (if TrimSpace (cfg_HTTPAddr c) = [] then Some (Plain ''APP_HTTP_ADDR must not be empty'')
      else if TrimSpace (cfg_DatabaseDSN c) = [] then Some (Plain ''APP_DATABASE_DSN must not be empty'')
      else if cfg_SessionTTL c < Minute then Some (Plain ''APP_SESSION_TTL must be at least one minute'')
      else if cfg_WorkerPollInterval c < 10 * Millisecond
      then Some (Plain ''APP_WORKER_POLL_INTERVAL must be at least 10ms'')
      else if cfg_WorkerBackoffMax c < cfg_WorkerBackoffBase c
      then Some (Plain ''APP_WORKER_BACKOFF_MAX must not be smaller than APP_WORKER_BACKOFF_BASE'')
      else None)"

definition retriesVal :: "environment \<Rightarrow> err + int" where
  "retriesVal lookup = (case lookup ''APP_MAX_ENROLLMENT_RETRIES'' of None \<Rightarrow> Inr 4
     | Some retries \<Rightarrow> (case ParseInt (TrimSpace retries) of
         None \<Rightarrow> Inl (Plain ''APP_MAX_ENROLLMENT_RETRIES must be an integer between 0 and 32'')
       | Some parsed \<Rightarrow>
           if parsed < 0 \<or> parsed > 32
           then Inl (Plain ''APP_MAX_ENROLLMENT_RETRIES must be an integer between 0 and 32'') else Inr parsed))"

definition Load :: "environment \<Rightarrow> err + config" where
  "Load lookup =
     bind_result (durationVal lookup ''APP_SESSION_TTL'' (12 * Hour)) (\<lambda>ttl.
     bind_result (durationVal lookup ''APP_SHUTDOWN_GRACE'' (15 * Second)) (\<lambda>grace.
     bind_result (durationVal lookup ''APP_REQUEST_TIMEOUT'' (20 * Second)) (\<lambda>timeout.
     bind_result (durationVal lookup ''APP_WORKER_POLL_INTERVAL'' (2 * Second)) (\<lambda>poll.
     bind_result (durationVal lookup ''APP_WORKER_LEASE'' Minute) (\<lambda>lease.
     bind_result (durationVal lookup ''APP_WORKER_BACKOFF_BASE'' (2 * Second)) (\<lambda>backoff_base.
     bind_result (durationVal lookup ''APP_WORKER_BACKOFF_MAX'' (5 * Minute)) (\<lambda>backoff_max.
     bind_result (boolVal lookup ''APP_WORKER_ENABLED'' True) (\<lambda>worker_enabled.
     bind_result (boolVal lookup ''APP_SEED_DEMO_DATA'' True) (\<lambda>seed_demo.
     bind_result (retriesVal lookup) (\<lambda>retries.
     let cfg = \<lparr>cfg_HTTPAddr = stringVal lookup ''APP_HTTP_ADDR'' '':8080'',
           cfg_DatabaseDSN = stringVal lookup ''APP_DATABASE_DSN'' ''file:data/orientation.db?_pragma=busy_timeout(5000)'',
           cfg_LogLevel = stringVal lookup ''APP_LOG_LEVEL'' ''info'',
           cfg_SessionTTL = ttl, cfg_ShutdownGrace = grace, cfg_RequestTimeout = timeout,
           cfg_WorkerPollInterval = poll, cfg_WorkerLease = lease, cfg_WorkerBackoffBase = backoff_base,
           cfg_WorkerBackoffMax = backoff_max, cfg_WorkerEnabled = worker_enabled, cfg_SeedDemoData = seed_demo,
           cfg_BusinessLocation = stringVal lookup ''APP_BUSINESS_TZ'' ''Asia/Shanghai'',
           cfg_MaxEnrollmentRetries = retries\<rparr>
     in case cfg_Validate cfg of Some e \<Rightarrow> Inl e | None \<Rightarrow> Inr cfg))))))))))"

definition cut_query :: "string \<Rightarrow> string" where
  "cut_query dsn = (if CHR ''?'' \<in> set dsn then takeWhile (\<lambda>c. c \<noteq> CHR ''?'') dsn @ ''?<redacted>'' else dsn)"

definition cut_user :: "string \<Rightarrow> string" where
  "cut_user dsn = (if CHR ''@'' \<in> set dsn
     then ''<redacted>@'' @ rev (takeWhile (\<lambda>c. c \<noteq> CHR ''@'') (rev dsn)) else dsn)"

definition Redacted :: "config \<Rightarrow> (string \<times> string) list" where
  "Redacted c =
     [(''http_addr'', cfg_HTTPAddr c),
      (''database_dsn'', cut_user (cut_query (cfg_DatabaseDSN c))),
      (''log_level'', cfg_LogLevel c),
      (''session_ttl'', duration_String (cfg_SessionTTL c)),
      (''worker_enabled'', if cfg_WorkerEnabled c then ''true'' else ''false''),
      (''worker_poll_interval'', duration_String (cfg_WorkerPollInterval c)),
      (''business_tz'', cfg_BusinessLocation c)]"

section \<open>The name of the database\<close>

definition required_pragmas :: "(string \<times> string) list" where
  "required_pragmas =
     [(''_pragma=foreign_keys'', ''_pragma=foreign_keys(1)''),
      (''_pragma=busy_timeout'', ''_pragma=busy_timeout(10000)''),
      (''_pragma=journal_mode'', ''_pragma=journal_mode(WAL)''),
      (''_txlock='', ''_txlock=immediate'')]"

definition add_pragma :: "string \<times> string \<Rightarrow> string \<Rightarrow> string" where
  "add_pragma item dsn =
     (if contains_text (fst item) dsn then dsn
      else if contains_text ''?'' dsn then dsn @ ''&'' @ snd item
      else dsn @ ''?'' @ snd item)"

definition normalizeDSN :: "string \<Rightarrow> err + string" where
  "normalizeDSN dsn =
     (if TrimSpace dsn = [] then Inl (Plain ''sqlite dsn must not be empty'')
      else Inr (fold add_pragma required_pragmas (TrimSpace dsn)))"

end
