(* ===== verification/Seed.thy ===== *)
theory Seed
  imports EnrollmentStore RegistrationStore AccountStore Evolution Security
begin

text \<open>
  Reference data and provisioning (\<open>internal/storage/sqlite/seed.go\<close>): the inserts of terms, courses,
  sections and academic records, the seed of an empty database, and the operations of the registrar's
  tooling. The random bytes of the two password salts are arguments. The time zone of the seed is left out:
  the code fills it in and never reads it.
\<close>

section \<open>Transactions of the seed\<close>

definition inTxDataset :: "'a op \<Rightarrow> 'a op" where
  "inTxDataset = run_tx (Wrapped ''begin seed transaction'') (Wrapped ''commit seed transaction'')"

section \<open>Inserts\<close>

definition insert_term :: "academic_term \<Rightarrow> tables \<Rightarrow> err + (int \<times> tables)" where
  "insert_term trm t =
     (if \<not> 0 < trm_CreditLimit trm then Inl (check_violation ''terms'')
      else if exists_where (\<lambda>r. trm_Code r = trm_Code trm) (t_terms t) then Inl (unique_violation ''terms.code'')
      else Inr (tbl_seq (t_terms t) + 1, t\<lparr>t_terms := table_insert (\<lambda>i r. r\<lparr>trm_ID := i\<rparr>) trm (t_terms t)\<rparr>))"

definition insertTerm :: "academic_term \<Rightarrow> int op" where
  "insertTerm trm =
     andThen (check (term_Validate trm)) (\<lambda>_.
     andThen (on_error (Wrapped (''insert term '' @ trm_Code trm)) (exec (insert_term trm))) (\<lambda>i.
     andThen driver (\<lambda>_. ret i)))"

definition insert_course :: "course \<Rightarrow> tables \<Rightarrow> err + (int \<times> tables)" where
  "insert_course c t =
     (if \<not> (0 < crs_Credits c \<and> crs_Credits c \<le> 12) then Inl (check_violation ''courses'')
      else if exists_where (\<lambda>r. cr_Code r = crs_Code c) (t_courses t) then Inl (unique_violation ''courses.code'')
      else Inr (tbl_seq (t_courses t) + 1, t\<lparr>t_courses := table_insert (\<lambda>i r. r\<lparr>cr_ID := i\<rparr>)
        \<lparr>cr_ID = 0, cr_Code = crs_Code c, cr_Title = crs_Title c, cr_Credits = crs_Credits c,
         cr_Department = crs_Department c, cr_Retired = crs_Retired c\<rparr> (t_courses t)\<rparr>))"

definition insertCourse :: "course \<Rightarrow> int op" where
  "insertCourse c =
     andThen (check (course_Validate c)) (\<lambda>_.
     andThen (on_error (Wrapped (''insert course '' @ crs_Code c)) (exec (insert_course c))) (\<lambda>i.
     andThen driver (\<lambda>_. ret i)))"

definition insert_prerequisite :: "int \<Rightarrow> string \<Rightarrow> int \<Rightarrow> tables \<Rightarrow> err + (unit \<times> tables)" where
  "insert_prerequisite courseID required ordinal t =
     (if list_ex (\<lambda>q. pq_CourseID q = courseID \<and> pq_RequiredCode q = required) (t_prereqs t)
      then Inl (unique_violation ''course_prerequisites.course_id, course_prerequisites.required_course_code'')
      else if \<not> exists_where (\<lambda>c. cr_ID c = courseID) (t_courses t) then Inl foreign_key_violation
      else Inr ((), t\<lparr>t_prereqs := t_prereqs t @
        [\<lparr>pq_CourseID = courseID, pq_RequiredCode = required, pq_Ordinal = ordinal\<rparr>]\<rparr>))"

definition insertPrerequisite :: "int \<Rightarrow> string \<Rightarrow> int \<Rightarrow> unit op" where
  "insertPrerequisite courseID required ordinal =
     on_error (Wrapped (''insert prerequisite '' @ required)) (exec (insert_prerequisite courseID required ordinal))"

definition section_row_of :: "course_section \<Rightarrow> instant \<Rightarrow> section_row" where
  \<comment> \<open>the columns of the insert\<close>
  "section_row_of s now = \<lparr>sr_ID = 0, sr_TermID = sec_TermID s, sr_CourseID = sec_CourseID s, sr_Code = sec_Code s,
     sr_Status = (if sec_Status s = SectionOther [] then SectionDraft else sec_Status s), sr_Capacity = sec_Capacity s,
     sr_SeatsTaken = sec_SeatsTaken s, sr_WaitlistLimit = sec_WaitlistLimit s, sr_WaitlistLength = sec_WaitlistLength s,
     sr_Instructor = sec_Instructor s, sr_Version = 1, sr_UpdatedAt = now\<rparr>"

definition insert_section :: "section_row \<Rightarrow> tables \<Rightarrow> err + (int \<times> tables)" where
  "insert_section r t =
     (if \<not> section_row_ok r then Inl (check_violation ''course_sections'')
      else if exists_where (\<lambda>s. sr_TermID s = sr_TermID r \<and> sr_Code s = sr_Code r) (t_sections t)
      then Inl (unique_violation ''course_sections.term_id, course_sections.code'')
      else if \<not> (exists_where (\<lambda>trm. trm_ID trm = sr_TermID r) (t_terms t)
          \<and> exists_where (\<lambda>c. cr_ID c = sr_CourseID r) (t_courses t)) then Inl foreign_key_violation
      else Inr (tbl_seq (t_sections t) + 1, t\<lparr>t_sections := table_insert (\<lambda>i s. s\<lparr>sr_ID := i\<rparr>) r (t_sections t)\<rparr>))"

definition insertSection :: "course_section \<Rightarrow> instant \<Rightarrow> int op" where
  "insertSection s now =
     andThen (on_error (Wrapped (''insert section '' @ sec_Code s)) (exec (insert_section (section_row_of s now)))) (\<lambda>i.
     andThen driver (\<lambda>_. ret i))"

definition insert_meeting :: "meeting \<Rightarrow> tables \<Rightarrow> err + (unit \<times> tables)" where
  \<comment> \<open>the \<open>CHECK\<close> constraints are those of \<open>Validate\<close>\<close>
  "insert_meeting m t =
     (if exists_where (\<lambda>n. mtg_SectionID n = mtg_SectionID m \<and> mtg_Weekday n = mtg_Weekday m
          \<and> mtg_StartMinute n = mtg_StartMinute m) (t_meetings t)
      then Inl (unique_violation ''section_meetings.section_id, section_meetings.weekday, section_meetings.start_minute'')
      else if \<not> exists_where (\<lambda>s. sr_ID s = mtg_SectionID m) (t_sections t) then Inl foreign_key_violation
      else Inr ((), t\<lparr>t_meetings := table_insert (\<lambda>i r. r\<lparr>mtg_ID := i\<rparr>) m (t_meetings t)\<rparr>))"

definition insertMeeting :: "meeting \<Rightarrow> unit op" where
  "insertMeeting m =
     andThen (check (meeting_Validate m)) (\<lambda>_.
     on_error (Wrapped (''insert meeting for section '' @ itoa (mtg_SectionID m))) (exec (insert_meeting m)))"

definition insert_academic_record :: "academic_record \<Rightarrow> tables \<Rightarrow> err + (unit \<times> tables)" where
  "insert_academic_record r t =
     (if rec_Credits r < 0 then Inl (check_violation ''academic_records'')
      else if exists_where (\<lambda>q. rec_StudentID q = rec_StudentID r \<and> rec_CourseCode q = rec_CourseCode r) (t_records t)
      then Inl (unique_violation ''academic_records.student_id, academic_records.course_code'')
      else if \<not> exists_where (\<lambda>u. usr_ID u = rec_StudentID r) (t_users t) then Inl foreign_key_violation
      else Inr ((), t\<lparr>t_records := table_insert (\<lambda>i r. r\<lparr>rec_ID := i\<rparr>) r (t_records t)\<rparr>))"

definition insertAcademicRecord :: "academic_record \<Rightarrow> unit op" where
  "insertAcademicRecord r =
     on_error (Wrapped (''insert academic record '' @ rec_CourseCode r)) (exec (insert_academic_record r))"

section \<open>Loops\<close>

fun insert_prerequisites :: "int \<Rightarrow> string list \<Rightarrow> int \<Rightarrow> unit op" where
  \<comment> \<open>\<open>for ordinal, required := range prerequisites\<close>\<close>
  "insert_prerequisites courseID [] ordinal = ret ()"
| "insert_prerequisites courseID (required # rest) ordinal =
     andThen (insertPrerequisite courseID required ordinal) (\<lambda>_. insert_prerequisites courseID rest (ordinal + 1))"

fun insert_meetings :: "int \<Rightarrow> meeting list \<Rightarrow> unit op" where
  "insert_meetings sectionID [] = ret ()"
| "insert_meetings sectionID (m # rest) =
     andThen (insertMeeting (m\<lparr>mtg_SectionID := sectionID\<rparr>)) (\<lambda>_. insert_meetings sectionID rest)"

fun insert_courses :: "(course \<times> string list) list \<Rightarrow> (string \<Rightarrow> int) \<Rightarrow> (string \<Rightarrow> int) op" where
  \<comment> \<open>the loop over the courses of the seed, filling the map \<open>courseIDs\<close>; a missing key reads as zero\<close>
  "insert_courses [] courseIDs = ret courseIDs"
| "insert_courses ((c, prereqs) # rest) courseIDs =
     andThen (insertCourse c) (\<lambda>i.
     andThen (insert_prerequisites i prereqs 0) (\<lambda>_.
     insert_courses rest (courseIDs(crs_Code c := i))))"

fun insert_sections :: "(course_section \<times> meeting list) list \<Rightarrow> instant \<Rightarrow> int list op" where
  "insert_sections [] now = ret []"
| "insert_sections ((s, ms) # rest) now =
     andThen (insertSection s now) (\<lambda>i.
     andThen (insert_meetings i ms) (\<lambda>_.
     andThen (insert_sections rest now) (\<lambda>ids. ret (i # ids))))"

section \<open>The seed\<close>

record seed_spec =
  ssp_Now :: instant
  ssp_RegistrarEmail :: string
  ssp_RegistrarPass :: string
  ssp_StudentEmail :: string
  ssp_StudentPass :: string
  ssp_TermCode :: string

record seed_result =
  srs_Skipped :: bool
  srs_TermID :: int
  srs_RegistrarID :: int
  srs_StudentID :: int
  srs_SectionIDs :: "int list"

definition Day :: duration where "Day = 24 * Hour"

definition seed_term :: "seed_spec \<Rightarrow> academic_term" where
  "seed_term spec = (let opens = ssp_Now spec - 24 * Hour in
     \<lparr>trm_ID = 0, trm_Code = ssp_TermCode spec, trm_Name = ''Autumn orientation term'',
      trm_EnrollmentOpensAt = opens, trm_EnrollmentClosesAt = opens + 30 * Day, trm_AddDropClosesAt = opens + 45 * Day,
      trm_CreditLimit = 18, trm_Archived = False\<rparr>)"

definition seed_course :: "string \<Rightarrow> string \<Rightarrow> int \<Rightarrow> string \<Rightarrow> course" where
  "seed_course code title credits department = \<lparr>crs_ID = 0, crs_Code = code, crs_Title = title, crs_Credits = credits,
     crs_Department = department, crs_Prerequisites = [], crs_Retired = False\<rparr>"

definition seed_courses :: "(course \<times> string list) list" where
  "seed_courses =
    [(seed_course ''MATH101'' ''Calculus foundations'' 4 ''mathematics'', []),
     (seed_course ''CS110'' ''Programming fundamentals'' 4 ''computing'', []),
     (seed_course ''CS210'' ''Data structures'' 4 ''computing'', [''CS110'']),
     (seed_course ''ORI100'' ''Campus orientation seminar'' 2 ''student-life'', [])]"

definition seed_section :: "int \<Rightarrow> int \<Rightarrow> string \<Rightarrow> int \<Rightarrow> int \<Rightarrow> string \<Rightarrow> course_section" where
  "seed_section termID courseID code capacity waitlistLimit instructor = \<lparr>sec_ID = 0, sec_TermID = termID,
     sec_CourseID = courseID, sec_CourseCode = [], sec_CourseCredits = 0, sec_Code = code, sec_Status = SectionOpen,
     sec_Capacity = capacity, sec_SeatsTaken = 0, sec_WaitlistLimit = waitlistLimit, sec_WaitlistLength = 0,
     sec_Instructor = instructor, sec_Version = 0, sec_Meetings = [], sec_UpdatedAt = zero_time\<rparr>"

definition seed_meeting :: "weekday \<Rightarrow> int \<Rightarrow> int \<Rightarrow> string \<Rightarrow> meeting" where
  "seed_meeting weekday start_minute end_minute room = \<lparr>mtg_ID = 0, mtg_SectionID = 0, mtg_Weekday = weekday,
     mtg_StartMinute = start_minute, mtg_EndMinute = end_minute, mtg_Room = room\<rparr>"

definition seed_sections :: "int \<Rightarrow> (string \<Rightarrow> int) \<Rightarrow> (course_section \<times> meeting list) list" where
  "seed_sections termID courseIDs =
    [(seed_section termID (courseIDs ''MATH101'') ''MATH101-A'' 40 10 ''Prof. Lin'',
        [seed_meeting 1 (8 * 60) (9 * 60 + 40) ''N201'', seed_meeting 3 (8 * 60) (9 * 60 + 40) ''N201'']),
     (seed_section termID (courseIDs ''CS110'') ''CS110-A'' 30 8 ''Prof. Zhao'',
        [seed_meeting 1 (10 * 60) (11 * 60 + 40) ''E105'', seed_meeting 4 (14 * 60) (15 * 60 + 40) ''E105'']),
     (seed_section termID (courseIDs ''CS210'') ''CS210-A'' 2 4 ''Prof. Qi'',
        [seed_meeting 2 (10 * 60) (11 * 60 + 40) ''E301'']),
     (seed_section termID (courseIDs ''ORI100'') ''ORI100-A'' 120 0 ''Student Life Office'',
        [seed_meeting 5 (15 * 60) (16 * 60 + 30) ''Auditorium''])]"

definition seed_user :: "string \<Rightarrow> string \<Rightarrow> role \<Rightarrow> string \<Rightarrow> instant \<Rightarrow> user" where
  "seed_user email display role hash now = \<lparr>usr_ID = 0, usr_Email = email, usr_DisplayName = display, usr_Role = role,
     usr_PasswordHash = hash, usr_Disabled = False, usr_CreatedAt = now, usr_UpdatedAt = now\<rparr>"

definition seed_tx :: "seed_spec \<Rightarrow> string \<Rightarrow> string \<Rightarrow> seed_result op" where
  \<comment> \<open>the body of the transaction, given the two password hashes\<close>
  "seed_tx spec registrarHash studentHash =
     andThen (CreateUser (seed_user (ssp_RegistrarEmail spec) ''Orientation Registrar'' RoleRegistrar registrarHash
       (ssp_Now spec))) (\<lambda>registrar.
     andThen (CreateUser (seed_user (ssp_StudentEmail spec) ''Incoming Student'' RoleStudent studentHash
       (ssp_Now spec))) (\<lambda>student.
     andThen (insertTerm (seed_term spec)) (\<lambda>termID.
     andThen (insert_courses seed_courses (\<lambda>_. 0)) (\<lambda>courseIDs.
     andThen (insert_sections (seed_sections termID courseIDs) (ssp_Now spec)) (\<lambda>sectionIDs.
     andThen (insertAcademicRecord \<lparr>rec_ID = 0, rec_StudentID = usr_ID student, rec_CourseCode = ''CS110'',
       rec_Grade = ''B'', rec_Credits = 4, rec_CompletedAt = ssp_Now spec - 180 * Day\<rparr>) (\<lambda>_.
     ret \<lparr>srs_Skipped = False, srs_TermID = termID, srs_RegistrarID = usr_ID registrar,
       srs_StudentID = usr_ID student, srs_SectionIDs = sectionIDs\<rparr>))))))"

definition seed_insert :: "err + string \<Rightarrow> err + string \<Rightarrow> seed_spec \<Rightarrow> seed_result op" where
  \<comment> \<open>the part of \<open>Seed\<close> that runs when the term is missing\<close>
  "seed_insert entropy1 entropy2 spec =
     andThen (on_error (Wrapped ''seed registrar password'')
       (lift_result (HashNewPassword entropy1 (ssp_RegistrarPass spec)))) (\<lambda>registrarHash.
     andThen (on_error (Wrapped ''seed student password'')
       (lift_result (HashNewPassword entropy2 (ssp_StudentPass spec)))) (\<lambda>studentHash.
     inTxDataset (seed_tx spec registrarHash studentHash)))"

definition with_defaults :: "seed_spec \<Rightarrow> seed_spec op" where
  "with_defaults spec =
     andThen (if ssp_Now spec = zero_time then clock_now else ret (ssp_Now spec)) (\<lambda>now.
     ret (spec\<lparr>ssp_Now := now,
       ssp_TermCode := (if ssp_TermCode spec = [] then ''2026-autumn'' else ssp_TermCode spec)\<rparr>))"

definition Seed :: "err + string \<Rightarrow> err + string \<Rightarrow> seed_spec \<Rightarrow> seed_result op" where
  "Seed entropy1 entropy2 spec0 =
     andThen (with_defaults spec0) (\<lambda>spec.
     andThen (attempt (FindTermByCode (ssp_TermCode spec))) (\<lambda>found. case found of
       Inr _ \<Rightarrow> ret \<lparr>srs_Skipped = True, srs_TermID = 0, srs_RegistrarID = 0, srs_StudentID = 0, srs_SectionIDs = []\<rparr>
     | Inl err \<Rightarrow> if \<not> errors_Is err ErrNotFound then raise err else seed_insert entropy1 entropy2 spec))"

section \<open>Provisioning\<close>

definition ProvisionTerm :: "academic_term \<Rightarrow> int op" where
  "ProvisionTerm trm = inTxDataset (insertTerm trm)"

definition ProvisionCourse :: "course \<Rightarrow> int op" where
  "ProvisionCourse c = inTxDataset
     (andThen (insertCourse c) (\<lambda>i. andThen (insert_prerequisites i (crs_Prerequisites c) 0) (\<lambda>_. ret i)))"

definition ProvisionSection :: "course_section \<Rightarrow> instant \<Rightarrow> int op" where
  "ProvisionSection s now = inTxDataset
     (andThen (insertSection s now) (\<lambda>i. andThen (insert_meetings i (sec_Meetings s)) (\<lambda>_. ret i)))"

definition ProvisionAcademicRecord :: "academic_record \<Rightarrow> unit op" where
  "ProvisionAcademicRecord r = inTxDataset (insertAcademicRecord r)"

definition set_status_tx :: "int \<Rightarrow> section_status \<Rightarrow> instant \<Rightarrow> unit op" where
  "set_status_tx sectionID status now =
     andThen (on_error (Wrapped (''set status of section '' @ itoa sectionID))
       (exec (update_sections (\<lambda>s. sr_ID s = sectionID)
         (\<lambda>s. s\<lparr>sr_Status := status, sr_Version := sr_Version s + 1, sr_UpdatedAt := now\<rparr>)))) (\<lambda>affected.
     andThen (on_error (Wrapped ''set status rows'') driver) (\<lambda>_.
     if affected = 0 then raise (Wrapped (''section '' @ itoa sectionID) (Sentinel ErrNotFound)) else ret ()))"

definition SetSectionStatus :: "int \<Rightarrow> section_status \<Rightarrow> instant \<Rightarrow> unit op" where
  "SetSectionStatus sectionID status now = inTxDataset (set_status_tx sectionID status now)"

end
