(* ===== verification/Runtime.thy ===== *)
theory Runtime
  imports Store
begin

text \<open>
  What every layer is handed at run time: the clock (\<open>internal/platform/clock/clock.go\<close>), the log and the request
  identifier in the context (\<open>internal/platform/logging/logging.go\<close>), and the dependencies of the services with
  their checks (\<open>internal/service/service.go\<close>, \<open>New\<close> of \<open>internal/httpapi/api.go\<close>). A dependency is present or
  it is nil; the zones the host knows are the argument \<open>load\<close>.
\<close>

section \<open>The clock\<close>

datatype location = UTC | Zone string | FixedZone string int

record zoned_time =
  zt_Instant :: instant
  zt_Location :: location

definition in_location :: "location \<Rightarrow> zoned_time \<Rightarrow> zoned_time" where
  \<comment> \<open>\<open>time.Time.In\<close>, and \<open>UTC\<close>\<close>
  "in_location loc t = t\<lparr>zt_Location := loc\<rparr>"

definition System_Now :: "zoned_time op" where
  "System_Now = andThen clock_now (\<lambda>now. ret \<lparr>zt_Instant = now, zt_Location = UTC\<rparr>)"

definition System_In :: "location option \<Rightarrow> zoned_time op" where
  "System_In loc = andThen clock_now (\<lambda>now. ret (case loc of
     None \<Rightarrow> \<lparr>zt_Instant = now, zt_Location = UTC\<rparr> | Some l \<Rightarrow> \<lparr>zt_Instant = now, zt_Location = l\<rparr>))"

record fixed_clock =
  \<comment> \<open>every method holds the lock, so its calls are atomic\<close>
  fxd_now :: zoned_time

definition NewFixed :: "zoned_time \<Rightarrow> fixed_clock" where
  "NewFixed at = \<lparr>fxd_now = in_location UTC at\<rparr>"

definition Fixed_Now :: "fixed_clock \<Rightarrow> zoned_time" where
  "Fixed_Now f = fxd_now f"

definition Fixed_In :: "location option \<Rightarrow> fixed_clock \<Rightarrow> zoned_time" where
  "Fixed_In loc f = (case loc of None \<Rightarrow> Fixed_Now f | Some l \<Rightarrow> in_location l (Fixed_Now f))"

definition Fixed_Set :: "zoned_time \<Rightarrow> fixed_clock \<Rightarrow> fixed_clock" where
  "Fixed_Set at f = f\<lparr>fxd_now := in_location UTC at\<rparr>"

definition Fixed_Advance :: "duration \<Rightarrow> fixed_clock \<Rightarrow> zoned_time \<times> fixed_clock" where
  "Fixed_Advance d f = (let later = (fxd_now f)\<lparr>zt_Instant := zt_Instant (fxd_now f) + d\<rparr>
     in (later, f\<lparr>fxd_now := later\<rparr>))"

definition BusinessLocation :: "(string \<Rightarrow> err + location) \<Rightarrow> string \<Rightarrow> location" where
  "BusinessLocation load name = (case load name of Inr loc \<Rightarrow> loc | Inl _ \<Rightarrow> FixedZone ''CST'' (8 * 60 * 60))"

datatype clock_call = SetTo zoned_time | AdvanceBy duration

fun turn :: "clock_call \<Rightarrow> fixed_clock \<Rightarrow> fixed_clock" where
  "turn (SetTo at) f = Fixed_Set at f"
| "turn (AdvanceBy d) f = snd (Fixed_Advance d f)"

lemma fixed_clock_in_UTC: "zt_Location (Fixed_Now (fold turn calls (NewFixed at))) = UTC"
proof -
  have "zt_Location (fxd_now f) = UTC \<Longrightarrow> zt_Location (fxd_now (fold turn calls f)) = UTC" for f
  proof (induction calls arbitrary: f)
    case (Cons c calls)
    then show ?case by (cases c) (simp_all add: Fixed_Set_def Fixed_Advance_def in_location_def Let_def)
  qed simp
  then show ?thesis by (simp add: Fixed_Now_def NewFixed_def in_location_def)
qed

lemma fixed_clock_advances:
  "zt_Instant (Fixed_Now (fold turn (map AdvanceBy ds) f)) = zt_Instant (Fixed_Now f) + sum_list ds"
  by (induction ds arbitrary: f) (simp_all add: Fixed_Now_def Fixed_Advance_def Let_def)

section \<open>The log and the request identifier\<close>

definition log_level :: "string \<Rightarrow> int" where
  \<comment> \<open>the level \<open>New\<close> gives the handler: debug, info, warn and error are -4, 0, 4 and 8\<close>
  "log_level level = (let l = ToLower (TrimSpace level) in
     if l = ''debug'' then - 4 else if l = ''warn'' \<or> l = ''warning'' then 4 else if l = ''error'' then 8 else 0)"

definition WithRequestID :: "string \<Rightarrow> world \<Rightarrow> world" where
  "WithRequestID rid w = (if rid = [] then w else w\<lparr>w_request_id := rid\<rparr>)"

definition FromContext :: "world \<Rightarrow> (string \<times> string) list" where
  \<comment> \<open>the attributes the logger of a context adds\<close>
  "FromContext w = (if w_request_id w \<noteq> [] then [(''request_id'', w_request_id w)] else [])"

definition discard_level :: int where
  \<comment> \<open>above every level \<open>log_level\<close> can give a record\<close>
  "discard_level = 8 + 1"

section \<open>Dependencies\<close>

record deps =
  \<comment> \<open>whether each of them is there; a missing logger is replaced by the default one\<close>
  dep_Store :: bool
  dep_Clock :: bool
  dep_Audit :: bool

definition deps_Validate :: "deps \<Rightarrow> err option" where
  "deps_Validate d =
     (if \<not> dep_Store d then Some (FieldError ''deps.store'' ''must not be nil'')
      else if \<not> dep_Clock d then Some (FieldError ''deps.clock'' ''must not be nil'')
      else if \<not> dep_Audit d then Some (FieldError ''deps.audit'' ''must not be nil'')
      else None)"

record api_services =
  has_Auth :: bool
  has_Catalog :: bool
  has_Registrations :: bool
  has_Enrollments :: bool
  has_Idempotency :: bool

definition New_api :: "api_services \<Rightarrow> bool \<Rightarrow> int \<Rightarrow> err + int" where
  "New_api s readiness expectedSchema =
     (if \<not> has_Auth s then Inl (FieldError ''services.auth'' ''must not be nil'')
      else if \<not> has_Catalog s then Inl (FieldError ''services.catalog'' ''must not be nil'')
      else if \<not> has_Registrations s then Inl (FieldError ''services.registrations'' ''must not be nil'')
      else if \<not> has_Enrollments s then Inl (FieldError ''services.enrollments'' ''must not be nil'')
      else if \<not> has_Idempotency s then Inl (FieldError ''services.idempotency'' ''must not be nil'')
      else if \<not> readiness then Inl (FieldError ''readiness'' ''must not be nil'')
      else if expectedSchema \<le> 0 then Inl (FieldError ''expected_schema'' ''must be positive'')
      else Inr expectedSchema)"

end
