(* ===== verification/Startup.thy ===== *)
theory Startup
  imports Config Migrations Seed HttpApi Worker Runtime
begin

text \<open>
  How the process comes up (\<open>internal/app/app.go\<close>, \<open>cmd/server/main.go\<close>, \<open>Open\<close> of
  \<open>internal/storage/sqlite/db.go\<close>): the settings are loaded and checked, the directory of the database is
  made, the pool is opened, the schema is migrated, the reference data is seeded, and the services, the HTTP
  interface and the worker are put together. What the operating system, the driver and the random source
  answer is the record \<open>machine\<close>. Closing the pool again on an error is left out, as is the choice of the
  time zone, which only the log shows.
\<close>

section \<open>Paths\<close>

fun clean_parts :: "bool \<Rightarrow> string list \<Rightarrow> string list \<Rightarrow> string list" where
  \<comment> \<open>the parts of a cleaned path; the second argument holds those kept so far, the last one first\<close>
  "clean_parts rooted kept [] = rev kept"
| "clean_parts rooted kept (p # ps) =
     (if p = [] \<or> p = ''.'' then clean_parts rooted kept ps
      else if p = ''..''
      then (if kept \<noteq> [] \<and> hd kept \<noteq> ''..'' then clean_parts rooted (tl kept) ps
            else if rooted then clean_parts rooted kept ps else clean_parts rooted (p # kept) ps)
      else clean_parts rooted (p # kept) ps)"

fun join_path :: "string list \<Rightarrow> string" where
  "join_path [] = []"
| "join_path [p] = p"
| "join_path (p # ps) = p @ CHR ''/'' # join_path ps"

definition Clean :: "string \<Rightarrow> string" where
  \<comment> \<open>\<open>filepath.Clean\<close> on Unix\<close>
  "Clean path =
     (let rooted = path \<noteq> [] \<and> hd path = CHR ''/'';
          out = (if rooted then ''/'' else []) @ join_path (clean_parts rooted [] (split_on CHR ''/'' path))
      in if out = [] then ''.'' else out)"

definition Dir :: "string \<Rightarrow> string" where
  \<comment> \<open>\<open>filepath.Dir\<close>\<close>
  "Dir path = Clean (rev (dropWhile (\<lambda>c. c \<noteq> CHR ''/'') (rev path)))"

definition trim_prefix :: "string \<Rightarrow> string \<Rightarrow> string" where
  "trim_prefix p s = (if has_prefix p s then drop (length p) s else s)"

definition ensureDatabaseDirectory :: "(string \<Rightarrow> err option) \<Rightarrow> string \<Rightarrow> err option" where
  "ensureDatabaseDirectory mkdir dsn =
     (let path = TrimSpace (takeWhile (\<lambda>c. c \<noteq> CHR ''?'') (trim_prefix ''file:'' dsn)) in
      if path = [] \<or> has_prefix '':memory:'' path then None
      else let dir = Dir path in
        if dir = [] \<or> dir = ''.'' then None
        else map_option (Wrapped (''create database directory '' @ dir)) (mkdir dir))"

section \<open>The pool\<close>

record pool_options =
  opt_MaxOpenConns :: int
  opt_MaxIdleConns :: int
  opt_ConnLifetime :: duration

definition pool_defaults :: "pool_options \<Rightarrow> pool_options" where
  "pool_defaults o0 =
     (let o1 = (if opt_MaxOpenConns o0 \<le> 0 then o0\<lparr>opt_MaxOpenConns := 8\<rparr> else o0)
      in if opt_MaxIdleConns o1 \<le> 0 then o1\<lparr>opt_MaxIdleConns := opt_MaxOpenConns o1\<rparr> else o1)"

definition Open :: "(string \<Rightarrow> err option) \<Rightarrow> string \<Rightarrow> pool_options \<Rightarrow> pool_options op" where
  \<comment> \<open>\<open>opener\<close> is \<open>sql.Open\<close>; the pool it gives has the returned limits\<close>
  "Open opener dsn opts =
     andThen (lift_result (normalizeDSN dsn)) (\<lambda>resolved.
     andThen (check (map_option (Wrapped ''open sqlite database'') (opener resolved))) (\<lambda>_.
     andThen (on_error (Wrapped ''ping sqlite database'') driver) (\<lambda>_.
     ret (pool_defaults opts))))"

section \<open>Putting the process together\<close>

record machine =
  mc_Env :: environment
  mc_Mkdir :: "string \<Rightarrow> err option"
  mc_Opener :: "string \<Rightarrow> err option"
  mc_Files :: "embedded_file list"
  mc_Verdict :: "string list \<Rightarrow> string \<Rightarrow> err option"
  mc_Order :: "(int \<times> string) list \<Rightarrow> (int \<times> string) list"
  mc_RegistrarSalt :: "err + string"
  mc_StudentSalt :: "err + string"
  mc_WorkerEntropy :: "err + string"
  mc_LoginEntropy :: "err + string"
  mc_ReadMsg :: "string \<Rightarrow> string"
  mc_ParseTime :: "string \<Rightarrow> err + instant"
  mc_SyntaxMsg :: "string \<Rightarrow> string"

record app =
  app_Config :: config
  app_Server :: server
  app_Worker :: "worker option"
  app_Maintenance :: "duration option"

definition envOr :: "environment \<Rightarrow> string \<Rightarrow> string \<Rightarrow> string" where
  "envOr env key fallback = (let v = TrimSpace (case env key of None \<Rightarrow> [] | Some raw \<Rightarrow> raw) in
     if v \<noteq> [] then v else fallback)"

definition demo_spec :: "environment \<Rightarrow> instant \<Rightarrow> seed_spec" where
  "demo_spec env now =
     \<lparr>ssp_Now = now,
      ssp_RegistrarEmail = envOr env ''APP_SEED_REGISTRAR_EMAIL'' ''registrar@campus.example'',
      ssp_RegistrarPass = envOr env ''APP_SEED_REGISTRAR_PASSWORD'' ''orientation-registrar-2026'',
      ssp_StudentEmail = envOr env ''APP_SEED_STUDENT_EMAIL'' ''student@campus.example'',
      ssp_StudentPass = envOr env ''APP_SEED_STUDENT_PASSWORD'' ''orientation-student-2026'',
      ssp_TermCode = envOr env ''APP_SEED_TERM_CODE'' ''2026-autumn''\<rparr>"

definition seed_demo :: "machine \<Rightarrow> config \<Rightarrow> unit op" where
  "seed_demo m cfg =
     (if cfg_SeedDemoData cfg
      then andThen clock_now (\<lambda>now.
           andThen (Seed (mc_RegistrarSalt m) (mc_StudentSalt m) (demo_spec (mc_Env m) now)) (\<lambda>_. ret ()))
      else ret ())"

definition build_worker :: "machine \<Rightarrow> config \<Rightarrow> err + worker" where
  "build_worker m cfg =
     bind_result (NewWorkerID (mc_WorkerEntropy m) ''orientation'') (\<lambda>workerID.
     let bg = New_worker \<lparr>wcf_WorkerID = workerID, wcf_PollInterval = cfg_WorkerPollInterval cfg,
           wcf_Lease = cfg_WorkerLease cfg, wcf_BackoffBase = cfg_WorkerBackoffBase cfg,
           wcf_BackoffMax = cfg_WorkerBackoffMax cfg\<rparr>
     in bind_result (Register bg JobPromoteWaitlist (NewWaitlistPromotionHandler (mc_SyntaxMsg m) PromoteWaitlist))
          (\<lambda>bg1. Register bg1 JobSweepSessions (NewSessionSweepHandler SweepExpiredSessions)))"

definition add_worker :: "machine \<Rightarrow> config \<Rightarrow> app \<Rightarrow> err + app" where
  "add_worker m cfg a =
     (if cfg_WorkerEnabled cfg
      then bind_result (build_worker m cfg) (\<lambda>bg. Inr (a\<lparr>app_Worker := Some bg,
             app_Maintenance := Some (NewMaintenance (5 * Minute))\<rparr>))
      else Inr a)"

definition app_deps :: deps where
  \<comment> \<open>the dependencies every service is given\<close>
  "app_deps = \<lparr>dep_Store = True, dep_Clock = True, dep_Audit = True\<rparr>"

definition with_deps :: "deps \<Rightarrow> err + 'a \<Rightarrow> err + 'a" where
  \<comment> \<open>a constructor of a service checks its dependencies first\<close>
  "with_deps d rest = (case deps_Validate d of Some e \<Rightarrow> Inl e | None \<Rightarrow> rest)"

definition app_services :: api_services where
  "app_services = \<lparr>has_Auth = True, has_Catalog = True, has_Registrations = True, has_Enrollments = True,
     has_Idempotency = True\<rparr>"

lemma deps_present [simp]: "deps_Validate app_deps = None" "with_deps app_deps rest = rest"
  by (simp_all add: deps_Validate_def app_deps_def with_deps_def)

definition Build :: "machine \<Rightarrow> config \<Rightarrow> app op" where
  "Build m cfg =
     andThen (check (cfg_Validate cfg)) (\<lambda>_.
     andThen (check (ensureDatabaseDirectory (mc_Mkdir m) (cfg_DatabaseDSN cfg))) (\<lambda>_.
     andThen (Open (mc_Opener m) (cfg_DatabaseDSN cfg)
       \<lparr>opt_MaxOpenConns = 8, opt_MaxIdleConns = 0, opt_ConnLifetime = 0\<rparr>) (\<lambda>_.
     andThen (Migrate (mc_Files m) (mc_Verdict m) (mc_Order m)) (\<lambda>_.
     andThen (lift_result (LatestVersion (mc_Files m))) (\<lambda>expectedSchema.
     andThen (seed_demo m cfg) (\<lambda>_.
     andThen (lift_result (with_deps app_deps (NewAuthService (cfg_SessionTTL cfg)))) (\<lambda>ttl.
     andThen (check (deps_Validate app_deps)) (\<lambda>_. \<comment> \<open>\<open>NewCatalogService\<close>\<close>
     andThen (check (deps_Validate app_deps)) (\<lambda>_. \<comment> \<open>\<open>NewRegistrationService\<close>\<close>
     andThen (lift_result (with_deps app_deps (NewEnrollmentService (cfg_MaxEnrollmentRetries cfg)))) (\<lambda>retries.
     andThen (check (deps_Validate app_deps)) (\<lambda>_. \<comment> \<open>\<open>NewIdempotencyService\<close>\<close>
     andThen (lift_result (New_api app_services True expectedSchema)) (\<lambda>expected.
     lift_result (add_worker m cfg
       \<lparr>app_Config = cfg,
        app_Server = \<lparr>srv_SessionTTL = ttl, srv_MaxRetries = retries, srv_ExpectedSchema = expected,
          srv_Entropy = mc_LoginEntropy m, srv_ReadMsg = mc_ReadMsg m, srv_ParseTime = mc_ParseTime m\<rparr>,
        app_Worker = None, app_Maintenance = None\<rparr>)))))))))))))"

definition start :: "machine \<Rightarrow> app op" where
  \<comment> \<open>\<open>run\<close> of the command, up to serving\<close>
  "start m = andThen (lift_result (Load (mc_Env m))) (Build m)"

definition serve :: "err + string \<Rightarrow> app \<Rightarrow> string list \<Rightarrow> http_request \<Rightarrow> http_response op option" where
  \<comment> \<open>the handler of the process on a routed request\<close>
  "serve entropy a path r = map_option (RequestID entropy r) (dispatch (app_Server a) path r)"

end
