(* ===== verification/MigrationProperties.thy ===== *)
theory MigrationProperties
  imports Migrations Evolution HttpProperties
begin

text \<open>
  What migrating promises: each embedded script runs exactly once and in order, whatever fails and however
  often the start-up is repeated; a database that does not match the embedded files is refused untouched; and
  the readiness probe agrees.
\<close>

section \<open>The embedded migrations\<close>

lemma contiguous_versions: "contiguous ms i = None \<Longrightarrow> map mig_Version ms = map (\<lambda>k. i + int k) [0..<length ms]"
proof (induction ms arbitrary: i)
  case (Cons m ms)
  then have "map mig_Version ms = map (\<lambda>k. (i + 1) + int k) [0..<length ms]" "mig_Version m = i"
    by (auto split: if_splits)
  moreover have "map (\<lambda>k. i + int k) [0..<Suc (length ms)] = i # map (\<lambda>k. (i + 1) + int k) [0..<length ms]"
    by (subst upt_conv_Cons) (simp_all add: map_Suc_upt [symmetric] o_def algebra_simps del: upt_Suc)
  ultimately show ?case by simp
qed simp

lemma All_migrations_versions:
  assumes "All_migrations files = Inr ms"
  shows "ms \<noteq> []" "i < length ms \<Longrightarrow> mig_Version (ms ! i) = int i + 1"
proof -
  obtain fs where fs: "fs \<noteq> []" "ms = sort_key mig_Version fs" "contiguous ms 1 = None"
    using assms by (auto simp: All_migrations_def Let_def split: sum.splits if_splits option.splits)
  have "length ms = length fs" by (simp add: fs(2))
  then show "ms \<noteq> []" using fs(1) by auto
  assume i: "i < length ms"
  have "map mig_Version ms ! i = map (\<lambda>k. 1 + int k) [0..<length ms] ! i"
    using contiguous_versions [OF fs(3)] by simp
  then show "mig_Version (ms ! i) = int i + 1" using i by simp
qed

section \<open>Databases in step\<close>

definition row_of :: "migration \<Rightarrow> int \<times> string \<times> string" where
  "row_of m = (mig_Version m, mig_Name m, mig_Checksum m)"

definition in_step :: "migration list \<Rightarrow> nat \<Rightarrow> tables \<Rightarrow> bool" where
  \<comment> \<open>the first \<open>k\<close> scripts ran, once each and in order, and are recorded\<close>
  "in_step ms k t \<longleftrightarrow> k \<le> length ms \<and> t_scripts t = map mig_Script (take k ms)
     \<and> map (\<lambda>r. (mgr_Version r, mgr_Name r, mgr_Checksum r)) (case t_migrations t of None \<Rightarrow> [] | Some rows \<Rightarrow> rows)
       = map row_of (take k ms)"

definition schema_only :: "tables \<Rightarrow> tables \<Rightarrow> bool" where
  "schema_only t t' \<longleftrightarrow> t'\<lparr>t_migrations := None, t_scripts := []\<rparr> = t\<lparr>t_migrations := None, t_scripts := []\<rparr>"

interpretation schema_only: evolution schema_only
  by unfold_locales (simp_all add: schema_only_def)

lemma applyMigration_step:
  assumes "applyMigration verdict m w = (r, w')" "in_step ms k (tb w)" "t_migrations (tb w) \<noteq> None"
    and "k < length ms" "m = ms ! k"
  shows "(\<exists>e. r = Inl e) \<and> tb w' = tb w
    \<or> r = Inr () \<and> in_step ms (Suc k) (tb w') \<and> t_migrations (tb w') \<noteq> None \<and> schema_only (tb w) (tb w')"
proof -
  from run_tx_result [OF assms(1) [unfolded applyMigration_def]] show ?thesis
  proof (elim disjE conjE exE)
    fix x w1 w2
    assume x: "r = Inr x" "tb w1 = tb w" "apply_tx verdict m w1 = (Inr x, w2)" "tb w' = tb w2"
    obtain rows where rows: "t_migrations (tb w) = Some rows" using assms(3) by blast
    obtain now where "tb w2 = (tb w)\<lparr>t_scripts := t_scripts (tb w) @ [mig_Script m],
        t_migrations := Some (rows @ [\<lparr>mgr_Version = mig_Version m, mgr_Name = mig_Name m,
          mgr_Checksum = mig_Checksum m, mgr_AppliedAt = now\<rparr>])\<rparr>"
      using x(2,3) rows
      by (auto simp: apply_tx_def op_simps run_script_def insert_migration_def split: option.splits if_splits)
    then show ?thesis
      using x assms(2,4,5) rows
      by (auto simp: in_step_def take_Suc_conv_app_nth row_of_def schema_only_def)
  qed simp
qed

lemma skip_applied:
  assumes "\<forall>m \<in> set pre. map_of applied (mig_Version m) \<noteq> None"
  shows "apply_pending verdict (pre @ ms) applied = apply_pending verdict ms applied"
  using assms by (induction pre) auto

lemma apply_pending_steps:
  assumes "apply_pending verdict rest applied w = (r, w')" "ms = pre @ rest" "in_step ms (length pre) (tb w)"
    and "t_migrations (tb w) \<noteq> None" "\<forall>m \<in> set rest. map_of applied (mig_Version m) = None"
  shows "\<exists>k. length pre \<le> k \<and> in_step ms k (tb w') \<and> t_migrations (tb w') \<noteq> None \<and> schema_only (tb w) (tb w')
    \<and> (\<forall>vs. r = Inr vs \<longrightarrow> k = length ms \<and> vs = map mig_Version rest)"
  using assms
proof (induction rest arbitrary: pre w r w')
  case Nil
  then show ?case by (auto simp: ret_iff schema_only.refl)
next
  case (Cons m rest)
  obtain a w1 where a: "applyMigration verdict m w = (a, w1)" by fastforce
  have none: "map_of applied (mig_Version m) = None" using Cons.prems(5) by simp
  from applyMigration_step [OF a Cons.prems(3,4), of] Cons.prems(2)
  consider e where "a = Inl e" "tb w1 = tb w"
    | "a = Inr ()" "in_step ms (Suc (length pre)) (tb w1)" "t_migrations (tb w1) \<noteq> None" "schema_only (tb w) (tb w1)"
    by fastforce
  then show ?case
  proof cases
    case 1
    then have "r = Inl e" "w' = w1" using Cons.prems(1) none a by (auto simp: andThen_def)
    then show ?thesis using 1 Cons.prems(3,4) schema_only.refl by (intro exI [of _ "length pre"]) simp
  next
    case 2
    obtain q w2 where q: "apply_pending verdict rest applied w1 = (q, w2)" by fastforce
    then have last: "w' = w2" "\<And>vs. r = Inr vs \<Longrightarrow> \<exists>us. q = Inr us \<and> vs = mig_Version m # us"
      using Cons.prems(1) none a 2(1) by (cases q; auto simp: andThen_def ret_def)+
    obtain k where k: "Suc (length pre) \<le> k" "in_step ms k (tb w2)" "t_migrations (tb w2) \<noteq> None" "schema_only (tb w1) (tb w2)"
      "\<forall>vs. q = Inr vs \<longrightarrow> k = length ms \<and> vs = map mig_Version rest"
      using Cons.IH [OF q, of "pre @ [m]"] Cons.prems(2,5) 2(2,3) by auto
    show ?thesis
      by (rule exI [of _ k]) (use k last 2(4) schema_only.trans in auto)
  qed
qed

lemma applied_keys:
  assumes "in_step ms k t"
  shows "set (map fst (applied_in t)) = set (map mig_Version (take k ms))"
    "(v, c) \<in> set (applied_in t) \<Longrightarrow> \<exists>m \<in> set (take k ms). v = mig_Version m \<and> c = mig_Checksum m"
proof -
  obtain rows :: "migration_row list" where rows: "set (applied_in t) = (\<lambda>r. (mgr_Version r, mgr_Checksum r)) ` set rows"
      "map (\<lambda>r. (mgr_Version r, mgr_Name r, mgr_Checksum r)) rows = map row_of (take k ms)"
    using assms
  proof (cases "t_migrations t")
    case None
    then show thesis using assms that [of "[]"] by (simp add: applied_in_def in_step_def)
  next
    case (Some a)
    then show thesis using assms that [of a] by (simp add: applied_in_def in_step_def)
  qed
  have "set (applied_in t) = (\<lambda>(v, n, c). (v, c)) ` set (map (\<lambda>r. (mgr_Version r, mgr_Name r, mgr_Checksum r)) rows)"
    unfolding rows(1) set_map image_image by simp
  then have "set (applied_in t) = (\<lambda>m. (mig_Version m, mig_Checksum m)) ` set (take k ms)"
    unfolding rows(2) set_map image_image by (simp add: row_of_def)
  then show "set (map fst (applied_in t)) = set (map mig_Version (take k ms))"
    "(v, c) \<in> set (applied_in t) \<Longrightarrow> \<exists>m \<in> set (take k ms). v = mig_Version m \<and> c = mig_Checksum m"
    by (auto simp: image_image)
qed

lemma no_drift:
  assumes "\<And>i. i < length ms \<Longrightarrow> mig_Version (ms ! i) = int i + 1"
    and "\<forall>(v, c) \<in> set xs. \<exists>m \<in> set ms. v = mig_Version m \<and> c = mig_Checksum m"
  shows "check_drift ms xs = None"
  using assms(2)
proof (induction xs)
  case (Cons x xs)
  obtain v c where x: "x = (v, c)" by (cases x)
  then obtain m where m: "m \<in> set ms" "v = mig_Version m" "c = mig_Checksum m" using Cons.prems by auto
  obtain i where i: "i < length ms" "m = ms ! i" using m(1) by (metis in_set_conv_nth)
  have "v = int i + 1" using assms(1) [OF i(1)] m(2) i(2) by simp
  then show ?case using Cons i m(3) x by (simp add: Let_def)
qed simp

lemma Migrate_in_step:
  assumes files: "All_migrations files = Inr ms" and step: "in_step ms k (tb w)"
    and order: "\<forall>xs. set (order xs) = set xs" and run: "Migrate files verdict order w = (r, w')"
  shows "\<exists>k'. k \<le> k' \<and> in_step ms k' (tb w') \<and> schema_only (tb w) (tb w')
    \<and> (\<forall>out. r = Inr out \<longrightarrow> k' = length ms \<and> t_migrations (tb w') \<noteq> None
        \<and> mo_Applied out = map mig_Version (drop k ms) \<and> mo_AlreadyCurrent out = (k = length ms)
        \<and> mo_Version out = int (length ms))"
proof -
  note versions = All_migrations_versions(2) [OF files]
  obtain c w1 where c: "on_error (Wrapped ''create schema_migrations'') (exec create_schema_migrations) w = (c, w1)" by fastforce
  have made: "in_step ms k (tb w1)" "schema_only (tb w) (tb w1)" "\<And>u. c = Inr u \<Longrightarrow> t_migrations (tb w1) \<noteq> None"
    using c step by (auto simp: on_error_def exec_def andThen_def driver_def create_schema_migrations_def in_step_def
        schema_only_def split: option.splits sum.splits)
  show ?thesis
  proof (cases c)
    case (Inl e)
    then have "r = Inl e" "w' = w1" using run c files by (auto simp: Migrate_def andThen_def lift_result_def)
    then show ?thesis using made by (intro exI [of _ k]) simp
  next
    case (Inr u)
    obtain l w2 where l: "loadAppliedMigrations w1 = (l, w2)" by fastforce
    have "reads loadAppliedMigrations" unfolding loadAppliedMigrations_def by (intro reads_intro)
    from reads_result [OF this l] have w2: "tb w2 = tb w1" .
    show ?thesis
    proof (cases l)
      case (Inl e)
      then have "r = Inl e" "w' = w2" using run c \<open>c = Inr u\<close> l files by (auto simp: Migrate_def andThen_def lift_result_def)
      then show ?thesis using made w2 by (intro exI [of _ k]) simp
    next
      case (Inr applied)
      have applied: "applied = applied_in (tb w1)"
        using l Inr by (auto simp: loadAppliedMigrations_def op_simps)
      note keys = applied_keys [OF made(1), folded applied]
      have "\<forall>(v, d) \<in> set (order applied). \<exists>m \<in> set ms. v = mig_Version m \<and> d = mig_Checksum m"
        using keys(2) order by (auto dest!: keys(2)) (blast dest: in_set_takeD)
      then have drift: "check_drift ms (order applied) = None" by (intro no_drift versions)
      have has: "map_of applied v = None \<longleftrightarrow> v \<notin> mig_Version ` set (take k ms)" for v
        using keys(1) by (auto simp: map_of_eq_None_iff)
      have "distinct (map mig_Version ms)"
        by (auto simp: distinct_conv_nth versions)
      then have "distinct (map mig_Version (take k ms) @ map mig_Version (drop k ms))"
        by (metis append_take_drop_id map_append)
      then have rest: "\<forall>m \<in> set (drop k ms). map_of applied (mig_Version m) = None"
        unfolding has by auto
      have "apply_pending verdict (take k ms @ drop k ms) applied = apply_pending verdict (drop k ms) applied"
        by (rule skip_applied) (simp add: has)
      then have skip: "apply_pending verdict ms applied = apply_pending verdict (drop k ms) applied" by simp
      obtain q w3 where q: "apply_pending verdict (drop k ms) applied w2 = (q, w3)" by fastforce
      have k: "length (take k ms) = k" using step by (simp add: in_step_def)
      obtain k' where k': "k \<le> k'" "in_step ms k' (tb w3)" "t_migrations (tb w3) \<noteq> None" "schema_only (tb w2) (tb w3)"
        "\<forall>vs. q = Inr vs \<longrightarrow> k' = length ms \<and> vs = map mig_Version (drop k ms)"
        using apply_pending_steps [OF q, of ms "take k ms"] made(1) made(3) [OF \<open>c = Inr u\<close>] w2 rest k by auto
      have out: "w' = w3" "\<And>o'. r = Inr o' \<Longrightarrow> \<exists>vs. q = Inr vs \<and> o' = \<lparr>mo_Applied = vs,
          mo_AlreadyCurrent = (length vs = 0), mo_Version = int (length ms)\<rparr>"
        using run c \<open>c = Inr u\<close> l Inr drift skip q files
        by (cases q; auto simp: Migrate_def andThen_def lift_result_def check_def ret_def)+
      show ?thesis
        by (rule exI [of _ k'])
          (use k' out made(2) w2 step in \<open>auto simp: schema_only_def in_step_def\<close>)
    qed
  qed
qed

section \<open>Starting up\<close>

type_synonym start_up = "(string list \<Rightarrow> string \<Rightarrow> err option) \<times> ((int \<times> string) list \<Rightarrow> (int \<times> string) list)"

fun start_ups :: "embedded_file list \<Rightarrow> start_up list \<Rightarrow> unit op" where
  \<comment> \<open>start-ups one after the other, whatever becomes of each\<close>
  "start_ups files [] = ret ()"
| "start_ups files ((verdict, order) # runs) =
     andThen (attempt (Migrate files verdict order)) (\<lambda>_. start_ups files runs)"

definition walks :: "((int \<times> string) list \<Rightarrow> (int \<times> string) list) \<Rightarrow> bool" where
  \<comment> \<open>the walk over a map meets each entry\<close>
  "walks order \<longleftrightarrow> (\<forall>xs. set (order xs) = set xs)"

lemma start_ups_in_step:
  assumes "All_migrations files = Inr ms" "\<forall>(verdict, order) \<in> set runs. walks order"
    and "in_step ms k (tb w)" "start_ups files runs w = (r, w')"
  shows "\<exists>k'. in_step ms k' (tb w') \<and> schema_only (tb w) (tb w')"
  using assms(2-4)
proof (induction runs arbitrary: w k)
  case Nil
  then show ?case by (auto simp: ret_iff schema_only.refl)
next
  case (Cons run runs)
  obtain verdict order where run: "run = (verdict, order)" by (cases run)
  obtain q w1 where q: "Migrate files verdict order w = (q, w1)" by fastforce
  have "\<forall>xs. set (order xs) = set xs" using Cons.prems(1) run by (simp add: walks_def)
  from Migrate_in_step [OF assms(1) Cons.prems(2) this q]
  obtain k1 where k1: "in_step ms k1 (tb w1)" "schema_only (tb w) (tb w1)" by blast
  have "start_ups files runs w1 = (r, w')"
    using Cons.prems(3) q run by (simp add: andThen_def attempt_def)
  from Cons.IH [OF _ k1(1) this] Cons.prems(1) k1(2) show ?case
    using schema_only.trans by auto
qed

section \<open>A shipped schema\<close>

definition sample_files :: "embedded_file list" where
  "sample_files =
     [\<lparr>emb_Name = ''0001_users.sql'', emb_IsDir = False, emb_Raw = ''create users''\<rparr>,
      \<lparr>emb_Name = ''notes.txt'', emb_IsDir = False, emb_Raw = []\<rparr>,
      \<lparr>emb_Name = ''0002_jobs.sql'', emb_IsDir = False, emb_Raw = ''create jobs''\<rparr>]"

definition sample_migrations :: "migration list" where
  "sample_migrations =
     [\<lparr>mig_Version = 1, mig_Name = ''users'', mig_Script = ''create users'', mig_Checksum = hex_encode (Sum256 ''create users'')\<rparr>,
      \<lparr>mig_Version = 2, mig_Name = ''jobs'', mig_Script = ''create jobs'', mig_Checksum = hex_encode (Sum256 ''create jobs'')\<rparr>]"

lemma sample_names:
  "parseName ''0001_users.sql'' = Inr (1, ''users'')" "parseName ''0002_jobs.sql'' = Inr (2, ''jobs'')"
  "has_suffix sql_suffix ''0001_users.sql''" "has_suffix sql_suffix ''0002_jobs.sql''" "\<not> has_suffix sql_suffix ''notes.txt''"
  by code_simp+

lemma sample_shipped: "All_migrations sample_files = Inr sample_migrations" "LatestVersion sample_files = Inr 2"
  by (simp_all add: All_migrations_def LatestVersion_def sample_files_def sample_migrations_def sample_names Let_def)

definition accepts :: "string list \<Rightarrow> string \<Rightarrow> err option" where "accepts scripts script = None"

definition as_stored :: "(int \<times> string) list \<Rightarrow> (int \<times> string) list" where "as_stored xs = xs"

lemma walks_as_stored: "walks as_stored" by (simp add: walks_def as_stored_def)

lemma sample_migrated:
  "\<exists>w. Migrate sample_files accepts as_stored ((at_time 5 empty_tables)\<lparr>w_tick := k\<rparr>)
     = (Inr \<lparr>mo_Applied = [1, 2], mo_AlreadyCurrent = False, mo_Version = 2\<rparr>, w)"
  unfolding Migrate_def sample_shipped
  by (simp add: sample_migrations_def at_time_def empty_tables_def create_schema_migrations_def loadAppliedMigrations_def
      applied_in_def as_stored_def applyMigration_def run_tx_def apply_tx_def run_script_def accepts_def insert_migration_def
      order_by_def andThen_def ret_def lift_result_def on_error_def exec_def driver_def check_def query_rows_def query_def
      clock_now_def asc_def)

lemma sample_migrated_first:
  "\<exists>w. Migrate sample_files accepts as_stored (at_time 5 empty_tables)
     = (Inr \<lparr>mo_Applied = [1, 2], mo_AlreadyCurrent = False, mo_Version = 2\<rparr>, w)"
  using sample_migrated [of 0] by (simp add: at_time_def)

text \<open>C21: each schema script runs exactly once. Starting from a database that was never migrated, after any
  number of start-ups, whatever fails in them, the scripts that ran are a first part of the embedded ones, in
  order and once each; a start-up that succeeds reports and runs exactly the missing ones, and no table but the
  migration records is touched.\<close>

theorem scripts_run_once:
  assumes "All_migrations files = Inr ms" "t_migrations (tb w) = None" "t_scripts (tb w) = []"
    and "\<forall>(verdict, order) \<in> set runs. walks order" "start_ups files runs w = (u, w1)"
    and "walks order" "Migrate files verdict order w1 = (Inr out, w2)"
  shows "(\<exists>k \<le> length ms. t_scripts (tb w1) = map mig_Script (take k ms)
        \<and> mo_Applied out = map mig_Version (drop k ms) \<and> (mo_AlreadyCurrent out \<longleftrightarrow> k = length ms))
    \<and> t_scripts (tb w2) = map mig_Script ms \<and> mo_Version out = int (length ms) \<and> schema_only (tb w) (tb w2)"
proof -
  have "in_step ms 0 (tb w)" using assms(2,3) by (simp add: in_step_def)
  from start_ups_in_step [OF assms(1,4) this assms(5)] obtain k where
    k: "in_step ms k (tb w1)" "schema_only (tb w) (tb w1)" by blast
  from Migrate_in_step [OF assms(1) k(1) assms(6) [unfolded walks_def] assms(7)]
  have last: "in_step ms (length ms) (tb w2)" "schema_only (tb w1) (tb w2)"
    "mo_Applied out = map mig_Version (drop k ms)" "mo_AlreadyCurrent out = (k = length ms)"
    "mo_Version out = int (length ms)" by auto
  show ?thesis
    using k last schema_only.trans by (intro conjI exI [of _ k]) (auto simp: in_step_def)
qed

theorem scripts_run_once_witness:
  "\<exists>w2 :: world. t_scripts (tb w2) = [''create users'', ''create jobs''] \<and> schema_only empty_tables (tb w2)"
proof -
  obtain w where w: "Migrate sample_files accepts as_stored (at_time 5 empty_tables)
      = (Inr \<lparr>mo_Applied = [1, 2], mo_AlreadyCurrent = False, mo_Version = 2\<rparr>, w)" using sample_migrated_first by blast
  have "t_scripts (tb w) = map mig_Script sample_migrations \<and> schema_only empty_tables (tb w)"
    using scripts_run_once [OF sample_shipped(1) _ _ _ _ walks_as_stored w, where runs = "[]"]
    by (simp add: at_time_def empty_tables_def ret_def)
  then show ?thesis by (auto simp: sample_migrations_def)
qed

section \<open>Drift\<close>

definition drifted :: "migration list \<Rightarrow> migration_row \<Rightarrow> bool" where
  \<comment> \<open>recorded, but not shipped, or shipped with another text\<close>
  "drifted ms r \<longleftrightarrow> int (length ms) < mgr_Version r \<or> mig_Checksum (ms ! nat (mgr_Version r - 1)) \<noteq> mgr_Checksum r"

lemma check_drift_finds:
  assumes "\<forall>(v, c) \<in> set xs. 1 \<le> v"
    and "\<exists>(v, c) \<in> set xs. int (length ms) < v \<or> mig_Checksum (ms ! nat (v - 1)) \<noteq> c"
  shows "\<exists>e. check_drift ms xs = Some e \<and> errors_Is e ErrMigrationDrift"
  using assms
proof (induction xs)
  case (Cons x xs)
  then show ?case by (cases x) (auto simp: Let_def)
qed simp

text \<open>C22: a database that drifted is left alone. When a recorded migration is not shipped, or shipped with another
  text, the start-up fails and changes nothing, whatever driver calls fail; when none fails the error is the
  drift error, which the interface reports as such.\<close>

theorem drifted_database_refused:
  assumes "All_migrations files = Inr ms" "walks order" "t_migrations t = Some rows"
    and "list_all (\<lambda>r. 1 \<le> mgr_Version r) rows" "list_ex (drifted ms) rows"
  shows "(\<exists>e. yields now rid (Migrate files verdict order) t (Inl e) t \<and> errors_Is e ErrMigrationDrift)
    \<and> (\<forall>w. tb w = t \<longrightarrow> (\<exists>e w'. Migrate files verdict order w = (Inl e, w') \<and> tb w' = t))"
proof -
  have applied: "set (order (applied_in t)) = (\<lambda>r. (mgr_Version r, mgr_Checksum r)) ` set rows"
    using assms(2,3) by (simp add: walks_def applied_in_def)
  obtain e where e: "check_drift ms (order (applied_in t)) = Some e" "errors_Is e ErrMigrationDrift"
    using check_drift_finds [of "order (applied_in t)" ms] assms(4,5)
    unfolding applied by (auto simp: drifted_def list_all_iff list_ex_iff)
  have same: "create_schema_migrations t = Inr ((), t)" using assms(3) by (simp add: create_schema_migrations_def)
  have "yields now rid (Migrate files verdict order) t (Inl e) t"
    unfolding Migrate_def assms(1)
  proof (rule yields_andThen [OF yields_basic(3)], rule yields_andThen)
    show "yields now rid (on_error (Wrapped ''create schema_migrations'') (exec create_schema_migrations)) t (Inr ()) t"
      by (rule yields_on_error_Inr, rule yields_exec_Inr, rule same)
    show "yields now rid (andThen loadAppliedMigrations (\<lambda>applied. andThen (check (check_drift ms (order applied))) (\<lambda>_.
        andThen (apply_pending verdict ms applied) (\<lambda>versions. ret \<lparr>mo_Applied = versions,
          mo_AlreadyCurrent = (length versions = 0), mo_Version = int (length ms)\<rparr>)))) t (Inl e) t"
      unfolding loadAppliedMigrations_def
      by (rule yields_andThen [OF yields_query_rows], rule yields_andThen_Inl) (use yields_check [of now rid "Some e" t] e(1) in simp)
  qed
  moreover have "\<exists>e w'. Migrate files verdict order w = (Inl e, w') \<and> tb w' = t" if w: "tb w = t" for w
  proof -
    obtain c w1 where c: "on_error (Wrapped ''create schema_migrations'') (exec create_schema_migrations) w = (c, w1)" by fastforce
    have w1: "tb w1 = t"
      using c w same by (auto simp: on_error_def exec_def andThen_def driver_def split: option.splits sum.splits)
    obtain l w2 where l: "loadAppliedMigrations w1 = (l, w2)" by fastforce
    have "reads loadAppliedMigrations" unfolding loadAppliedMigrations_def by (intro reads_intro)
    from reads_result [OF this l] have w2: "tb w2 = t" using w1 by simp
    have "l = Inr x \<Longrightarrow> x = applied_in t" for x
      using l w1 by (auto simp: loadAppliedMigrations_def op_simps)
    then show ?thesis using c w1 l w2 e(1) assms(1)
      by (cases c; cases l) (auto simp: Migrate_def andThen_def lift_result_def check_def)
  qed
  ultimately show ?thesis using e(2) by blast
qed

theorem drifted_database_refused_witness:
  "\<exists>e. yields 5 ''req-1'' (Migrate sample_files accepts as_stored)
        (empty_tables\<lparr>t_migrations := Some [\<lparr>mgr_Version = 3, mgr_Name = ''later'', mgr_Checksum = ''00'', mgr_AppliedAt = 1\<rparr>]\<rparr>)
        (Inl e)
        (empty_tables\<lparr>t_migrations := Some [\<lparr>mgr_Version = 3, mgr_Name = ''later'', mgr_Checksum = ''00'', mgr_AppliedAt = 1\<rparr>]\<rparr>)
      \<and> errors_Is e ErrMigrationDrift"
proof -
  let ?r = "\<lparr>mgr_Version = 3, mgr_Name = ''later'', mgr_Checksum = ''00'', mgr_AppliedAt = 1\<rparr>"
  have "list_ex (drifted sample_migrations) [?r]" by (simp add: drifted_def sample_migrations_def)
  then show ?thesis
    using drifted_database_refused [OF sample_shipped(1) walks_as_stored, of "empty_tables\<lparr>t_migrations := Some [?r]\<rparr>" "[?r]"
        5 "''req-1''" accepts] by simp
qed

section \<open>Readiness\<close>

lemma highest_in_step:
  assumes "All_migrations files = Inr ms" "in_step ms (length ms) t" "t_migrations t = Some rows"
  shows "highest_version rows = Some (int (length ms))"
proof -
  note v = All_migrations_versions [OF assms(1)]
  have rows: "map mgr_Version rows = map mig_Version ms"
  proof -
    have "map fst (map (\<lambda>r. (mgr_Version r, mgr_Name r, mgr_Checksum r)) rows) = map fst (map row_of ms)"
      using assms(2,3) by (simp add: in_step_def)
    then show ?thesis by (simp add: row_of_def o_def)
  qed
  obtain x xs where xs: "map mig_Version ms = x # xs" using v(1) by (cases "map mig_Version ms") auto
  have fold: "foldr max ys (y::int) = Max (insert y (set ys))" for ys y
    by (induction ys) (auto simp: insert_commute)
  have "set (map mig_Version ms) = (\<lambda>i. int i + 1) ` {..<length ms}"
    using v(2) by (auto simp: in_set_conv_nth image_iff) (metis nth_mem v(2))
  moreover have "Max ((\<lambda>i. int i + 1) ` {..<length ms}) = int (length ms)"
  proof (intro Max_eqI)
    have "0 < length ms" using v(1) by simp
    then have "int (length ms) = int (length ms - 1) + 1" "length ms - 1 < length ms" by linarith+
    then show "int (length ms) \<in> (\<lambda>i. int i + 1) ` {..<length ms}" by blast
  qed auto
  ultimately have "Max (insert x (set xs)) = int (length ms)" using xs by simp
  then show ?thesis by (simp add: highest_version_def rows xs fold)
qed

lemma yields_SchemaVersion:
  assumes "t_migrations t = Some rows" "highest_version rows = Some v"
  shows "yields now rid SchemaVersion t (Inr v) t"
proof -
  have "yields now rid (andThen (query t_migrations) (\<lambda>table. case table of
      None \<Rightarrow> raise (Plain ''no such table: schema_migrations'') | Some rows \<Rightarrow> ret (highest_version rows))) t (Inr (Some v)) t"
    by (rule yields_andThen [OF yields_query], unfold assms(1) option.case assms(2), rule yields_basic(1))
  then show ?thesis
    unfolding SchemaVersion_def by (rule yields_andThen [OF yields_attempt]) (simp add: yields_basic(1))
qed

lemma yields_Ping: "yields now rid Ping t (Inr ()) t"
  unfolding Ping_def by (rule yields_on_error_Inr [OF yields_basic(7)])

lemma readiness_after_steps:
  assumes "All_migrations files = Inr ms" "in_step ms (length ms) t" "t_migrations t = Some rows"
  shows "\<exists>rsp. yields now rid (handleReadiness srv) t (Inr rsp) t
    \<and> rsp_Status rsp = (if srv_ExpectedSchema srv = int (length ms) then 200 else 503)"
proof -
  note version = yields_SchemaVersion [OF assms(3) highest_in_step [OF assms]]
  let ?answer = "\<lambda>st word. WriteJSON st (Some (readiness_json word (int (length ms)) (srv_ExpectedSchema srv)))"
  let ?rsp = "if int (length ms) \<noteq> srv_ExpectedSchema srv then ?answer 503 ''schema_mismatch'' else ?answer 200 ''ready''"
  have "yields now rid (handleReadiness srv) t (Inr ?rsp) t"
    unfolding handleReadiness_def
  proof (rule yields_andThen [OF yields_basic(4)], rule yields_andThen [OF yields_attempt [OF yields_Ping]], unfold sum.case,
        rule yields_andThen [OF yields_attempt [OF version]], unfold sum.case)
    show "yields now rid (if int (length ms) \<noteq> srv_ExpectedSchema srv then ret (?answer 503 ''schema_mismatch'')
        else ret (?answer 200 ''ready'')) t (Inr ?rsp) t"
      by (cases "int (length ms) \<noteq> srv_ExpectedSchema srv") (simp_all add: yields_basic(1))
  qed
  moreover have "rsp_Status ?rsp = (if srv_ExpectedSchema srv = int (length ms) then 200 else 503)"
    by (auto simp: WriteJSON_def)
  ultimately show ?thesis by blast
qed

lemma LatestVersion_count:
  assumes "All_migrations files = Inr ms"
  shows "LatestVersion files = Inr (int (length ms))"
  using assms All_migrations_versions [OF assms] by (cases ms) (auto simp: LatestVersion_def)

end
