(* ===== verification/Provisioning.thy ===== *)
theory Provisioning
  imports Seed ClaimRows AuthProperties PaperworkProperties
begin

text \<open>
  What seeding promises: on a database without claims it keeps every invariant of the platform, a failed seed changes
  nothing, and a second one is skipped when the term code is normalised and fails when it is not. The calls that
  provision reference data are named here; \<open>Lifetime\<close> runs them at any time.
\<close>

section \<open>Relations along the seed\<close>

definition empty_section :: "course_section \<Rightarrow> bool" where
  "empty_section s \<longleftrightarrow> sec_SeatsTaken s = 0 \<and> sec_WaitlistLength s = 0"

lemma seed_sections_fresh: "list_all (\<lambda>(s, ms). empty_section s) (seed_sections termID courseIDs)"
  by (simp add: seed_sections_def seed_section_def empty_section_def)

locale reference_data = evolution +
  \<comment> \<open>a relation that the inserts of accounts, terms, courses and records move along\<close>
  assumes user: "insert_user u t = Inr (i, t') \<Longrightarrow> R t t'"
    and trm: "insert_term trm t = Inr (i, t') \<Longrightarrow> R t t'"
    and crs: "insert_course c t = Inr (i, t') \<Longrightarrow> R t t'"
    and prereq: "insert_prerequisite i code n t = Inr (u', t') \<Longrightarrow> R t t'"
    and passed: "insert_academic_record q t = Inr (u', t') \<Longrightarrow> R t t'"
begin

lemmas steps = keeps_andThen keeps_on_error keeps_basic keeps_if keeps_attempt keeps_sum keeps_exec

lemma keeps_reference:
  "keeps (CreateUser u)" "keeps (insertTerm trm)" "keeps (insertCourse c)" "keeps (insertPrerequisite i code n)"
  "keeps (insertAcademicRecord q)"
  unfolding CreateUser_def insertTerm_def insertCourse_def insertPrerequisite_def insertAcademicRecord_def
  by (intro steps; erule user trm crs prereq passed)+

lemma keeps_prerequisites: "keeps (insert_prerequisites i codes n)"
  by (induction codes arbitrary: n) (simp, rule steps, simp, intro steps keeps_reference)

lemma keeps_courses: "keeps (insert_courses cs ids)"
  by (induction cs ids rule: insert_courses.induct)
    (unfold insert_courses.simps, rule steps, (intro steps keeps_reference keeps_prerequisites | assumption)+)

lemma keeps_Seed_sections:
  assumes "\<And>i ids now. keeps (insert_sections (seed_sections i ids) now)"
  shows "keeps (Seed e1 e2 spec)"
  unfolding Seed_def with_defaults_def seed_insert_def seed_tx_def inTxDataset_def
  by (intro steps keeps_run_tx keeps_reference keeps_courses assms keeps_reads [OF catalog_reads(2)])

end

locale seeding = reference_data +
  \<comment> \<open>one that the inserts of empty sections and their meetings move along as well\<close>
  assumes sec: "insert_section r t = Inr (i, t') \<Longrightarrow> sr_SeatsTaken r = 0 \<Longrightarrow> sr_WaitlistLength r = 0 \<Longrightarrow> R t t'"
    and mtg: "insert_meeting m t = Inr (u', t') \<Longrightarrow> R t t'"
begin

lemma keeps_inserts: "keeps (insertMeeting m)" "empty_section s \<Longrightarrow> keeps (insertSection s now)"
  unfolding insertMeeting_def insertSection_def
  by (intro steps; erule mtg sec; simp add: section_row_of_def empty_section_def)+

lemma keeps_meetings: "keeps (insert_meetings j ms)"
  by (induction ms) (simp, rule steps, simp, intro steps keeps_inserts)

lemma keeps_sections: "list_all (\<lambda>(s, ms). empty_section s) ss \<Longrightarrow> keeps (insert_sections ss now)"
  by (induction ss now rule: insert_sections.induct)
    (simp, rule steps, simp, intro steps keeps_inserts keeps_meetings, simp_all)

lemma keeps_Seed: "keeps (Seed e1 e2 spec)"
  by (intro keeps_Seed_sections keeps_sections seed_sections_fresh)

end

section \<open>Databases without claims\<close>

definition unclaimed :: "tables \<Rightarrow> bool" where
  \<comment> \<open>no session, paperwork or claim is stored, and every section is empty\<close>
  "unclaimed t \<longleftrightarrow> t_sessions t = empty_table \<and> t_registrations t = empty_table \<and> t_enrollments t = empty_table
     \<and> section_key.keyed (t_sections t) \<and> term_key.keyed (t_terms t)
     \<and> (\<forall>trm \<in> set (tbl_rows (t_terms t)). 0 < trm_CreditLimit trm)
     \<and> (\<forall>s \<in> set (tbl_rows (t_sections t)). section_row_ok s \<and> sr_SeatsTaken s = 0 \<and> sr_WaitlistLength s = 0)"

definition platform_ok :: "tables \<Rightarrow> bool" where
  \<comment> \<open>the invariants the components start from\<close>
  "platform_ok t \<longleftrightarrow> ledger t \<and> ranked t \<and> claims_ok t \<and> plans_ok t \<and> shapes_ok t \<and> sessions_ok t \<and> papers_ok t"

lemma unclaimed_ok: "unclaimed t \<Longrightarrow> platform_ok t"
  by (auto simp: unclaimed_def platform_ok_def ledger_def ids_ok_def row_balanced_def section_row_ok_def ranked_def
      claims_ok_def plans_ok_def shapes_ok_def sessions_ok_def papers_ok_def empty_table_def seats_held_def waiting_def
      count_where_def credits_held_def select_where_def enrollment_key.keyed_def session_key.keyed_def
      registration_key.keyed_def intro: less_imp_le)

lemma empty_unclaimed: "unclaimed empty_tables"
  by (simp add: unclaimed_def empty_tables_def empty_table_def section_key.keyed_def term_key.keyed_def)

definition stays_unclaimed :: "tables \<Rightarrow> tables \<Rightarrow> bool" where
  "stays_unclaimed t t' \<longleftrightarrow> (unclaimed t \<longrightarrow> unclaimed t')"

lemma unclaimed_insert_section:
  assumes "insert_section r t = Inr (i, t')" "sr_SeatsTaken r = 0" "sr_WaitlistLength r = 0"
  shows "stays_unclaimed t t'"
  using assms section_key.keyed_insert [of "t_sections t" r]
  by (auto simp: stays_unclaimed_def unclaimed_def insert_section_def table_insert_def section_row_ok_def split: if_splits)

lemma unclaimed_same:
  assumes "t_sessions t' = t_sessions t" "t_registrations t' = t_registrations t" "t_enrollments t' = t_enrollments t"
    and "t_sections t' = t_sections t" "t_terms t' = t_terms t"
  shows "stays_unclaimed t t'"
  using assms by (simp add: stays_unclaimed_def unclaimed_def)

interpretation unclaimed: seeding stays_unclaimed
proof unfold_locales
  show "stays_unclaimed t t" "stays_unclaimed t u \<Longrightarrow> stays_unclaimed u v \<Longrightarrow> stays_unclaimed t v" for t u v
    by (simp_all add: stays_unclaimed_def)
  show "insert_term trm t = Inr (i, t') \<Longrightarrow> stays_unclaimed t t'" for trm t i t'
    using term_key.keyed_insert [of "t_terms t"]
    by (auto simp: stays_unclaimed_def unclaimed_def insert_term_def table_insert_def split: if_splits)
qed (auto intro: unclaimed_insert_section,
  auto intro!: unclaimed_same simp: insert_user_def insert_course_def insert_prerequisite_def insert_meeting_def
    insert_academic_record_def split: if_splits)

section \<open>Setting up\<close>

datatype setup_call =
    SetupSeed "err + string" "err + string" seed_spec
  | SetupTerm academic_term
  | SetupCourse course
  | SetupSection course_section instant
  | SetupRecord academic_record
  | SetupStatus int section_status instant

fun perform_setup :: "setup_call \<Rightarrow> unit op" where
  "perform_setup (SetupSeed e1 e2 spec) = andThen (attempt (Seed e1 e2 spec)) (\<lambda>_. ret ())"
| "perform_setup (SetupTerm trm) = andThen (attempt (ProvisionTerm trm)) (\<lambda>_. ret ())"
| "perform_setup (SetupCourse c) = andThen (attempt (ProvisionCourse c)) (\<lambda>_. ret ())"
| "perform_setup (SetupSection s now) = andThen (attempt (ProvisionSection s now)) (\<lambda>_. ret ())"
| "perform_setup (SetupRecord r) = andThen (attempt (ProvisionAcademicRecord r)) (\<lambda>_. ret ())"
| "perform_setup (SetupStatus i st now) = andThen (attempt (SetSectionStatus i st now)) (\<lambda>_. ret ())"

definition fresh_sections :: "setup_call \<Rightarrow> bool" where
  \<comment> \<open>a new section is provisioned empty\<close>
  "fresh_sections c = (case c of SetupSection s now \<Rightarrow> empty_section s | _ \<Rightarrow> True)"

section \<open>Seeding again\<close>

definition terms_kept :: "tables \<Rightarrow> tables \<Rightarrow> bool" where
  "terms_kept t t' \<longleftrightarrow> set (tbl_rows (t_terms t)) \<subseteq> set (tbl_rows (t_terms t'))"

interpretation terms_kept: seeding terms_kept
  by unfold_locales (auto simp: terms_kept_def insert_user_def insert_term_def insert_course_def insert_prerequisite_def
      insert_section_def insert_meeting_def insert_academic_record_def table_insert_def split: if_splits)

lemma insertTerm_Inr:
  "insertTerm trm w = (Inr i, w') \<Longrightarrow> trm\<lparr>trm_ID := i\<rparr> \<in> set (tbl_rows (t_terms (tb w')))"
  by (auto simp: insertTerm_def insert_term_def op_simps table_insert_def split: if_splits)

lemma seed_tx_term:
  assumes "seed_tx spec h1 h2 w = (Inr res, w')"
  shows "\<exists>trm \<in> set (tbl_rows (t_terms (tb w'))). trm_Code trm = ssp_TermCode spec"
proof -
  obtain i w1 w2 ids w3 ss w4 u where trm: "insertTerm (seed_term spec) w1 = (Inr i, w2)"
    and cs: "insert_courses seed_courses (\<lambda>_. 0) w2 = (Inr ids, w3)"
    and ss: "insert_sections (seed_sections i ids) (ssp_Now spec) w3 = (Inr ss, w4)"
    and r: "\<exists>r. insertAcademicRecord r w4 = (Inr u, w')"
    using assms unfolding seed_tx_def andThen_Inr ret_iff by blast
  obtain r where r: "insertAcademicRecord r w4 = (Inr u, w')" using r by blast
  have "terms_kept (tb w2) (tb w')"
    using terms_kept.keeps_result [OF terms_kept.keeps_courses cs]
      terms_kept.keeps_result [OF terms_kept.keeps_sections [OF seed_sections_fresh] ss]
      terms_kept.keeps_result [OF terms_kept.keeps_reference(5) r] terms_kept.trans by blast
  with insertTerm_Inr [OF trm] show ?thesis
    by (intro bexI [of _ "(seed_term spec)\<lparr>trm_ID := i\<rparr>"]) (auto simp: terms_kept_def seed_term_def Let_def)
qed

definition seed_code :: "seed_spec \<Rightarrow> string" where
  "seed_code spec = (if ssp_TermCode spec = [] then ''2026-autumn'' else ssp_TermCode spec)"

definition seed_skipped :: seed_result where
  "seed_skipped = \<lparr>srs_Skipped = True, srs_TermID = 0, srs_RegistrarID = 0, srs_StudentID = 0, srs_SectionIDs = []\<rparr>"

lemma with_defaults_Inr:
  assumes "with_defaults spec w = (d, w')"
  shows "\<exists>s. d = Inr s \<and> ssp_TermCode s = seed_code spec" "tb w' = tb w"
proof -
  have "reads (with_defaults spec)" unfolding with_defaults_def by (intro reads_intro)
  from reads_result [OF this assms] show "tb w' = tb w" .
  show "\<exists>s. d = Inr s \<and> ssp_TermCode s = seed_code spec"
    using assms by (auto simp: with_defaults_def andThen_def ret_def clock_now_def seed_code_def split: if_splits)
qed

lemma seed_insert_outcome:
  assumes "seed_insert e1 e2 s w = (q, w')"
  shows "(\<exists>e. q = Inl e) \<and> tb w' = tb w \<or> (\<exists>res h1 h2 u1 u2. q = Inr res \<and> seed_tx s h1 h2 u1 = (Inr res, u2) \<and> tb w' = tb u2)"
proof -
  from assms consider e where "q = Inl e" "w' = w"
    | h1 h2 where "inTxDataset (seed_tx s h1 h2) w = (q, w')"
    by (auto simp: seed_insert_def andThen_def on_error_def lift_result_def split: sum.splits)
  then show ?thesis
  proof cases
    case 2
    from run_tx_result [OF this [unfolded inTxDataset_def]] show ?thesis by (elim disjE conjE exE) (simp, blast)
  qed simp
qed

lemma Seed_outcome:
  assumes "Seed e1 e2 spec w = (r, w')"
  shows "(\<exists>e. r = Inl e) \<and> tb w' = tb w \<or> r = Inr seed_skipped
    \<or> (\<exists>res. r = Inr res \<and> (\<exists>trm \<in> set (tbl_rows (t_terms (tb w'))). trm_Code trm = seed_code spec))"
proof -
  have reads: "reads (FindTermByCode code)" for code by (intro reads_intro)
  obtain d v1 where d: "with_defaults spec w = (d, v1)" by fastforce
  obtain s where s: "d = Inr s" "ssp_TermCode s = seed_code spec" using with_defaults_Inr(1) [OF d] by blast
  obtain f v2 where f: "FindTermByCode (ssp_TermCode s) v1 = (f, v2)" by fastforce
  have v2: "tb v2 = tb w" using reads_result [OF reads f] with_defaults_Inr(2) [OF d] by simp
  have "(r, w') = (case f of Inr _ \<Rightarrow> (Inr seed_skipped, v2)
      | Inl err \<Rightarrow> if \<not> errors_Is err ErrNotFound then (Inl err, v2) else seed_insert e1 e2 s v2)"
    using assms d s(1) f by (auto simp: Seed_def andThen_def attempt_def ret_def raise_def seed_skipped_def split: sum.splits)
  then consider "r = Inr seed_skipped" | e where "r = Inl e" "w' = v2" | "seed_insert e1 e2 s v2 = (r, w')"
    by (auto split: sum.splits if_splits)
  then show ?thesis
  proof cases
    case 3
    from seed_insert_outcome [OF this] seed_tx_term s(2) v2 show ?thesis by metis
  qed (use v2 in auto)
qed

lemma yields_with_defaults:
  "\<exists>n. yields now rid (with_defaults spec) t (Inr (spec\<lparr>ssp_Now := n, ssp_TermCode := seed_code spec\<rparr>)) t"
proof (cases "ssp_Now spec = zero_time")
  case True
  show ?thesis unfolding with_defaults_def if_P [OF True] seed_code_def [symmetric]
    by (rule exI, rule yields_andThen [OF yields_basic(5)], rule yields_basic(1))
next
  case False
  show ?thesis unfolding with_defaults_def if_not_P [OF False] seed_code_def [symmetric]
    by (rule exI, rule yields_andThen [OF yields_basic(1)], rule yields_basic(1))
qed

lemma yields_Seed_skipped:
  assumes "trm \<in> set (tbl_rows (t_terms t))" "trm_Code trm = ToLower (TrimSpace (seed_code spec))"
  shows "yields now rid (Seed e1 e2 spec) t (Inr seed_skipped) t"
proof -
  obtain q where q: "first_where (\<lambda>r. trm_Code r = ToLower (TrimSpace (seed_code spec))) (t_terms t) = Some q"
    using assms by (cases "first_where (\<lambda>r. trm_Code r = ToLower (TrimSpace (seed_code spec))) (t_terms t)")
      (auto simp: first_where_None)
  have find: "yields now rid (FindTermByCode (seed_code spec)) t (Inr q) t"
    unfolding FindTermByCode_def Let_def by (rule yields_on_error_Inr, rule yields_query_row_Some, rule q)
  obtain n where n: "yields now rid (with_defaults spec) t (Inr (spec\<lparr>ssp_Now := n, ssp_TermCode := seed_code spec\<rparr>)) t"
    using yields_with_defaults by blast
  have sel: "ssp_TermCode (spec\<lparr>ssp_Now := n, ssp_TermCode := seed_code spec\<rparr>) = seed_code spec" by simp
  show ?thesis
    unfolding Seed_def
    by (rule yields_andThen [OF n], unfold sel,
        rule yields_andThen [OF yields_attempt [OF find]], unfold sum.case seed_skipped_def [symmetric], rule yields_basic(1))
qed

text \<open>C24: seeding is all or nothing, and with a normalised term code it is idempotent. A seed that failed changed
  nothing. After one that succeeded with a term code that is in lower case and without surrounding space, a
  later seed for the same term is skipped, whatever accounts it names, and changes nothing, as long as the
  terms are still stored. (Without that condition on the code it is not: \<open>unnormalised_term_reseeded\<close>.)\<close>

theorem seed_runs_once:
  assumes "Seed e1 e2 spec w = (r, w1)"
  shows "(\<forall>e. r = Inl e \<longrightarrow> tb w1 = tb w)
    \<and> (\<forall>res spec' e3 e4 now rid w2. r = Inr res \<longrightarrow> \<not> srs_Skipped res \<longrightarrow> ToLower (TrimSpace (seed_code spec)) = seed_code spec
        \<longrightarrow> seed_code spec' = seed_code spec \<longrightarrow> calm now rid w2 \<longrightarrow> terms_kept (tb w1) (tb w2)
        \<longrightarrow> (\<exists>w3. Seed e3 e4 spec' w2 = (Inr seed_skipped, w3) \<and> tb w3 = tb w2))"
proof (intro conjI allI impI)
  fix e assume "r = Inl e"
  then show "tb w1 = tb w" using Seed_outcome [OF assms] by auto
next
  fix res spec' e3 e4 now rid w2
  assume *: "r = Inr res" "\<not> srs_Skipped res" "ToLower (TrimSpace (seed_code spec)) = seed_code spec"
    "seed_code spec' = seed_code spec" "calm now rid w2" "terms_kept (tb w1) (tb w2)"
  then obtain trm where "trm \<in> set (tbl_rows (t_terms (tb w2)))" "trm_Code trm = ToLower (TrimSpace (seed_code spec'))"
    using Seed_outcome [OF assms] by (auto simp: seed_skipped_def terms_kept_def)
  from yields_Seed_skipped [OF this] show "\<exists>w3. Seed e3 e4 spec' w2 = (Inr seed_skipped, w3) \<and> tb w3 = tb w2"
    by (rule yieldsE [OF _ *(5) refl]) blast
qed

lemma CreateUser_fresh:
  assumes "CreateUser u w = (Inr u', w')" "NormalizeEmail (usr_Email u) = Inr email"
  shows "email \<notin> usr_Email ` set (tbl_rows (t_users (tb w)))"
  using assms by (auto simp: CreateUser_def insert_user_def exists_where_iff op_simps split: if_splits)

lemma unnormalised_term_reseeded:
  \<comment> \<open>the lookup reads the code trimmed and in lower case, the insert stores it as given: when no term is
    stored under the normalised code, a second seed for the same registrar gets past the lookup and fails\<close>
  assumes "NormalizeEmail (ssp_RegistrarEmail spec) = Inr (usr_Email u)" "u \<in> set (tbl_rows (t_users (tb w)))"
    and "\<forall>trm \<in> set (tbl_rows (t_terms (tb w))). trm_Code trm \<noteq> ToLower (TrimSpace (seed_code spec))"
  shows "\<exists>e w'. Seed e1 e2 spec w = (Inl e, w') \<and> tb w' = tb w"
proof -
  obtain r w' where run: "Seed e1 e2 spec w = (r, w')" by fastforce
  have "r \<noteq> Inr res" for res
  proof
    assume r: "r = Inr res"
    obtain s w1 f w2 where d: "with_defaults spec w = (Inr s, w1)"
      and f: "attempt (FindTermByCode (ssp_TermCode s)) w1 = (Inr f, w2)"
      and rest: "(case f of Inr _ \<Rightarrow> ret seed_skipped
        | Inl err \<Rightarrow> if \<not> errors_Is err ErrNotFound then raise err else seed_insert e1 e2 s) w2 = (Inr res, w')"
      using run unfolding r Seed_def andThen_Inr seed_skipped_def by blast
    have s: "ssp_TermCode s = seed_code spec" "tb w1 = tb w" "ssp_RegistrarEmail s = ssp_RegistrarEmail spec"
      using with_defaults_Inr [OF d] d by (auto simp: with_defaults_def andThen_Inr ret_iff)
    have reads: "reads (attempt (FindTermByCode code))" for code by (intro reads_intro)
    have w2: "tb w2 = tb w" using reads_result [OF reads f] s(2) by simp
    show False
    proof (cases f)
      case (Inr trm)
      then have "FindTermByCode (seed_code spec) w1 = (Inr trm, w2)" using f s(1) by (simp add: attempt_Inr)
      then show False using assms(3) s(2) by (auto simp: FindTermByCode_def Let_def op_simps dest!: first_where_Some)
    next
      case (Inl err)
      then have "seed_insert e1 e2 s w2 = (Inr res, w')" using rest by (auto simp: raise_iff split: if_splits)
      then obtain h1 h2 where tx: "inTxDataset (seed_tx s h1 h2) w2 = (Inr res, w')"
        by (auto simp: seed_insert_def andThen_def on_error_def lift_result_def split: sum.splits)
      obtain v1 v2 where "tb v1 = tb w2" "seed_tx s h1 h2 v1 = (Inr res, v2)"
        using run_tx_result [OF tx [unfolded inTxDataset_def]] by auto
      then obtain u1 v3 where "CreateUser (seed_user (ssp_RegistrarEmail s) ''Orientation Registrar'' RoleRegistrar h1
          (ssp_Now s)) v1 = (Inr u1, v3)"
        unfolding seed_tx_def andThen_Inr by blast
      from CreateUser_fresh [OF this, of "usr_Email u"] show False
        using assms(1,2) s(3) w2 \<open>tb v1 = tb w2\<close> by (auto simp: seed_user_def)
    qed
  qed
  then obtain e where "r = Inl e" by (cases r) auto
  then show ?thesis using Seed_outcome [OF run] run by (auto simp: seed_skipped_def)
qed

definition sample_spec :: seed_spec where
  "sample_spec = \<lparr>ssp_Now = 100 * Day, ssp_RegistrarEmail = ''registrar@campus.example'',
     ssp_RegistrarPass = ''orientation-registrar-2026'', ssp_StudentEmail = ''student@campus.example'',
     ssp_StudentPass = ''orientation-student-2026'', ssp_TermCode = ''2026-autumn''\<rparr>"

lemma sample_seed_tx:
  "(case fst (seed_tx sample_spec (c # cs) (d # ds) ((at_time 5 empty_tables)\<lparr>w_tick := k\<rparr>)) of Inl _ \<Rightarrow> False
     | Inr res \<Rightarrow> srs_SectionIDs res = [1, 2, 3, 4])"
  by code_simp

lemma sample_hash:
  assumes "8 \<le> length password"
  shows "\<exists>c cs. HashNewPassword (Inr (replicate 16 CHR ''s'')) password = Inr (c # cs)"
proof -
  have "HashNewPassword (Inr (replicate 16 CHR ''s'')) password = HashPassword password (replicate 16 CHR ''s'') DefaultIterations"
    by (simp add: HashNewPassword_def NewSalt_def saltLength_def)
  moreover have "\<exists>c cs. HashPassword password (replicate 16 CHR ''s'') DefaultIterations = Inr (c # cs)"
    using assms by (simp add: HashPassword_def saltLength_def Let_def hashPrefix_def)
  ultimately show ?thesis by simp
qed

abbreviation sample_salt :: "err + string" where "sample_salt \<equiv> Inr (replicate 16 CHR ''s'')"

lemma calm_at_time_tick: "calm now ''req-1'' w \<Longrightarrow> w = (at_time now (tb w))\<lparr>w_tick := w_tick w\<rparr>"
  by (cases w) (auto simp: calm_def at_time_def)

lemma tame_inserts:
  "tame (insertTerm trm)" "tame (insertCourse c)" "tame (insertPrerequisite i code n)" "tame (insertSection s now)"
  "tame (insertMeeting m)" "tame (insertAcademicRecord r)"
  unfolding insertTerm_def insertCourse_def insertPrerequisite_def insertSection_def insertMeeting_def
    insertAcademicRecord_def by (intro tame_intro)+

lemma tame_loops: "tame (insert_courses cs ids)" "tame (insert_sections ss now)"
proof -
  have pre: "tame (insert_prerequisites i codes n)" for i codes n
    by (induction codes arbitrary: n) (simp, rule tame_intro, simp, intro tame_intro tame_inserts)
  have ms: "tame (insert_meetings j ms)" for j ms
    by (induction ms) (simp, rule tame_intro, simp, intro tame_intro tame_inserts)
  show "tame (insert_courses cs ids)"
    by (induction cs ids rule: insert_courses.induct)
      (unfold insert_courses.simps, rule tame_intro, (intro tame_andThen tame_inserts pre | assumption)+)
  show "tame (insert_sections ss now)"
    by (induction ss now rule: insert_sections.induct)
      (unfold insert_sections.simps, rule tame_intro, (intro tame_andThen tame_basic tame_inserts ms | assumption)+)
qed

lemma tame_seed_tx: "tame (seed_tx spec h1 h2)"
  unfolding seed_tx_def by (intro tame_andThen tame_basic tame_inserts tame_loops account_tame)

lemma calm_driver: "calm now rid w \<Longrightarrow> driver w = (Inr (), tick w)"
  by (simp add: driver_def calm_def)

lemma sample_seed:
  "\<exists>res w1. Seed sample_salt sample_salt sample_spec (at_time 5 empty_tables) = (Inr res, w1)
    \<and> \<not> srs_Skipped res \<and> srs_SectionIDs res = [1, 2, 3, 4]"
proof -
  have long: "8 \<le> length (ssp_RegistrarPass sample_spec)" "8 \<le> length (ssp_StudentPass sample_spec)"
    by (simp_all add: sample_spec_def)
  obtain c cs d ds where h: "HashNewPassword sample_salt (ssp_RegistrarPass sample_spec) = Inr (c # cs)"
      "HashNewPassword sample_salt (ssp_StudentPass sample_spec) = Inr (d # ds)"
    using sample_hash [OF long(1)] sample_hash [OF long(2)] by blast
  have defaults: "with_defaults sample_spec w = (Inr sample_spec, w)" for w
    by (simp add: with_defaults_def sample_spec_def zero_time_def andThen_def ret_def Day_def Hour_def Minute_def Second_def)
  have "first_where (\<lambda>r. trm_Code r = ToLower (TrimSpace (ssp_TermCode sample_spec))) (t_terms empty_tables) = None"
    by (simp add: first_where_def empty_tables_def empty_table_def)
  then have "yields 5 ''req-1'' (FindTermByCode (ssp_TermCode sample_spec)) empty_tables
      (Inl (notFound (''term '' @ ToLower (TrimSpace (ssp_TermCode sample_spec))) SqlNoRows)) empty_tables"
    unfolding FindTermByCode_def Let_def by (intro yields_on_error_Inl yields_query_row_None)
  then obtain v where find: "FindTermByCode (ssp_TermCode sample_spec) (at_time 5 empty_tables)
      = (Inl (notFound (''term '' @ ToLower (TrimSpace (ssp_TermCode sample_spec))) SqlNoRows), v)"
      "calm 5 ''req-1'' v" "tb v = empty_tables"
    by (rule yieldsE [OF _ calm_at_time])
  obtain q u where tx: "seed_tx sample_spec (c # cs) (d # ds) (tick v) = (q, u)" by fastforce
  have "tick v = (at_time 5 empty_tables)\<lparr>w_tick := w_tick (tick v)\<rparr>"
    using calm_at_time_tick [of 5 "tick v"] find(2,3) by simp
  then obtain res where q: "q = Inr res" "srs_SectionIDs res = [1, 2, 3, 4]"
    using sample_seed_tx [of c cs d ds "w_tick (tick v)"] tx by (cases q) auto
  have "calm 5 ''req-1'' u"
    using tame_result [OF tame_seed_tx tx] find(2) by (simp add: same_env_def calm_def)
  then have "inTxDataset (seed_tx sample_spec (c # cs) (d # ds)) v = (Inr res, tick u)"
    using tx q(1) find(2) by (simp add: inTxDataset_def run_tx_def on_error_def calm_driver)
  then have "Seed sample_salt sample_salt sample_spec (at_time 5 empty_tables) = (Inr res, tick u)"
    using find(1) h by (simp add: Seed_def andThen_def attempt_def defaults seed_insert_def on_error_def lift_result_def)
  moreover have "\<not> srs_Skipped res"
    using tx q(1) by (auto simp: seed_tx_def andThen_Inr ret_iff)
  ultimately show ?thesis using q(2) by blast
qed

theorem seed_runs_once_witness:
  "\<exists>res w1 w3. Seed sample_salt sample_salt sample_spec (at_time 5 empty_tables) = (Inr res, w1) \<and> srs_SectionIDs res = [1, 2, 3, 4]
    \<and> Seed (Inl (Plain ''EOF'')) (Inl (Plain ''EOF'')) sample_spec (at_time 6 (tb w1)) = (Inr seed_skipped, w3)
    \<and> tb w3 = tb w1"
proof -
  obtain res w1 where first: "Seed sample_salt sample_salt sample_spec (at_time 5 empty_tables) = (Inr res, w1)"
      "\<not> srs_Skipped res" "srs_SectionIDs res = [1, 2, 3, 4]"
    using sample_seed by blast
  have code: "ToLower (TrimSpace (seed_code sample_spec)) = seed_code sample_spec" by code_simp
  have kept: "terms_kept (tb w1) (tb (at_time 6 (tb w1)))" by (simp add: terms_kept_def)
  from seed_runs_once [OF first(1)] first(2) code kept calm_at_time(1) [of 6 "tb w1"]
  obtain w3 where "Seed (Inl (Plain ''EOF'')) (Inl (Plain ''EOF'')) sample_spec (at_time 6 (tb w1)) = (Inr seed_skipped, w3)"
      "tb w3 = tb (at_time 6 (tb w1))" by blast
  then show ?thesis using first by auto
qed

end
