(* ===== verification/ConfigProperties.thy ===== *)
theory ConfigProperties
  imports Config
begin

text \<open>
  What loading the settings promises: every accepted configuration lies within the bounds the services and the
  worker rely on, the logged form tells nothing of the credentials, and the database name carries each pragma.
\<close>

section \<open>Bounds\<close>

lemma ParseDuration_bounds:
  assumes "ParseDuration s = Inr d"
  shows "d < 2 ^ 63"
  using assms by (auto simp: ParseDuration_def Let_def split: if_splits sum.splits)

lemma durationVal_bounds:
  assumes "durationVal lookup key fallback = Inr d" "0 < fallback" "fallback < 2 ^ 63"
  shows "0 < d \<and> d < 2 ^ 63"
  using assms by (auto simp: durationVal_def dest: ParseDuration_bounds split: option.splits if_splits sum.splits)

lemma retriesVal_bounds: "retriesVal lookup = Inr n \<Longrightarrow> 0 \<le> n \<and> n \<le> 32"
  by (auto simp: retriesVal_def split: option.splits if_splits)

lemma Load_Inr:
  assumes "Load lookup = Inr c"
  shows "durationVal lookup ''APP_SESSION_TTL'' (12 * Hour) = Inr (cfg_SessionTTL c)"
    "durationVal lookup ''APP_SHUTDOWN_GRACE'' (15 * Second) = Inr (cfg_ShutdownGrace c)"
    "durationVal lookup ''APP_REQUEST_TIMEOUT'' (20 * Second) = Inr (cfg_RequestTimeout c)"
    "durationVal lookup ''APP_WORKER_POLL_INTERVAL'' (2 * Second) = Inr (cfg_WorkerPollInterval c)"
    "durationVal lookup ''APP_WORKER_LEASE'' Minute = Inr (cfg_WorkerLease c)"
    "durationVal lookup ''APP_WORKER_BACKOFF_BASE'' (2 * Second) = Inr (cfg_WorkerBackoffBase c)"
    "durationVal lookup ''APP_WORKER_BACKOFF_MAX'' (5 * Minute) = Inr (cfg_WorkerBackoffMax c)"
    "retriesVal lookup = Inr (cfg_MaxEnrollmentRetries c)" "cfg_Validate c = None"
  using assms unfolding Load_def bind_result_Inr Let_def by (auto split: option.splits)

lemma loaded_durations:
  assumes "Load lookup = Inr c"
  shows "list_all (\<lambda>d. 0 < d \<and> d < 2 ^ 63) [cfg_SessionTTL c, cfg_ShutdownGrace c, cfg_RequestTimeout c,
      cfg_WorkerPollInterval c, cfg_WorkerLease c, cfg_WorkerBackoffBase c, cfg_WorkerBackoffMax c]"
  using Load_Inr(1-7) [OF assms, THEN durationVal_bounds] by (simp add: Hour_def Minute_def Second_def)

text \<open>C25: an accepted configuration is within the bounds the server relies on, whatever the environment holds:
  its durations are positive and fit in 64 bits, a session lives at least a minute, the worker polls at most every
  10 ms, the back-off does not exceed its cap, a claim is retried at most 32 times, and the address and the database
  name are not blank.\<close>

theorem loaded_config_bounds:
  assumes "Load lookup = Inr c"
  shows "list_all (\<lambda>d. 0 < d \<and> d < 2 ^ 63) [cfg_SessionTTL c, cfg_ShutdownGrace c, cfg_RequestTimeout c,
      cfg_WorkerPollInterval c, cfg_WorkerLease c, cfg_WorkerBackoffBase c, cfg_WorkerBackoffMax c]
    \<and> Minute \<le> cfg_SessionTTL c \<and> 10 * Millisecond \<le> cfg_WorkerPollInterval c
    \<and> cfg_WorkerBackoffBase c \<le> cfg_WorkerBackoffMax c
    \<and> 0 \<le> cfg_MaxEnrollmentRetries c \<and> cfg_MaxEnrollmentRetries c \<le> 32
    \<and> TrimSpace (cfg_HTTPAddr c) \<noteq> [] \<and> TrimSpace (cfg_DatabaseDSN c) \<noteq> []"
  using loaded_durations [OF assms] retriesVal_bounds [OF Load_Inr(8) [OF assms]] Load_Inr(9) [OF assms]
  by (simp add: cfg_Validate_def split: if_splits)

definition sample_environment :: environment where
  "sample_environment = map_of [(''APP_SESSION_TTL'', '' 1h30m ''), (''APP_WORKER_POLL_INTERVAL'', ''1.5s''),
     (''APP_WORKER_ENABLED'', ''f''), (''APP_MAX_ENROLLMENT_RETRIES'', ''+7''),
     (''APP_DATABASE_DSN'', ''file:ana:pw@db/orientation.db?key=secret'')]"

lemmas duration_defs = ParseDuration_def duration_items.simps duration_item_def fraction_part_def unitMap_def is_digit_def
  digit_value_def micro_sign_def

lemmas float_defs = scaled_fraction_def round_float_def bit_length.simps nearest_even_def

lemma sample_durations:
  "ParseDuration ''1h30m'' = Inr (90 * Minute)" "ParseDuration ''-2us3ns'' = Inr (- 2003)"
  "ParseDuration ''1.5s'' = Inr (1500 * Millisecond)" "ParseDuration ''0.1h'' = Inr (6 * Minute)"
  by (simp_all add: duration_defs float_defs Minute_def Second_def Millisecond_def)

lemma ParseDuration_wraps: "ParseDuration ''9223372036854775808ns9223372036854775808ns'' = Inr 0"
  by (simp add: duration_defs)

lemma sample_texts: "TrimSpace '' 1h30m '' = ''1h30m''" "TrimSpace ''1.5s'' = ''1.5s''" "ParseInt (TrimSpace ''+7'') = Some 7"
  "TrimSpace ''f'' = ''f''" "TrimSpace ''file:ana:pw@db/orientation.db?key=secret'' = ''file:ana:pw@db/orientation.db?key=secret''"
  "TrimSpace '':8080'' = '':8080''"
  by code_simp+

theorem loaded_config_bounds_witness:
  "\<exists>c. Load sample_environment = Inr c \<and> cfg_SessionTTL c = 90 * Minute \<and> cfg_MaxEnrollmentRetries c = 7
    \<and> Minute \<le> cfg_SessionTTL c \<and> cfg_MaxEnrollmentRetries c \<le> 32"
proof -
  obtain c where c: "Load sample_environment = Inr c" "cfg_SessionTTL c = 90 * Minute" "cfg_MaxEnrollmentRetries c = 7"
    by (simp add: Load_def bind_result_def durationVal_def boolVal_def retriesVal_def stringVal_def sample_environment_def
        sample_texts sample_durations ParseBool_def cfg_Validate_def Minute_def Second_def Millisecond_def)
  then show ?thesis using loaded_config_bounds [OF c(1)] by auto
qed

section \<open>Redaction\<close>

lemma cut_user_after_at:
  "cut_user (u @ CHR ''@'' # h) = cut_user (CHR ''@'' # h)"
  by (auto simp: cut_user_def takeWhile_append)

lemma cut_query_at: "CHR ''?'' \<notin> set p \<Longrightarrow> cut_query (p @ CHR ''?'' # q) = p @ ''?<redacted>''"
proof -
  assume "CHR ''?'' \<notin> set p"
  then have "takeWhile (\<lambda>c. c \<noteq> CHR ''?'') (p @ CHR ''?'' # q) = p"
    by (subst takeWhile_append2) auto
  then show ?thesis by (simp add: cut_query_def)
qed

text \<open>The logged configuration does not depend on the credentials of the database name: two names that differ
  in the part before the last at sign and in the query string are logged alike, unless a question mark stands
  before the query.\<close>

theorem redaction_hides_credentials:
  assumes "CHR ''?'' \<notin> set (u1 @ u2 @ h)"
  shows "Redacted (c\<lparr>cfg_DatabaseDSN := u1 @ CHR ''@'' # h @ CHR ''?'' # q1\<rparr>)
    = Redacted (c\<lparr>cfg_DatabaseDSN := u2 @ CHR ''@'' # h @ CHR ''?'' # q2\<rparr>)"
proof -
  have cut: "cut_query (u @ CHR ''@'' # h @ CHR ''?'' # q) = u @ CHR ''@'' # (h @ ''?<redacted>'')"
    if "CHR ''?'' \<notin> set (u @ h)" for u q
    using cut_query_at [of "u @ CHR ''@'' # h" q] that by simp
  have "cut_user (cut_query (u @ CHR ''@'' # h @ CHR ''?'' # q)) = cut_user (CHR ''@'' # h @ ''?<redacted>'')"
    if "CHR ''?'' \<notin> set (u @ h)" for u q
    unfolding cut [OF that] by (rule cut_user_after_at)
  then show ?thesis using assms by (simp add: Redacted_def)
qed

definition sample_config :: config where
  "sample_config = \<lparr>cfg_HTTPAddr = '':8080'', cfg_DatabaseDSN = ''file:o.db'', cfg_LogLevel = ''info'',
     cfg_SessionTTL = 12 * Hour, cfg_ShutdownGrace = 15 * Second, cfg_RequestTimeout = 20 * Second,
     cfg_WorkerPollInterval = 2 * Second, cfg_WorkerLease = Minute, cfg_WorkerBackoffBase = 2 * Second,
     cfg_WorkerBackoffMax = 5 * Minute, cfg_WorkerEnabled = True, cfg_SeedDemoData = True,
     cfg_BusinessLocation = ''Asia/Shanghai'', cfg_MaxEnrollmentRetries = 4\<rparr>"

theorem redaction_hides_credentials_witness:
  "Redacted (sample_config\<lparr>cfg_DatabaseDSN := ''root:pw'' @ CHR ''@'' # ''db/o.db'' @ CHR ''?'' # ''key=secret''\<rparr>)
    = Redacted (sample_config\<lparr>cfg_DatabaseDSN := [] @ CHR ''@'' # ''db/o.db'' @ CHR ''?'' # []\<rparr>)"
  by (rule redaction_hides_credentials) simp

lemma question_mark_in_password_logged:
  "cut_user (cut_query ''root:p?w@db/o.db'') = ''root:p?<redacted>''"
  by code_simp

section \<open>The name of the database\<close>

lemma has_prefix_self: "has_prefix p (p @ r)"
  by (induction p) auto

lemma contains_text_iff: "contains_text p s \<longleftrightarrow> (\<exists>a b. s = a @ p @ b)"
proof
  show "contains_text p s \<Longrightarrow> \<exists>a b. s = a @ p @ b"
  proof (induction s)
    case (Cons c s)
    show ?case
    proof (cases "has_prefix p (c # s)")
      case True
      have "has_prefix q t \<Longrightarrow> \<exists>b. t = q @ b" for q t
        by (induction q t rule: has_prefix.induct) auto
      then show ?thesis using True by (metis append_Nil)
    next
      case False
      then obtain a b where "s = a @ p @ b" using Cons by auto
      then have "c # s = (c # a) @ p @ b" by simp
      then show ?thesis by blast
    qed
  qed simp
  have "contains_text p (p @ b)" for b
    using has_prefix_self [of p b] by (cases "p @ b") auto
  then have "contains_text p (a @ p @ b)" for a b
    by (induction a) auto
  then show "\<exists>a b. s = a @ p @ b \<Longrightarrow> contains_text p s" by auto
qed

lemma contains_text_append: "contains_text p s \<or> contains_text p r \<Longrightarrow> contains_text p (s @ r)"
  unfolding contains_text_iff by (metis append.assoc)

lemma add_pragma_extends: "\<exists>r. add_pragma item dsn = dsn @ r"
  by (cases item) (auto simp: add_pragma_def)

lemma fold_pragmas_extends: "\<exists>r. fold add_pragma items dsn = dsn @ r"
proof (induction items arbitrary: dsn)
  case (Cons i items)
  show ?case using add_pragma_extends [of i dsn] Cons [of "add_pragma i dsn"] by auto
qed simp

lemma add_pragma_marks:
  assumes "contains_text (fst item) (snd item)"
  shows "contains_text (fst item) (add_pragma item dsn)"
  using assms contains_text_append [of "fst item" "dsn @ ''&''" "snd item"]
    contains_text_append [of "fst item" "dsn @ ''?''" "snd item"]
  by (simp add: add_pragma_def)

lemma fold_pragmas_marks:
  assumes "\<forall>i \<in> set items. contains_text (fst i) (snd i)" "i \<in> set items"
  shows "contains_text (fst i) (fold add_pragma items dsn)"
  using assms
proof (induction items arbitrary: dsn)
  case (Cons j items)
  show ?case
  proof (cases "i = j")
    case True
    obtain r where "fold add_pragma items (add_pragma j dsn) = add_pragma j dsn @ r" using fold_pragmas_extends by blast
    then show ?thesis using True Cons.prems(1) contains_text_append add_pragma_marks by auto
  qed (use Cons in auto)
qed simp

lemma fold_pragmas_done:
  assumes "\<forall>i \<in> set items. contains_text (fst i) dsn"
  shows "fold add_pragma items dsn = dsn"
  using assms by (induction items) (auto simp: add_pragma_def)

text \<open>Opening the database: the name the pool is opened with extends the configured one, mentions each of the
  settings the schema depends on, and is not changed by normalising it again.\<close>

theorem normalizeDSN_marks:
  assumes "normalizeDSN dsn = Inr out"
  shows "(\<exists>r. out = TrimSpace dsn @ r) \<and> (\<forall>i \<in> set required_pragmas. contains_text (fst i) out)
    \<and> (TrimSpace out = out \<longrightarrow> normalizeDSN out = Inr out)"
proof -
  have own: "\<forall>i \<in> set required_pragmas. contains_text (fst i) (snd i)" by (simp add: required_pragmas_def)
  have out: "out = fold add_pragma required_pragmas (TrimSpace dsn)" "TrimSpace dsn \<noteq> []"
    using assms by (auto simp: normalizeDSN_def split: if_splits)
  have marks: "\<forall>i \<in> set required_pragmas. contains_text (fst i) out"
    using fold_pragmas_marks [OF own] out(1) by simp
  obtain r where r: "out = TrimSpace dsn @ r" using fold_pragmas_extends out(1) by blast
  then have "normalizeDSN out = Inr out" if "TrimSpace out = out"
    using that out(2) fold_pragmas_done [OF marks] by (simp add: normalizeDSN_def)
  then show ?thesis using r marks by blast
qed

lemma default_name: "normalizeDSN '' file:o.db?_pragma=busy_timeout(5000) ''
    = Inr ''file:o.db?_pragma=busy_timeout(5000)&_pragma=foreign_keys(1)&_pragma=journal_mode(WAL)&_txlock=immediate''"
  by code_simp

lemma disabled_pragma_kept: "normalizeDSN ''file:o.db?_pragma=foreign_keys(0)&_txlock=deferred''
    = Inr ''file:o.db?_pragma=foreign_keys(0)&_txlock=deferred&_pragma=busy_timeout(10000)&_pragma=journal_mode(WAL)''"
  by code_simp

end
