(* ===== verification/StartupProperties.thy ===== *)
theory StartupProperties
  imports Startup MigrationProperties Provisioning ConfigProperties
begin

text \<open>
  What starting the process promises, over any number of attempts: whatever fails, the database stays a sound
  prefix of the migrated and seeded one, and an attempt that succeeds serves the schema it expects with the
  settings it loaded.
\<close>

section \<open>Attempts move the database forward\<close>

definition advances :: "migration list \<Rightarrow> tables \<Rightarrow> tables \<Rightarrow> bool" where
  "advances ms t t' \<longleftrightarrow>
     ((\<exists>k. in_step ms k t) \<and> unclaimed t \<longrightarrow> (\<exists>k. in_step ms k t') \<and> unclaimed t')"

definition schema_kept :: "tables \<Rightarrow> tables \<Rightarrow> bool" where
  "schema_kept t t' \<longleftrightarrow> t_migrations t' = t_migrations t \<and> t_scripts t' = t_scripts t"

interpretation advances: evolution "advances ms" for ms
  by unfold_locales (auto simp: advances_def)

interpretation schema_kept: seeding schema_kept
  by unfold_locales (auto simp: schema_kept_def insert_user_def insert_term_def insert_course_def insert_prerequisite_def
      insert_section_def insert_meeting_def insert_academic_record_def split: if_splits)

lemma in_step_kept: "schema_kept t t' \<Longrightarrow> in_step ms k t' = in_step ms k t"
  by (simp add: schema_kept_def in_step_def)

lemma schema_only_unclaimed:
  assumes "schema_only t t'"
  shows "stays_unclaimed t t'"
proof (rule unclaimed_same)
  have eq: "f (t'\<lparr>t_migrations := None, t_scripts := []\<rparr>) = f (t\<lparr>t_migrations := None, t_scripts := []\<rparr>)" for f :: "tables \<Rightarrow> 'b"
    using assms by (simp add: schema_only_def)
  show "t_sessions t' = t_sessions t" using eq [of t_sessions] by simp
  show "t_registrations t' = t_registrations t" using eq [of t_registrations] by simp
  show "t_enrollments t' = t_enrollments t" using eq [of t_enrollments] by simp
  show "t_sections t' = t_sections t" using eq [of t_sections] by simp
  show "t_terms t' = t_terms t" using eq [of t_terms] by simp
qed

lemma advances_Migrate:
  assumes "All_migrations files = Inr ms" "walks order"
  shows "advances.keeps ms (Migrate files verdict order)"
proof (rule advances.keepsI)
  fix w r w'
  assume run: "Migrate files verdict order w = (r, w')"
  show "advances ms (tb w) (tb w')"
    using Migrate_in_step [OF assms(1) _ assms(2) [unfolded walks_def] run] schema_only_unclaimed
    by (fastforce simp: advances_def stays_unclaimed_def)
qed

lemma advances_Seed: "advances.keeps ms (Seed e1 e2 spec)"
proof (rule advances.keepsI)
  fix w r w'
  assume run: "Seed e1 e2 spec w = (r, w')"
  show "advances ms (tb w) (tb w')"
    using schema_kept.keeps_result [OF schema_kept.keeps_Seed run] unclaimed.keeps_result [OF unclaimed.keeps_Seed run]
    by (auto simp: advances_def stays_unclaimed_def in_step_kept)
qed

lemma schema_kept_seed_demo: "schema_kept.keeps (seed_demo m cfg)"
  unfolding seed_demo_def by (intro schema_kept.steps schema_kept.keeps_Seed)

lemma advances_seed_demo: "advances.keeps ms (seed_demo m cfg)"
  unfolding seed_demo_def by (intro advances.keeps_if advances.keeps_andThen advances.keeps_basic advances_Seed)

section \<open>Attempts\<close>

fun restarts :: "machine list \<Rightarrow> unit op" where
  \<comment> \<open>attempts one after the other, whatever becomes of each\<close>
  "restarts [] = ret ()"
| "restarts (m # rest) = andThen (attempt (start m)) (\<lambda>_. restarts rest)"

definition ships :: "embedded_file list \<Rightarrow> machine \<Rightarrow> bool" where
  "ships files m \<longleftrightarrow> mc_Files m = files \<and> walks (mc_Order m)"

lemma advances_start:
  assumes "All_migrations files = Inr ms" "ships files m"
  shows "advances.keeps ms (start m)"
  unfolding start_def Build_def Open_def
  using assms
  by (intro advances.keeps_andThen advances.keeps_basic advances.keeps_on_error advances_seed_demo advances_Migrate)
    (simp_all add: ships_def)

lemma advances_restarts:
  assumes "All_migrations files = Inr ms"
  shows "list_all (ships files) attempts \<Longrightarrow> advances.keeps ms (restarts attempts)"
  by (induction attempts)
    (simp, rule advances.keeps_basic, simp, intro advances.keeps_andThen advances.keeps_attempt advances_start [OF assms], simp_all)

section \<open>What is served\<close>

definition settings_reach :: "machine \<Rightarrow> app \<Rightarrow> bool" where
  \<comment> \<open>the services and the worker run with the loaded settings\<close>
  "settings_reach m a \<longleftrightarrow>
     Load (mc_Env m) = Inr (app_Config a)
     \<and> srv_SessionTTL (app_Server a) = cfg_SessionTTL (app_Config a)
     \<and> srv_MaxRetries (app_Server a) = cfg_MaxEnrollmentRetries (app_Config a)
     \<and> (case app_Worker a of None \<Rightarrow> \<not> cfg_WorkerEnabled (app_Config a)
        | Some wk \<Rightarrow> cfg_WorkerEnabled (app_Config a)
            \<and> (\<exists>c. wk = app_worker (mc_SyntaxMsg m) c \<and> wrk_cfg wk = c
                 \<and> wcf_PollInterval c = cfg_WorkerPollInterval (app_Config a)
                 \<and> wcf_Lease c = cfg_WorkerLease (app_Config a)
                 \<and> wcf_BackoffBase c = cfg_WorkerBackoffBase (app_Config a)
                 \<and> wcf_BackoffMax c = cfg_WorkerBackoffMax (app_Config a)))"

lemma build_worker_settings:
  assumes "Load env = Inr cfg" "build_worker m cfg = Inr wk"
  shows "\<exists>c. wk = app_worker (mc_SyntaxMsg m) c \<and> wrk_cfg wk = c \<and> wcf_PollInterval c = cfg_WorkerPollInterval cfg
    \<and> wcf_Lease c = cfg_WorkerLease cfg \<and> wcf_BackoffBase c = cfg_WorkerBackoffBase cfg
    \<and> wcf_BackoffMax c = cfg_WorkerBackoffMax cfg"
proof -
  obtain i where i: "NewWorkerID (mc_WorkerEntropy m) ''orientation'' = Inr i"
    and wk: "bind_result (Register (New_worker \<lparr>wcf_WorkerID = i, wcf_PollInterval = cfg_WorkerPollInterval cfg,
        wcf_Lease = cfg_WorkerLease cfg, wcf_BackoffBase = cfg_WorkerBackoffBase cfg, wcf_BackoffMax = cfg_WorkerBackoffMax cfg\<rparr>)
        JobPromoteWaitlist (NewWaitlistPromotionHandler (mc_SyntaxMsg m) PromoteWaitlist))
      (\<lambda>bg1. Register bg1 JobSweepSessions (NewSessionSweepHandler SweepExpiredSessions)) = Inr wk"
    using assms(2) unfolding build_worker_def Let_def by (auto elim: bind_result_InrE)
  have "i \<noteq> []" using i by (cases "mc_WorkerEntropy m") (auto simp: NewWorkerID_def)
  moreover have "0 < cfg_WorkerPollInterval cfg" "0 < cfg_WorkerLease cfg" "0 < cfg_WorkerBackoffBase cfg"
    "cfg_WorkerBackoffBase cfg \<le> cfg_WorkerBackoffMax cfg"
    using loaded_durations [OF assms(1)] Load_Inr(9) [OF assms(1)] by (auto simp: cfg_Validate_def split: if_splits)
  ultimately have new: "New_worker \<lparr>wcf_WorkerID = i, wcf_PollInterval = cfg_WorkerPollInterval cfg,
        wcf_Lease = cfg_WorkerLease cfg, wcf_BackoffBase = cfg_WorkerBackoffBase cfg, wcf_BackoffMax = cfg_WorkerBackoffMax cfg\<rparr>
      = \<lparr>wrk_cfg = \<lparr>wcf_WorkerID = i, wcf_PollInterval = cfg_WorkerPollInterval cfg,
        wcf_Lease = cfg_WorkerLease cfg, wcf_BackoffBase = cfg_WorkerBackoffBase cfg, wcf_BackoffMax = cfg_WorkerBackoffMax cfg\<rparr>,
        wrk_handlers = Map.empty\<rparr>"
    by (simp add: New_worker_def)
  show ?thesis
    using wk by (auto simp: new app_worker_def Register_def bind_result_def)
qed

lemma add_worker_settings:
  assumes "Load (mc_Env m) = Inr cfg" "add_worker m cfg a0 = Inr a" "app_Config a0 = cfg"
    and "srv_SessionTTL (app_Server a0) = cfg_SessionTTL cfg" "srv_MaxRetries (app_Server a0) = cfg_MaxEnrollmentRetries cfg"
    and "app_Worker a0 = None"
  shows "settings_reach m a \<and> app_Server a = app_Server a0"
proof (cases "cfg_WorkerEnabled cfg")
  case True
  then obtain wk where wk: "build_worker m cfg = Inr wk"
    "a = a0\<lparr>app_Worker := Some wk, app_Maintenance := Some (NewMaintenance (5 * Minute))\<rparr>"
    using assms(2) by (auto simp: add_worker_def bind_result_Inr)
  show ?thesis
    using build_worker_settings [OF assms(1) wk(1)] True assms(1,3-5) by (simp add: wk(2) settings_reach_def)
next
  case False
  then show ?thesis using assms by (simp add: add_worker_def settings_reach_def)
qed

lemma start_Inr:
  assumes "All_migrations files = Inr ms" "ships files m" "in_step ms k (tb w)" "start m w = (Inr a, w')"
  shows "settings_reach m a \<and> srv_ExpectedSchema (app_Server a) = int (length ms) \<and> in_step ms (length ms) (tb w')
    \<and> t_migrations (tb w') \<noteq> None"
proof -
  obtain cfg where cfg: "Load (mc_Env m) = Inr cfg" "Build m cfg w = (Inr a, w')"
    using assms(4) unfolding start_def andThen_Inr lift_result_iff by blast
  obtain w1 opts w2 out w3 expected w4 where
      opened: "Open (mc_Opener m) (cfg_DatabaseDSN cfg) \<lparr>opt_MaxOpenConns = 8, opt_MaxIdleConns = 0, opt_ConnLifetime = 0\<rparr> w
        = (Inr opts, w1)"
    and mig: "Migrate (mc_Files m) (mc_Verdict m) (mc_Order m) w1 = (Inr out, w2)"
    and latest: "LatestVersion (mc_Files m) = Inr expected"
    and seed: "\<exists>u. seed_demo m cfg w2 = (Inr u, w3)"
    and ttl: "NewAuthService (cfg_SessionTTL cfg) = Inr (cfg_SessionTTL cfg)"
    and retries: "NewEnrollmentService (cfg_MaxEnrollmentRetries cfg) = Inr (cfg_MaxEnrollmentRetries cfg)"
    and api: "New_api app_services True expected = Inr expected"
    and last: "add_worker m cfg \<lparr>app_Config = cfg, app_Server = \<lparr>srv_SessionTTL = cfg_SessionTTL cfg,
        srv_MaxRetries = cfg_MaxEnrollmentRetries cfg, srv_ExpectedSchema = expected, srv_Entropy = mc_LoginEntropy m,
        srv_ReadMsg = mc_ReadMsg m, srv_ParseTime = mc_ParseTime m\<rparr>, app_Worker = None, app_Maintenance = None\<rparr> = Inr a"
      "w' = w3"
    using cfg(2) unfolding Build_def andThen_Inr lift_result_iff check_Inr
    by (auto simp: NewAuthService_def NewEnrollmentService_def New_api_def app_services_def split: if_splits)
  have "reads (Open opener dsn opts)" for opener dsn opts
    unfolding Open_def by (intro reads_intro)
  from reads_result [OF this opened] have step: "in_step ms k (tb w1)" using assms(3) by simp
  have migrated: "Migrate files (mc_Verdict m) (mc_Order m) w1 = (Inr out, w2)" "\<forall>xs. set (mc_Order m xs) = set xs"
    using mig assms(2) by (simp_all add: ships_def walks_def)
  have up: "in_step ms (length ms) (tb w2)" "t_migrations (tb w2) \<noteq> None"
    using Migrate_in_step [OF assms(1) step migrated(2,1)] by auto
  obtain u where "seed_demo m cfg w2 = (Inr u, w3)" using seed by blast
  from schema_kept.keeps_result [OF schema_kept_seed_demo this] up
  have "in_step ms (length ms) (tb w')" "t_migrations (tb w') \<noteq> None"
    by (simp_all add: in_step_kept last(2)) (simp add: schema_kept_def)
  moreover have "expected = int (length ms)"
    using latest LatestVersion_count [OF assms(1)] assms(2) by (simp add: ships_def)
  ultimately show ?thesis using add_worker_settings [OF cfg(1) last(1)] by simp
qed

text \<open>C18: the process comes up sound and ready. Starting on an empty database, after any number of attempts that
  may fail anywhere, an attempt that succeeds leaves a database that satisfies every invariant of the platform and on
  which each shipped script ran exactly once; without further failures the readiness probe answers 200; and the
  services and the worker run with the settings that were loaded.\<close>

theorem startup_serves:
  assumes "All_migrations files = Inr ms" "tb w = empty_tables" "list_all (ships files) (m # attempts)"
    and "restarts attempts w = (u, w1)" "start m w1 = (Inr a, w2)"
  shows "platform_ok (tb w2) \<and> t_scripts (tb w2) = map mig_Script ms \<and> settings_reach m a
    \<and> (\<forall>now rid. \<exists>rsp. yields now rid (handleReadiness (app_Server a)) (tb w2) (Inr rsp) (tb w2) \<and> rsp_Status rsp = 200)"
proof -
  have first: "in_step ms 0 (tb w)" by (simp add: assms(2) in_step_def empty_tables_def)
  have "advances ms (tb w) (tb w1)"
    using advances.keeps_result [OF advances_restarts [OF assms(1)] assms(4)] assms(3) by simp
  then obtain k where k: "in_step ms k (tb w1)" "unclaimed (tb w1)"
    using first empty_unclaimed assms(2) by (auto simp: advances_def)
  have "advances ms (tb w1) (tb w2)"
    using advances.keeps_result [OF advances_start [OF assms(1)] assms(5)] assms(3) by simp
  then have ok: "platform_ok (tb w2)" using k unclaimed_ok by (auto simp: advances_def)
  have up: "settings_reach m a" "srv_ExpectedSchema (app_Server a) = int (length ms)" "in_step ms (length ms) (tb w2)"
    "t_migrations (tb w2) \<noteq> None"
    using start_Inr [OF assms(1) _ k(1) assms(5)] assms(3) by auto
  then obtain rows where "t_migrations (tb w2) = Some rows" by blast
  from readiness_after_steps [OF assms(1) up(3) this] have
    "\<exists>rsp. yields now rid (handleReadiness (app_Server a)) (tb w2) (Inr rsp) (tb w2) \<and> rsp_Status rsp = 200" for now rid
    using up(2) by metis
  moreover have "t_scripts (tb w2) = map mig_Script ms" using up(3) by (simp add: in_step_def)
  ultimately show ?thesis using ok up(1) by blast
qed

definition quiet_environment :: environment where
  "quiet_environment = map_of [(''APP_SEED_DEMO_DATA'', ''f'')]"

definition sample_machine :: machine where
  "sample_machine = \<lparr>mc_Env = quiet_environment, mc_Mkdir = (\<lambda>_. None), mc_Opener = (\<lambda>_. None),
     mc_Files = sample_files, mc_Verdict = accepts, mc_Order = as_stored, mc_RegistrarSalt = Inl (Plain ''EOF''),
     mc_StudentSalt = Inl (Plain ''EOF''), mc_WorkerEntropy = Inr [CHR ''w''], mc_LoginEntropy = Inl (Plain ''EOF''),
     mc_ReadMsg = (\<lambda>_. ''unexpected EOF''), mc_ParseTime = (\<lambda>_. Inl (Plain ''cannot parse'')), mc_SyntaxMsg = (\<lambda>_. ''EOF'')\<rparr>"

definition blocked_machine :: machine where
  \<comment> \<open>the directory of the database cannot be made\<close>
  "blocked_machine = sample_machine\<lparr>mc_Mkdir := (\<lambda>_. Some (Plain ''permission denied''))\<rparr>"

definition quiet_config :: config where
  "quiet_config = sample_config\<lparr>cfg_SeedDemoData := False,
     cfg_DatabaseDSN := ''file:data/orientation.db?_pragma=busy_timeout(5000)''\<rparr>"

lemma quiet_fields:
  "cfg_SeedDemoData quiet_config = False" "cfg_WorkerEnabled quiet_config = True"
  "cfg_DatabaseDSN quiet_config = ''file:data/orientation.db?_pragma=busy_timeout(5000)''"
  "NewAuthService (cfg_SessionTTL quiet_config) = Inr (12 * Hour)"
  "NewEnrollmentService (cfg_MaxEnrollmentRetries quiet_config) = Inr 4"
  by (simp_all add: quiet_config_def sample_config_def NewAuthService_def NewEnrollmentService_def Hour_def Minute_def Second_def)

lemma quiet_load: "Load quiet_environment = Inr quiet_config" "cfg_Validate quiet_config = None"
  by code_simp+

lemma sample_paths:
  "ensureDatabaseDirectory (\<lambda>_. None) ''file:data/orientation.db?_pragma=busy_timeout(5000)'' = None"
  "ensureDatabaseDirectory (\<lambda>d. Some (Plain d)) ''file:data/orientation.db?_pragma=busy_timeout(5000)''
    = Some (Wrapped ''create database directory data'' (Plain ''data''))"
  "Dir ''/srv/./db/../data//o.db'' = ''/srv/data''"
  by code_simp+

lemma sample_blocked: "restarts [blocked_machine] (at_time 5 empty_tables) = (Inr (), at_time 5 empty_tables)"
proof -
  have "ensureDatabaseDirectory (\<lambda>_. Some (Plain ''permission denied'')) ''file:data/orientation.db?_pragma=busy_timeout(5000)''
      = Some (Wrapped ''create database directory data'' (Plain ''permission denied''))" by code_simp
  then show ?thesis
    by (simp add: blocked_machine_def sample_machine_def start_def quiet_load quiet_fields Build_def andThen_def attempt_def
        ret_def lift_result_def check_def)
qed

lemma sample_started: "\<exists>a w. start sample_machine (at_time 5 empty_tables) = (Inr a, w)"
proof -
  have name: "\<exists>n. normalizeDSN ''file:data/orientation.db?_pragma=busy_timeout(5000)'' = Inr n"
    by (rule exI) code_simp
  obtain w where w: "Migrate sample_files accepts as_stored ((at_time 5 empty_tables)\<lparr>w_tick := Suc 0\<rparr>)
     = (Inr \<lparr>mo_Applied = [1, 2], mo_AlreadyCurrent = False, mo_Version = 2\<rparr>, w)" using sample_migrated by blast
  have up: "driver (at_time 5 empty_tables) = (Inr (), (at_time 5 empty_tables)\<lparr>w_tick := Suc 0\<rparr>)"
    by (simp add: driver_def at_time_def tick_def)
  obtain wk where wk: "build_worker sample_machine quiet_config = Inr wk"
    by (simp add: build_worker_def bind_result_def NewWorkerID_def New_worker_def Register_def Let_def sample_machine_def)
  then obtain b where b: "\<And>a. add_worker sample_machine quiet_config a = Inr (a\<lparr>app_Worker := Some wk, app_Maintenance := Some b\<rparr>)"
    by (simp add: add_worker_def quiet_fields bind_result_def)
  have fields: "mc_Env sample_machine = quiet_environment" "mc_Mkdir sample_machine = (\<lambda>_. None)"
    "mc_Opener sample_machine = (\<lambda>_. None)" "mc_Files sample_machine = sample_files" "mc_Verdict sample_machine = accepts"
    "mc_Order sample_machine = as_stored"
    by (simp_all add: sample_machine_def)
  obtain n where n: "normalizeDSN ''file:data/orientation.db?_pragma=busy_timeout(5000)'' = Inr n" using name by blast
  show ?thesis
    by (simp add: start_def quiet_load quiet_fields Build_def Open_def andThen_def ret_def lift_result_def fields n
        check_def sample_paths on_error_def sample_shipped seed_demo_def New_api_def app_services_def b up w)
qed

theorem startup_serves_witness:
  "\<exists>a w. start sample_machine (at_time 5 empty_tables) = (Inr a, w) \<and> platform_ok (tb w)
    \<and> t_scripts (tb w) = [''create users'', ''create jobs'']"
proof -
  obtain a w where run: "start sample_machine (at_time 5 empty_tables) = (Inr a, w)" using sample_started by blast
  have "list_all (ships sample_files) [sample_machine, blocked_machine]"
    by (simp add: ships_def blocked_machine_def sample_machine_def walks_as_stored)
  from startup_serves [OF sample_shipped(1) _ this sample_blocked run]
  have "platform_ok (tb w) \<and> t_scripts (tb w) = map mig_Script sample_migrations" by (simp add: at_time_def)
  then show ?thesis using run by (auto simp: sample_migrations_def)
qed

end
