(* ===== verification/Rows.thy ===== *)
theory Rows
  imports CatalogStore TimeParse
begin

text \<open>
  The rows as SQLite stores them: numbers, texts and NULL, with instants, states and flags written as text and
  integers. The \<open>store_\<close> functions are the arguments of the inserts, the \<open>scan\<close> functions of the
  repositories (\<open>internal/storage/sqlite\<close>) read a row back. The other theories keep tables of domain records;
  what is proved here is that nothing is lost on the way. \<open>NOT NULL\<close> columns have a value, so that
  \<open>row.Scan\<close> itself does not fail. \<open>gp\<close> is the general reader of the time package, which text written by
  the program never reaches.
\<close>

section \<open>Enumerations as text\<close>

definition enum_of_text :: "('a \<Rightarrow> string) \<Rightarrow> 'a list \<Rightarrow> (string \<Rightarrow> 'a) \<Rightarrow> string \<Rightarrow> 'a" where
  \<comment> \<open>the conversion of a text to a named string type; \<open>known\<close> lists the named constants\<close>
  "enum_of_text text_of known other s = (case find (\<lambda>v. text_of v = s) known of Some v \<Rightarrow> v | None \<Rightarrow> other s)"

locale enumeration =
  fixes text_of :: "'a \<Rightarrow> string" and known :: "'a list" and other :: "string \<Rightarrow> 'a"
  assumes apart: "distinct (map text_of known)"
    and other: "text_of (other s) = s"
begin

lemma text_of_read: "text_of (enum_of_text text_of known other s) = s"
  by (auto simp: enum_of_text_def other find_Some_iff split: option.splits)

lemma read_text: "v \<in> set known \<Longrightarrow> enum_of_text text_of known other (text_of v) = v"
proof -
  assume v: "v \<in> set known"
  then obtain u where u: "find (\<lambda>w. text_of w = text_of v) known = Some u"
    by (cases "find (\<lambda>w. text_of w = text_of v) known") (auto simp: find_None_iff)
  then have "u \<in> set known" "text_of u = text_of v" by (auto simp: find_Some_iff)
  then have "u = v" using v apart by (auto simp: distinct_map dest: inj_onD)
  then show ?thesis using u by (simp add: enum_of_text_def)
qed

end

definition known_enrollment_status :: "enrollment_status list" where
  "known_enrollment_status = [EnrollmentPending, EnrollmentEnrolled, EnrollmentWaitlisted, EnrollmentDropped,
     EnrollmentWithdrawn, EnrollmentCompleted]"

definition known_registration_status :: "registration_status list" where
  "known_registration_status = [RegistrationDraft, RegistrationSubmitted, RegistrationVerified, RegistrationRejected]"

definition known_section_status :: "section_status list" where
  "known_section_status = [SectionDraft, SectionOpen, SectionClosed, SectionCancelled]"

definition known_job_kind :: "job_kind list" where
  "known_job_kind = [JobPromoteWaitlist, JobSweepSessions]"

definition known_job_state :: "job_state list" where
  "known_job_state = [JobQueued, JobRunning, JobSucceeded, JobPermanentlyFailed]"

definition known_role :: "role list" where
  "known_role = [RoleStudent, RoleRegistrar]"

definition known_audit_result :: "audit_result list" where
  "known_audit_result = [ResultSuccess, ResultRejected, ResultFailure]"

definition known_audit_action :: "audit_action list" where
  "known_audit_action = [ActionLogin, ActionLogout, ActionSessionSwept, ActionRegistrationSubmit,
     ActionRegistrationDecide, ActionEnrollmentClaim, ActionEnrollmentWaitlist, ActionEnrollmentDrop,
     ActionEnrollmentPromote, ActionJobFailed]"

interpretation enrollment_statuses: enumeration enrollment_status_text known_enrollment_status EnrollmentOther
  by unfold_locales (simp_all add: known_enrollment_status_def)

interpretation registration_statuses: enumeration registration_status_text known_registration_status RegistrationOther
  by unfold_locales (simp_all add: known_registration_status_def)

interpretation section_statuses: enumeration section_status_text known_section_status SectionOther
  by unfold_locales (simp_all add: known_section_status_def)

interpretation job_kinds: enumeration job_kind_text known_job_kind JobKindOther
  by unfold_locales (simp_all add: known_job_kind_def)

interpretation job_states: enumeration job_state_text known_job_state JobStateOther
  by unfold_locales (simp_all add: known_job_state_def)

interpretation roles: enumeration role_text known_role RoleOther
  by unfold_locales (simp_all add: known_role_def)

interpretation audit_results: enumeration audit_result_text known_audit_result ResultOther
  by unfold_locales (simp_all add: known_audit_result_def)

interpretation audit_actions: enumeration audit_action_text known_audit_action ActionOther
  by unfold_locales (simp_all add: known_audit_action_def)

lemmas enums_read_back = enrollment_statuses.read_text registration_statuses.read_text section_statuses.read_text
  job_kinds.read_text job_states.read_text roles.read_text audit_results.read_text audit_actions.read_text

section \<open>Instants and flags\<close>

lemma times_read_back:
  "storable t \<Longrightarrow> parseTime gp (formatTime t) = Inr t"
  "pred_option storable u \<Longrightarrow> parseNullableTime gp (formatNullableTime u) = Inr u"
  using parseTime_formatTime [of t gp] parseTime_formatTime [of "the u" gp] parseTime_formatTime [of 0 gp]
  by (auto simp: storable_def pred_option_def split: option.splits) (cases u; simp add: storable_def)

definition boolToInt :: "bool \<Rightarrow> int" where "boolToInt v = (if v then 1 else 0)"

section \<open>Seat claims\<close>

record enrollment_columns =
  ecol_ID :: int
  ecol_StudentID :: int
  ecol_TermID :: int
  ecol_SectionID :: int
  ecol_CourseCode :: string
  ecol_Credits :: int
  ecol_Status :: string
  ecol_WaitlistRank :: int
  ecol_RequestedAt :: string
  ecol_DecidedAt :: "string option"
  ecol_ReleasedAt :: "string option"
  ecol_ReleaseReason :: string
  ecol_Version :: int
  ecol_CreatedAt :: string
  ecol_UpdatedAt :: string

definition store_enrollment :: "enrollment \<Rightarrow> enrollment_columns" where
  "store_enrollment x =
     \<lparr>ecol_ID = enr_ID x, ecol_StudentID = enr_StudentID x, ecol_TermID = enr_TermID x,
      ecol_SectionID = enr_SectionID x, ecol_CourseCode = enr_CourseCode x, ecol_Credits = enr_Credits x,
      ecol_Status = enrollment_status_text (enr_Status x), ecol_WaitlistRank = enr_WaitlistRank x,
      ecol_RequestedAt = formatTime (enr_RequestedAt x), ecol_DecidedAt = formatNullableTime (enr_DecidedAt x),
      ecol_ReleasedAt = formatNullableTime (enr_ReleasedAt x), ecol_ReleaseReason = enr_ReleaseReason x,
      ecol_Version = enr_Version x, ecol_CreatedAt = formatTime (enr_CreatedAt x),
      ecol_UpdatedAt = formatTime (enr_UpdatedAt x)\<rparr>"

definition scanEnrollment :: "(string \<Rightarrow> err + instant) \<Rightarrow> enrollment_columns \<Rightarrow> err + enrollment" where
  "scanEnrollment gp c =
     bind_result (parseTime gp (ecol_RequestedAt c)) (\<lambda>requestedAt.
     bind_result (parseNullableTime gp (ecol_DecidedAt c)) (\<lambda>decidedAt.
     bind_result (parseNullableTime gp (ecol_ReleasedAt c)) (\<lambda>releasedAt.
     bind_result (parseTime gp (ecol_CreatedAt c)) (\<lambda>createdAt.
     bind_result (parseTime gp (ecol_UpdatedAt c)) (\<lambda>updatedAt.
     Inr \<lparr>enr_ID = ecol_ID c, enr_StudentID = ecol_StudentID c, enr_TermID = ecol_TermID c,
      enr_SectionID = ecol_SectionID c, enr_CourseCode = ecol_CourseCode c, enr_Credits = ecol_Credits c,
      enr_Status = enum_of_text enrollment_status_text known_enrollment_status EnrollmentOther (ecol_Status c),
      enr_WaitlistRank = ecol_WaitlistRank c, enr_RequestedAt = requestedAt, enr_DecidedAt = decidedAt,
      enr_ReleasedAt = releasedAt, enr_ReleaseReason = ecol_ReleaseReason c, enr_Version = ecol_Version c,
      enr_CreatedAt = createdAt, enr_UpdatedAt = updatedAt\<rparr>)))))"

definition enrollment_fits :: "enrollment \<Rightarrow> bool" where
  "enrollment_fits x \<longleftrightarrow> enr_Status x \<in> set known_enrollment_status \<and> storable (enr_RequestedAt x)
    \<and> pred_option storable (enr_DecidedAt x) \<and> pred_option storable (enr_ReleasedAt x)
    \<and> storable (enr_CreatedAt x) \<and> storable (enr_UpdatedAt x)"

lemma scan_store_enrollment: "enrollment_fits x \<Longrightarrow> scanEnrollment gp (store_enrollment x) = Inr x"
  by (simp add: enrollment_fits_def scanEnrollment_def store_enrollment_def times_read_back enums_read_back)

section \<open>Paperwork\<close>

record registration_columns =
  rcol_ID :: int
  rcol_StudentID :: int
  rcol_TermID :: int
  rcol_Status :: string
  rcol_ProgramCode :: string
  rcol_AdvisorEmail :: string
  rcol_DormPreference :: string
  rcol_SubmittedAt :: "string option"
  rcol_DecidedAt :: "string option"
  rcol_DecidedByUserID :: "int option"
  rcol_DecisionNote :: string
  rcol_Version :: int
  rcol_CreatedAt :: string
  rcol_UpdatedAt :: string

definition store_registration :: "registration \<Rightarrow> registration_columns" where
  "store_registration x =
     \<lparr>rcol_ID = reg_ID x, rcol_StudentID = reg_StudentID x, rcol_TermID = reg_TermID x,
      rcol_Status = registration_status_text (reg_Status x), rcol_ProgramCode = reg_ProgramCode x,
      rcol_AdvisorEmail = reg_AdvisorEmail x, rcol_DormPreference = reg_DormPreference x,
      rcol_SubmittedAt = formatNullableTime (reg_SubmittedAt x),
      rcol_DecidedAt = formatNullableTime (reg_DecidedAt x), rcol_DecidedByUserID = reg_DecidedByUserID x,
      rcol_DecisionNote = reg_DecisionNote x, rcol_Version = reg_Version x,
      rcol_CreatedAt = formatTime (reg_CreatedAt x), rcol_UpdatedAt = formatTime (reg_UpdatedAt x)\<rparr>"

definition scanRegistration :: "(string \<Rightarrow> err + instant) \<Rightarrow> registration_columns \<Rightarrow> err + registration" where
  "scanRegistration gp c =
     bind_result (parseNullableTime gp (rcol_SubmittedAt c)) (\<lambda>submittedAt.
     bind_result (parseNullableTime gp (rcol_DecidedAt c)) (\<lambda>decidedAt.
     bind_result (parseTime gp (rcol_CreatedAt c)) (\<lambda>createdAt.
     bind_result (parseTime gp (rcol_UpdatedAt c)) (\<lambda>updatedAt.
     Inr \<lparr>reg_ID = rcol_ID c, reg_StudentID = rcol_StudentID c, reg_TermID = rcol_TermID c,
      reg_Status = enum_of_text registration_status_text known_registration_status RegistrationOther (rcol_Status c),
      reg_ProgramCode = rcol_ProgramCode c, reg_AdvisorEmail = rcol_AdvisorEmail c,
      reg_DormPreference = rcol_DormPreference c, reg_SubmittedAt = submittedAt, reg_DecidedAt = decidedAt,
      reg_DecidedByUserID = rcol_DecidedByUserID c, reg_DecisionNote = rcol_DecisionNote c,
      reg_Version = rcol_Version c, reg_CreatedAt = createdAt, reg_UpdatedAt = updatedAt\<rparr>))))"

definition registration_fits :: "registration \<Rightarrow> bool" where
  "registration_fits x \<longleftrightarrow> reg_Status x \<in> set known_registration_status \<and> pred_option storable (reg_SubmittedAt x)
    \<and> pred_option storable (reg_DecidedAt x) \<and> storable (reg_CreatedAt x)
    \<and> storable (reg_UpdatedAt x)"

lemma scan_store_registration: "registration_fits x \<Longrightarrow> scanRegistration gp (store_registration x) = Inr x"
  by (simp add: registration_fits_def scanRegistration_def store_registration_def times_read_back enums_read_back)

section \<open>Jobs\<close>

record job_columns =
  jcol_ID :: int
  jcol_Kind :: string
  jcol_Payload :: string
  jcol_State :: string
  jcol_Attempts :: int
  jcol_MaxAttempts :: int
  jcol_LastError :: string
  jcol_RunAfter :: string
  jcol_LockedAt :: "string option"
  jcol_LockedBy :: string
  jcol_CreatedAt :: string
  jcol_UpdatedAt :: string

definition store_job :: "job \<Rightarrow> job_columns" where
  "store_job x =
     \<lparr>jcol_ID = job_ID x, jcol_Kind = job_kind_text (job_Kind x), jcol_Payload = job_Payload x,
      jcol_State = job_state_text (job_State x), jcol_Attempts = job_Attempts x,
      jcol_MaxAttempts = job_MaxAttempts x, jcol_LastError = job_LastError x,
      jcol_RunAfter = formatTime (job_RunAfter x), jcol_LockedAt = formatNullableTime (job_LockedAt x),
      jcol_LockedBy = job_LockedBy x, jcol_CreatedAt = formatTime (job_CreatedAt x),
      jcol_UpdatedAt = formatTime (job_UpdatedAt x)\<rparr>"

definition scanJob :: "(string \<Rightarrow> err + instant) \<Rightarrow> job_columns \<Rightarrow> err + job" where
  "scanJob gp c =
     bind_result (parseTime gp (jcol_RunAfter c)) (\<lambda>runAfter.
     bind_result (parseNullableTime gp (jcol_LockedAt c)) (\<lambda>lockedAt.
     bind_result (parseTime gp (jcol_CreatedAt c)) (\<lambda>createdAt.
     bind_result (parseTime gp (jcol_UpdatedAt c)) (\<lambda>updatedAt.
     Inr \<lparr>job_ID = jcol_ID c,
      job_Kind = enum_of_text job_kind_text known_job_kind JobKindOther (jcol_Kind c),
      job_Payload = jcol_Payload c,
      job_State = enum_of_text job_state_text known_job_state JobStateOther (jcol_State c),
      job_Attempts = jcol_Attempts c, job_MaxAttempts = jcol_MaxAttempts c, job_LastError = jcol_LastError c,
      job_RunAfter = runAfter, job_LockedAt = lockedAt, job_LockedBy = jcol_LockedBy c,
      job_CreatedAt = createdAt, job_UpdatedAt = updatedAt\<rparr>))))"

definition job_fits :: "job \<Rightarrow> bool" where
  "job_fits x \<longleftrightarrow> job_Kind x \<in> set known_job_kind \<and> job_State x \<in> set known_job_state
    \<and> storable (job_RunAfter x) \<and> pred_option storable (job_LockedAt x)
    \<and> storable (job_CreatedAt x) \<and> storable (job_UpdatedAt x)"

lemma scan_store_job: "job_fits x \<Longrightarrow> scanJob gp (store_job x) = Inr x"
  by (simp add: job_fits_def scanJob_def store_job_def times_read_back enums_read_back)

section \<open>Sessions\<close>

record session_columns =
  scol_ID :: int
  scol_UserID :: int
  scol_TokenDigest :: string
  scol_IssuedAt :: string
  scol_ExpiresAt :: string
  scol_RevokedAt :: "string option"
  scol_LastSeenAt :: string
  scol_UserAgent :: string

definition store_session :: "session \<Rightarrow> session_columns" where
  "store_session x =
     \<lparr>scol_ID = ses_ID x, scol_UserID = ses_UserID x, scol_TokenDigest = ses_TokenDigest x,
      scol_IssuedAt = formatTime (ses_IssuedAt x), scol_ExpiresAt = formatTime (ses_ExpiresAt x),
      scol_RevokedAt = formatNullableTime (ses_RevokedAt x), scol_LastSeenAt = formatTime (ses_LastSeenAt x),
      scol_UserAgent = ses_UserAgent x\<rparr>"

definition scanSession :: "(string \<Rightarrow> err + instant) \<Rightarrow> session_columns \<Rightarrow> err + session" where
  "scanSession gp c =
     bind_result (parseTime gp (scol_IssuedAt c)) (\<lambda>issuedAt.
     bind_result (parseTime gp (scol_ExpiresAt c)) (\<lambda>expiresAt.
     bind_result (parseNullableTime gp (scol_RevokedAt c)) (\<lambda>revokedAt.
     bind_result (parseTime gp (scol_LastSeenAt c)) (\<lambda>lastSeenAt.
     Inr \<lparr>ses_ID = scol_ID c, ses_UserID = scol_UserID c, ses_TokenDigest = scol_TokenDigest c,
      ses_IssuedAt = issuedAt, ses_ExpiresAt = expiresAt, ses_RevokedAt = revokedAt,
      ses_LastSeenAt = lastSeenAt, ses_UserAgent = scol_UserAgent c\<rparr>))))"

definition session_fits :: "session \<Rightarrow> bool" where
  "session_fits x \<longleftrightarrow> storable (ses_IssuedAt x) \<and> storable (ses_ExpiresAt x)
    \<and> pred_option storable (ses_RevokedAt x) \<and> storable (ses_LastSeenAt x)"

lemma scan_store_session: "session_fits x \<Longrightarrow> scanSession gp (store_session x) = Inr x"
  by (simp add: session_fits_def scanSession_def store_session_def times_read_back enums_read_back)

section \<open>Users\<close>

record user_columns =
  ucol_ID :: int
  ucol_Email :: string
  ucol_DisplayName :: string
  ucol_Role :: string
  ucol_PasswordHash :: string
  ucol_Disabled :: int
  ucol_CreatedAt :: string
  ucol_UpdatedAt :: string

definition store_user :: "user \<Rightarrow> user_columns" where
  "store_user x =
     \<lparr>ucol_ID = usr_ID x, ucol_Email = usr_Email x, ucol_DisplayName = usr_DisplayName x,
      ucol_Role = role_text (usr_Role x), ucol_PasswordHash = usr_PasswordHash x,
      ucol_Disabled = boolToInt (usr_Disabled x), ucol_CreatedAt = formatTime (usr_CreatedAt x),
      ucol_UpdatedAt = formatTime (usr_UpdatedAt x)\<rparr>"

definition scanUser :: "(string \<Rightarrow> err + instant) \<Rightarrow> user_columns \<Rightarrow> err + user" where
  "scanUser gp c =
     bind_result (parseTime gp (ucol_CreatedAt c)) (\<lambda>createdAt.
     bind_result (parseTime gp (ucol_UpdatedAt c)) (\<lambda>updatedAt.
     Inr \<lparr>usr_ID = ucol_ID c, usr_Email = ucol_Email c, usr_DisplayName = ucol_DisplayName c,
      usr_Role = enum_of_text role_text known_role RoleOther (ucol_Role c),
      usr_PasswordHash = ucol_PasswordHash c, usr_Disabled = (ucol_Disabled c \<noteq> 0),
      usr_CreatedAt = createdAt, usr_UpdatedAt = updatedAt\<rparr>))"

definition user_fits :: "user \<Rightarrow> bool" where
  "user_fits x \<longleftrightarrow> usr_Role x \<in> set known_role \<and> storable (usr_CreatedAt x) \<and> storable (usr_UpdatedAt x)"

lemma scan_store_user: "user_fits x \<Longrightarrow> scanUser gp (store_user x) = Inr x"
  by (simp add: user_fits_def scanUser_def store_user_def times_read_back enums_read_back boolToInt_def)

section \<open>Terms\<close>

record term_columns =
  tcol_ID :: int
  tcol_Code :: string
  tcol_Name :: string
  tcol_EnrollmentOpensAt :: string
  tcol_EnrollmentClosesAt :: string
  tcol_AddDropClosesAt :: string
  tcol_CreditLimit :: int
  tcol_Archived :: int

definition store_term :: "academic_term \<Rightarrow> term_columns" where
  "store_term x =
     \<lparr>tcol_ID = trm_ID x, tcol_Code = trm_Code x, tcol_Name = trm_Name x,
      tcol_EnrollmentOpensAt = formatTime (trm_EnrollmentOpensAt x),
      tcol_EnrollmentClosesAt = formatTime (trm_EnrollmentClosesAt x),
      tcol_AddDropClosesAt = formatTime (trm_AddDropClosesAt x), tcol_CreditLimit = trm_CreditLimit x,
      tcol_Archived = boolToInt (trm_Archived x)\<rparr>"

definition scanTerm :: "(string \<Rightarrow> err + instant) \<Rightarrow> term_columns \<Rightarrow> err + academic_term" where
  "scanTerm gp c =
     bind_result (parseTime gp (tcol_EnrollmentOpensAt c)) (\<lambda>enrollmentOpensAt.
     bind_result (parseTime gp (tcol_EnrollmentClosesAt c)) (\<lambda>enrollmentClosesAt.
     bind_result (parseTime gp (tcol_AddDropClosesAt c)) (\<lambda>addDropClosesAt.
     Inr \<lparr>trm_ID = tcol_ID c, trm_Code = tcol_Code c, trm_Name = tcol_Name c,
      trm_EnrollmentOpensAt = enrollmentOpensAt, trm_EnrollmentClosesAt = enrollmentClosesAt,
      trm_AddDropClosesAt = addDropClosesAt, trm_CreditLimit = tcol_CreditLimit c,
      trm_Archived = (tcol_Archived c \<noteq> 0)\<rparr>)))"

definition term_fits :: "academic_term \<Rightarrow> bool" where
  "term_fits x \<longleftrightarrow> storable (trm_EnrollmentOpensAt x) \<and> storable (trm_EnrollmentClosesAt x)
    \<and> storable (trm_AddDropClosesAt x)"

lemma scan_store_term: "term_fits x \<Longrightarrow> scanTerm gp (store_term x) = Inr x"
  by (simp add: term_fits_def scanTerm_def store_term_def times_read_back enums_read_back boolToInt_def)

section \<open>Audit events\<close>

record event_columns =
  acol_ID :: int
  acol_ActorUserID :: "int option"
  acol_ActorRole :: string
  acol_Action :: string
  acol_ObjectType :: string
  acol_ObjectID :: string
  acol_Result :: string
  acol_RequestID :: string
  acol_Detail :: string
  acol_OccurredAt :: string

definition store_event :: "audit_event \<Rightarrow> event_columns" where
  "store_event x =
     \<lparr>acol_ID = aud_ID x, acol_ActorUserID = aud_ActorUserID x, acol_ActorRole = aud_ActorRole x,
      acol_Action = audit_action_text (aud_Action x), acol_ObjectType = aud_ObjectType x,
      acol_ObjectID = aud_ObjectID x, acol_Result = audit_result_text (aud_Result x),
      acol_RequestID = aud_RequestID x, acol_Detail = aud_Detail x,
      acol_OccurredAt = formatTime (aud_OccurredAt x)\<rparr>"

definition scanAuditEvent :: "(string \<Rightarrow> err + instant) \<Rightarrow> event_columns \<Rightarrow> err + audit_event" where
  "scanAuditEvent gp c =
     bind_result (parseTime gp (acol_OccurredAt c)) (\<lambda>occurredAt.
     Inr \<lparr>aud_ID = acol_ID c, aud_ActorUserID = acol_ActorUserID c, aud_ActorRole = acol_ActorRole c,
      aud_Action = enum_of_text audit_action_text known_audit_action ActionOther (acol_Action c),
      aud_ObjectType = acol_ObjectType c, aud_ObjectID = acol_ObjectID c,
      aud_Result = enum_of_text audit_result_text known_audit_result ResultOther (acol_Result c),
      aud_RequestID = acol_RequestID c, aud_Detail = acol_Detail c, aud_OccurredAt = occurredAt\<rparr>)"

definition event_fits :: "audit_event \<Rightarrow> bool" where
  "event_fits x \<longleftrightarrow> aud_Action x \<in> set known_audit_action \<and> aud_Result x \<in> set known_audit_result
    \<and> storable (aud_OccurredAt x)"

lemma scan_store_event: "event_fits x \<Longrightarrow> scanAuditEvent gp (store_event x) = Inr x"
  by (simp add: event_fits_def scanAuditEvent_def store_event_def times_read_back enums_read_back)

section \<open>Academic records\<close>

record record_columns =
  gcol_ID :: int
  gcol_StudentID :: int
  gcol_CourseCode :: string
  gcol_Grade :: string
  gcol_Credits :: int
  gcol_CompletedAt :: string

definition store_record :: "academic_record \<Rightarrow> record_columns" where
  "store_record x =
     \<lparr>gcol_ID = rec_ID x, gcol_StudentID = rec_StudentID x, gcol_CourseCode = rec_CourseCode x,
      gcol_Grade = rec_Grade x, gcol_Credits = rec_Credits x, gcol_CompletedAt = formatTime (rec_CompletedAt x)\<rparr>"

definition scan_record :: "(string \<Rightarrow> err + instant) \<Rightarrow> record_columns \<Rightarrow> err + academic_record" where
  "scan_record gp c =
     bind_result (parseTime gp (gcol_CompletedAt c)) (\<lambda>completedAt.
     Inr \<lparr>rec_ID = gcol_ID c, rec_StudentID = gcol_StudentID c, rec_CourseCode = gcol_CourseCode c,
      rec_Grade = gcol_Grade c, rec_Credits = gcol_Credits c, rec_CompletedAt = completedAt\<rparr>)"

definition record_fits :: "academic_record \<Rightarrow> bool" where
  "record_fits x \<longleftrightarrow> storable (rec_CompletedAt x)"

lemma scan_store_record: "record_fits x \<Longrightarrow> scan_record gp (store_record x) = Inr x"
  by (simp add: record_fits_def scan_record_def store_record_def times_read_back enums_read_back)

section \<open>Response snapshots\<close>

record snapshot_columns =
  icol_ActorUserID :: int
  icol_Method :: string
  icol_Path :: string
  icol_Key :: string
  icol_RequestFingerprint :: string
  icol_ResponseStatus :: int
  icol_ResponseBody :: string
  icol_CreatedAt :: string
  icol_ExpiresAt :: string

definition store_snapshot :: "idempotency_record \<Rightarrow> snapshot_columns" where
  "store_snapshot x =
     \<lparr>icol_ActorUserID = idem_ActorUserID x, icol_Method = idem_Method x, icol_Path = idem_Path x,
      icol_Key = idem_Key x, icol_RequestFingerprint = idem_RequestFingerprint x,
      icol_ResponseStatus = idem_ResponseStatus x, icol_ResponseBody = idem_ResponseBody x,
      icol_CreatedAt = formatTime (idem_CreatedAt x), icol_ExpiresAt = formatTime (idem_ExpiresAt x)\<rparr>"

definition scan_snapshot :: "(string \<Rightarrow> err + instant) \<Rightarrow> snapshot_columns \<Rightarrow> err + idempotency_record" where
  "scan_snapshot gp c =
     bind_result (parseTime gp (icol_CreatedAt c)) (\<lambda>createdAt.
     bind_result (parseTime gp (icol_ExpiresAt c)) (\<lambda>expiresAt.
     Inr \<lparr>idem_ActorUserID = icol_ActorUserID c, idem_Method = icol_Method c, idem_Path = icol_Path c,
      idem_Key = icol_Key c, idem_RequestFingerprint = icol_RequestFingerprint c,
      idem_ResponseStatus = icol_ResponseStatus c, idem_ResponseBody = icol_ResponseBody c,
      idem_CreatedAt = createdAt, idem_ExpiresAt = expiresAt\<rparr>))"

definition snapshot_fits :: "idempotency_record \<Rightarrow> bool" where
  "snapshot_fits x \<longleftrightarrow> storable (idem_CreatedAt x) \<and> storable (idem_ExpiresAt x)"

lemma scan_store_snapshot: "snapshot_fits x \<Longrightarrow> scan_snapshot gp (store_snapshot x) = Inr x"
  by (simp add: snapshot_fits_def scan_snapshot_def store_snapshot_def times_read_back enums_read_back)

section \<open>Sections\<close>

record section_columns =
  ncol_ID :: int
  ncol_TermID :: int
  ncol_CourseID :: int
  ncol_CourseCode :: string
  ncol_CourseCredits :: int
  ncol_Code :: string
  ncol_Status :: string
  ncol_Capacity :: int
  ncol_SeatsTaken :: int
  ncol_WaitlistLimit :: int
  ncol_WaitlistLength :: int
  ncol_Instructor :: string
  ncol_Version :: int
  ncol_UpdatedAt :: string

definition store_section :: "section_row \<Rightarrow> course_row \<Rightarrow> section_columns" where
  \<comment> \<open>the stored row of the section, with the columns joined from its course\<close>
  "store_section s c =
     \<lparr>ncol_ID = sr_ID s, ncol_TermID = sr_TermID s, ncol_CourseID = sr_CourseID s, ncol_CourseCode = cr_Code c,
      ncol_CourseCredits = cr_Credits c, ncol_Code = sr_Code s, ncol_Status = section_status_text (sr_Status s),
      ncol_Capacity = sr_Capacity s, ncol_SeatsTaken = sr_SeatsTaken s, ncol_WaitlistLimit = sr_WaitlistLimit s,
      ncol_WaitlistLength = sr_WaitlistLength s, ncol_Instructor = sr_Instructor s, ncol_Version = sr_Version s,
      ncol_UpdatedAt = formatTime (sr_UpdatedAt s)\<rparr>"

definition scanSection :: "(string \<Rightarrow> err + instant) \<Rightarrow> section_columns \<Rightarrow> err + course_section" where
  "scanSection gp c =
     bind_result (parseTime gp (ncol_UpdatedAt c)) (\<lambda>updatedAt.
     Inr \<lparr>sec_ID = ncol_ID c, sec_TermID = ncol_TermID c, sec_CourseID = ncol_CourseID c,
      sec_CourseCode = ncol_CourseCode c, sec_CourseCredits = ncol_CourseCredits c, sec_Code = ncol_Code c,
      sec_Status = enum_of_text section_status_text known_section_status SectionOther (ncol_Status c),
      sec_Capacity = ncol_Capacity c, sec_SeatsTaken = ncol_SeatsTaken c, sec_WaitlistLimit = ncol_WaitlistLimit c,
      sec_WaitlistLength = ncol_WaitlistLength c, sec_Instructor = ncol_Instructor c, sec_Version = ncol_Version c,
      sec_Meetings = [], sec_UpdatedAt = updatedAt\<rparr>)"

lemma scan_store_section:
  assumes "storable (sr_UpdatedAt s)" "sr_Status s \<in> set known_section_status"
  shows "scanSection gp (store_section s c) = Inr (scan_section (s, c))"
  using assms by (simp add: scanSection_def store_section_def times_read_back enums_read_back)

section \<open>Reading back\<close>

text \<open>C40: what the program stores it reads back. For every kind of row, with its states among the named ones and its
  instants in the years 0 to 9999, scanning the columns that were written gives the same record: no instant loses
  its nanoseconds, no empty column its emptiness and no state its name. In particular a row never falls back on the
  general reader of the time package.\<close>

theorem rows_read_back:
  "(\<forall>x. enrollment_fits x \<longrightarrow> scanEnrollment gp (store_enrollment x) = Inr x) \<and>
    (\<forall>x. registration_fits x \<longrightarrow> scanRegistration gp (store_registration x) = Inr x) \<and>
    (\<forall>x. job_fits x \<longrightarrow> scanJob gp (store_job x) = Inr x) \<and>
    (\<forall>x. session_fits x \<longrightarrow> scanSession gp (store_session x) = Inr x) \<and>
    (\<forall>x. user_fits x \<longrightarrow> scanUser gp (store_user x) = Inr x) \<and>
    (\<forall>x. term_fits x \<longrightarrow> scanTerm gp (store_term x) = Inr x) \<and>
    (\<forall>x. event_fits x \<longrightarrow> scanAuditEvent gp (store_event x) = Inr x) \<and>
    (\<forall>x. record_fits x \<longrightarrow> scan_record gp (store_record x) = Inr x) \<and>
    (\<forall>x. snapshot_fits x \<longrightarrow> scan_snapshot gp (store_snapshot x) = Inr x) \<and>
    (\<forall>s c. storable (sr_UpdatedAt s) \<and> section_row_ok s \<longrightarrow> scanSection gp (store_section s c) = Inr (scan_section (s, c)))"
  by (intro conjI allI impI scan_store_enrollment scan_store_registration scan_store_job scan_store_session scan_store_user scan_store_term scan_store_event scan_store_record scan_store_snapshot scan_store_section)
    (auto simp: section_row_ok_def known_section_status_def)

definition kept_claim :: enrollment where
  "kept_claim = \<lparr>enr_ID = 7, enr_StudentID = 2, enr_TermID = 1, enr_SectionID = 4, enr_CourseCode = ''CS110'', enr_Credits = 4,
     enr_Status = EnrollmentEnrolled, enr_WaitlistRank = 0, enr_RequestedAt = 1767225600123000000,
     enr_DecidedAt = Some 1767225600123000001, enr_ReleasedAt = None, enr_ReleaseReason = [], enr_Version = 2,
     enr_CreatedAt = 0, enr_UpdatedAt = 1767225600500000000\<rparr>"

definition kept_section :: section_row where
  "kept_section = \<lparr>sr_ID = 4, sr_TermID = 1, sr_CourseID = 3, sr_Code = ''CS110-A'', sr_Status = SectionOpen, sr_Capacity = 30,
     sr_SeatsTaken = 1, sr_WaitlistLimit = 8, sr_WaitlistLength = 0, sr_Instructor = ''Prof. Zhao'', sr_Version = 2,
     sr_UpdatedAt = 5\<rparr>"

definition kept_course :: course_row where
  "kept_course = \<lparr>cr_ID = 3, cr_Code = ''CS110'', cr_Title = ''Programming'', cr_Credits = 4, cr_Department = ''computing'',
     cr_Retired = False\<rparr>"

theorem rows_read_back_witness:
  "scanEnrollment (\<lambda>s. Inl (Plain s)) (store_enrollment kept_claim) = Inr kept_claim
    \<and> scanSection (\<lambda>s. Inl (Plain s)) (store_section kept_section kept_course) = Inr (scan_section (kept_section, kept_course))"
proof -
  have "enrollment_fits kept_claim"
    by (simp add: enrollment_fits_def kept_claim_def storable_def known_enrollment_status_def)
  moreover have "storable (sr_UpdatedAt kept_section) \<and> section_row_ok kept_section"
    by (simp add: kept_section_def storable_def section_row_ok_def)
  ultimately show ?thesis using rows_read_back [of "\<lambda>s. Inl (Plain s)"] by blast
qed

end
