(* ===== verification/UseCases.thy ===== *)
theory UseCases
  imports WorkerRuns HttpProperties
begin

text \<open>
  Relations along whole requests and worker rounds. Each locale names the calls of one repository and carries
  a relation they move along through the use cases built on them; \<open>use_cases\<close> carries it on through every
  HTTP handler, the router, the worker and the maintenance scheduler.
\<close>

section \<open>Paperwork and replay records\<close>

context evolution begin

lemma registration_frame:
  assumes "\<And>t c. R t (t\<lparr>t_registrations := c\<rparr>)"
  shows "keeps (UpsertRegistration r)"
  unfolding UpsertRegistration_def
  by (intro keeps_intro; auto simp: insert_registration_def update_registration_def Let_def intro!: assms split: if_splits)

lemma keeps_known_pair:
  assumes "keeps m" "\<And>w x y w'. m w = (Inr (x, y), w') \<Longrightarrow> keeps (f x y)"
  shows "keeps (andThen m (\<lambda>(x, y). f x y))"
  by (rule keeps_known [OF assms(1)]) (auto dest: assms(2))

lemma replay_frame:
  assumes "\<And>t. R t (t\<lparr>t_idempotency := t_idempotency t @ [r]\<rparr>)"
  shows "keeps (SaveIdempotencyRecord r)"
  unfolding SaveIdempotencyRecord_def
  by (intro keeps_intro; auto simp: insert_record_def intro!: assms split: if_splits)

end

locale paper_calls = trail_calls +
  assumes saves: "keeps (UpsertRegistration r)"
begin

lemma keeps_paperwork [keeps_intro]: "keeps (Submit actor inp)" "keeps (Decide actor dinp)"
proof -
  have saved: "keeps (UpsertRegistration r)" for r by (rule saves)
  have looked: "keeps (FindTermByID i)" "keeps (FindRegistrationByID i)" "keeps (find_or_draft a b now)" for i a b now
    by (intro keeps_reads catalog_reads registration_reads paperwork_reads)+
  show "keeps (Submit actor inp)" "keeps (Decide actor dinp)"
    unfolding Submit_def Decide_def submit_tx_def decide_tx_def recordRejection_def Let_def
    by (intro keeps_intro saved looked)+
qed

end

lemma claim_call_body: "claim_call srv actor st sec w = (Inr (status, body), w') \<Longrightarrow> status = 201 \<and> (\<exists>c. body = claim_body c)"
  by (auto simp: claim_call_def andThen_Inr ret_iff)

locale replay_calls = evolution +
  \<comment> \<open>the answers of the claims are among those a record may be stored with\<close>
  fixes storable :: "int \<Rightarrow> string \<Rightarrow> bool"
  assumes stores: "storable (idem_ResponseStatus r) (idem_ResponseBody r) \<Longrightarrow> keeps (SaveIdempotencyRecord r)"
    and claim_answers: "storable 201 (claim_body c)"
begin

lemma keeps_Execute:
  assumes "keeps fn" "\<And>w status body w'. fn w = (Inr (status, body), w') \<Longrightarrow> storable status body"
  shows "keeps (Execute s fn)"
proof -
  have found: "keeps (find_scope s)" for s by (intro keeps_reads idempotency_reads)
  have saved: "storable status body \<Longrightarrow> keeps (SaveIdempotencyRecord (new_record s status body now))" for status body now
    by (rule stores) (simp add: new_record_def)
  have "keeps (run_and_store s fn)"
    unfolding run_and_store_def
    by (rule keeps_known_pair [OF assms(1)]) (intro keeps_intro found saved, erule assms(2))
  then show ?thesis
    unfolding Execute_def replay_stored_def split_beta by (intro keeps_intro found assms(1))
qed

end

section \<open>Requests and rounds\<close>

lemma probe_reads: "reads Ping" "reads SchemaVersion"
  unfolding Ping_def SchemaVersion_def by (intro reads_intro)+

context evolution begin

lemma keeps_prod [keeps_intro]: "(\<And>x y. keeps (f x y)) \<Longrightarrow> keeps (case p of (x, y) \<Rightarrow> f x y)"
  by (cases p) simp

lemma keeps_answer [keeps_intro]: "keeps m \<Longrightarrow> keeps (answer m shown)"
  unfolding answer_def by (intro keeps_intro)

end

locale use_cases = queue_calls + replay_calls +
  \<comment> \<open>a relation that every use case of the services moves along\<close>
  assumes accounts: "keeps (Login ttl entropy email password ua)" "keeps (Authenticate token)"
      "keeps (Logout actor)" "keeps (SweepExpiredSessions limit)"
    and papers: "keeps (Submit actor inp)" "keeps (Decide actor dinp)"
    and seats: "keeps (Claim k actor st sec)" "keeps (BatchClaim k actor st secs)"
      "keeps (Drop actor i reason)" "keeps (PromoteWaitlist i)"
begin

lemma keeps_services [keeps_intro]:
  "keeps (Login ttl entropy email password ua)" "keeps (Authenticate token)" "keeps (Logout actor)"
  "keeps (Submit actor inp)" "keeps (Decide actor dinp)" "keeps (Claim k actor st sec)"
  "keeps (BatchClaim k actor st secs)" "keeps (Drop actor i reason)"
  by (rule accounts papers seats)+

lemma keeps_views [keeps_intro]:
  "keeps Ping" "keeps SchemaVersion" "keeps (ActiveSessionCount actor)" "keeps (List_terms actor)" "keeps CurrentTerm"
  "keeps (List_sections sf)" "keeps (Get_section i)" "keeps (SectionRoster actor i pg)" "keeps (List_audit_events actor af)"
  "keeps (Get_registration actor st i)" "keeps (List_registrations actor i rs pg)" "keeps (List_enrollments actor ef)"
  "keeps (Get_enrollment actor i)"
  by (rule keeps_reads, (rule probe_reads catalog_service_reads paperwork_reads service_reads
      | unfold ActiveSessionCount_def, intro reads_intro))+

lemma keeps_claim_execute [keeps_intro]: "keeps (Execute s (claim_call srv actor st sec))"
proof (rule keeps_Execute)
  show "keeps (claim_call srv actor st sec)" unfolding claim_call_def by (intro keeps_intro)
qed (auto dest: claim_call_body simp: claim_answers)

lemma keeps_open_routes [keeps_intro]:
  "keeps (handleLogin srv r)" "keeps handleLiveness" "keeps (handleReadiness srv)"
  unfolding handleLogin_def handleLiveness_def handleReadiness_def by (intro keeps_intro)+

lemma keeps_guarded_routes [keeps_intro]:
  "keeps (handleLogout srv r actor)" "keeps (handleProfile srv r actor)" "keeps (handleListTerms srv r actor)"
  "keeps (handleListSections srv r actor)" "keeps (handleGetSection srv r actor)"
  "keeps (handleSectionRoster srv r actor)" "keeps (handleSubmitRegistration srv r actor)"
  "keeps (handleListRegistrations srv r actor)" "keeps (handleMyRegistration srv r actor)"
  "keeps (handleDecideRegistration srv r actor)" "keeps (handleClaimEnrollment srv r actor)"
  "keeps (handleBatchClaim srv r actor)" "keeps (handleListEnrollments srv r actor)"
  "keeps (handleGetEnrollment srv r actor)" "keeps (handleDropEnrollment srv r actor)"
  "keeps (handleListAuditEvents srv r actor)"
  unfolding handleLogout_def handleProfile_def handleListTerms_def
    handleListSections_def handleGetSection_def handleSectionRoster_def handleSubmitRegistration_def
    handleListRegistrations_def handleMyRegistration_def handleDecideRegistration_def
    handleClaimEnrollment_def handleBatchClaim_def handleListEnrollments_def handleGetEnrollment_def
    handleDropEnrollment_def handleListAuditEvents_def
  by (intro keeps_intro)+

lemma keeps_authenticated:
  assumes "\<And>actor. keeps (h srv r actor)"
  shows "keeps (authenticated h srv r)"
  unfolding authenticated_def by (intro keeps_intro assms)

lemma keeps_route:
  assumes "(m, ps, rt) \<in> set Routes"
  shows "keeps (run_route rt srv r)"
  using assms
  by (auto simp: Routes_def run_route_def intro: keeps_open_routes keeps_guarded_routes intro!: keeps_authenticated)

lemma keeps_dispatch:
  assumes "dispatch srv path r = Some h"
  shows "keeps h"
proof -
  obtain rt vals r' where found: "find_route Routes (if hr_Method r = ''HEAD'' then ''GET'' else hr_Method r) path
      = Some (rt, vals)" and h: "h = run_route rt srv r'"
    using assms by (auto simp: dispatch_def split: option.splits prod.splits)
  obtain ps where "((if hr_Method r = ''HEAD'' then ''GET'' else hr_Method r), ps, rt) \<in> set Routes"
    using find_route_Some [OF found] by blast
  then show ?thesis unfolding h by (rule keeps_route)
qed

lemma keeps_with_id: "keeps h \<Longrightarrow> keeps (with_id rid h)"
  unfolding with_id_def
  by (rule keepsI) (force dest: keeps_result split: prod.splits)

lemma keeps_RequestID: "keeps h \<Longrightarrow> keeps (RequestID entropy r h)"
  unfolding RequestID_def Let_def by (intro keeps_intro keeps_with_id)

lemma keeps_app_worker:
  "keeps (RunOnce (app_worker msg cfg))" "keeps (drain fuel (app_worker msg cfg))"
  "keeps (poll fuel n (app_worker msg cfg))" "keeps (Run fuel n (app_worker msg cfg))"
  by (rule keeps_rounds, erule keeps_app_handlers [rotated 2]; intro seats accounts)+

end

locale repositories = session_calls + seat_calls + paper_calls + queue_calls + replay_calls
  \<comment> \<open>a relation that every call of a repository moves along\<close>

sublocale repositories \<subseteq> use_cases
  by unfold_locales
    (intro keeps_accounts keeps_paperwork keeps_Claim keeps_BatchClaim keeps_Drop keeps_queue keeps_promote)+

end
