(* ===== verification/Middleware.thy ===== *)
theory Middleware
  imports Startup HttpProperties
begin

text \<open>
  The layers around every route (\<open>internal/middleware/middleware.go\<close>): the chain, the request identifier, the recovery of panics, the access
  log and the request budget. A handler acts on the wire (what the response writer of \<open>net/http\<close> has taken so
  far, with the recorders wrapped around it and the records logged) and either returns or panics. Contexts
  are values: what a layer puts into the context is gone when it returns.
\<close>

section \<open>The wire\<close>

record recorder =
  \<comment> \<open>\<open>statusRecorder\<close> without the writer it wraps\<close>
  rcd_Status :: int
  rcd_Bytes :: int

datatype log_record =
    AccessLogged string string string int int duration
    \<comment> \<open>request id, method, path, status, bytes, duration\<close>
  | PanicLogged string string string
    \<comment> \<open>request id, panic, path\<close>

record wire =
  wir_Headers :: "(string \<times> string) list"
  wir_Sent :: "(int \<times> (string \<times> string) list) option"
  wir_Body :: string
  wir_Recorders :: "recorder list"
  wir_Log :: "log_record list"
    \<comment> \<open>the records handed to the logger, in order; it writes those at or above the level of \<open>APP_LOG_LEVEL\<close>\<close>

definition fresh_wire :: wire where
  "fresh_wire = \<lparr>wir_Headers = [], wir_Sent = None, wir_Body = [], wir_Recorders = [], wir_Log = []\<rparr>"

datatype handler_end = Returned | Panicked string

type_synonym wire_handler = "http_request \<Rightarrow> wire \<Rightarrow> world \<Rightarrow> handler_end \<times> wire \<times> world"

definition set_header :: "string \<Rightarrow> string \<Rightarrow> wire \<Rightarrow> wire" where
  "set_header k v wi = wi\<lparr>wir_Headers := filter (\<lambda>(k', _). k' \<noteq> k) (wir_Headers wi) @ [(k, v)]\<rparr>"

definition recorder_WriteHeader :: "int \<Rightarrow> recorder \<Rightarrow> recorder" where
  "recorder_WriteHeader status s = (if rcd_Status s = 0 then s\<lparr>rcd_Status := status\<rparr> else s)"

definition recorder_Write :: "int \<Rightarrow> recorder \<Rightarrow> recorder" where
  "recorder_Write n s = (if rcd_Status s = 0 then s\<lparr>rcd_Status := 200\<rparr> else s)\<lparr>rcd_Bytes := rcd_Bytes s + n\<rparr>"

definition send_header :: "int \<Rightarrow> wire \<Rightarrow> wire" where
  \<comment> \<open>\<open>net/http\<close>: the first status wins, and the headers set so far go with it\<close>
  "send_header status wi = (case wir_Sent wi of
     None \<Rightarrow> wi\<lparr>wir_Sent := Some (status, wir_Headers wi)\<rparr> | Some _ \<Rightarrow> wi)"

definition body_allowed :: "int \<Rightarrow> bool" where
  "body_allowed status \<longleftrightarrow> \<not> (100 \<le> status \<and> status \<le> 199) \<and> status \<noteq> 204 \<and> status \<noteq> 304"

definition write_header :: "int \<Rightarrow> wire \<Rightarrow> wire" where
  \<comment> \<open>\<open>WriteHeader\<close> through every recorder around the writer\<close>
  "write_header status wi =
     send_header status (wi\<lparr>wir_Recorders := map (recorder_WriteHeader status) (wir_Recorders wi)\<rparr>)"

definition write_body :: "string \<Rightarrow> wire \<Rightarrow> wire" where
  \<comment> \<open>\<open>Write\<close> through every recorder; a status without a body takes no byte\<close>
  "write_body b wi =
     (let sent = send_header 200 wi;
          taken = (case wir_Sent sent of Some (status, _) \<Rightarrow> if body_allowed status then b else [] | None \<Rightarrow> [])
      in sent\<lparr>wir_Body := wir_Body sent @ taken,
           wir_Recorders := map (recorder_Write (int (length taken))) (wir_Recorders sent)\<rparr>)"

definition write_response :: "http_response \<Rightarrow> wire \<Rightarrow> wire" where
  \<comment> \<open>what a handler does with its answer: its headers, its status and, unless it is empty, its body\<close>
  "write_response rsp wi =
     (let headed = write_header (rsp_Status rsp) (fold (\<lambda>(k, v). set_header k v) (rsp_Headers rsp) wi)
      in if rsp_Body rsp = [] then headed else write_body (rsp_Body rsp) headed)"

section \<open>The layers\<close>

type_synonym layer = "wire_handler \<Rightarrow> wire_handler"

definition Chain :: "wire_handler \<Rightarrow> layer list \<Rightarrow> wire_handler" where
  "Chain h layers = foldr (\<lambda>m next_handler. m next_handler) layers h"

definition in_context_of :: "world \<Rightarrow> world \<Rightarrow> world" where
  \<comment> \<open>back in the context a layer was called with\<close>
  "in_context_of outer w = w\<lparr>w_request_id := w_request_id outer, w_done := w_done outer\<rparr>"

definition identified :: "string \<Rightarrow> wire_handler \<Rightarrow> wire_handler" where
  "identified rid next_handler r wi w =
     (case next_handler r (set_header ''X-Request-Id'' rid wi) (WithRequestID rid w) of
        (e, wi', w') \<Rightarrow> (e, wi', in_context_of w w'))"

definition RequestID_layer :: "err + string \<Rightarrow> layer" where
  "RequestID_layer entropy next_handler r wi w =
     (let given = hr_Header r ''X-Request-Id'' in
      if validRequestID given then identified given next_handler r wi w
      else case NewRequestID entropy of
        Inl _ \<Rightarrow> (Returned, write_response (WriteCodedError (w_request_id w) ''internal_error''
          ''Could not allocate a request identifier.'') wi, w)
      | Inr generated \<Rightarrow> identified generated next_handler r wi w)"

definition Recover :: layer where
  "Recover next_handler r wi w =
     (case next_handler r wi w of
        (Returned, wi', w') \<Rightarrow> (Returned, wi', w')
      | (Panicked p, wi', w') \<Rightarrow>
          (Returned, write_response (WriteCodedError (w_request_id w) ''internal_error''
             ''The request could not be completed because of an internal error.'')
             (wi'\<lparr>wir_Recorders := wir_Recorders wi, wir_Log := wir_Log wi' @ [PanicLogged (w_request_id w) p (hr_Path r)]\<rparr>),
           in_context_of w w'))"

definition access_record :: "http_request \<Rightarrow> string \<Rightarrow> recorder \<Rightarrow> duration \<Rightarrow> log_record" where
  "access_record r rid s took = AccessLogged rid (hr_Method r) (hr_Path r)
     (if rcd_Status s = 0 then 200 else rcd_Status s) (rcd_Bytes s) took"

definition AccessLog :: layer where
  "AccessLog next_handler r wi w =
     (let started = w_clock w (w_tick w) in
      case next_handler r (wi\<lparr>wir_Recorders := \<lparr>rcd_Status = 0, rcd_Bytes = 0\<rparr> # wir_Recorders wi\<rparr>) (tick w) of
        (Panicked p, wi', w') \<Rightarrow> (Panicked p, wi'\<lparr>wir_Recorders := drop 1 (wir_Recorders wi')\<rparr>, w')
      | (Returned, wi', w') \<Rightarrow> (Returned,
          (case wir_Recorders wi' of
             [] \<Rightarrow> wi'
           | s # outer \<Rightarrow> wi'\<lparr>wir_Recorders := outer,
               wir_Log := wir_Log wi' @ [access_record r (w_request_id w) s (w_clock w' (w_tick w') - started)]\<rparr>),
          tick w'))"

definition with_timeout :: "duration \<Rightarrow> world \<Rightarrow> world" where
  \<comment> \<open>\<open>context.WithTimeout\<close>: done once the clock has reached the deadline, or with the context around it\<close>
  "with_timeout budget w =
     (let deadline = w_clock w (w_tick w) + budget in
      (tick w)\<lparr>w_done := (\<lambda>n. case w_done w n of Some e \<Rightarrow> Some e
        | None \<Rightarrow> if list_ex (\<lambda>k. deadline \<le> w_clock w k) [w_tick w..<Suc n] then Some DeadlineExceeded else None)\<rparr>)"

definition Timeout :: "duration \<Rightarrow> layer" where
  "Timeout budget next_handler =
     (if budget \<le> 0 then next_handler
      else (\<lambda>r wi w. case next_handler r wi (with_timeout budget w) of (e, wi', w') \<Rightarrow> (e, wi', in_context_of w w')))"

section \<open>The handler of the process\<close>

definition mux :: "(http_request \<Rightarrow> http_response) \<Rightarrow> server \<Rightarrow> string list \<Rightarrow> wire_handler" where
  \<comment> \<open>\<open>unrouted\<close> is what \<open>net/http\<close> answers when no pattern matches\<close>
  "mux unrouted srv path r wi w =
     (case dispatch srv path r of
        None \<Rightarrow> (Returned, write_response (unrouted r) wi, w)
      | Some h \<Rightarrow> (case h w of
          (Inr rsp, w') \<Rightarrow> (Returned, write_response rsp wi, w')
        | (Inl e, w') \<Rightarrow> (Panicked (error_text e), wi, w')))"

definition layers :: "err + string \<Rightarrow> duration \<Rightarrow> layer list" where
  "layers entropy budget = [RequestID_layer entropy, Recover, AccessLog, Timeout budget]"

definition app_handler :: "(http_request \<Rightarrow> http_response) \<Rightarrow> err + string \<Rightarrow> app \<Rightarrow> string list \<Rightarrow> wire_handler" where
  "app_handler unrouted entropy a path =
     Chain (mux unrouted (app_Server a) path) (layers entropy (cfg_RequestTimeout (app_Config a)))"

end
