(* ===== verification/MiddlewareProperties.thy ===== *)
theory MiddlewareProperties
  imports Middleware Samples ConfigProperties
begin

text \<open>
  What the layers promise for any handler, whatever it writes and wherever it panics, and that the handler of
  the process puts on the wire what the router answers.
\<close>

section \<open>Handlers as actions on the writer\<close>

datatype writer_action = SetHeader string string | SendStatus int | SendBody string

fun act :: "writer_action \<Rightarrow> wire \<Rightarrow> wire" where
  "act (SetHeader k v) = set_header k v"
| "act (SendStatus s) = write_header s"
| "act (SendBody b) = write_body b"

type_synonym base_handler = "http_request \<Rightarrow> world \<Rightarrow> handler_end \<times> writer_action list \<times> world"

definition acting :: "base_handler \<Rightarrow> wire_handler" where
  "acting h r wi w = (case h r w of (e, acts, w') \<Rightarrow> (e, fold act acts wi, w'))"

fun polite :: "writer_action \<Rightarrow> bool" where
  \<comment> \<open>leaves the identifier alone and sends statuses \<open>net/http\<close> accepts\<close>
  "polite (SetHeader k v) = (k \<noteq> ''X-Request-Id'')"
| "polite (SendStatus s) = (100 \<le> s)"
| "polite (SendBody b) = True"


lemma act_log [simp]: "wir_Log (act a wi) = wir_Log wi" "wir_Log (fold act acts wi) = wir_Log wi"
proof -
  show one: "wir_Log (act a wi) = wir_Log wi" for a wi
    by (cases a) (auto simp: set_header_def write_header_def write_body_def send_header_def Let_def split: option.split)
  show "wir_Log (fold act acts wi) = wir_Log wi" by (induction acts arbitrary: wi) (simp_all add: one)
qed

lemma write_response_acts:
  "write_response rsp = fold act (map (\<lambda>(k, v). SetHeader k v) (rsp_Headers rsp) @ SendStatus (rsp_Status rsp)
     # (if rsp_Body rsp = [] then [] else [SendBody (rsp_Body rsp)]))"
proof -
  have "fold act (map (\<lambda>(k, v). SetHeader k v) hs) = fold (\<lambda>(k, v). set_header k v) hs" for hs
    by (induction hs) auto
  then show ?thesis by (auto simp: write_response_def fun_eq_iff Let_def)
qed

lemma write_response_log [simp]: "wir_Log (write_response rsp wi) = wir_Log wi"
  by (simp only: write_response_acts act_log)

section \<open>What is on the wire\<close>

definition received :: "wire \<Rightarrow> int \<times> (string \<times> string) list" where
  \<comment> \<open>the status line and the headers the client gets in the end\<close>
  "received wi = (case wir_Sent wi of Some sent \<Rightarrow> sent | None \<Rightarrow> (200, wir_Headers wi))"

definition carries :: "string \<Rightarrow> wire \<Rightarrow> bool" where
  \<comment> \<open>the identifier is among the headers, sent or not yet sent\<close>
  "carries rid wi \<longleftrightarrow> (''X-Request-Id'', rid) \<in> set (wir_Headers wi)
     \<and> (case wir_Sent wi of None \<Rightarrow> True | Some (_, hs) \<Rightarrow> (''X-Request-Id'', rid) \<in> set hs)"




definition tracks :: "recorder list \<Rightarrow> wire \<Rightarrow> bool" where
  \<comment> \<open>the innermost recorder knows what was sent\<close>
  "tracks outer wi \<longleftrightarrow> (\<exists>s. wir_Recorders wi = s # outer \<and> rcd_Bytes s = int (length (wir_Body wi))
     \<and> (case wir_Sent wi of None \<Rightarrow> rcd_Status s = 0 | Some (status, _) \<Rightarrow> rcd_Status s = status \<and> status \<noteq> 0))"

lemma tracks_act: "tracks [] wi \<Longrightarrow> polite a \<Longrightarrow> tracks [] (act a wi)"
  by (cases a) (auto simp: tracks_def set_header_def write_header_def write_body_def send_header_def Let_def
      recorder_WriteHeader_def recorder_Write_def split: option.splits)

lemma tracks_acts: "tracks [] wi \<Longrightarrow> list_all polite acts \<Longrightarrow> tracks [] (fold act acts wi)"
  by (induction acts arbitrary: wi) (auto dest: tracks_act)


section \<open>The chain\<close>

definition request_id_of :: "err + string \<Rightarrow> http_request \<Rightarrow> string option" where
  \<comment> \<open>the identifier of a request; without a usable one the random source has to give it\<close>
  "request_id_of entropy r = (let given = hr_Header r ''X-Request-Id'' in
     if validRequestID given then Some given
     else case NewRequestID entropy of Inl _ \<Rightarrow> None | Inr generated \<Rightarrow> Some generated)"

definition budgeted :: "duration \<Rightarrow> world \<Rightarrow> world" where
  "budgeted budget w = (if budget \<le> 0 then w else with_timeout budget w)"

definition handler_world :: "string \<Rightarrow> duration \<Rightarrow> world \<Rightarrow> world" where
  \<comment> \<open>what the handler below the layers meets\<close>
  "handler_world rid budget w = budgeted budget (tick (WithRequestID rid w))"

lemma in_context_simps [simp]:
  "tb (in_context_of w w') = tb w'" "w_request_id (in_context_of w w') = w_request_id w"
  "w_done (in_context_of w w') = w_done w" "w_clock (in_context_of w w') = w_clock w'"
  "w_tick (in_context_of w w') = w_tick w'" "tick (in_context_of w w') = in_context_of w (tick w')"
  "in_context_of u (in_context_of v w') = in_context_of u w'"
  by (simp_all add: in_context_of_def tick_def)

lemma Timeout_run:
  "Timeout budget next_handler r wi w = (case next_handler r wi (budgeted budget w) of
     (e, wi', w') \<Rightarrow> (e, wi', if budget \<le> 0 then w' else in_context_of w w'))"
  by (auto simp: Timeout_def budgeted_def split: prod.splits)

lemma request_id_nonempty: "request_id_of entropy r = Some rid \<Longrightarrow> rid \<noteq> []"
  by (cases entropy) (auto simp: request_id_of_def validRequestID_def NewRequestID_def Let_def split: if_splits)

definition opened :: "string \<Rightarrow> wire" where
  "opened rid = (set_header ''X-Request-Id'' rid fresh_wire)\<lparr>wir_Recorders := [\<lparr>rcd_Status = 0, rcd_Bytes = 0\<rparr>]\<rparr>"

lemma opened_facts: "carries rid (opened rid)" "tracks [] (opened rid)" "wir_Log (opened rid) = []" "wir_Sent (opened rid) = None"
  "wir_Body (opened rid) = []"
  by (simp_all add: opened_def carries_def tracks_def set_header_def fresh_wire_def)

definition panic_response :: "string \<Rightarrow> http_response" where
  "panic_response rid = WriteCodedError rid ''internal_error''
     ''The request could not be completed because of an internal error.''"

lemma panic_response_facts:
  "rsp_Status (panic_response rid) = 500"
  "rsp_Headers (panic_response rid) = [(''Content-Type'', ''application/json; charset=utf-8''), (''X-Content-Type-Options'', ''nosniff'')]"
  "rsp_Body (panic_response rid) \<noteq> []"
  by (simp_all add: panic_response_def WriteCodedError_def WriteJSON_def json_headers_def Encode_def)
    (code_simp)

lemma chain_run:
  assumes "request_id_of entropy r = Some rid" "h r (handler_world rid budget w) = (e, acts, w1)"
    and "list_all polite acts"
  shows "\<exists>wi w'. Chain (acting h) (layers entropy budget) r fresh_wire w = (Returned, wi, w')
    \<and> tb w' = tb w1 \<and> w_request_id w' = w_request_id w \<and> w_done w' = w_done w
    \<and> (case e of
        Returned \<Rightarrow> wir_Sent wi = wir_Sent (fold act acts (opened rid)) \<and> wir_Headers wi = wir_Headers (fold act acts (opened rid))
          \<and> wir_Body wi = wir_Body (fold act acts (opened rid))
          \<and> (\<exists>d. wir_Log wi = [AccessLogged rid (hr_Method r) (hr_Path r) (fst (received wi)) (int (length (wir_Body wi))) d])
      | Panicked p \<Rightarrow> wi = write_response (panic_response rid)
          ((fold act acts (opened rid))\<lparr>wir_Recorders := [], wir_Log := [PanicLogged rid p (hr_Path r)]\<rparr>))"
proof -
  have "rid \<noteq> []" using request_id_nonempty [OF assms(1)] .
  have outer: "RequestID_layer entropy next_handler r wi w = identified rid next_handler r wi w" for next_handler wi
    using assms(1) by (auto simp: request_id_of_def RequestID_layer_def Let_def split: if_splits sum.splits)
  obtain s where s: "wir_Recorders (fold act acts (opened rid)) = [s]"
      "rcd_Bytes s = int (length (wir_Body (fold act acts (opened rid))))"
      "case wir_Sent (fold act acts (opened rid)) of None \<Rightarrow> rcd_Status s = 0 | Some (status, _) \<Rightarrow> rcd_Status s = status \<and> status \<noteq> 0"
    using tracks_acts [OF opened_facts(2) assms(3)] by (auto simp: tracks_def)
  have inner: "acting h r (opened rid) (budgeted budget (tick (WithRequestID rid w))) = (e, fold act acts (opened rid), w1)"
    using assms(2) by (simp add: acting_def handler_world_def)
  have entry: "(set_header ''X-Request-Id'' rid fresh_wire)\<lparr>wir_Recorders := [\<lparr>rcd_Status = 0, rcd_Bytes = 0\<rparr>]\<rparr> = opened rid"
    by (simp add: opened_def)
  have recs: "wir_Recorders (set_header ''X-Request-Id'' rid fresh_wire) = []" "w_request_id (WithRequestID rid w) = rid"
    using \<open>rid \<noteq> []\<close> by (simp_all add: set_header_def fresh_wire_def WithRequestID_def)
  note steps = Chain_def layers_def outer identified_def Recover_def AccessLog_def Timeout_run entry inner recs
  show ?thesis
  proof (cases e)
    case Returned
    let ?d = "w_clock w1 (w_tick w1) - w_clock (WithRequestID rid w) (w_tick (WithRequestID rid w))"
    have "Chain (acting h) (layers entropy budget) r fresh_wire w = (Returned, (fold act acts (opened rid))
        \<lparr>wir_Recorders := [], wir_Log := [access_record r rid s ?d]\<rparr>, in_context_of w (tick w1))"
      using Returned s(1) opened_facts(3) by (simp add: steps Let_def)
    then show ?thesis
      using Returned s(2,3) by (auto simp: access_record_def received_def split: option.splits)
  next
    case (Panicked p)
    have "Chain (acting h) (layers entropy budget) r fresh_wire w = (Returned, write_response (panic_response rid)
        ((fold act acts (opened rid))\<lparr>wir_Recorders := [], wir_Log := [PanicLogged rid p (hr_Path r)]\<rparr>), in_context_of w w1)"
      using Panicked opened_facts(3) by (simp add: steps panic_response_def Let_def)
    then show ?thesis using Panicked by simp
  qed
qed


lemma late_panic_keeps_status:
  \<comment> \<open>a panic after the answer was sent: the first status stays, and the envelope follows the first body\<close>
  assumes "request_id_of entropy r = Some rid" "h r (handler_world rid budget w) = (Panicked p, [SendStatus 200, SendBody b], w1)"
  shows "\<exists>wi w'. Chain (acting h) (layers entropy budget) r fresh_wire w = (Returned, wi, w')
    \<and> fst (received wi) = 200 \<and> wir_Body wi = b @ rsp_Body (panic_response rid)"
proof -
  have wire: "fst (received (write_response (panic_response rid) (fold act [SendStatus 200, SendBody b] (opened rid)
        \<lparr>wir_Recorders := [], wir_Log := l\<rparr>))) = 200"
    "wir_Body (write_response (panic_response rid) (fold act [SendStatus 200, SendBody b] (opened rid)
        \<lparr>wir_Recorders := [], wir_Log := l\<rparr>)) = b @ rsp_Body (panic_response rid)" for l
    using opened_facts(4,5)
    by (simp_all add: write_response_def write_body_def write_header_def send_header_def panic_response_facts received_def
        set_header_def body_allowed_def Let_def)
  show ?thesis using chain_run [where h = h, OF assms] wire by fastforce
qed

definition probe_request :: http_request where
  "probe_request = \<lparr>hr_Method = ''GET'', hr_Path = ''/healthz'', hr_PathValue = (\<lambda>_. []), hr_Query = [],
     hr_Header = (\<lambda>k. if k = ''X-Request-Id'' then ''trace-77'' else []), hr_Body = []\<rparr>"

lemma probe_id: "request_id_of (Inl (Plain ''EOF'')) probe_request = Some ''trace-77''"
  by (simp add: request_id_of_def probe_request_def validRequestID_def is_digit_def) 



section \<open>The router behind the layers\<close>

definition response_acts :: "http_response \<Rightarrow> writer_action list" where
  "response_acts rsp = map (\<lambda>(k, v). SetHeader k v) (rsp_Headers rsp) @ SendStatus (rsp_Status rsp)
     # (if rsp_Body rsp = [] then [] else [SendBody (rsp_Body rsp)])"

definition routed :: "(http_request \<Rightarrow> http_response) \<Rightarrow> server \<Rightarrow> string list \<Rightarrow> base_handler" where
  "routed unrouted srv path r w =
     (case dispatch srv path r of
        None \<Rightarrow> (Returned, response_acts (unrouted r), w)
      | Some h \<Rightarrow> (case h w of
          (Inr rsp, w') \<Rightarrow> (Returned, response_acts rsp, w')
        | (Inl e, w') \<Rightarrow> (Panicked (error_text e), [], w')))"

lemma mux_acting: "mux unrouted srv path = acting (routed unrouted srv path)"
  by (auto simp: fun_eq_iff mux_def acting_def routed_def write_response_acts response_acts_def split: option.splits prod.splits sum.splits)

definition plain_headers :: "(string \<times> string) list \<Rightarrow> bool" where
  "plain_headers hs \<longleftrightarrow> distinct (map fst hs) \<and> ''X-Request-Id'' \<notin> fst ` set hs"

definition well_headed :: "http_response op \<Rightarrow> bool" where
  "well_headed h \<longleftrightarrow> (\<forall>w rsp w'. h w = (Inr rsp, w') \<longrightarrow> plain_headers (rsp_Headers rsp))"

lemma json_plain [simp]: "plain_headers json_headers" "plain_headers ((''Idempotent-Replay'', ''true'') # json_headers)"
  by (simp_all add: plain_headers_def json_headers_def)

lemma response_headers [simp]:
  "rsp_Headers (WriteJSON status payload) = json_headers" "rsp_Headers (error_response rid e) = json_headers"
  "rsp_Headers (WriteCodedError rid code message) = json_headers"
  "rsp_Headers (WriteRawJSON earlier status body) = earlier @ json_headers"
  by (simp_all add: WriteJSON_def error_response_def WriteCodedError_def WriteRawJSON_def split: prod.split)

lemma well_headed_answer: "(\<And>x. plain_headers (rsp_Headers (shown x))) \<Longrightarrow> well_headed (answer m shown)"
  by (auto simp: well_headed_def answer_run split: prod.splits sum.splits)

lemma well_headed_handlers:
  "well_headed (handleLogin srv r)" "well_headed (handleLogout srv r actor)" "well_headed (handleProfile srv r actor)"
  "well_headed (handleListTerms srv r actor)" "well_headed (handleListSections srv r actor)"
  "well_headed (handleGetSection srv r actor)" "well_headed (handleSectionRoster srv r actor)"
  "well_headed (handleSubmitRegistration srv r actor)" "well_headed (handleListRegistrations srv r actor)"
  "well_headed (handleMyRegistration srv r actor)" "well_headed (handleDecideRegistration srv r actor)"
  "well_headed (handleClaimEnrollment srv r actor)" "well_headed (handleBatchClaim srv r actor)"
  "well_headed (handleListEnrollments srv r actor)" "well_headed (handleGetEnrollment srv r actor)"
  "well_headed (handleDropEnrollment srv r actor)" "well_headed (handleListAuditEvents srv r actor)"
  unfolding handleLogin_def handleLogout_def handleProfile_def handleListTerms_def handleListSections_def
    handleGetSection_def handleSectionRoster_def handleSubmitRegistration_def handleListRegistrations_def
    handleMyRegistration_def handleDecideRegistration_def handleClaimEnrollment_def handleBatchClaim_def
    handleListEnrollments_def handleGetEnrollment_def handleDropEnrollment_def handleListAuditEvents_def
  by (rule well_headed_answer; simp add: list_response_def batch_response_def)+

lemma well_headed_probes: "well_headed handleLiveness" "well_headed (handleReadiness srv)"
  by (auto simp: well_headed_def handleLiveness_def handleReadiness_def andThen_def attempt_def get_request_id_def
      ret_def split: prod.splits sum.splits if_splits)

lemma well_headed_authenticated: "(\<And>actor. well_headed (h srv r actor)) \<Longrightarrow> well_headed (authenticated h srv r)"
  by (auto simp: well_headed_def authenticated_run split: prod.splits sum.splits)

lemma well_headed_dispatch:
  assumes "dispatch srv path r = Some h"
  shows "well_headed h"
proof -
  obtain rt vals r' where found: "find_route Routes (if hr_Method r = ''HEAD'' then ''GET'' else hr_Method r) path = Some (rt, vals)"
    and h: "h = run_route rt srv r'"
    using assms by (rule dispatch_Some)
  obtain m ps where "(m, ps, rt) \<in> set Routes" using find_route_Some [OF found] by blast
  then show ?thesis unfolding h
    by (auto simp: Routes_def run_route_def intro: well_headed_handlers well_headed_probes intro!: well_headed_authenticated)
qed

lemma fold_headers:
  assumes "distinct (map fst (wir_Headers wi @ hs))"
  shows "fold act (map (\<lambda>(k, v). SetHeader k v) hs) wi = wi\<lparr>wir_Headers := wir_Headers wi @ hs\<rparr>"
  using assms
proof (induction hs arbitrary: wi)
  case (Cons kv hs)
  obtain k v where kv: "kv = (k, v)" by fastforce
  have "filter (\<lambda>(k', _). k' \<noteq> k) (wir_Headers wi) = wir_Headers wi"
    using Cons.prems by (intro filter_True) (force simp: kv)
  then have "act (SetHeader k v) wi = wi\<lparr>wir_Headers := wir_Headers wi @ [(k, v)]\<rparr>" by (simp add: set_header_def)
  then show ?case using Cons by (simp add: kv)
qed simp

definition sendable :: "http_response \<Rightarrow> bool" where
  \<comment> \<open>a status \<open>net/http\<close> sends, with a body only where it has one\<close>
  "sendable rsp \<longleftrightarrow> 100 \<le> rsp_Status rsp \<and> (body_allowed (rsp_Status rsp) \<or> rsp_Body rsp = [])"

lemma response_on_wire:
  assumes "plain_headers (rsp_Headers rsp)" "sendable rsp"
  shows "wir_Sent (fold act (response_acts rsp) (opened rid)) = Some (rsp_Status rsp, (''X-Request-Id'', rid) # rsp_Headers rsp)"
    "wir_Body (fold act (response_acts rsp) (opened rid)) = rsp_Body rsp" "list_all polite (response_acts rsp)"
proof -
  have opened: "wir_Headers (opened rid) = [(''X-Request-Id'', rid)]" "wir_Sent (opened rid) = None" "wir_Body (opened rid) = []"
    by (simp_all add: opened_def set_header_def fresh_wire_def)
  have headed: "fold act (map (\<lambda>(k, v). SetHeader k v) (rsp_Headers rsp)) (opened rid)
      = (opened rid)\<lparr>wir_Headers := (''X-Request-Id'', rid) # rsp_Headers rsp\<rparr>"
    using fold_headers [of "opened rid" "rsp_Headers rsp"] assms(1) opened(1) by (simp add: plain_headers_def)
  show "wir_Sent (fold act (response_acts rsp) (opened rid)) = Some (rsp_Status rsp, (''X-Request-Id'', rid) # rsp_Headers rsp)"
    "wir_Body (fold act (response_acts rsp) (opened rid)) = rsp_Body rsp"
    using assms(2) opened
    by (auto simp: response_acts_def headed write_header_def write_body_def send_header_def sendable_def Let_def)
  show "list_all polite (response_acts rsp)"
    using assms by (force simp: response_acts_def list_all_iff plain_headers_def sendable_def)
qed

lemma handler_world_id:
  assumes "rid \<noteq> []"
  shows "handler_world rid budget w = (budgeted budget (tick w))\<lparr>w_request_id := rid\<rparr>"
  using assms by (simp add: handler_world_def budgeted_def with_timeout_def WithRequestID_def tick_def Let_def cong: option.case_cong)

text \<open>C35: the handler of the process puts on the wire what the router answers. For a routed request the layers add the
  identifier and the deadline and nothing else: status, headers and body are those of the routed handler run under
  the request budget, the database is left as it leaves it, and the access log has their status and size.\<close>

theorem handler_serves:
  assumes "serve entropy a path r = Some s" "request_id_of entropy r = Some rid"
    and "s (budgeted (cfg_RequestTimeout (app_Config a)) (tick w)) = (Inr rsp, w1)" "sendable rsp"
  shows "\<exists>wi w' d. app_handler unrouted entropy a path r fresh_wire w = (Returned, wi, w')
    \<and> wir_Sent wi = Some (rsp_Status rsp, rsp_Headers rsp) \<and> wir_Body wi = rsp_Body rsp \<and> tb w' = tb w1
    \<and> wir_Log wi = [AccessLogged rid (hr_Method r) (hr_Path r) (rsp_Status rsp) (int (length (rsp_Body rsp))) d]"
proof -
  let ?b = "cfg_RequestTimeout (app_Config a)" and ?h = "routed unrouted (app_Server a) path"
  obtain h where h: "dispatch (app_Server a) path r = Some h" "s = RequestID entropy r h"
    using assms(1) by (auto simp: serve_def)
  have rid: "rid \<noteq> []" by (rule request_id_nonempty [OF assms(2)])
  have "s = with_id rid h"
    using assms(2) by (auto simp: h(2) RequestID_def request_id_of_def Let_def split: if_splits sum.splits)
  then obtain r0 where r0: "h (handler_world rid ?b w) = (r0, w1)"
      "map_sum id (\<lambda>rsp. rsp\<lparr>rsp_Headers := (''X-Request-Id'', rid) # rsp_Headers rsp\<rparr>) r0 = Inr rsp"
    using assms(3) by (auto simp: with_id_def handler_world_id [OF rid] split: prod.splits)
  then obtain rsp0 where run: "h (handler_world rid ?b w) = (Inr rsp0, w1)"
      and rsp: "rsp = rsp0\<lparr>rsp_Headers := (''X-Request-Id'', rid) # rsp_Headers rsp0\<rparr>"
    by (cases r0) auto
  have plain: "plain_headers (rsp_Headers rsp0)" "sendable rsp0"
    using well_headed_dispatch [OF h(1)] run assms(4) by (auto simp: well_headed_def rsp sendable_def)
  note wire = response_on_wire(1,2) [OF plain, of rid] response_on_wire(3) [OF plain]
  have base: "?h r (handler_world rid ?b w) = (Returned, response_acts rsp0, w1)"
    by (simp add: routed_def h(1) run)
  obtain wi w' d where chain: "Chain (acting ?h) (layers entropy ?b) r fresh_wire w = (Returned, wi, w')" "tb w' = tb w1"
      "wir_Sent wi = wir_Sent (fold act (response_acts rsp0) (opened rid))"
      "wir_Body wi = wir_Body (fold act (response_acts rsp0) (opened rid))"
      "wir_Log wi = [AccessLogged rid (hr_Method r) (hr_Path r) (fst (received wi)) (int (length (wir_Body wi))) d]"
    using chain_run [where h = ?h, OF assms(2) base wire(3)] by auto
  have "app_handler unrouted entropy a path r fresh_wire w = (Returned, wi, w')"
    by (simp only: app_handler_def mux_acting chain(1))
  moreover have "received wi = (rsp_Status rsp, rsp_Headers rsp)" by (simp add: received_def chain(3) wire(1) rsp)
  ultimately show ?thesis
    using chain(2-5) wire(1,2) by (intro exI [of _ wi] exI [of _ w'] exI [of _ d]) (simp add: rsp)
qed

definition probed_app :: app where
  "probed_app = \<lparr>app_Config = sample_config, app_Server = \<lparr>srv_SessionTTL = Hour, srv_MaxRetries = 3, srv_ExpectedSchema = 2,
     srv_Entropy = Inl (Plain ''EOF''), srv_ReadMsg = (\<lambda>_. ''EOF''), srv_ParseTime = (\<lambda>_. Inl (Plain ''cannot parse''))\<rparr>,
     app_Worker = None, app_Maintenance = None\<rparr>"

theorem handler_serves_witness:
  "\<exists>wi w' d. app_handler (\<lambda>_. WriteJSON 404 None) (Inl (Plain ''EOF'')) probed_app [''healthz''] probe_request fresh_wire
      (at_time 5 empty_tables) = (Returned, wi, w')
    \<and> wir_Log wi = [AccessLogged ''trace-77'' ''GET'' ''/healthz'' 200 19 d]"
proof -
  let ?w = "budgeted (cfg_RequestTimeout (app_Config probed_app)) (tick (at_time 5 empty_tables))"
  let ?rsp = "(WriteJSON 200 (Some (JObject [(''status'', JString ''alive'')])))
    \<lparr>rsp_Headers := (''X-Request-Id'', ''trace-77'') # json_headers\<rparr>"
  have route: "serve (Inl (Plain ''EOF'')) probed_app [''healthz''] probe_request
      = Some (RequestID (Inl (Plain ''EOF'')) probe_request handleLiveness)"
    by (simp add: serve_def dispatch_def Routes_def probe_request_def run_route_def)
  have "RequestID (Inl (Plain ''EOF'')) probe_request handleLiveness ?w = (Inr ?rsp, ?w\<lparr>w_request_id := ''trace-77''\<rparr>)"
    using probe_id by (simp add: RequestID_def request_id_of_def probe_request_def with_id_def handleLiveness_def ret_def
        WriteJSON_def NewRequestID_def Let_def split: if_splits)
  moreover have body: "length (rsp_Body ?rsp) = 19" "rsp_Status ?rsp = 200" "sendable ?rsp"
    by (simp_all add: WriteJSON_def sendable_def body_allowed_def) code_simp
  ultimately have run: "RequestID (Inl (Plain ''EOF'')) probe_request handleLiveness ?w = (Inr ?rsp, ?w\<lparr>w_request_id := ''trace-77''\<rparr>)"
    by blast
  have "hr_Method probe_request = ''GET''" "hr_Path probe_request = ''/healthz''" by (simp_all add: probe_request_def)
  then show ?thesis
    using handler_serves [OF route probe_id run body(3), of "\<lambda>_. WriteJSON 404 None"]
    by (simp only: body(1,2) of_nat_numeral) blast
qed

end
