(* ===== verification/Bodies.thy ===== *)
theory Bodies
  imports JsonText HttpApi
begin

text \<open>
  The bodies of the HTTP interface: everything a handler presents is a value the writer of JSON puts on the
  wire so that it is read back.
\<close>

lemma json_int_ok [simp]: "json_ok (json_int n)"
  by (auto simp: json_int_def)

lemma json_time_ok [simp]: "json_ok (json_time t)" "json_ok (json_time_opt s)"
  by (simp_all add: json_time_def json_time_opt_def split: option.split)

lemma views_ok [simp]:
  "json_ok (sectionView_json sv)" "json_ok (termView_json tv)"
  "json_ok (registrationView_json rv)" "json_ok (enrollmentView_json ev)" "json_ok (auditEventView_json av)"
  "json_ok (pageMeta_json m)" "json_ok (batch_item_view b)" "json_ok (error_json eb)" "json_ok (readiness_json st a b')"
proof -
  have "json_ok (meetingView_json mv)" for mv by (simp add: meetingView_json_def)
  then show "json_ok (sectionView_json sv)" by (simp add: sectionView_json_def list_all_iff)
qed (simp_all add: termView_json_def registrationView_json_def enrollmentView_json_def auditEventView_json_def
    pageMeta_json_def batch_item_view_def error_json_def readiness_json_def split: option.split)

lemma listEnvelope_ok [simp]: "json_ok (listEnvelope items m) \<longleftrightarrow> list_all json_ok items"
  by (simp add: listEnvelope_def)

end
