(* ===== verification/Platform.thy ===== *)
theory Platform
  imports UseCases MiddlewareProperties StartupProperties Bodies
begin

text \<open>
  The platform over the lifetime of its database: processes come up, answer requests, run their worker and
  their scheduler, are provisioned, end and are started again, whatever fails on the way. Every invariant of
  the components holds all along.
\<close>

section \<open>Claims stay anchored\<close>

definition anchored :: "tables \<Rightarrow> bool" where
  \<comment> \<open>no claim names a section or a term that is yet to come\<close>
  "anchored t \<longleftrightarrow> section_key.keyed (t_sections t) \<and> term_key.keyed (t_terms t)
     \<and> (\<forall>e \<in> set (tbl_rows (t_enrollments t)). enr_SectionID e \<le> tbl_seq (t_sections t) \<and> enr_TermID e \<le> tbl_seq (t_terms t))"

definition anchor_step :: "tables \<Rightarrow> tables \<Rightarrow> bool" where
  "anchor_step t t' \<longleftrightarrow> (anchored t \<longrightarrow> anchored t')"

lemma anchor_same: "t_sections t' = t_sections t \<Longrightarrow> t_terms t' = t_terms t \<Longrightarrow> t_enrollments t' = t_enrollments t \<Longrightarrow> anchor_step t t'"
  by (simp add: anchor_step_def anchored_def)

interpretation anchors: evolution anchor_step
  by unfold_locales (simp_all add: anchor_step_def)

lemma anchor_update_sections:
  assumes "update_sections P f t = Inr (n, t')" "\<And>s. sr_ID (f s) = sr_ID s"
  shows "anchor_step t t'"
proof -
  have t': "t' = t\<lparr>t_sections := table_update P f (t_sections t)\<rparr>"
    using assms(1) by (auto simp: update_sections_def split: if_splits)
  show ?thesis
    using section_key.keyed_update [of "t_sections t" f P] assms(2)
    by (auto simp: anchor_step_def anchored_def t' table_update_def)
qed

interpretation anchors: repositories anchor_step "\<lambda>_ _. True"
proof unfold_locales
  show "anchors.keeps (AppendAuditEvent e)" for e
    by (intro anchors.append_frame anchor_same) simp_all
  show "anchors.keeps (ClaimSeat i v at)" "anchors.keeps (ReleaseSeat i v at)" "anchors.keeps (AdjustWaitlistLength i d at)" for i v d at
    unfolding ClaimSeat_def ReleaseSeat_def AdjustWaitlistLength_def
    by (intro anchors.keeps_andThen anchors.keeps_on_error anchors.keeps_basic anchors.keeps_if anchors.keeps_exec
        anchors.keeps_reads [OF catalog_reads(8)] anchors.keeps_reads [OF catalog_reads(11)];
        erule anchor_update_sections; simp add: take_seat_def return_seat_def move_waitlist_def)+
  have "anchor_step t t'" if new: "insert_enrollment e t = Inr (i, t')" for e t i t'
  proof -
    have refs: "enrollment_refs_ok t e"
      and t': "t' = t\<lparr>t_enrollments := table_insert (\<lambda>i r. r\<lparr>enr_ID := i\<rparr>) (e\<lparr>enr_Version := 1\<rparr>) (t_enrollments t)\<rparr>"
      using new by (auto simp: insert_enrollment_def split: if_splits)
    show ?thesis
      using refs by (auto simp: anchor_step_def anchored_def t' table_insert_def enrollment_refs_ok_def exists_where_iff
          section_key.keyed_def term_key.keyed_def)
  qed
  moreover have "anchor_step t t'" if "update_enrollment e v t = Inr (n, t')" for e v t n t'
    using that by (auto simp: anchor_step_def anchored_def update_enrollment_def Let_def table_update_def write_enrollment_def
        split: if_splits)
  ultimately show "anchors.keeps (CreateEnrollment e)" "anchors.keeps (UpdateEnrollment e v)" for e v
    unfolding CreateEnrollment_def UpdateEnrollment_def
    by (intro anchors.keeps_andThen anchors.keeps_on_error anchors.keeps_basic anchors.keeps_if anchors.keeps_exec
        anchors.keeps_reads [OF enrollment_reads(1)]; blast)+
qed (intro TrueI anchors.session_frame anchors.registration_frame anchors.job_frame anchors.replay_frame anchor_same; simp)+

section \<open>Sessions, paperwork and seats along the use cases\<close>

interpretation sessions: repositories sessions_evolve "\<lambda>_ _. True"
  by unfold_locales (intro TrueI sessions.counter_frame sessions.enrollment_frame sessions.registration_frame sessions.job_frame
      sessions.replay_frame sessions_evolve_same; simp)+

abbreviation papers_kept :: "tables \<Rightarrow> tables \<Rightarrow> bool" where
  "papers_kept \<equiv> papers_evolve (\<lambda>_. True)"

lemmas papers_frames = evolution.append_frame [OF papers.evolution_axioms] evolution.session_frame [OF papers.evolution_axioms]
  evolution.counter_frame [OF papers.evolution_axioms] evolution.enrollment_frame [OF papers.evolution_axioms]
  evolution.job_frame [OF papers.evolution_axioms] evolution.replay_frame [OF papers.evolution_axioms]

interpretation paper_runs: session_calls papers_kept
  by unfold_locales (intro papers_frames papers_evolve_same; simp)+

interpretation paper_runs: seat_calls papers_kept
  by unfold_locales (intro papers_frames papers_evolve_same; simp)+

interpretation paper_runs: queue_calls papers_kept
  by unfold_locales (intro papers_frames papers_evolve_same; simp)+

interpretation paper_runs: use_cases papers_kept "\<lambda>_ _. True"
proof unfold_locales
  show "papers.keeps (\<lambda>_. True) (Submit actor inp)" for actor inp
    by (rule papers.keepsI, erule Submit_papers)
  show "papers.keeps (\<lambda>_. True) (Decide actor inp)" for actor inp
    by (rule papers.keepsI, rule papers_evolve_mono, erule Decide_papers) simp
qed (intro TrueI paper_runs.keeps_accounts paper_runs.keeps_Claim paper_runs.keeps_BatchClaim paper_runs.keeps_Drop
    paper_runs.keeps_queue paper_runs.keeps_promote papers_frames papers_evolve_same; simp)+

definition seat_runs :: "tables \<Rightarrow> tables \<Rightarrow> bool" where
  "seat_runs t t' \<longleftrightarrow> (ids_ok t \<longrightarrow> seat_step\<^sup>*\<^sup>* t t')"

interpretation seats: evolution seat_runs
  by unfold_locales (auto simp: seat_runs_def dest: ids_ok_run)

lemma seats_keeps: "seats.keeps m \<longleftrightarrow> evolves m"
  by (simp add: seats.keeps_def evolves_def seat_runs_def)

lemma seat_runs_elsewhere:
  assumes "t_sections t' = t_sections t" "t_enrollments t' = t_enrollments t" "t_terms t' = t_terms t"
    "t_courses t' = t_courses t" "t_meetings t' = t_meetings t"
  shows "seat_runs t t'"
  unfolding seat_runs_def using seat_step.elsewhere [OF assms] by blast

interpretation seats: session_calls seat_runs
  by unfold_locales (intro seats.append_frame seats.session_frame seat_runs_elsewhere; simp)+

interpretation seats: paper_calls seat_runs
  by unfold_locales (intro seats.registration_frame seat_runs_elsewhere; simp)

interpretation seats: queue_calls seat_runs
  by unfold_locales (intro seats.job_frame seat_runs_elsewhere; simp)+

interpretation seats: use_cases seat_runs "\<lambda>_ _. True"
  by unfold_locales
    (((intro TrueI seats.replay_frame seat_runs_elsewhere; simp) | (intro seats.keeps_accounts seats.keeps_paperwork)
      | (rule iffD2 [OF seats_keeps], intro evolves_Claim evolves_BatchClaim evolves_Drop evolves_PromoteWaitlist)))+

section \<open>Snapshots stay readable\<close>

definition is_json :: "string \<Rightarrow> bool" where
  "is_json body \<longleftrightarrow> (\<exists>v. json_parse body = Some v)"

definition good_answer :: "int \<Rightarrow> string \<Rightarrow> bool" where
  "good_answer status body \<longleftrightarrow> status = 201 \<and> is_json body"

definition snapshots_ok :: "tables \<Rightarrow> bool" where
  \<comment> \<open>every stored answer is a created resource in JSON\<close>
  "snapshots_ok t \<longleftrightarrow> (\<forall>r \<in> set (t_idempotency t). good_answer (idem_ResponseStatus r) (idem_ResponseBody r))"

definition snapshot_step :: "tables \<Rightarrow> tables \<Rightarrow> bool" where
  "snapshot_step t t' \<longleftrightarrow> (snapshots_ok t \<longrightarrow> snapshots_ok t')"

lemma snapshots_same: "t_idempotency t' = t_idempotency t \<Longrightarrow> snapshot_step t t'"
  by (simp add: snapshot_step_def snapshots_ok_def)

lemma claim_body_good: "good_answer 201 (claim_body c)"
  unfolding good_answer_def is_json_def claim_body_def by (intro conjI exI refl, rule written_read_back(1)) (simp add: views_ok)

interpretation snapshots: evolution snapshot_step
  by unfold_locales (simp_all add: snapshot_step_def)

interpretation snapshots: repositories snapshot_step good_answer
proof unfold_locales
  show "snapshots.keeps (SaveIdempotencyRecord r)" if "good_answer (idem_ResponseStatus r) (idem_ResponseBody r)" for r
    using that by (intro snapshots.replay_frame) (simp add: snapshot_step_def snapshots_ok_def)
qed (intro claim_body_good snapshots.append_frame snapshots.session_frame snapshots.counter_frame snapshots.enrollment_frame
    snapshots.registration_frame snapshots.job_frame snapshots_same; simp)+

end
