(* ===== verification/Lifetime.thy ===== *)
theory Lifetime
  imports Platform
begin

text \<open>
  The platform over the lifetime of its database: processes come up, answer requests, run their worker and
  their scheduler, are provisioned, end and are started again, whatever fails on the way. Every invariant of
  the components holds all along.
\<close>

section \<open>Use cases keep the platform sound\<close>

definition sound :: "tables \<Rightarrow> bool" where
  "sound t \<longleftrightarrow> platform_ok t \<and> anchored t \<and> snapshots_ok t"

definition sound_step :: "tables \<Rightarrow> tables \<Rightarrow> bool" where
  "sound_step t t' \<longleftrightarrow> (sound t \<longrightarrow> sound t')"

interpretation sound: evolution sound_step
  by unfold_locales (simp_all add: sound_step_def)

lemma sound_by_components:
  assumes "seats.keeps m" "sessions.keeps m" "papers.keeps (\<lambda>_. True) m" "anchors.keeps m" "snapshots.keeps m"
  shows "sound.keeps m"
  unfolding sound.keeps_def
proof
  fix w :: world
  have moves: "seat_runs (tb w) (tb (snd (m w)))" "sessions_evolve (tb w) (tb (snd (m w)))"
    "papers_evolve (\<lambda>_. True) (tb w) (tb (snd (m w)))" "anchor_step (tb w) (tb (snd (m w)))"
    "snapshot_step (tb w) (tb (snd (m w)))"
    using assms unfolding seats.keeps_def sessions.keeps_def papers.keeps_def anchors.keeps_def snapshots.keeps_def by blast+
  show "sound_step (tb w) (tb (snd (m w)))"
    unfolding sound_step_def
  proof
    assume ok: "sound (tb w)"
    then have run: "seat_step\<^sup>*\<^sup>* (tb w) (tb (snd (m w)))"
      using moves(1) by (simp add: sound_def platform_ok_def seat_runs_def ledger_def)
    show "sound (tb (snd (m w)))"
      using ok moves(2-) ledger_inv.run [OF run] ranked_inv.run [OF run] claims_inv.run [OF run] plans_inv.run [OF run]
        shapes_inv.run [OF run]
      by (simp add: sound_def platform_ok_def sessions_evolve_def papers_evolve_def anchor_step_def snapshot_step_def)
  qed
qed

section \<open>Provisioning a platform in use\<close>

definition live :: "int \<Rightarrow> tables \<Rightarrow> bool" where
  \<comment> \<open>sound, and the claims are on the first \<open>n\<close> sections\<close>
  "live n t \<longleftrightarrow> sound t \<and> n \<le> tbl_seq (t_sections t) \<and> (\<forall>e \<in> set (tbl_rows (t_enrollments t)). enr_SectionID e \<le> n)"

definition live_step :: "int \<Rightarrow> tables \<Rightarrow> tables \<Rightarrow> bool" where
  "live_step n t t' \<longleftrightarrow> (live n t \<longrightarrow> live n t')"

interpretation lives: evolution "live_step n" for n
  by unfold_locales (simp_all add: live_step_def)

lemma sound_by_live:
  assumes "\<And>n. lives.keeps n m"
  shows "sound.keeps m"
  unfolding sound.keeps_def
proof
  fix w :: world
  let ?n = "tbl_seq (t_sections (tb w))"
  have "live_step ?n (tb w) (tb (snd (m w)))" using assms [of ?n] unfolding lives.keeps_def by blast
  moreover have "live ?n (tb w)" if "sound (tb w)"
    using that by (simp add: live_def sound_def anchored_def)
  ultimately show "sound_step (tb w) (tb (snd (m w)))"
    unfolding sound_step_def live_step_def live_def by blast
qed

lemma kept_by_ids:
  assumes "t_enrollments t' = t_enrollments t" "ids_ok t'"
  shows "ranked t \<Longrightarrow> ranked t'" "claims_ok t \<Longrightarrow> claims_ok t'" "shapes_ok t \<Longrightarrow> shapes_ok t'"
  using assms(2) by (simp_all add: ranked_def claims_ok_def shapes_ok_def assms(1))

lemma plans_kept:
  assumes "t_enrollments t' = t_enrollments t" "t_terms t' = t_terms t" "t_meetings t' = t_meetings t"
    and "ids_ok t'" "plans_ok t"
  shows "plans_ok t'"
proof -
  have "compatible t' = compatible t" "credits_held t' = credits_held t"
    by (simp_all only: compatible_def credits_held_def assms(1,3) fun_eq_iff simp_thms)
  then show ?thesis using assms by (simp add: plans_ok_def)
qed

lemma ids_ok_same: "t_sections t' = t_sections t \<Longrightarrow> t_enrollments t' = t_enrollments t \<Longrightarrow> ids_ok t' = ids_ok t"
  by (simp add: ids_ok_def)

lemma ledger_kept: "t_sections t' = t_sections t \<Longrightarrow> t_enrollments t' = t_enrollments t \<Longrightarrow> ledger t' = ledger t"
  by (simp only: ledger_def ids_ok_def row_balanced_def seats_held_def waiting_def)

lemma platform_kept:
  assumes "t_enrollments t' = t_enrollments t" "t_sessions t' = t_sessions t" "t_registrations t' = t_registrations t"
    and "platform_ok t" "ledger t'" "plans_ok t'"
  shows "platform_ok t'"
  using assms(4-6) kept_by_ids(1-3) [OF assms(1) ledgerD(1) [OF assms(5)]]
  by (simp add: platform_ok_def sessions_ok_def papers_ok_def assms(2,3))

lemma live_same_seats:
  assumes "t_sections t' = t_sections t" "t_enrollments t' = t_enrollments t" "t_terms t' = t_terms t"
    "t_meetings t' = t_meetings t" "t_sessions t' = t_sessions t" "t_registrations t' = t_registrations t"
    "t_idempotency t' = t_idempotency t"
  shows "live_step n t t'"
proof -
  have "platform_ok t'" if "platform_ok t"
  proof (rule platform_kept [OF assms(2,5,6) that])
    show "ledger t'" using that by (simp add: platform_ok_def ledger_kept [OF assms(1,2)])
    then show "plans_ok t'"
      using that by (intro plans_kept [OF assms(2-4)]) (simp_all add: ledgerD platform_ok_def)
  qed
  then show ?thesis by (simp add: live_step_def live_def sound_def anchored_def snapshots_ok_def assms)
qed

lemma live_insert_term:
  assumes "insert_term trm t = Inr (i, t')"
  shows "live_step n t t'"
proof -
  let ?new = "trm\<lparr>trm_ID := tbl_seq (t_terms t) + 1\<rparr>"
  have limit: "0 < trm_CreditLimit trm"
    and t': "t' = t\<lparr>t_terms := table_insert (\<lambda>i r. r\<lparr>trm_ID := i\<rparr>) trm (t_terms t)\<rparr>"
    using assms by (auto simp: insert_term_def split: if_splits)
  have "sound t'" if "sound t"
  proof -
    have old: "plans_ok t" "anchored t" using that by (auto simp: sound_def platform_ok_def)
    have none: "credits_held t st (tbl_seq (t_terms t) + 1) = 0" for st
    proof -
      have "select_where (held_by st (tbl_seq (t_terms t) + 1)) (t_enrollments t) = []"
        using old(2) by (force simp: select_where_def anchored_def held_by_def filter_empty_conv)
      then show ?thesis by (simp add: credits_held_def)
    qed
    have keyed: "term_key.keyed (t_terms t')"
      using old(2) term_key.keyed_insert [of "t_terms t" trm] by (simp add: t' anchored_def)
    have "credits_held t' st (trm_ID q) \<le> trm_CreditLimit q" if "q \<in> set (tbl_rows (t_terms t'))" for st q
      using that old(1) none limit by (auto simp: t' table_insert_def plans_ok_def credits_held_def intro: less_imp_le)
    then have "plans_ok t'"
      using old(1) keyed by (simp add: plans_ok_def t' ids_ok_def compatible_def)
    moreover have "anchored t'" using old(2) keyed by (force simp: anchored_def t' table_insert_def)
    moreover have "ledger t'" using that ledger_kept [of t' t] by (simp add: t' sound_def platform_ok_def)
    ultimately show ?thesis
      using that platform_kept [of t' t] by (simp add: sound_def snapshots_ok_def t')
  qed
  then show ?thesis by (simp add: live_step_def live_def t')
qed

interpretation lives: reference_data "live_step n" for n
proof unfold_locales
  show "insert_term trm t = Inr (i, t') \<Longrightarrow> live_step n t t'" for trm t i t' by (rule live_insert_term)
qed (auto intro!: live_same_seats simp: insert_user_def insert_course_def insert_prerequisite_def insert_academic_record_def
    split: if_splits)

lemma live_insert_section:
  assumes "insert_section r t = Inr (i, t')" "sr_SeatsTaken r = 0" "sr_WaitlistLength r = 0"
  shows "live_step n t t'" "i = tbl_seq (t_sections t) + 1"
proof -
  have row: "section_row_ok r" and i: "i = tbl_seq (t_sections t) + 1"
    and t': "t' = t\<lparr>t_sections := table_insert (\<lambda>i s. s\<lparr>sr_ID := i\<rparr>) r (t_sections t)\<rparr>"
    using assms(1) by (auto simp: insert_section_def split: if_splits)
  show "i = tbl_seq (t_sections t) + 1" by (rule i)
  have "sound t'" if "sound t"
  proof -
    have old: "ledger t" "anchored t" using that by (auto simp: sound_def platform_ok_def)
    have keyed: "section_key.keyed (t_sections t')"
      using old(2) section_key.keyed_insert [of "t_sections t" r] by (simp add: t' anchored_def)
    have "enr_SectionID e \<noteq> i" if "e \<in> set (tbl_rows (t_enrollments t))" for e
      using old(2) that i by (force simp: anchored_def)
    then have "seats_held t i = 0" "waiting t i = 0"
      by (auto simp: seats_held_def waiting_def count_where_def waiting_in_def filter_empty_conv)
    then have "row_balanced t' (r\<lparr>sr_ID := i\<rparr>)"
      using row assms(2,3) by (simp add: row_balanced_def section_row_ok_def t' seats_held_def waiting_def)
    then have "ledger t'"
      using old(1) keyed i by (auto simp: ledger_def ids_ok_def t' table_insert_def row_balanced_def seats_held_def waiting_def)
    moreover have "anchored t'" using old(2) keyed by (force simp: anchored_def t' table_insert_def)
    moreover have "plans_ok t'" if "plans_ok t"
      by (rule plans_kept [OF _ _ _ ledgerD(1) [OF \<open>ledger t'\<close>] that]) (simp_all add: t')
    ultimately show ?thesis
      using that platform_kept [of t' t] by (simp add: sound_def snapshots_ok_def t' platform_ok_def)
  qed
  moreover have "tbl_seq (t_sections t) \<le> tbl_seq (t_sections t')" by (simp add: t' table_insert_def)
  ultimately show "live_step n t t'" by (auto simp: live_step_def live_def t')
qed

lemma live_insert_meeting:
  assumes "insert_meeting m t = Inr (u, t')" "n < mtg_SectionID m"
  shows "live_step n t t'"
proof -
  have t': "t' = t\<lparr>t_meetings := table_insert (\<lambda>i r. r\<lparr>mtg_ID := i\<rparr>) m (t_meetings t)\<rparr>"
    using assms(1) by (auto simp: insert_meeting_def split: if_splits)
  have "plans_ok t'" if "live n t"
  proof -
    have on: "enr_SectionID e \<noteq> mtg_SectionID m" if "e \<in> set (tbl_rows (t_enrollments t))" for e
      using \<open>live n t\<close> that assms(2) by (force simp: live_def)
    have "compatible t' e h" if "compatible t e h" "e \<in> set (tbl_rows (t_enrollments t))" "h \<in> set (tbl_rows (t_enrollments t))" for e h
      using that on [OF that(2)] on [OF that(3)] by (auto simp: compatible_def t' table_insert_def)
    moreover have "plans_ok t" using that by (simp add: live_def sound_def platform_ok_def)
    ultimately show ?thesis by (simp add: plans_ok_def ids_ok_def credits_held_def t')
  qed
  moreover have "ledger t' = ledger t" by (rule ledger_kept) (simp_all add: t')
  ultimately show ?thesis
    using platform_kept [of t' t] by (simp add: live_step_def live_def sound_def platform_ok_def anchored_def snapshots_ok_def t')
qed

lemma lives_meetings: "n < i \<Longrightarrow> lives.keeps n (insert_meetings i ms)"
proof (induction ms)
  case (Cons m ms)
  have "lives.keeps n (insertMeeting (m\<lparr>mtg_SectionID := i\<rparr>))"
    unfolding insertMeeting_def by (intro lives.steps; erule live_insert_meeting; use Cons.prems in simp)
  then show ?case using Cons by (simp, intro lives.steps)
qed (simp, rule lives.steps)

lemma lives_section_then:
  assumes "empty_section s" "\<And>i. n < i \<Longrightarrow> lives.keeps n (f i)"
  shows "lives.keeps n (andThen (insertSection s now) f)"
proof (rule lives.keepsI)
  fix w r w'
  assume run: "andThen (insertSection s now) f w = (r, w')"
  obtain a w1 where first: "insertSection s now w = (a, w1)" by fastforce
  have kept: "live_step n (tb w) (tb w1)"
  proof -
    have "lives.keeps n (insertSection s now)"
      unfolding insertSection_def
      by (intro lives.steps; erule live_insert_section(1); use assms(1) in \<open>simp add: section_row_of_def empty_section_def\<close>)
    then show ?thesis using first by (rule lives.keeps_result)
  qed
  show "live_step n (tb w) (tb w')"
  proof (cases a)
    case (Inr i)
    have next_id: "i = tbl_seq (t_sections (tb w)) + 1"
      using first Inr live_insert_section(2) assms(1)
      by (fastforce simp: insertSection_def op_simps section_row_of_def empty_section_def)
    have rest: "f i w1 = (r, w')" using run first Inr by (simp add: andThen_def)
    have "live_step n (tb w1) (tb w')" if "live n (tb w)"
      using lives.keeps_result [OF assms(2) rest] that next_id by (simp add: live_def)
    then show ?thesis using kept by (auto simp: live_step_def)
  qed (use run first kept in \<open>simp add: andThen_def\<close>)
qed

lemma lives_sections: "list_all (\<lambda>(s, ms). empty_section s) ss \<Longrightarrow> lives.keeps n (insert_sections ss now)"
  by (induction ss now rule: insert_sections.induct)
    (simp, rule lives.steps, simp, intro lives_section_then lives.steps lives_meetings, simp_all)

lemma lives_Seed: "lives.keeps n (Seed e1 e2 spec)"
  by (intro lives.keeps_Seed_sections lives_sections seed_sections_fresh)

lemma lives_set_status: "lives.keeps n (set_status_tx i st now)"
proof -
  let ?f = "\<lambda>s. s\<lparr>sr_Status := st, sr_Version := sr_Version s + 1, sr_UpdatedAt := now\<rparr>"
  have "live_step n t t'" if upd: "update_sections (\<lambda>s. sr_ID s = i) ?f t = Inr (k, t')" for t k t'
  proof -
    have t': "t' = t\<lparr>t_sections := table_update (\<lambda>s. sr_ID s = i) ?f (t_sections t)\<rparr>"
      and ok: "\<forall>s \<in> set (tbl_rows (t_sections t)). sr_ID s = i \<longrightarrow> section_row_ok (?f s)"
      using upd by (auto simp: update_sections_def list_ex_iff split: if_splits)
    have keyed: "section_key.keyed (t_sections t')" if "section_key.keyed (t_sections t)"
      unfolding t' using section_key.keyed_update [OF that, of ?f "\<lambda>s. sr_ID s = i"] by simp
    have "ledger t'" if "ledger t"
      using that keyed ok
      by (auto simp: ledger_def ids_ok_def row_balanced_def seats_held_def waiting_def t' table_update_def)
    moreover have "plans_ok t'" if "plans_ok t" "ids_ok t'" by (rule plans_kept [OF _ _ _ that(2,1)]) (simp_all add: t')
    ultimately have "platform_ok t'" if "platform_ok t"
      using that platform_kept [of t' t] ledgerD(1) by (simp add: platform_ok_def t')
    moreover have "anchored t'" if "anchored t" using that keyed by (simp add: anchored_def t' table_update_def)
    ultimately show ?thesis by (simp add: live_step_def live_def sound_def snapshots_ok_def t' table_update_def)
  qed
  then show ?thesis unfolding set_status_tx_def by (intro lives.steps)
qed

lemma lives_setup: "fresh_sections c \<Longrightarrow> lives.keeps n (perform_setup c)"
  by (cases c; simp add: fresh_sections_def; (unfold ProvisionTerm_def ProvisionCourse_def ProvisionSection_def
      ProvisionAcademicRecord_def SetSectionStatus_def inTxDataset_def)?;
      intro lives_section_then lives.steps lives_Seed lives.keeps_run_tx lives.keeps_reference
        lives.keeps_prerequisites lives_meetings lives_set_status; simp)

section \<open>Coming up on a platform in use\<close>

lemma lives_Migrate: "lives.keeps n (Migrate files verdict order)"
proof -
  have applied: "lives.keeps n (apply_tx verdict m)" for m
    unfolding apply_tx_def
    by (intro lives.steps; auto intro!: live_same_seats simp: run_script_def insert_migration_def split: option.splits if_splits)
  have pending: "lives.keeps n (apply_pending verdict ms done)" for ms "done"
    by (induction ms)
      (simp, rule lives.steps, simp add: applyMigration_def, intro conjI impI lives.steps lives.keeps_run_tx applied, simp_all)
  have made: "lives.keeps n (exec create_schema_migrations)"
    by (intro lives.steps) (auto intro!: live_same_seats simp: create_schema_migrations_def split: option.splits)
  have loaded: "lives.keeps n loadAppliedMigrations"
    unfolding loadAppliedMigrations_def by (rule lives.keeps_queries)
  show ?thesis
    unfolding Migrate_def
    by (intro lives.keeps_andThen lives.keeps_basic lives.keeps_on_error pending made loaded)
qed

lemma lives_start: "lives.keeps n (start m)"
  unfolding start_def Build_def Open_def seed_demo_def
  by (intro lives.steps lives_Migrate lives_Seed)

lemma start_worker:
  assumes "start m w = (Inr a, w')"
  shows "\<forall>wk. app_Worker a = Some wk \<longrightarrow> (\<exists>c. wk = app_worker (mc_SyntaxMsg m) c)"
proof -
  obtain cfg a0 where "Load (mc_Env m) = Inr cfg" "add_worker m cfg a0 = Inr a" "app_Worker a0 = None"
    using assms unfolding start_def Build_def andThen_Inr lift_result_iff by auto
  then show ?thesis
    using build_worker_settings by (fastforce simp: add_worker_def bind_result_Inr split: if_splits)
qed

section \<open>Requests through the layers\<close>

context evolution begin

definition wire_keeps :: "wire_handler \<Rightarrow> bool" where
  "wire_keeps h \<longleftrightarrow> (\<forall>r wi w e wi' w'. h r wi w = (e, wi', w') \<longrightarrow> R (tb w) (tb w'))"

lemma wire_keepsD: "wire_keeps h \<Longrightarrow> h r wi w = (e, wi', w') \<Longrightarrow> R (tb w) (tb w')"
  unfolding wire_keeps_def by blast

lemma wire_keeps_layers:
  assumes "wire_keeps h"
  shows "wire_keeps (RequestID_layer entropy h)" "wire_keeps (Recover h)" "wire_keeps (AccessLog h)" "wire_keeps (Timeout budget h)"
proof -
  have same: "tb (WithRequestID rid w) = tb w" "tb (tick w) = tb w" "tb (with_timeout b w) = tb w" for rid w b
    by (simp_all add: WithRequestID_def with_timeout_def Let_def)
  have "wire_keeps (identified rid h)" for rid
    unfolding wire_keeps_def identified_def
    by (auto split: prod.splits dest!: wire_keepsD [OF assms] simp: same)
  then show "wire_keeps (RequestID_layer entropy h)"
    by (auto simp: wire_keeps_def RequestID_layer_def Let_def refl split: if_splits sum.splits)
  show "wire_keeps (Recover h)" "wire_keeps (AccessLog h)" "wire_keeps (Timeout budget h)"
    unfolding wire_keeps_def Recover_def AccessLog_def Timeout_def
    by (auto split: prod.splits handler_end.splits if_splits dest!: wire_keepsD [OF assms] simp: same)
qed

end

lemma sound_dispatch: "dispatch srv path r = Some h \<Longrightarrow> sound.keeps h"
  by (intro sound_by_components seats.keeps_dispatch sessions.keeps_dispatch paper_runs.keeps_dispatch anchors.keeps_dispatch
      snapshots.keeps_dispatch)

lemma sound_app_handler: "sound.wire_keeps (app_handler unrouted entropy a path)"
proof -
  have "sound.wire_keeps (mux unrouted srv path)" for srv
    unfolding sound.wire_keeps_def mux_def
    by (auto split: option.splits prod.splits sum.splits simp: sound.refl dest: sound.keeps_result [OF sound_dispatch])
  then show ?thesis
    unfolding app_handler_def Chain_def layers_def by (simp, intro sound.wire_keeps_layers)
qed

lemma sound_worker:
  "sound.keeps (Run fuel k (app_worker msg cfg))" "sound.keeps (Maintenance_Run k interval)"
  by (intro sound_by_components seats.keeps_app_worker sessions.keeps_app_worker paper_runs.keeps_app_worker
      anchors.keeps_app_worker snapshots.keeps_app_worker seats.keeps_Maintenance sessions.keeps_Maintenance paper_runs.keeps_Maintenance
      anchors.keeps_Maintenance snapshots.keeps_Maintenance)+

section \<open>Lifetimes\<close>

record conditions =
  \<comment> \<open>what an activity meets: the clock, the failures of the driver, the end of its context\<close>
  cnd_clock :: "nat \<Rightarrow> instant"
  cnd_fault :: "nat \<Rightarrow> fault option"
  cnd_done :: "nat \<Rightarrow> ctx_end option"

definition meets :: "conditions \<Rightarrow> world \<Rightarrow> world" where
  "meets c w = w\<lparr>w_tick := 0, w_clock := cnd_clock c, w_fault := cnd_fault c, w_done := cnd_done c, w_request_id := []\<rparr>"

datatype activity =
    Arrives "err + string" "string list" http_request
    \<comment> \<open>a request, with the random bytes for its identifier and its path\<close>
  | Rounds nat nat
    \<comment> \<open>the worker, for at most so many jobs per tick and so many ticks\<close>
  | Schedules nat
    \<comment> \<open>the maintenance scheduler, for at most so many ticks\<close>
  | Provisions setup_call

fun happen :: "(http_request \<Rightarrow> http_response) \<Rightarrow> app \<Rightarrow> activity \<Rightarrow> world \<Rightarrow> world" where
  "happen unrouted a (Arrives entropy path r) w = (case app_handler unrouted entropy a path r fresh_wire w of (_, _, w') \<Rightarrow> w')"
| "happen unrouted a (Rounds fuel k) w = (case app_Worker a of None \<Rightarrow> w | Some wk \<Rightarrow> snd (Run fuel k wk w))"
| "happen unrouted a (Schedules k) w = (case app_Maintenance a of None \<Rightarrow> w
     | Some interval \<Rightarrow> snd (Maintenance_Run k interval w))"
| "happen unrouted a (Provisions c) w = snd (perform_setup c w)"

fun happenings :: "(http_request \<Rightarrow> http_response) \<Rightarrow> app \<Rightarrow> (conditions \<times> activity) list \<Rightarrow> world \<Rightarrow> world" where
  "happenings unrouted a [] w = w"
| "happenings unrouted a ((c, x) # rest) w = happenings unrouted a rest (happen unrouted a x (meets c w))"

record process =
  \<comment> \<open>one start of the program, and what happens until it ends\<close>
  prc_conditions :: conditions
  prc_machine :: machine
  prc_activities :: "(conditions \<times> activity) list"

fun lifetime :: "(http_request \<Rightarrow> http_response) \<Rightarrow> process list \<Rightarrow> world \<Rightarrow> world" where
  "lifetime unrouted [] w = w"
| "lifetime unrouted (p # rest) w = lifetime unrouted rest
     (case start (prc_machine p) (meets (prc_conditions p) w) of
        (Inl _, w') \<Rightarrow> w'
      | (Inr a, w') \<Rightarrow> happenings unrouted a (prc_activities p) w')"

definition adds_empty :: "activity \<Rightarrow> bool" where
  \<comment> \<open>sections are provisioned without claims\<close>
  "adds_empty x = (case x of Provisions c \<Rightarrow> fresh_sections c | _ \<Rightarrow> True)"

definition provisions_empty :: "process \<Rightarrow> bool" where
  "provisions_empty p = list_all (\<lambda>(c, x). adds_empty x) (prc_activities p)"

lemma sound_happen:
  assumes "sound (tb w)" "\<forall>wk. app_Worker a = Some wk \<longrightarrow> (\<exists>msg c. wk = app_worker msg c)"
    and "adds_empty x"
  shows "sound (tb (happen unrouted a x w))"
proof -
  have kept: "sound (tb (snd (m w)))" if "sound.keeps m" for m :: "unit op"
    using that assms(1) by (simp add: sound.keeps_def sound_step_def)
  have kept2: "sound (tb (snd (m w)))" if "sound.keeps m" for m :: "err option option op"
    using that assms(1) by (simp add: sound.keeps_def sound_step_def)
  show ?thesis
  proof (cases x)
    case (Arrives entropy path r)
    then show ?thesis
      using sound.wire_keepsD [OF sound_app_handler] assms(1) by (auto simp: sound_step_def split: prod.splits)
  next
    case (Provisions s)
    then show ?thesis using assms(3) kept [OF sound_by_live [OF lives_setup]] by (simp add: adds_empty_def)
  qed (use assms(1,2) kept2 [OF sound_worker(1)] kept2 [OF sound_worker(2)] in \<open>auto split: option.split\<close>)
qed

lemma sound_happenings:
  assumes "\<forall>wk. app_Worker a = Some wk \<longrightarrow> (\<exists>msg c. wk = app_worker msg c)"
  shows "sound (tb w) \<Longrightarrow> list_all (\<lambda>(c, x). adds_empty x) xs \<Longrightarrow> sound (tb (happenings unrouted a xs w))"
proof (induction xs arbitrary: w)
  case (Cons cx xs)
  obtain c x where cx: "cx = (c, x)" by fastforce
  have "sound (tb (happen unrouted a x (meets c w)))"
    using Cons.prems assms by (intro sound_happen) (simp_all add: cx meets_def)
  then show ?case using Cons.IH Cons.prems(2) by (simp add: cx)
qed simp

lemma sound_lifetime: "sound (tb w) \<Longrightarrow> list_all provisions_empty ps \<Longrightarrow> sound (tb (lifetime unrouted ps w))"
proof (induction ps arbitrary: w)
  case (Cons p ps)
  let ?w = "meets (prc_conditions p) w"
  have first: "sound (tb ?w)" using Cons.prems(1) by (simp add: meets_def)
  obtain r w1 where up: "start (prc_machine p) ?w = (r, w1)" by fastforce
  have ok: "sound (tb w1)"
    using sound.keeps_result [OF sound_by_live [OF lives_start] up] first by (simp add: sound_step_def)
  show ?case
  proof (cases r)
    case (Inl e)
    then show ?thesis using Cons ok up by simp
  next
    case (Inr a)
    have "sound (tb (happenings unrouted a (prc_activities p) w1))"
      using start_worker [OF up [unfolded Inr]] Cons.prems(2) ok
      by (intro sound_happenings) (auto simp: provisions_empty_def)
    then show ?thesis using Cons up Inr by simp
  qed
qed simp

lemma empty_sound: "sound empty_tables"
  using unclaimed_ok [OF empty_unclaimed]
  by (simp add: sound_def anchored_def snapshots_ok_def empty_tables_def empty_table_def section_key.keyed_def term_key.keyed_def)

text \<open>C2: the platform stays sound over the whole life of its database. Starting from an empty file, processes come up
  (or fail to), each with its own settings and migrations, answer any requests through the whole stack of layers,
  run their worker and their scheduler, are provisioned with empty sections, end at any point and are started
  again; each activity meets its own clock, deadline and failures of the driver. After any such history the seat
  ledger balances, ranks, claims, plans and shapes are sound, sessions are keyed and paperwork is single.\<close>

theorem platform_stays_sound:
  assumes "tb w = empty_tables" "list_all provisions_empty history"
  shows "platform_ok (tb (lifetime unrouted history w))"
  using sound_lifetime [OF _ assms(2)] empty_sound assms(1) by (simp add: sound_def)

definition calm_conditions :: conditions where
  "calm_conditions = \<lparr>cnd_clock = (\<lambda>_. 5), cnd_fault = (\<lambda>_. None), cnd_done = (\<lambda>_. None)\<rparr>"

definition sample_history :: "process list" where
  \<comment> \<open>a start that fails, then one that serves a probe, is provisioned, and loses its disk during the worker\<close>
  "sample_history =
     [\<lparr>prc_conditions = calm_conditions, prc_machine = blocked_machine, prc_activities = []\<rparr>,
      \<lparr>prc_conditions = calm_conditions, prc_machine = sample_machine, prc_activities =
        [(calm_conditions, Arrives (Inl (Plain ''EOF'')) [''healthz''] probe_request),
         (calm_conditions, Provisions (SetupTerm sample_term)),
         (calm_conditions\<lparr>cnd_fault := (\<lambda>_. Some (DriverFailure ''disk I/O error''))\<rparr>, Rounds 3 2),
         (calm_conditions, Schedules 1)]\<rparr>]"

theorem platform_stays_sound_witness:
  "platform_ok (tb (lifetime (\<lambda>_. WriteJSON 404 None) sample_history (at_time 5 empty_tables)))"
proof (rule platform_stays_sound)
  show "tb (at_time 5 empty_tables) = empty_tables" by (simp add: at_time_def)
  show "list_all provisions_empty sample_history"
    by (simp add: sample_history_def provisions_empty_def adds_empty_def fresh_sections_def)
qed

end
