(* ===== verification/Answers.thy ===== *)
theory Answers
  imports Lifetime
begin

text \<open>
  What a client of the platform gets: over the whole life of the database every answer is either an empty
  204 or one JSON text the client can read, and every failure is the error envelope of its request.
\<close>

section \<open>Proper answers\<close>

definition error_answer :: "string \<Rightarrow> http_response \<Rightarrow> bool" where
  \<comment> \<open>the envelope of \<open>WriteError\<close>, with a code of the table and its status\<close>
  "error_answer rid rsp \<longleftrightarrow> (\<exists>b. json_parse (rsp_Body rsp) = Some (error_json b) \<and> eb_RequestID b = rid
     \<and> eb_Code b \<in> fst ` set statusByCode \<and> rsp_Status rsp = StatusForCode (eb_Code b))"

definition proper_answer :: "string \<Rightarrow> http_response \<Rightarrow> bool" where
  "proper_answer rid rsp \<longleftrightarrow>
     (rsp_Status rsp = 204 \<and> rsp_Body rsp = [])
     \<or> (rsp_Status rsp \<in> {200, 201, 207} \<and> is_json (rsp_Body rsp))
     \<or> (rsp_Status rsp = 503 \<and> (\<exists>v n. json_parse (rsp_Body rsp) = Some (readiness_json ''schema_mismatch'' v n)))
     \<or> error_answer rid rsp"

lemma written_json: "json_ok v \<Longrightarrow> is_json (Encode v)"
  by (auto simp: is_json_def written_read_back)

lemma proper_views:
  "json_ok v \<Longrightarrow> proper_answer rid (WriteJSON 200 (Some v))" "json_ok v \<Longrightarrow> proper_answer rid (WriteJSON 201 (Some v))"
  "proper_answer rid (WriteJSON 204 None)" "proper_answer rid (batch_response results)"
  "proper_answer rid (WriteJSON 503 (Some (readiness_json ''schema_mismatch'' x y)))"
  "(\<And>x. json_ok (shown x)) \<Longrightarrow> proper_answer rid (list_response shown res)"
  "good_answer status body \<Longrightarrow> proper_answer rid (WriteRawJSON earlier status body)"
  by (auto simp: proper_answer_def WriteJSON_def written_json batch_response_def Let_def list_all_iff list_response_def
      WriteRawJSON_def good_answer_def written_read_back)

lemma coded_proper:
  assumes "code \<in> fst ` set statusByCode"
  shows "proper_answer rid (WriteCodedError rid code message)"
proof -
  have "error_answer rid (WriteCodedError rid code message)"
    unfolding error_answer_def WriteCodedError_def WriteJSON_def
    by (rule exI [of _ "\<lparr>eb_Code = code, eb_Message = message, eb_RequestID = rid\<rparr>"]) (simp add: written_read_back assms)
  then show ?thesis by (simp add: proper_answer_def)
qed

lemma error_proper: "proper_answer rid (error_response rid e)"
proof -
  have "error_answer rid (error_response rid e)"
    unfolding error_answer_def error_response_def WriteError_def WriteJSON_def Let_def prod.case
    by (rule exI, rule conjI, simp add: written_read_back) (simp add: classify_codes)
  then show ?thesis by (simp add: proper_answer_def)
qed

section \<open>What operations answer\<close>

definition serves :: "(string \<Rightarrow> 'a \<Rightarrow> bool) \<Rightarrow> 'a op \<Rightarrow> bool" where
  \<comment> \<open>on readable snapshots, what it returns is good for the request identifier\<close>
  "serves P m \<longleftrightarrow> (\<forall>w x w'. snapshots_ok (tb w) \<longrightarrow> m w = (Inr x, w') \<longrightarrow> P (w_request_id w) x)"

named_theorems serves_intro \<open>answers of composed operations\<close>

lemma serves_ret [serves_intro]: "(\<And>rid. P rid x) \<Longrightarrow> serves P (ret x)"
  by (simp add: serves_def ret_iff)

lemma serves_raise [serves_intro]: "serves P (raise e)"
  by (simp add: serves_def raise_iff)

lemma serves_if [serves_intro]: "(b \<Longrightarrow> serves P f) \<Longrightarrow> (\<not> b \<Longrightarrow> serves P g) \<Longrightarrow> serves P (if b then f else g)"
  by simp

lemma serves_sum [serves_intro]:
  "(\<And>e. serves P (f e)) \<Longrightarrow> (\<And>x. serves P (g x)) \<Longrightarrow> serves P (case r of Inl e \<Rightarrow> f e | Inr x \<Rightarrow> g x)"
  by (cases r) auto

lemma serves_prod [serves_intro]: "(\<And>x y. serves P (f x y)) \<Longrightarrow> serves P (case p of (x, y) \<Rightarrow> f x y)"
  by (cases p) auto

lemma serves_rid [serves_intro]:
  assumes "\<And>rid. serves (\<lambda>rid' x. rid' = rid \<longrightarrow> P rid' x) (f rid)"
  shows "serves P (andThen get_request_id f)"
  using assms by (fastforce simp: serves_def andThen_Inr get_request_id_def)

lemma serves_known:
  assumes "tame m" "snapshots.keeps m" "\<And>w x w'. snapshots_ok (tb w) \<Longrightarrow> m w = (Inr x, w') \<Longrightarrow> serves P (f x)"
  shows "serves P (andThen m f)"
  unfolding serves_def
proof (intro allI impI)
  fix w y w'
  assume ok: "snapshots_ok (tb w)" and "andThen m f w = (Inr y, w')"
  then obtain x w1 where m: "m w = (Inr x, w1)" and f: "f x w1 = (Inr y, w')" by (auto simp: andThen_Inr)
  have "snapshots_ok (tb w1)" "w_request_id w1 = w_request_id w"
    using ok snapshots.keeps_result [OF assms(2) m] tame_result [OF assms(1) m]
    by (auto simp: snapshot_step_def same_env_def)
  then show "P (w_request_id w) y" using assms(3) [OF ok m] f unfolding serves_def by metis
qed

lemma serves_then [serves_intro]:
  "tame m \<Longrightarrow> snapshots.keeps m \<Longrightarrow> (\<And>x. serves P (f x)) \<Longrightarrow> serves P (andThen m f)"
  by (rule serves_known)

lemma serves_answer:
  assumes "tame m" "serves (\<lambda>rid x. proper_answer rid (shown x)) m"
  shows "serves proper_answer (answer m shown)"
  unfolding serves_def
proof (intro allI impI)
  fix w rsp w'
  assume ok: "snapshots_ok (tb w)" and run: "answer m shown w = (Inr rsp, w')"
  obtain r w1 where m: "m w = (r, w1)" by fastforce
  have rid: "w_request_id w1 = w_request_id w" using tame_result [OF assms(1) m] by (simp add: same_env_def)
  show "proper_answer (w_request_id w) rsp"
  proof (cases r)
    case (Inl e)
    then show ?thesis using run m rid
      by (auto simp: answer_def andThen_Inr attempt_Inr get_request_id_def ret_iff error_proper)
  next
    case (Inr x)
    then show ?thesis using run m ok assms(2)
      by (auto simp: answer_def andThen_Inr attempt_Inr ret_iff serves_def)
  qed
qed

lemma serves_view: "tame m \<Longrightarrow> (\<And>rid x. proper_answer rid (shown x)) \<Longrightarrow> serves proper_answer (answer m shown)"
  by (rule serves_answer) (simp_all add: serves_def)

section \<open>The services behind the handlers\<close>

lemma tame_prod [tame_intro]: "(\<And>x y. tame (f x y)) \<Longrightarrow> tame (case p of (x, y) \<Rightarrow> f x y)"
  by (cases p) auto

lemma tame_batch [tame_intro]: "tame (BatchClaim k actor st secs)"
proof -
  have "tame (batch_loop k actor st ids results)" for st ids results
    by (induction k actor st ids results rule: batch_loop.induct) (simp, intro tame_intro, simp, intro tame_intro)
  then show ?thesis unfolding BatchClaim_def Let_def by (intro tame_intro)
qed

lemma tame_probes [tame_intro]: "tame Ping" "tame SchemaVersion"
  unfolding Ping_def SchemaVersion_def by (intro tame_intro)+

lemma tame_Execute [tame_intro]: "tame fn \<Longrightarrow> tame (Execute s fn)"
  unfolding Execute_def run_and_store_def replay_stored_def by (intro tame_intro)

lemma stored_good:
  assumes "snapshots_ok (tb w)" "find_scope s w = (Inr r, w')"
  shows "good_answer (out_Status (snapshot r)) (out_Body (snapshot r))"
proof -
  have "r \<in> set (t_idempotency (tb w))"
    using assms(2) unfolding find_scope_def FindIdempotencyRecord_def
    by (auto simp: on_error_Inr query_row_Inr find_record_def raise_iff find_Some_iff split: if_splits)
  then show ?thesis using assms(1) by (simp add: snapshots_ok_def snapshot_def)
qed

lemma serves_scope:
  \<comment> \<open>after a lookup of the scope, only records with good answers\<close>
  assumes "\<And>r. good_answer (out_Status (snapshot r)) (out_Body (snapshot r)) \<Longrightarrow> serves P (f (Inr r))" "\<And>e. serves P (f (Inl e))"
  shows "serves P (andThen (attempt (find_scope s)) f)"
proof (rule serves_known)
  fix w x w' assume "snapshots_ok (tb w)" "attempt (find_scope s) w = (Inr x, w')"
  then show "serves P (f x)" using assms stored_good by (cases x) (auto simp: attempt_Inr)
qed (intro tame_intro snapshots.keeps_attempt snapshots.keeps_reads idempotency_reads)+

lemma serves_Execute:
  "serves (\<lambda>rid out. good_answer (out_Status out) (out_Body out)) (Execute s (claim_call srv actor st sec))"
proof -
  let ?good = "\<lambda>rid out. good_answer (out_Status out) (out_Body out)"
  have kept: "tame (claim_call srv actor st sec)" "snapshots.keeps (claim_call srv actor st sec)"
    unfolding claim_call_def by (intro tame_intro keeps_intro)+
  have claimed: "serves P (andThen (claim_call srv actor st sec) (\<lambda>(status, body). f status body))"
    if "\<And>body. good_answer 201 body \<Longrightarrow> serves P (f 201 body)" for P :: "string \<Rightarrow> outcome \<Rightarrow> bool" and f
    by (rule serves_known [OF kept]) (auto dest!: claim_call_body simp: claim_body_good that)
  have replayed: "serves ?good (replay_stored s r)" if "good_answer (out_Status (snapshot r)) (out_Body (snapshot r))" for r
    unfolding replay_stored_def using that
    by (intro serves_intro tame_intro keeps_intro) simp
  have stored: "serves ?good (run_and_store s (claim_call srv actor st sec))"
    unfolding run_and_store_def
  proof (rule claimed)
    fix body assume body: "good_answer 201 body"
    have saved: "snapshots.keeps (SaveIdempotencyRecord (new_record s 201 body now))" for now
      using body by (intro snapshots.stores) (simp add: new_record_def)
    show "serves ?good (andThen clock_now (\<lambda>now.
      andThen (attempt (SaveIdempotencyRecord (new_record s 201 body now))) (\<lambda>saved. case saved of
        Inr _ \<Rightarrow> ret \<lparr>out_Status = 201, out_Body = body, out_Replayed = False\<rparr>
      | Inl err \<Rightarrow>
          if errors_Is err ErrConflict
          then andThen (attempt (find_scope s)) (\<lambda>found. case found of
                 Inr r \<Rightarrow> if idem_RequestFingerprint r = Fingerprint s then ret (snapshot r) else raise err
               | Inl _ \<Rightarrow> raise err)
          else raise err)))"
    proof (intro serves_then serves_sum, goal_cases)
      case (5 now err)
      show ?case
        by (intro serves_if serves_raise; rule serves_scope) (simp_all add: serves_ret serves_raise)
    qed (use body in \<open>auto intro!: serves_ret tame_intro saved snapshots.keeps_basic snapshots.keeps_attempt\<close>)
  qed
  show ?thesis
    unfolding Execute_def
    by (intro serves_if claimed serves_raise serves_scope; simp add: serves_ret replayed serves_raise stored)
qed

section \<open>The routes\<close>

lemma serves_mono: "serves Q m \<Longrightarrow> (\<And>rid x. Q rid x \<Longrightarrow> P rid x) \<Longrightarrow> serves P m"
  by (auto simp: serves_def)

lemma serves_views:
  "serves proper_answer (handleLogin srv r)" "serves proper_answer (handleLogout srv r actor)"
  "serves proper_answer (handleProfile srv r actor)" "serves proper_answer (handleListTerms srv r actor)"
  "serves proper_answer (handleListSections srv r actor)" "serves proper_answer (handleGetSection srv r actor)"
  "serves proper_answer (handleSectionRoster srv r actor)" "serves proper_answer (handleSubmitRegistration srv r actor)"
  "serves proper_answer (handleListRegistrations srv r actor)" "serves proper_answer (handleMyRegistration srv r actor)"
  "serves proper_answer (handleDecideRegistration srv r actor)" "serves proper_answer (handleBatchClaim srv r actor)"
  "serves proper_answer (handleListEnrollments srv r actor)" "serves proper_answer (handleGetEnrollment srv r actor)"
  "serves proper_answer (handleDropEnrollment srv r actor)" "serves proper_answer (handleListAuditEvents srv r actor)"
  unfolding handleLogin_def handleLogout_def handleProfile_def handleListTerms_def
    handleListSections_def handleGetSection_def handleSectionRoster_def handleSubmitRegistration_def
    handleListRegistrations_def handleMyRegistration_def handleDecideRegistration_def
    handleBatchClaim_def handleListEnrollments_def handleGetEnrollment_def
    handleDropEnrollment_def handleListAuditEvents_def
  by (rule serves_view, intro tame_intro, simp add: proper_views list_all_iff)+

lemma serves_claim: "serves proper_answer (handleClaimEnrollment srv r actor)"
proof -
  have "serves (\<lambda>rid res. proper_answer rid (WriteRawJSON (earlier res) (out_Status res) (out_Body res)))
      (Execute s (claim_call srv actor st sec))" for earlier s st sec
    by (rule serves_mono [OF serves_Execute]) (simp add: proper_views)
  moreover have "tame (claim_call srv actor st sec)" for st sec unfolding claim_call_def by (intro tame_intro)
  ultimately show ?thesis
    unfolding handleClaimEnrollment_def
    by (intro serves_answer tame_intro serves_then serves_prod serves_if serves_raise snapshots.keeps_basic)
qed

lemma serves_probes: "serves proper_answer handleLiveness" "serves proper_answer (handleReadiness srv)"
proof -
  have drift: "''migration_drift'' \<in> fst ` set statusByCode" by (simp add: statusByCode_def)
  show "serves proper_answer (handleReadiness srv)"
    unfolding handleReadiness_def
    by (intro serves_rid serves_then serves_sum serves_if serves_ret tame_intro snapshots.keeps_attempt snapshots.keeps_views)
      (auto simp: proper_views coded_proper [OF drift])
qed (simp add: handleLiveness_def serves_ret proper_views)

lemma serves_authenticated:
  assumes "\<And>actor. serves proper_answer (h srv r actor)"
  shows "serves proper_answer (authenticated h srv r)"
proof -
  have "serves (\<lambda>rid' x. rid' = rid \<longrightarrow> proper_answer rid' x) (h srv r actor)" for rid actor
    by (rule serves_mono [OF assms]) auto
  then show ?thesis
    unfolding authenticated_def
    by (intro serves_rid serves_then serves_sum tame_intro snapshots.keeps_attempt snapshots.accounts serves_ret)
      (auto simp: error_proper)
qed

lemma serves_route: "(m, ps, rt) \<in> set Routes \<Longrightarrow> serves proper_answer (run_route rt srv r)"
  by (auto simp: Routes_def run_route_def intro: serves_views serves_claim serves_probes intro!: serves_authenticated)

lemma serves_dispatch:
  assumes "dispatch srv path r = Some h"
  shows "serves proper_answer h"
proof -
  obtain rt vals r' where found: "find_route Routes (if hr_Method r = ''HEAD'' then ''GET'' else hr_Method r) path
      = Some (rt, vals)" and h: "h = run_route rt srv r'"
    using assms by (auto simp: dispatch_def split: option.splits prod.splits)
  obtain ps where "((if hr_Method r = ''HEAD'' then ''GET'' else hr_Method r), ps, rt) \<in> set Routes"
    using find_route_Some [OF found] by blast
  then show ?thesis unfolding h by (rule serves_route)
qed

section \<open>The answers over a lifetime\<close>

definition echoed_id :: "http_response \<Rightarrow> string" where
  \<comment> \<open>the request identifier the client is told, none when none could be made\<close>
  "echoed_id rsp = (case map_of (rsp_Headers rsp) ''X-Request-Id'' of Some rid \<Rightarrow> rid | None \<Rightarrow> [])"

lemma map_sum_Inr_iff: "map_sum f g r = Inr y \<longleftrightarrow> (\<exists>x. r = Inr x \<and> y = g x)"
  by (cases r) auto

lemma proper_under_id:
  assumes "serves proper_answer h" "snapshots_ok (tb w)" "RequestID entropy r h w = (Inr rsp, w')"
  shows "proper_answer (echoed_id rsp) rsp"
proof -
  have named: "proper_answer (echoed_id rsp) rsp" if run: "with_id rid h w = (Inr rsp, w')" for rid
  proof -
    obtain rsp0 where h: "h (w\<lparr>w_request_id := rid\<rparr>) = (Inr rsp0, w')"
      and rsp: "rsp = rsp0\<lparr>rsp_Headers := (''X-Request-Id'', rid) # rsp_Headers rsp0\<rparr>"
      using run by (auto simp: with_id_def map_sum_Inr_iff split: prod.splits)
    have "proper_answer rid rsp0"
      using spec [OF assms(1) [unfolded serves_def], of "w\<lparr>w_request_id := rid\<rparr>"] assms(2) h by simp
    then show ?thesis by (simp add: rsp echoed_id_def proper_answer_def error_answer_def)
  qed
  have failed: "proper_answer [] (WriteCodedError [] ''internal_error'' ''Could not allocate a request identifier.'')"
    by (rule coded_proper) (simp add: statusByCode_def)
  show ?thesis
    using assms(3) named failed
    by (auto simp: RequestID_def Let_def ret_iff echoed_id_def WriteCodedError_def WriteJSON_def json_headers_def
        split: if_splits sum.splits)
qed

text \<open>C38: every answer over the whole life of the database can be read. After any history of processes,
  requests, worker rounds and failures from an empty file, a routed request is answered by an empty 204,
  by a success with one JSON text as its body (a replayed claim included, whenever it was stored), by the report that the
  schema is another one, or by the error envelope: it reads back as code, message and the request identifier the
  client is told in the header, with a code of the table and the status of that code.\<close>

theorem answers_read_back:
  assumes "tb w = empty_tables" "list_all provisions_empty history"
    and "dispatch srv path r = Some h"
    and "RequestID entropy r h (meets c (lifetime unrouted history w)) = (Inr rsp, w')"
  shows "proper_answer (echoed_id rsp) rsp"
proof (rule proper_under_id [OF serves_dispatch [OF assms(3)] _ assms(4)])
  show "snapshots_ok (tb (meets c (lifetime unrouted history w)))"
    using sound_lifetime [OF _ assms(2)] empty_sound assms(1) by (simp add: sound_def meets_def)
qed

definition anonymous_request :: http_request where
  \<comment> \<open>the catalogue asked for without a token\<close>
  "anonymous_request = sample_request ''GET'' ''/api/v1/terms'' (\<lambda>k. if k = ''X-Request-Id'' then ''trace-77'' else []) []"

theorem answers_read_back_witness:
  "\<exists>h rsp w'. dispatch sample_server [''api'', ''v1'', ''terms''] anonymous_request = Some h
     \<and> RequestID (Inl (Plain ''EOF'')) anonymous_request h
         (meets calm_conditions (lifetime (\<lambda>_. WriteJSON 404 None) sample_history (at_time 5 empty_tables))) = (Inr rsp, w')
     \<and> rsp_Status rsp = 401 \<and> error_answer ''trace-77'' rsp"
proof -
  let ?w = "meets calm_conditions (lifetime (\<lambda>_. WriteJSON 404 None) sample_history (at_time 5 empty_tables))"
  let ?r = "anonymous_request\<lparr>hr_PathValue := (\<lambda>n. case map_of [] n of Some v \<Rightarrow> v | None \<Rightarrow> [])\<rparr>"
  let ?h = "authenticated handleListTerms sample_server ?r"
  have route: "dispatch sample_server [''api'', ''v1'', ''terms''] anonymous_request = Some ?h"
    by (simp add: dispatch_def anonymous_request_def sample_request_def Routes_def api_v1_def run_route_def)
  have nobody: "bearerToken ?r = Inl (Sentinel ErrUnauthenticated)"
    by (simp add: anonymous_request_def sample_request_def) code_simp
  have given: "hr_Header anonymous_request ''X-Request-Id'' = ''trace-77''" "validRequestID ''trace-77''"
    by (simp_all add: anonymous_request_def sample_request_def validRequestID_def is_digit_def)
  let ?rsp = "(error_response ''trace-77'' (Sentinel ErrUnauthenticated))
    \<lparr>rsp_Headers := (''X-Request-Id'', ''trace-77'') # rsp_Headers (error_response ''trace-77'' (Sentinel ErrUnauthenticated))\<rparr>"
  have run: "RequestID (Inl (Plain ''EOF'')) anonymous_request ?h ?w = (Inr ?rsp, ?w\<lparr>w_request_id := ''trace-77''\<rparr>)"
    using given nobody by (simp add: RequestID_def Let_def with_id_def authenticated_def andThen_def get_request_id_def ret_def)
  have status: "rsp_Status ?rsp = 401"
  proof -
    have "StatusForCode (classify (Sentinel ErrUnauthenticated)) = 401" by code_simp
    then show ?thesis by (simp add: error_response_classify)
  qed
  have start: "tb (at_time 5 empty_tables) = empty_tables" "list_all provisions_empty sample_history"
    by (simp_all add: at_time_def sample_history_def provisions_empty_def adds_empty_def fresh_sections_def)
  have "proper_answer ''trace-77'' ?rsp"
    using answers_read_back [OF start route run] by (simp add: echoed_id_def)
  then have "error_answer ''trace-77'' ?rsp" using status by (simp add: proper_answer_def)
  then show ?thesis using route run status by blast
qed

end
