(* ===== verification/Supervisor.thy ===== *)
theory Supervisor
  imports MiddlewareProperties "HOL-Library.Multiset"
begin

text \<open>
  Serving and stopping (\<open>App.Run\<close> and \<open>isShutdown\<close> of \<open>internal/app/app.go\<close>, \<open>main\<close> of \<open>cmd/server/main.go\<close>): the
  goroutines of the HTTP server, the worker and the scheduler, and the main goroutine that waits for a signal or a
  failure, shuts the server down, waits for everybody and collects the errors. The goroutines report over a
  channel of three places, on which a send blocks while it is full. The worker and the scheduler return what their
  models in \<open>Worker\<close> return. Steps are of two kinds: those the goroutines take by themselves, with the errors
  they report, and those that come from outside (the signal, a failure); they interleave in any order.
\<close>

section \<open>The goroutines\<close>

datatype task =
    Absent
  | Working
  | Sending err
    \<comment> \<open>the component has returned an error, which the goroutine sends\<close>
  | Ended

datatype main_stage =
    Selecting
  | Stopping "err option"
    \<comment> \<open>with the value of \<open>runErr\<close>; the server is told to shut down\<close>
  | Waiting "err option"
  | Finished "err option"

record run_state =
  run_Cancelled :: bool
  run_Http :: task
  run_Worker :: task
  run_Maintenance :: task
  run_Errors :: "err list"
    \<comment> \<open>what is in the channel\<close>
  run_Main :: main_stage

definition errCh_capacity :: nat where
  "errCh_capacity = 3"

definition launched :: "app \<Rightarrow> run_state" where
  \<comment> \<open>after the \<open>go\<close> statements\<close>
  "launched a = (let background = (case app_Worker a of None \<Rightarrow> Absent | Some _ \<Rightarrow> Working) in
     \<lparr>run_Cancelled = False, run_Http = Working, run_Worker = background, run_Maintenance = background,
      run_Errors = [], run_Main = Selecting\<rparr>)"

definition isShutdown :: "err \<Rightarrow> bool" where
  \<comment> \<open>the error of a closed server is not among the errors here: its goroutine filters it\<close>
  "isShutdown e \<longleftrightarrow> is_canceled e \<or> is_deadline e"

definition joined :: "err option \<Rightarrow> err \<Rightarrow> err option" where
  \<comment> \<open>\<open>errors.Join(runErr, err)\<close>\<close>
  "joined r e = Some (Joined (case r of None \<Rightarrow> [e] | Some first \<Rightarrow> [first, e]))"

fun collected :: "err option \<Rightarrow> err list \<Rightarrow> err option" where
  \<comment> \<open>the loop over the closed channel\<close>
  "collected r [] = r"
| "collected r (e # rest) = collected (if \<not> isShutdown e then joined r e else r) rest"

fun component_error :: "string \<Rightarrow> err option \<Rightarrow> task" where
  \<comment> \<open>what is left to do for a goroutine whose component returned\<close>
  "component_error name None = Ended"
| "component_error name (Some e) = (if \<not> isShutdown e then Sending (Wrapped name e) else Ended)"

definition in_context :: "bool \<Rightarrow> world \<Rightarrow> bool" where
  \<comment> \<open>as long as the context is not cancelled, a component has not seen it end\<close>
  "in_context cancelled w \<longleftrightarrow> cancelled \<or> (\<forall>n. w_done w n = None)"

definition worker_returns :: "app \<Rightarrow> bool \<Rightarrow> err option \<Rightarrow> bool" where
  "worker_returns a cancelled outcome \<longleftrightarrow> (\<exists>wk fuel n w w'. app_Worker a = Some wk \<and> in_context cancelled w
     \<and> Run fuel n wk w = (Inr (Some outcome), w'))"

definition maintenance_returns :: "app \<Rightarrow> bool \<Rightarrow> err option \<Rightarrow> bool" where
  "maintenance_returns a cancelled outcome \<longleftrightarrow> (\<exists>interval n w w'. app_Maintenance a = Some interval \<and> in_context cancelled w
     \<and> Maintenance_Run n interval w = (Inr (Some outcome), w'))"

definition over :: "task \<Rightarrow> bool" where
  "over t \<longleftrightarrow> t = Absent \<or> t = Ended"

inductive outside_step :: "app \<Rightarrow> run_state \<Rightarrow> run_state \<Rightarrow> bool" for a where
  \<comment> \<open>nothing makes these happen\<close>
  signal: "\<not> run_Cancelled s \<Longrightarrow> outside_step a s (s\<lparr>run_Cancelled := True\<rparr>)"
| http_fails: "run_Http s = Working \<Longrightarrow> outside_step a s (s\<lparr>run_Http := Sending (Wrapped ''http server'' e)\<rparr>)"
| worker_gives_up: "run_Worker s = Working \<Longrightarrow> \<not> run_Cancelled s \<Longrightarrow> worker_returns a False outcome \<Longrightarrow>
    outside_step a s (s\<lparr>run_Worker := component_error ''worker'' outcome\<rparr>)"
| maintenance_gives_up: "run_Maintenance s = Working \<Longrightarrow> \<not> run_Cancelled s \<Longrightarrow> maintenance_returns a False outcome \<Longrightarrow>
    outside_step a s (s\<lparr>run_Maintenance := component_error ''maintenance'' outcome\<rparr>)"

inductive own_step :: "app \<Rightarrow> run_state \<Rightarrow> err list \<Rightarrow> run_state \<Rightarrow> bool" for a where
  http_closed: "run_Http s = Working \<Longrightarrow> run_Main s \<noteq> Selecting \<Longrightarrow> own_step a s [] (s\<lparr>run_Http := Ended\<rparr>)"
| worker_stops: "run_Worker s = Working \<Longrightarrow> run_Cancelled s \<Longrightarrow> worker_returns a True outcome \<Longrightarrow>
    own_step a s [] (s\<lparr>run_Worker := component_error ''worker'' outcome\<rparr>)"
| maintenance_stops: "run_Maintenance s = Working \<Longrightarrow> run_Cancelled s \<Longrightarrow> maintenance_returns a True outcome \<Longrightarrow>
    own_step a s [] (s\<lparr>run_Maintenance := component_error ''maintenance'' outcome\<rparr>)"
| http_sends: "run_Http s = Sending e \<Longrightarrow> length (run_Errors s) < errCh_capacity \<Longrightarrow>
    own_step a s [e] (s\<lparr>run_Http := Ended, run_Errors := run_Errors s @ [e]\<rparr>)"
| worker_sends: "run_Worker s = Sending e \<Longrightarrow> length (run_Errors s) < errCh_capacity \<Longrightarrow>
    own_step a s [e] (s\<lparr>run_Worker := Ended, run_Errors := run_Errors s @ [e]\<rparr>)"
| maintenance_sends: "run_Maintenance s = Sending e \<Longrightarrow> length (run_Errors s) < errCh_capacity \<Longrightarrow>
    own_step a s [e] (s\<lparr>run_Maintenance := Ended, run_Errors := run_Errors s @ [e]\<rparr>)"
| select_signal: "run_Main s = Selecting \<Longrightarrow> run_Cancelled s \<Longrightarrow> own_step a s [] (s\<lparr>run_Main := Stopping None\<rparr>)"
| select_failure: "run_Main s = Selecting \<Longrightarrow> run_Errors s = e # rest \<Longrightarrow>
    own_step a s [] (s\<lparr>run_Errors := rest, run_Main := Stopping (Some e)\<rparr>)"
| shut_down: "run_Main s = Stopping r \<Longrightarrow> own_step a s [] (s\<lparr>run_Main := Waiting r\<rparr>)"
| out_of_grace: "run_Main s = Stopping r \<Longrightarrow> sent = [Wrapped ''http shutdown'' e] \<Longrightarrow>
    own_step a s sent (s\<lparr>run_Main := Waiting (joined r (Wrapped ''http shutdown'' e))\<rparr>)"
| all_done: "run_Main s = Waiting r \<Longrightarrow> over (run_Http s) \<Longrightarrow> over (run_Worker s) \<Longrightarrow> over (run_Maintenance s) \<Longrightarrow>
    own_step a s [] (s\<lparr>run_Errors := [], run_Main := Finished (collected r (run_Errors s))\<rparr>)"

inductive_cases own_stepE: "own_step a s sent s'"
inductive_cases outside_stepE: "outside_step a s s'"

definition run_step :: "app \<Rightarrow> run_state \<Rightarrow> err list \<Rightarrow> run_state \<Rightarrow> bool" where
  "run_step a s sent s' \<longleftrightarrow> own_step a s sent s' \<or> (sent = [] \<and> outside_step a s s')"

inductive run_path :: "app \<Rightarrow> run_state \<Rightarrow> err list \<Rightarrow> run_state \<Rightarrow> bool" for a where
  here: "run_path a s [] s"
| further: "run_path a s sent s' \<Longrightarrow> run_step a s' late s'' \<Longrightarrow> run_path a s (sent @ late) s''"

definition server_exit :: "err option \<Rightarrow> int \<times> string" where
  \<comment> \<open>the exit status and what is printed on the error stream\<close>
  "server_exit r = (case r of None \<Rightarrow> (0, []) | Some e \<Rightarrow> (1, ''orientation server stopped: '' @ error_text e @ [CHR 0x0A]))"

section \<open>The components stop when their context ends\<close>

definition ended_context :: "world \<Rightarrow> bool" where
  "ended_context w \<longleftrightarrow> (\<forall>n. w_done w n \<noteq> None)"

lemma ended_same: "ended_context w \<Longrightarrow> same_env w w' \<Longrightarrow> ended_context w'"
  by (simp add: ended_context_def same_env_def)

lemma ended_ctx_Err:
  assumes "ended_context w"
  shows "\<exists>e. ctx_Err w = (Inr (Some e), tick w)"
proof -
  obtain c where "w_done w (w_tick w) = Some c" using assms unfolding ended_context_def by blast
  then show ?thesis by (simp add: ctx_Err_def)
qed

lemma RunOnce_stops:
  assumes "ended_context w"
  shows "\<exists>e w1. RunOnce wk w = (Inl e, w1) \<and> ended_context w1"
proof (cases "Kinds wk = []")
  case True
  then show ?thesis using assms by (simp add: RunOnce_def raise_def)
next
  case False
  obtain e where "ctx_Err w = (Inr (Some e), tick w)" using ended_ctx_Err [OF assms] by blast
  then have "RunOnce wk w = (Inl e, tick w)" using False by (simp add: RunOnce_def andThen_def raise_def)
  then show ?thesis using assms by (simp add: ended_context_def)
qed

lemma worker_stops:
  assumes "ended_context w"
  shows "\<exists>outcome w'. Run 1 1 wk w = (Inr (Some outcome), w')"
proof -
  obtain r w1 where rec: "RecoverStaleJobs wk w = (r, w1)" by fastforce
  show ?thesis
  proof (cases r)
    case (Inl e)
    then show ?thesis using rec by (simp add: Run_def andThen_def attempt_def ret_def)
  next
    case (Inr n)
    have "tame (RecoverStaleJobs wk)" unfolding RecoverStaleJobs_def by (intro tame_intro)
    from tame_result [OF this rec] have "ended_context w1" by (rule ended_same [OF assms])
    then obtain e w2 where once: "RunOnce wk w1 = (Inl e, w2)" and "ended_context w2" using RunOnce_stops by blast
    then obtain c where ctx: "ctx_Err w2 = (Inr (Some c), tick w2)" using ended_ctx_Err by blast
    have "drain 1 wk w1 = (Inr (if is_canceled e \<or> is_deadline e then RoundStopped e else RoundFailed e), w2)"
      by (simp add: andThen_def attempt_def once ret_def)
    then have "\<exists>outcome w'. poll 1 1 wk w1 = (Inr (Some outcome), w')"
      by (simp add: andThen_def ctx ret_def del: drain.simps)
    then show ?thesis using rec Inr by (simp add: Run_def andThen_def attempt_def)
  qed
qed

lemma maintenance_stops:
  assumes "ended_context w"
  shows "\<exists>outcome w'. Maintenance_Run 1 interval w = (Inr (Some outcome), w')"
proof -
  let ?m = "EnsureSessionSweep interval (w_clock w (w_tick w))"
  obtain r w1 where run: "?m (tick w) = (r, w1)" by fastforce
  have "tame ?m" unfolding EnsureSessionSweep_def by (intro tame_intro)
  from tame_result [OF this run] have "ended_context w1" using assms by (simp add: ended_context_def same_env_def)
  then obtain c where "ctx_Err w1 = (Inr (Some c), tick w1)" using ended_ctx_Err by blast
  then show ?thesis
    using run by (cases r) (simp_all add: andThen_def clock_now_def attempt_def ret_def)
qed

lemma in_ended_context: "ended_context (at_time 0 empty_tables\<lparr>w_done := \<lambda>_. Some Canceled\<rparr>)"
  by (simp add: ended_context_def)

lemma worker_returns_cancelled: "app_Worker a \<noteq> None \<Longrightarrow> \<exists>outcome. worker_returns a True outcome"
  using worker_stops [OF in_ended_context] unfolding worker_returns_def in_context_def by blast

lemma maintenance_returns_cancelled: "app_Maintenance a \<noteq> None \<Longrightarrow> \<exists>outcome. maintenance_returns a True outcome"
  using maintenance_stops [OF in_ended_context] unfolding maintenance_returns_def in_context_def by blast

section \<open>Nobody is left blocked\<close>

fun task_steps :: "task \<Rightarrow> nat" where
  "task_steps Working = 2"
| "task_steps (Sending e) = 1"
| "task_steps _ = 0"

fun stage_steps :: "main_stage \<Rightarrow> nat" where
  "stage_steps Selecting = 3"
| "stage_steps (Stopping r) = 2"
| "stage_steps (Waiting r) = 1"
| "stage_steps (Finished r) = 0"

definition steps_left :: "run_state \<Rightarrow> nat" where
  "steps_left s = (if run_Cancelled s then 0 else 1) + task_steps (run_Http s) + task_steps (run_Worker s)
     + task_steps (run_Maintenance s) + stage_steps (run_Main s)"

lemma component_steps: "task_steps (component_error name r) < 2"
  by (cases r) simp_all

lemma step_decreases: "run_step a s sent s' \<Longrightarrow> steps_left s' < steps_left s"
  unfolding run_step_def using component_steps
  by (auto simp: steps_left_def elim!: own_step.cases outside_step.cases)

lemma step_cancelled: "run_step a s sent s' \<Longrightarrow> run_Cancelled s \<Longrightarrow> run_Cancelled s'"
  by (auto simp: run_step_def elim!: own_step.cases outside_step.cases)

fun to_send :: "task \<Rightarrow> nat" where
  \<comment> \<open>the errors a goroutine may still send\<close>
  "to_send Working = 1"
| "to_send (Sending e) = 1"
| "to_send _ = 0"

definition room :: "app \<Rightarrow> run_state \<Rightarrow> bool" where
  \<comment> \<open>the channel has a place for every error still to come, and only components of the process run\<close>
  "room a s \<longleftrightarrow> length (run_Errors s) + to_send (run_Http s) + to_send (run_Worker s) + to_send (run_Maintenance s) \<le> errCh_capacity
     \<and> (run_Worker s = Working \<longrightarrow> app_Worker a \<noteq> None) \<and> (run_Maintenance s = Working \<longrightarrow> app_Worker a \<noteq> None)"

lemma component_room [simp]:
  "to_send (component_error name r) = (case r of None \<Rightarrow> 0 | Some e \<Rightarrow> if isShutdown e then 0 else 1)"
  "component_error name r \<noteq> Working"
  by (cases r; simp)+

lemma room_launched: "room a (launched a)"
  by (cases "app_Worker a") (simp_all add: room_def launched_def Let_def errCh_capacity_def)

lemma room_own: "own_step a s sent s' \<Longrightarrow> room a s \<Longrightarrow> room a s'"
  by (cases rule: own_step.cases) (auto simp: room_def split: option.splits if_splits)

lemma room_outside: "outside_step a s s' \<Longrightarrow> room a s \<Longrightarrow> room a s'"
  by (cases rule: outside_step.cases) (auto simp: room_def split: option.splits if_splits)

lemma room_step: "run_step a s sent s' \<Longrightarrow> room a s \<Longrightarrow> room a s'"
  unfolding run_step_def using room_own room_outside by blast

lemma room_path: "run_path a s sent s' \<Longrightarrow> room a s \<Longrightarrow> room a s'"
  by (induction rule: run_path.induct) (auto intro: room_step)

lemma task_goes_on:
  assumes "\<not> over t"
  obtains "t = Working" | e where "t = Sending e"
  using assms by (cases t) (auto simp: over_def)

lemma room_to_send:
  assumes "room a s" "run_Http s = Sending e \<or> run_Worker s = Sending e \<or> run_Maintenance s = Sending e"
  shows "length (run_Errors s) < errCh_capacity"
  using assms by (auto simp: room_def)

lemma cancelled_goes_on:
  assumes "run_Cancelled s" "room a s" "app_Worker a \<noteq> None \<Longrightarrow> app_Maintenance a \<noteq> None"
  shows "(\<exists>r. run_Main s = Finished r) \<or> (\<exists>sent s'. own_step a s sent s')"
proof (cases "run_Main s")
  case Selecting
  then show ?thesis using own_step.select_signal assms(1) by blast
next
  case (Stopping r)
  then show ?thesis using own_step.shut_down by blast
next
  case (Waiting r)
  consider "\<not> over (run_Http s)" | "\<not> over (run_Worker s)" | "\<not> over (run_Maintenance s)"
    | "over (run_Http s)" "over (run_Worker s)" "over (run_Maintenance s)" by blast
  then have "\<exists>sent s'. own_step a s sent s'"
  proof cases
    case 1
    from 1 show ?thesis
    proof (cases rule: task_goes_on)
      case 1
      then show ?thesis using own_step.http_closed Waiting by fastforce
    next
      case (2 e)
      then show ?thesis using own_step.http_sends room_to_send [OF assms(2)] by blast
    qed
  next
    case 2
    from 2 show ?thesis
    proof (cases rule: task_goes_on)
      case 1
      then have "app_Worker a \<noteq> None" using assms(2) by (simp add: room_def)
      then show ?thesis using own_step.worker_stops [OF 1 assms(1)] worker_returns_cancelled by blast
    next
      case (2 e)
      then show ?thesis using own_step.worker_sends room_to_send [OF assms(2)] by blast
    qed
  next
    case 3
    from 3 show ?thesis
    proof (cases rule: task_goes_on)
      case 1
      then have "app_Maintenance a \<noteq> None" using assms(2,3) by (simp add: room_def)
      then show ?thesis using own_step.maintenance_stops [OF 1 assms(1)] maintenance_returns_cancelled by blast
    next
      case (2 e)
      then show ?thesis using own_step.maintenance_sends room_to_send [OF assms(2)] by blast
    qed
  next
    case 4
    then show ?thesis using own_step.all_done [OF Waiting] by blast
  qed
  then show ?thesis by simp
qed simp

definition run_move :: "app \<Rightarrow> run_state \<Rightarrow> run_state \<Rightarrow> bool" where
  "run_move a s s' \<longleftrightarrow> (\<exists>sent. run_step a s sent s')"

lemma moves_decrease:
  "(run_move a ^^ n) s s' \<Longrightarrow> steps_left s' + n \<le> steps_left s \<and> (run_Cancelled s \<longrightarrow> run_Cancelled s') \<and> (room a s \<longrightarrow> room a s')"
proof (induction n arbitrary: s')
  case (Suc n)
  then obtain m where m: "(run_move a ^^ n) s m" "run_move a m s'" by auto
  obtain sent where "run_step a m sent s'" using m(2) by (auto simp: run_move_def)
  then show ?case using Suc.IH [OF m(1)] step_decreases step_cancelled room_step by fastforce
qed simp

text \<open>C19: a cancelled run comes to its end. Take a process that has got anywhere, with any failures on the way, and
  whose context has been cancelled. The worker and the scheduler, run from any database in a world whose
  context has ended, return within one tick. At most nine more communications happen, in any order, and after
  any of them either the run has returned or some goroutine can go on by itself: no send blocks for good on the
  channel, and nobody waits for somebody who waits. (\<open>Build\<close> assembles the scheduler with the worker.)\<close>

theorem run_returns_on_signal:
  assumes "run_path a (launched a) sent s" "run_Cancelled s" "(run_move a ^^ n) s s'"
    and "app_Worker a \<noteq> None \<Longrightarrow> app_Maintenance a \<noteq> None"
  shows "n \<le> 9 \<and> ((\<exists>r. run_Main s' = Finished r) \<or> (\<exists>late s''. own_step a s' late s''))
    \<and> (\<forall>w wk. ended_context w \<longrightarrow> app_Worker a = Some wk \<longrightarrow> (\<exists>outcome w'. Run 1 1 wk w = (Inr (Some outcome), w')))
    \<and> (\<forall>w interval. ended_context w \<longrightarrow> app_Maintenance a = Some interval
        \<longrightarrow> (\<exists>outcome w'. Maintenance_Run 1 interval w = (Inr (Some outcome), w')))"
proof -
  have tasks: "task_steps t \<le> 2" for t by (cases t) simp_all
  have "stage_steps (run_Main s) \<le> 3" by (cases "run_Main s") simp_all
  then have "steps_left s \<le> 9"
    using assms(2) tasks [of "run_Http s"] tasks [of "run_Worker s"] tasks [of "run_Maintenance s"]
    by (simp add: steps_left_def)
  moreover have "steps_left s' + n \<le> steps_left s" "run_Cancelled s'" "room a s'"
    using moves_decrease [OF assms(3)] assms(2) room_path [OF assms(1) room_launched] by simp_all
  ultimately show ?thesis
    using cancelled_goes_on [OF _ _ assms(4)] worker_stops maintenance_stops by auto
qed

section \<open>No failure is lost\<close>

fun parts :: "err \<Rightarrow> err list" where
  "parts (Joined es) = concat (map parts es)"
| "parts e = [e]"

definition reported :: "err option \<Rightarrow> err list" where
  \<comment> \<open>the errors joined into what \<open>Run\<close> returns\<close>
  "reported r = (case r of None \<Rightarrow> [] | Some e \<Rightarrow> parts e)"

definition single :: "err \<Rightarrow> bool" where
  "single e \<longleftrightarrow> parts e = [e]"

lemma reported_simps [simp]: "reported None = []" "reported (joined r e) = reported r @ parts e"
  "single e \<Longrightarrow> reported (Some e) = [e]"
  by (auto simp: reported_def joined_def single_def split: option.split)

lemma reported_collected: "list_all single es \<Longrightarrow> reported (collected r es) = reported r @ filter (\<lambda>e. \<not> isShutdown e) es"
  by (induction r es rule: collected.induct) (auto simp: single_def)

lemma collected_None: "collected r es = None \<Longrightarrow> r = None"
  by (induction r es rule: collected.induct) (auto simp: joined_def split: if_splits)

definition single_task :: "task \<Rightarrow> bool" where
  "single_task t \<longleftrightarrow> (\<forall>e. t = Sending e \<longrightarrow> single e)"

definition accounted :: "err list \<Rightarrow> run_state \<Rightarrow> bool" where
  \<comment> \<open>the errors sent so far are in the channel or in the result; shutdown errors are left out at the end\<close>
  "accounted sent s \<longleftrightarrow> list_all single sent \<and> list_all single (run_Errors s)
     \<and> single_task (run_Http s) \<and> single_task (run_Worker s) \<and> single_task (run_Maintenance s)
     \<and> (case run_Main s of
          Selecting \<Rightarrow> mset sent = mset (run_Errors s)
        | Stopping r \<Rightarrow> mset sent = mset (reported r) + mset (run_Errors s) \<and> (r \<noteq> None \<longrightarrow> reported r \<noteq> [])
        | Waiting r \<Rightarrow> mset sent = mset (reported r) + mset (run_Errors s) \<and> (r \<noteq> None \<longrightarrow> reported r \<noteq> [])
        | Finished r \<Rightarrow> set (reported r) \<subseteq> set sent \<and> (\<forall>e \<in> set sent. \<not> isShutdown e \<longrightarrow> e \<in> set (reported r))
            \<and> (r \<noteq> None \<longrightarrow> reported r \<noteq> [])
            \<and> over (run_Http s) \<and> over (run_Worker s) \<and> over (run_Maintenance s))"

lemma single_tasks: "single_task (component_error name r)" "single_task (Sending (Wrapped name e))" "single_task Working"
  "single_task Ended" "single_task Absent"
  by (cases r) (simp_all add: single_def single_task_def)

lemma accounted_own:
  assumes "own_step a s more_sent s'" "accounted sent s"
  shows "accounted (sent @ more_sent) s'"
  using assms
proof (cases rule: own_step.cases)
  case (all_done r)
  have ms: "mset sent = mset (reported r) + mset (run_Errors s)" "r \<noteq> None \<longrightarrow> reported r \<noteq> []"
    and single: "list_all single sent" "list_all single (run_Errors s)"
    using assms(2) all_done by (simp_all add: accounted_def)
  have "set sent = set (reported r) \<union> set (run_Errors s)" using arg_cong [OF ms(1), of set_mset] by simp
  moreover have "reported (collected r (run_Errors s)) \<noteq> []" if "collected r (run_Errors s) \<noteq> None"
  proof (cases r)
    case None
    have "collected None es \<noteq> None \<Longrightarrow> \<exists>e \<in> set es. \<not> isShutdown e" for es
      by (induction es) (auto split: if_splits)
    then show ?thesis using that None by (auto simp: reported_collected [OF single(2)] filter_empty_conv)
  qed (use ms(2) in \<open>simp add: reported_collected [OF single(2)]\<close>)
  ultimately show ?thesis
    using single all_done assms(2) by (auto simp: accounted_def reported_collected)
next
  case (select_failure e rest)
  then have "mset sent = mset (e # rest)" "list_all single sent" "list_all single (e # rest)"
    using assms(2) by (simp_all add: accounted_def)
  then show ?thesis using select_failure assms(2) by (simp add: accounted_def)
qed (auto simp: accounted_def single_tasks single_task_def [of "Sending _"] over_def single_def [of "Wrapped _ _"] split: main_stage.splits)

lemma accounted_step:
  assumes "run_step a s more_sent s'" "accounted sent s"
  shows "accounted (sent @ more_sent) s'"
proof -
  have "accounted sent s'" if "outside_step a s s'"
    using that assms(2)
    by (cases rule: outside_step.cases) (auto simp: accounted_def single_tasks over_def split: main_stage.splits)
  then show ?thesis using assms accounted_own unfolding run_step_def by fastforce
qed

lemma accounted_path: "run_path a s sent s' \<Longrightarrow> accounted [] s \<Longrightarrow> accounted sent s'"
  by (induction rule: run_path.induct) (auto intro: accounted_step)

text \<open>C20: no failure is lost. When a run has returned, the error it returns reports every failure a component or the
  shutdown sent, except those that only say that the context ended, and nothing else; and the process exits with
  status 0 exactly when nothing is reported.\<close>

theorem no_failure_lost:
  assumes "run_path a (launched a) sent s" "run_Main s = Finished r"
  shows "set (reported r) \<subseteq> set sent \<and> (\<forall>e \<in> set sent. \<not> isShutdown e \<longrightarrow> e \<in> set (reported r))
    \<and> (fst (server_exit r) = 0 \<longleftrightarrow> reported r = [])"
proof -
  have "accounted [] (launched a)"
    by (cases "app_Worker a") (simp_all add: accounted_def launched_def Let_def single_tasks)
  then have "accounted sent s" by (rule accounted_path [OF assms(1)])
  then show ?thesis using assms(2) by (cases r) (auto simp: accounted_def server_exit_def)
qed

section \<open>A failure without a signal\<close>

lemma failed_component_hangs:
  \<comment> \<open>the server fails while the context is alive: the main goroutine waits for the worker, whose context nobody
    cancels, and nobody can go on by himself any more\<close>
  assumes "app_Worker a = Some wk"
  shows "\<exists>s. run_path a (launched a) [Wrapped ''http server'' e] s \<and> run_Main s = Waiting (Some (Wrapped ''http server'' e))
    \<and> \<not> run_Cancelled s \<and> (\<nexists>sent s'. own_step a s sent s')"
proof -
  let ?e = "Wrapped ''http server'' e"
  let ?s1 = "(launched a)\<lparr>run_Http := Sending ?e\<rparr>"
  let ?s2 = "?s1\<lparr>run_Http := Ended, run_Errors := [?e]\<rparr>"
  let ?s3 = "?s2\<lparr>run_Errors := [], run_Main := Stopping (Some ?e)\<rparr>"
  let ?s4 = "?s3\<lparr>run_Main := Waiting (Some ?e)\<rparr>"
  have one: "run_step a (launched a) [] ?s1"
    using outside_step.http_fails [of "launched a" a e] by (simp add: run_step_def launched_def Let_def)
  have two: "run_step a ?s1 [?e] ?s2"
    using own_step.http_sends [of ?s1 ?e a] by (simp add: run_step_def launched_def Let_def errCh_capacity_def)
  have three: "run_step a ?s2 [] ?s3"
    using own_step.select_failure [of ?s2 ?e "[]" a] by (simp add: run_step_def launched_def Let_def)
  have four: "run_step a ?s3 [] ?s4"
    using own_step.shut_down [of ?s3 "Some ?e" a] by (simp add: run_step_def launched_def Let_def)
  have "run_path a (launched a) (((([] @ []) @ [?e]) @ []) @ []) ?s4"
    by (rule run_path.further [OF run_path.further [OF run_path.further [OF run_path.further [OF run_path.here one] two] three] four])
  moreover have "\<not> own_step a ?s4 sent s'" for sent s'
    using assms by (auto simp: launched_def Let_def over_def elim!: own_step.cases)
  ultimately show ?thesis by (intro exI [of _ ?s4]) (simp add: launched_def Let_def)
qed

section \<open>Samples\<close>

definition staffed_app :: app where
  \<comment> \<open>a process with a worker and the scheduler\<close>
  "staffed_app = probed_app\<lparr>app_Worker := Some (app_worker (\<lambda>_. ''syntax'') \<lparr>wcf_WorkerID = ''worker-1'',
     wcf_PollInterval = Second, wcf_Lease = Minute, wcf_BackoffBase = Second, wcf_BackoffMax = Minute\<rparr>),
     app_Maintenance := Some (5 * Minute)\<rparr>"

lemma staffed_launch:
  "launched staffed_app = \<lparr>run_Cancelled = False, run_Http = Working, run_Worker = Working, run_Maintenance = Working,
     run_Errors = [], run_Main = Selecting\<rparr>"
  by (simp add: launched_def staffed_app_def)

theorem run_returns_on_signal_witness:
  "\<exists>s late s''. run_Cancelled s \<and> run_Main s = Waiting None \<and> own_step staffed_app s late s''"
proof -
  let ?s1 = "(launched staffed_app)\<lparr>run_Cancelled := True\<rparr>"
  let ?s2 = "?s1\<lparr>run_Main := Stopping None\<rparr>"
  let ?s3 = "?s2\<lparr>run_Main := Waiting None\<rparr>"
  have one: "run_step staffed_app (launched staffed_app) [] ?s1"
    using outside_step.signal [of "launched staffed_app" staffed_app] by (simp add: run_step_def staffed_launch)
  have two: "run_move staffed_app ?s1 ?s2"
    using own_step.select_signal [of ?s1 staffed_app] by (auto simp: run_move_def run_step_def staffed_launch)
  have three: "run_move staffed_app ?s2 ?s3"
    using own_step.shut_down [of ?s2 None staffed_app] by (auto simp: run_move_def run_step_def staffed_launch)
  have path: "run_path staffed_app (launched staffed_app) ([] @ []) ?s1"
    by (rule run_path.further [OF run_path.here one])
  have moves: "(run_move staffed_app ^^ 2) ?s1 ?s3" using two three by (auto simp: numeral_2_eq_2)
  have pair: "app_Worker staffed_app \<noteq> None \<Longrightarrow> app_Maintenance staffed_app \<noteq> None" by (simp add: staffed_app_def)
  have "\<exists>late s''. own_step staffed_app ?s3 late s''"
    using run_returns_on_signal [OF path _ moves pair] by (simp add: staffed_launch)
  then show ?thesis by (intro exI [of _ ?s3]) (simp add: staffed_launch)
qed

theorem no_failure_lost_witness:
  "\<exists>s. run_path probed_app (launched probed_app) [Wrapped ''http server'' (Plain ''address in use'')] s
    \<and> run_Main s = Finished (Some (Wrapped ''http server'' (Plain ''address in use'')))
    \<and> fst (server_exit (Some (Wrapped ''http server'' (Plain ''address in use'')))) \<noteq> 0"
proof -
  let ?a = probed_app
  let ?e = "Wrapped ''http server'' (Plain ''address in use'')"
  let ?s0 = "\<lparr>run_Cancelled = False, run_Http = Working, run_Worker = Absent, run_Maintenance = Absent, run_Errors = [],
     run_Main = Selecting\<rparr>"
  let ?s1 = "?s0\<lparr>run_Http := Sending ?e\<rparr>"
  let ?s2 = "?s1\<lparr>run_Http := Ended, run_Errors := [?e]\<rparr>"
  let ?s3 = "?s2\<lparr>run_Errors := [], run_Main := Stopping (Some ?e)\<rparr>"
  let ?s4 = "?s3\<lparr>run_Main := Waiting (Some ?e)\<rparr>"
  let ?s5 = "?s4\<lparr>run_Errors := [], run_Main := Finished (Some ?e)\<rparr>"
  have start: "launched probed_app = ?s0" by (simp add: launched_def probed_app_def)
  have one: "run_step ?a ?s0 [] ?s1" using outside_step.http_fails [of ?s0 ?a "Plain ''address in use''"] by (simp add: run_step_def)
  have two: "run_step ?a ?s1 [?e] ?s2" using own_step.http_sends [of ?s1 ?e ?a] by (simp add: run_step_def errCh_capacity_def)
  have three: "run_step ?a ?s2 [] ?s3" using own_step.select_failure [of ?s2 ?e "[]" ?a] by (simp add: run_step_def)
  have four: "run_step ?a ?s3 [] ?s4" using own_step.shut_down [of ?s3 "Some ?e" ?a] by (simp add: run_step_def)
  have five: "run_step ?a ?s4 [] ?s5" using own_step.all_done [of ?s4 "Some ?e" ?a] by (simp add: run_step_def over_def)
  have "run_path ?a ?s0 ((((([] @ []) @ [?e]) @ []) @ []) @ []) ?s5"
    by (rule run_path.further [OF run_path.further [OF run_path.further [OF run_path.further [OF run_path.further
      [OF run_path.here one] two] three] four] five])
  then have path: "run_path ?a (launched probed_app) [?e] ?s5" unfolding start by simp
  from no_failure_lost [OF path, of "Some ?e"] have "fst (server_exit (Some ?e)) \<noteq> 0" by (simp add: reported_def)
  with path show ?thesis by (intro exI [of _ ?s5]) simp
qed

end
