(* ===== verification/Spec2Isabelle.thy ===== *)
theory Spec2Isabelle
  imports SeatProperties SectionQueue ClaimRows AuthProperties ReplayProperties Handover PaperworkProperties HttpProperties
    StartupProperties Rows Answers Supervisor
begin

text \<open>
  Orientation Enrollment Platform: a model of the Go program under \<open>src/\<close> and the theorems that make it
  correct.

  The program. Students hand in orientation paperwork, a registrar verifies it, and verified students claim seats
  in course sections. A claim is checked against the rules of the domain and takes a seat or a place on the
  waitlist; a drop frees the seat and queues a job, and the background worker promotes the head of the waitlist.
  Everything lives in one SQLite database. The layers are: the domain (pure rules), the repositories (SQL), the
  services (transactions over the repositories), the HTTP interface, the worker, and the start-up that migrates
  and seeds the database and puts the parts together.

  How the model runs. An operation is a function from a \<open>world\<close> to a result and a world (\<open>Store\<close>).
  The world holds the tables, the clock, which driver calls fail and when the context ends, each as a function of
  a tick that every driver call, clock reading and look at the context advances. So a theorem over all worlds
  covers every failing driver call, every clock and every end of the context. Errors are values of the type
  \<open>err\<close> (\<open>Errors\<close>), a tree like Go's error chains. A transaction that fails puts the tables back.
  The store opens every transaction with an immediate lock, so requests interleave between transactions:
  the invariants speak of any sequence of committed transactions. A calm run, written \<open>yields\<close>, is one in
  which no driver call fails and the clock stands still; outcomes that need that are stated with it. A driver call
  that fails has no effect; where the code reads the answer of a statement by another call (the affected rows, a new
  key, the row of a leased job), that call can fail after the effect.

  The theories, by the part of the program they model.

  Domain (\<open>internal/domain\<close>): \<open>Errors\<close> (errors.go, and the envelope and codes of
  httpx/respond.go), \<open>Identity\<close>, \<open>Catalog\<close>, \<open>Registration\<close>,
  \<open>Enrollment\<close>, \<open>Query\<close>, \<open>Job\<close>, \<open>AuditTrail\<close> (the file of the
  same name each; audit.go for the last). Shared state machines are the locale of \<open>Lifecycle\<close>.

  Standard library the code relies on: \<open>Prelude\<close> (strings, decimal text), \<open>Encodings\<close> (strconv,
  hex, base64, base32), \<open>Sha256\<close> (SHA-256 and HMAC), \<open>Json\<close> (encoding/json; \<open>JsonText\<close>: what is written is read back), \<open>TimeText\<close> and
  \<open>TimeParse\<close> (RFC 3339).

  Repositories (\<open>internal/storage/sqlite\<close>): \<open>Table\<close> (a table with its key), \<open>Store\<close> and
  \<open>Transactions\<close> (db.go), \<open>CatalogStore\<close>, \<open>EnrollmentStore\<close>,
  \<open>RegistrationStore\<close>, \<open>AccountStore\<close> (users.go, sessions.go), \<open>AuditStore\<close> (with
  audit/recorder.go), \<open>JobStore\<close>, \<open>Idempotency\<close> (with service/idempotency.go), \<open>Seed\<close>
  (seed.go), \<open>Migrations\<close> (migrate.go and internal/migrations). A statement is a function on the tables with
  its \<open>WHERE\<close> clause, its constraints and its order written out. The tables hold domain records; \<open>Rows\<close>
  models the stored columns and the scan functions, and shows that a row is read back as it was written.

  Services (\<open>internal/service\<close>): \<open>EnrollmentService\<close>, \<open>PaperworkService\<close> (registration.go),
  \<open>CatalogService\<close>, \<open>AuthService\<close>; \<open>Security\<close> holds credentials.go and ids.go.

  Interfaces: \<open>Http\<close> (params.go, responses), \<open>Presenters\<close> (\<open>Bodies\<close>: its views are writable), \<open>HttpApi\<close> (handlers, routes, the
  request identifier of the middleware), \<open>Middleware\<close> (the chain of layers on a model of the response writer of
  net/http), \<open>Worker\<close> (internal/worker), \<open>Config\<close> (internal/config and the database name of db.go),
  \<open>Runtime\<close> (platform/clock, platform/logging, the checks for missing dependencies), \<open>Startup\<close>
  (internal/app and cmd/server up to serving), \<open>Supervisor\<close> (\<open>App.Run\<close>: its goroutines as interleaved steps).

  What the lemma groups show.

  Seats. \<open>SeatSteps\<close> says what each enrollment transaction does to the tables, in one relation each;
  \<open>SeatRuns\<close> makes every service call a run of such steps, so an invariant is proved once per step:
  \<open>Ledger\<close> (counters agree with the stored claims, nothing is oversold), \<open>Waitlist\<close> (ranks, and an
  abstract section with a first-in first-out queue that reacts to the event of each step), \<open>Plans\<close> (credit limits and schedules), \<open>LiveClaims\<close> (one live
  claim per student and section) and \<open>ClaimRows\<close> (the shape of a claim). \<open>ClaimOutcomes\<close>,
  \<open>CalmRuns\<close> and \<open>CalmPromotion\<close> say what single calls achieve; \<open>SeatProperties\<close> states the
  results, \<open>SectionQueue\<close> the refinement over what the calls answer. The locale \<open>step_invariant\<close> is the interface between the invariants and the runs.

  Relations along operations. The locale \<open>evolution\<close> carries a reflexive and transitive relation on the tables
  through the combinators and transactions; accounts, paperwork, jobs (\<open>WorkerRuns\<close>), sessions, the seed and the
  start-up interpret it, each looking at its own statements only. The interfaces of the repositories are locales that
  extend it: \<open>trail_calls\<close> (\<open>AuditStore\<close>), \<open>session_calls\<close> (\<open>AuthService\<close>), \<open>seat_calls\<close> and
  \<open>queue_calls\<close> (\<open>Frames\<close>), \<open>paper_calls\<close> and \<open>replay_calls\<close> (\<open>UseCases\<close>). Each assumes the relation of
  the calls of one repository and carries it through the use cases built on them; \<open>use_cases\<close> carries it on through
  every handler, the router, the worker and the scheduler. \<open>Platform\<close> interprets \<open>use_cases\<close> on five relations
  (runs of seat steps, sessions, paperwork, references of claims, stored snapshots), and \<open>Lifetime\<close> puts them together: every
  invariant holds over any history of starts, requests, worker rounds and provisioning. \<open>Answers\<close> adds what a client gets
  on the way: every answer can be read back, replayed ones and errors included.

  Other results: \<open>AuthProperties\<close> (what a login needs, who a token speaks for, until when it works, logout is final), \<open>ReplayProperties\<close>
  (idempotency keys, and what they do not promise), \<open>WorkerProperties\<close> and \<open>Handover\<close> (jobs are not lost,
  the polling loop ends, a freed seat reaches the waitlist), \<open>PaperworkProperties\<close> (only a registrar verifies),
  \<open>HttpProperties\<close> (sessions and roles at the endpoints), \<open>MiddlewareProperties\<close> (every request is answered and
  accounted for, even if its handler panics, and the layers send what the router answers), \<open>Supervisor\<close> (a signalled
  run ends, no failure is lost, and a component that fails without a signal hangs the process), \<open>ConfigProperties\<close>, \<open>MigrationProperties\<close>,
  \<open>Provisioning\<close> and \<open>StartupProperties\<close> (a seed runs once, and the way from an empty database to a ready and sound process).
  \<open>Samples\<close> holds the small campus of the concrete instances.

  Fuel. The replay loop of a claim recurses on the number of attempts left, as the code does. \<open>drain\<close>, the inner
  loop of the worker, takes fuel; \<open>drain_terminates\<close> shows that more fuel than the queued jobs have attempts left suffices.
  \<open>poll\<close> and \<open>Maintenance_Run\<close> take the number of ticks to look at, since the program runs until it is
  stopped. The JSON reader takes twice the length of the text plus one; \<open>parse_fuel\<close> shows that more changes nothing.

  Arguments of the model stand for what is outside the source: the random bytes of tokens, salts and identifiers; the
  texts of JSON syntax errors; the parser of dates outside RFC 3339; SQLite's answer to a migration script and the order in
  which Go walks a map; the embedded files, the environment, and the answers of the operating system and of
  \<open>sql.Open\<close> (the record \<open>machine\<close>).

  Bounds. Identifiers and counters are unbounded integers, as SQLite's 64-bit keys are not exhausted; where the code
  can leave 64 bits (page offsets, back-off, parsed numbers and durations) the wrap-around or the range check is
  written out. Text is a list of bytes; case folding is that of ASCII.

  Concurrency. In a history of \<open>Lifetime\<close> the activities follow one another, each under its own clock, deadline
  and failures; an activity that dies half way is one whose driver calls fail from there on. Activities that overlap
  interleave between transactions: for the seats that is what the runs of \<open>SeatRuns\<close> allow, and for a repeated
  request it is \<open>overlapping_requests_run_twice\<close>. The goroutines of \<open>Supervisor\<close> interleave at each
  communication, over a channel of three places; when the server fails or a component gives up is left open there, and
  what the components return is what their models return.

  Not modelled, and why. What slog writes (it drops records below the level of APP_LOG_LEVEL), and log lines other than the access and panic
  records, have no effect on the program. Closing the pool on a failed start, the choice of the time zone (only shown in the log), the listening
  socket and the parsing of HTTP are the standard library's and the operating system's; \<open>net/http\<close> hands over the
  decoded query, headers and path values, and its own answer to a path without a route is an argument. The repository
  interfaces are declarations; the locales above state what is relied on. Documents, build files and tests are not
  part of the program's logic. Dynamic effects of the migration scripts are the table constraints that the inserts
  and updates check.
\<close>

end
